(* ===== verification/Sw_Prelude.thy ===== *)
theory Sw_Prelude
  imports Main "HOL-Library.Word" "HOL-Library.Sublist"
begin

text \<open>
  The prelude: the pieces of Rust's standard library that the repository uses on strings,
  numbers and durations, and the generic lemmas the components share.

  A Rust string is a HOL \<open>string\<close>, one \<open>char\<close> per byte. Lengths are byte lengths, as
  \<open>str::len\<close> counts them. Where the source trims white space, changes case or walks over
  \<open>chars()\<close>, the model works on ASCII text, on which bytes and characters agree.
  A \<open>std::time::Duration\<close> is a number of nanoseconds, bounded by \<open>duration_max\<close>.
\<close>

unbundle bit_operations_syntax

named_theorems std_simps \<open>unfolding rules of the modelled standard library\<close>
named_theorems db_simps \<open>what a database operation does to the tables\<close>
named_theorems frame_simps \<open>what a database operation leaves alone\<close>

type_synonym u8 = "8 word"
type_synonym bytes = "u8 list"

section \<open>Strings\<close>

fun strip_prefix :: "'a list \<Rightarrow> 'a list \<Rightarrow> 'a list option" where
  "strip_prefix [] s = Some s"
| "strip_prefix (p # ps) [] = None"
| "strip_prefix (p # ps) (c # cs) = (if p = c then strip_prefix ps cs else None)"

definition strip_suffix :: "'a list \<Rightarrow> 'a list \<Rightarrow> 'a list option" where
  "strip_suffix p s = map_option rev (strip_prefix (rev p) (rev s))"

definition starts_with :: "'a list \<Rightarrow> 'a list \<Rightarrow> bool" where
  "starts_with p s \<longleftrightarrow> strip_prefix p s \<noteq> None"

definition ends_with :: "'a list \<Rightarrow> 'a list \<Rightarrow> bool" where
  "ends_with p s \<longleftrightarrow> strip_prefix (rev p) (rev s) \<noteq> None"

fun str_contains :: "'a list \<Rightarrow> 'a list \<Rightarrow> bool" where
  "str_contains pat [] = (pat = [])"
| "str_contains pat (c # cs) = (starts_with pat (c # cs) \<or> str_contains pat cs)"

lemma strip_prefix_Some_iff: "strip_prefix p s = Some r \<longleftrightarrow> s = p @ r"
  by (induction p s rule: strip_prefix.induct) auto

lemma strip_prefix_append [simp]: "strip_prefix p (p @ r) = Some r"
  by (simp add: strip_prefix_Some_iff)

lemma strip_prefix_None_iff: "strip_prefix p s = None \<longleftrightarrow> \<not> prefix p s"
  by (metis not_Some_eq prefix_def strip_prefix_Some_iff)

lemma strip_prefix_shorter:
  "strip_prefix p s = Some r \<Longrightarrow> p \<noteq> [] \<Longrightarrow> length r < length s"
  by (auto simp: strip_prefix_Some_iff)

lemma strip_suffix_Some_iff: "strip_suffix p s = Some r \<longleftrightarrow> s = r @ p"
  by (auto simp: strip_suffix_def strip_prefix_Some_iff)
     (metis rev_append rev_rev_ident)

lemma starts_with_iff: "starts_with p s \<longleftrightarrow> prefix p s"
  by (simp add: starts_with_def strip_prefix_None_iff)

lemma ends_with_iff: "ends_with p s \<longleftrightarrow> suffix p s"
  by (simp add: ends_with_def strip_prefix_None_iff suffix_to_prefix)

lemma str_contains_iff: "str_contains pat s \<longleftrightarrow> sublist pat s"
  by (induction s) (auto simp: starts_with_iff sublist_Cons_right)

text \<open>\<open>str::replace\<close>: leftmost, non-overlapping matches; an empty pattern matches between
  all characters.\<close>

function str_replace :: "'a list \<Rightarrow> 'a list \<Rightarrow> 'a list \<Rightarrow> 'a list" where
  "str_replace pat rep [] = (if pat = [] then rep else [])"
| "str_replace pat rep (c # cs) =
     (if pat = [] then rep @ c # str_replace pat rep cs
      else case strip_prefix pat (c # cs) of
             Some rest \<Rightarrow> rep @ str_replace pat rep rest
           | None \<Rightarrow> c # str_replace pat rep cs)"
  by pat_completeness auto
termination
  by (relation "measure (\<lambda>(pat, rep, s). length s)") (auto dest: strip_prefix_shorter)

text \<open>\<open>str::split\<close> on a character, \<open>str::splitn\<close>, \<open>split_once\<close> and the \<open>join\<close> of a list of
  strings.\<close>

fun split_on :: "'a \<Rightarrow> 'a list \<Rightarrow> 'a list list" where
  "split_on d [] = [[]]"
| "split_on d (c # cs) =
     (if c = d then [] # split_on d cs
      else case split_on d cs of [] \<Rightarrow> [[c]] | s # ss \<Rightarrow> (c # s) # ss)"

fun split_once :: "'a \<Rightarrow> 'a list \<Rightarrow> ('a list \<times> 'a list) option" where
  "split_once d [] = None"
| "split_once d (c # cs) =
     (if c = d then Some ([], cs)
      else map_option (\<lambda>(a, b). (c # a, b)) (split_once d cs))"

fun splitn :: "nat \<Rightarrow> 'a \<Rightarrow> 'a list \<Rightarrow> 'a list list" where
  "splitn 0 d s = []"
| "splitn (Suc 0) d s = [s]"
| "splitn (Suc (Suc n)) d s =
     (case split_once d s of None \<Rightarrow> [s] | Some (a, b) \<Rightarrow> a # splitn (Suc n) d b)"

fun join :: "'a list \<Rightarrow> 'a list list \<Rightarrow> 'a list" where
  "join sep [] = []"
| "join sep [s] = s"
| "join sep (s # t # ss) = s @ sep @ join sep (t # ss)"

lemma split_on_not_Nil [simp]: "split_on d s \<noteq> []"
  by (induction s) (auto split: list.splits)

lemma split_on_no_sep: "d \<notin> set s \<Longrightarrow> split_on d s = [s]"
  by (induction s) auto

lemma split_on_append:
  "d \<notin> set a \<Longrightarrow> split_on d (a @ d # b) = a # split_on d b"
  by (induction a) auto

lemma split_on_append_gen: "split_on d (a @ d # b) = split_on d a @ split_on d b"
  by (induction a) (auto split: list.splits)

lemma split_on_parts: "p \<in> set (split_on d s) \<Longrightarrow> d \<notin> set p"
  by (induction s arbitrary: p) (auto split: list.splits if_splits)

lemma join_split_on: "join [d] (split_on d s) = s"
proof (induction s)
  case (Cons c cs)
  obtain t ts where t: "split_on d cs = t # ts"
    by (cases "split_on d cs") auto
  with Cons show ?case by (cases ts) auto
qed simp

lemma split_once_Some_iff:
  "split_once d s = Some (a, b) \<longleftrightarrow> s = a @ d # b \<and> d \<notin> set a"
proof (induction s arbitrary: a)
  case (Cons c cs)
  show ?case
  proof (cases a)
    case Nil
    then show ?thesis by auto
  next
    case (Cons x xs)
    then show ?thesis by (auto simp: Cons.IH)
  qed
qed simp

lemma split_once_None_iff: "split_once d s = None \<longleftrightarrow> d \<notin> set s"
  by (induction s) auto

text \<open>White space, \<open>trim\<close>, \<open>lines\<close> (a trailing line break does not open a new line, and a
  carriage return before it is dropped) and ASCII case folding.\<close>

definition is_space :: "char \<Rightarrow> bool" where
  "is_space c \<longleftrightarrow> c = CHR '' '' \<or> (9 \<le> (of_char c :: nat) \<and> (of_char c :: nat) \<le> 13)"

definition trim :: "string \<Rightarrow> string" where
  "trim s = rev (dropWhile is_space (rev (dropWhile is_space s)))"

definition drop_cr :: "string \<Rightarrow> string" where
  "drop_cr s = (if s \<noteq> [] \<and> last s = CHR 0x0D then butlast s else s)"

definition lines :: "string \<Rightarrow> string list" where
  "lines s = (let ls = split_on (CHR 0x0A) s
              in map drop_cr (if last ls = [] then butlast ls else ls))"

definition ascii_lower :: "char \<Rightarrow> char" where
  "ascii_lower c = (let n = of_char c :: nat
                    in if 65 \<le> n \<and> n \<le> 90 then char_of (n + 32) else c)"

definition ascii_upper :: "char \<Rightarrow> char" where
  "ascii_upper c = (let n = of_char c :: nat
                    in if 97 \<le> n \<and> n \<le> 122 then char_of (n - 32) else c)"

definition eq_ignore_ascii_case :: "string \<Rightarrow> string \<Rightarrow> bool" where
  "eq_ignore_ascii_case a b \<longleftrightarrow> map ascii_lower a = map ascii_lower b"

definition is_digit :: "char \<Rightarrow> bool" where
  "is_digit c \<longleftrightarrow> 48 \<le> (of_char c :: nat) \<and> (of_char c :: nat) \<le> 57"

section \<open>Decimal numbers\<close>

definition digit_char :: "nat \<Rightarrow> char" where
  "digit_char d = char_of (48 + d)"

fun show_nat :: "nat \<Rightarrow> string" where
  "show_nat n = (if n < 10 then [digit_char n] else show_nat (n div 10) @ [digit_char (n mod 10)])"

declare show_nat.simps [simp del]

definition show_int :: "int \<Rightarrow> string" where
  "show_int i = (if i < 0 then CHR ''-'' # show_nat (nat (- i)) else show_nat (nat i))"

definition digits_value :: "string \<Rightarrow> nat" where
  "digits_value = foldl (\<lambda>acc c. 10 * acc + (of_char c - 48)) 0"

text \<open>\<open>str::parse\<close> to an unsigned type with the given maximum: an optional plus sign, at
  least one digit, no overflow.\<close>

definition parse_unsigned :: "nat \<Rightarrow> string \<Rightarrow> nat option" where
  "parse_unsigned mx s =
     (let ds = (case s of c # cs \<Rightarrow> if c = CHR ''+'' then cs else s | [] \<Rightarrow> [])
      in if ds \<noteq> [] \<and> list_all is_digit ds \<and> digits_value ds \<le> mx
         then Some (digits_value ds) else None)"

definition u32_max :: nat where "u32_max = 2 ^ 32 - 1"
definition u64_max :: nat where "u64_max = 2 ^ 64 - 1"
definition i64_max :: nat where "i64_max = 2 ^ 63 - 1"

lemma of_char_digit: "d < 10 \<Longrightarrow> of_char (digit_char d) = 48 + d"
  by (simp add: digit_char_def)

lemma is_digit_digit_char [simp]: "d < 10 \<Longrightarrow> is_digit (digit_char d)"
  by (simp add: is_digit_def of_char_digit)

lemma show_nat_digits: "list_all is_digit (show_nat n)"
proof (induction n rule: show_nat.induct)
  case (1 n)
  then show ?case by (subst show_nat.simps) simp
qed

lemma show_nat_not_Nil [simp]: "show_nat n \<noteq> []"
  by (subst show_nat.simps) simp

lemma digits_value_snoc: "digits_value (s @ [c]) = 10 * digits_value s + (of_char c - 48)"
  by (simp add: digits_value_def)

lemma digits_value_show_nat [simp]: "digits_value (show_nat n) = n"
proof (induction n rule: show_nat.induct)
  case (1 n)
  show ?case
  proof (cases "n < 10")
    case True
    then show ?thesis by (subst show_nat.simps) (simp add: digits_value_def of_char_digit)
  next
    case False
    with 1 show ?thesis
      by (subst show_nat.simps) (simp add: digits_value_snoc of_char_digit)
  qed
qed

lemma show_nat_inj: "show_nat m = show_nat n \<Longrightarrow> m = n"
  by (metis digits_value_show_nat)

lemma digit_not_plus: "is_digit c \<Longrightarrow> c \<noteq> CHR ''+''"
  by (auto simp: is_digit_def)

lemma parse_show_nat: "n \<le> mx \<Longrightarrow> parse_unsigned mx (show_nat n) = Some n"
proof -
  assume n: "n \<le> mx"
  obtain c cs where s: "show_nat n = c # cs"
    by (cases "show_nat n") auto
  with show_nat_digits [of n] have "c \<noteq> CHR ''+''"
    by (auto dest: digit_not_plus)
  with n s show ?thesis
    using show_nat_digits [of n] digits_value_show_nat [of n]
    by (simp add: parse_unsigned_def)
qed

section \<open>Durations\<close>

type_synonym duration = nat

definition nanos_per_sec :: nat where "nanos_per_sec = 1000000000"

definition duration_max :: duration where
  "duration_max = (2 ^ 64 - 1) * nanos_per_sec + 999999999"

definition from_secs :: "nat \<Rightarrow> duration" where "from_secs s = s * nanos_per_sec"
definition from_millis :: "nat \<Rightarrow> duration" where "from_millis m = m * 1000000"
definition as_secs :: "duration \<Rightarrow> nat" where "as_secs d = d div nanos_per_sec"
definition subsec_millis :: "duration \<Rightarrow> nat" where
  "subsec_millis d = (d mod nanos_per_sec) div 1000000"

text \<open>\<open>Duration::saturating_mul\<close>: the largest duration on overflow.\<close>

definition saturating_mul :: "duration \<Rightarrow> nat \<Rightarrow> duration" where
  "saturating_mul d k = min (d * k) duration_max"

section \<open>List functions of the standard library\<close>

text \<open>\<open>Iterator::position\<close>, \<open>Iterator::find\<close> is \<open>List.find\<close>, \<open>enumerate\<close> starts at 0.\<close>

fun position :: "('a \<Rightarrow> bool) \<Rightarrow> 'a list \<Rightarrow> nat option" where
  "position P [] = None"
| "position P (x # xs) = (if P x then Some 0 else map_option Suc (position P xs))"

lemma position_Some: "position P xs = Some i \<Longrightarrow> i < length xs \<and> P (xs ! i)"
  by (induction xs arbitrary: i) (auto split: if_splits)

lemma position_None_iff: "position P xs = None \<longleftrightarrow> (\<forall>x \<in> set xs. \<not> P x)"
  by (induction xs) auto

definition enumerate0 :: "'a list \<Rightarrow> (nat \<times> 'a) list" where
  "enumerate0 xs = zip [0..<length xs] xs"

section \<open>Replacing text\<close>

lemma str_replace_absent: "pat \<noteq> [] \<Longrightarrow> \<not> sublist pat s \<Longrightarrow> str_replace pat rep s = s"
proof (induction s)
  case (Cons c cs)
  then have "strip_prefix pat (c # cs) = None"
    by (simp add: strip_prefix_None_iff sublist_Cons_right)
  with Cons show ?case by (auto simp: sublist_Cons_right)
qed simp

end
