(* ===== verification/Payload.thy ===== *)
theory Payload
  imports Sw_Prelude
begin

text \<open>
  JSON values and \<open>src/payload.rs\<close>: field paths, payload schemas and their validation.

  \<open>json\<close> has the constructors of the data type \<open>serde_json::Value\<close> that the source matches
  on. A number is kept as the text serde prints for it; an object is the list of its entries
  in iteration order, and \<open>json_get\<close> is the documented \<open>Value::get\<close> with a string index:
  the entry of an object, nothing for every other value.
\<close>

datatype json =
    JNull
  | JBool bool
  | JNumber string
  | JString string
  | JArray "json list"
  | JObject "(string \<times> json) list"

fun json_get :: "json \<Rightarrow> string \<Rightarrow> json option" where
  "json_get (JObject kvs) k = map_of kvs k"
| "json_get _ k = None"

datatype field_type = FtString | FtNumber | FtBoolean | FtObject | FtArray

fun matches_value :: "field_type \<Rightarrow> json \<Rightarrow> bool" where
  "matches_value FtString (JString _) = True"
| "matches_value FtNumber (JNumber _) = True"
| "matches_value FtBoolean (JBool _) = True"
| "matches_value FtObject (JObject _) = True"
| "matches_value FtArray (JArray _) = True"
| "matches_value _ _ = False"

fun field_type_display :: "field_type \<Rightarrow> string" where
  "field_type_display FtString = ''string''"
| "field_type_display FtNumber = ''number''"
| "field_type_display FtBoolean = ''boolean''"
| "field_type_display FtObject = ''object''"
| "field_type_display FtArray = ''array''"

record payload_field =
  pf_name :: string
  pf_field_type :: field_type
  pf_required :: bool

record payload_schema =
  ps_fields :: "payload_field list"

record field_validation_error =
  fe_field :: string
  fe_message :: string

text \<open>\<open>resolve_field\<close>: follow the dot-separated segments, stop at the first missing one.\<close>

fun resolve_segments :: "json \<Rightarrow> string list \<Rightarrow> json option" where
  "resolve_segments current [] = Some current"
| "resolve_segments current (segment # rest) =
     (case json_get current segment of
        None \<Rightarrow> None
      | Some v \<Rightarrow> resolve_segments v rest)"

definition resolve_field :: "json \<Rightarrow> string \<Rightarrow> json option" where
  "resolve_field root path = resolve_segments root (split_on (CHR ''.'') path)"

fun json_type_name :: "json \<Rightarrow> string" where
  "json_type_name JNull = ''null''"
| "json_type_name (JBool _) = ''boolean''"
| "json_type_name (JNumber _) = ''number''"
| "json_type_name (JString _) = ''string''"
| "json_type_name (JArray _) = ''array''"
| "json_type_name (JObject _) = ''object''"

definition quoted :: "string \<Rightarrow> string" where
  "quoted s = [CHR 0x27] @ s @ [CHR 0x27]"

text \<open>One round of the loop of \<open>PayloadSchema::validate\<close>, then the loop and its result.\<close>

definition validate_field :: "json \<Rightarrow> payload_field \<Rightarrow> field_validation_error list" where
  "validate_field payload f =
     (case resolve_field payload (pf_name f) of
        None \<Rightarrow>
          (if pf_required f
           then [\<lparr>fe_field = pf_name f,
                  fe_message = ''required field '' @ quoted (pf_name f) @ '' is missing''\<rparr>]
           else [])
      | Some JNull \<Rightarrow>
          (if pf_required f
           then [\<lparr>fe_field = pf_name f,
                  fe_message = ''required field '' @ quoted (pf_name f) @ '' is missing''\<rparr>]
           else [])
      | Some value \<Rightarrow>
          (if matches_value (pf_field_type f) value then []
           else [\<lparr>fe_field = pf_name f,
                  fe_message = ''field '' @ quoted (pf_name f) @ '' expected type ''
                    @ field_type_display (pf_field_type f) @ '', got ''
                    @ json_type_name value\<rparr>]))"

fun validate_loop :: "json \<Rightarrow> payload_field list \<Rightarrow> field_validation_error list
    \<Rightarrow> field_validation_error list" where
  "validate_loop payload [] errors = errors"
| "validate_loop payload (f # fs) errors =
     validate_loop payload fs (errors @ validate_field payload f)"

definition validate :: "payload_schema \<Rightarrow> json \<Rightarrow> field_validation_error list + unit" where
  "validate schema payload =
     (let errors = validate_loop payload (ps_fields schema) []
      in if errors = [] then Inr () else Inl errors)"

section \<open>What validation promises\<close>

lemma resolve_segments_append:
  "resolve_segments v (xs @ ys) = Option.bind (resolve_segments v xs) (\<lambda>w. resolve_segments w ys)"
  by (induction xs arbitrary: v) (auto split: option.splits)

lemma resolve_field_dot:
  "resolve_field v (p @ CHR ''.'' # q) = Option.bind (resolve_field v p) (\<lambda>w. resolve_field w q)"
  by (simp add: resolve_field_def split_on_append_gen resolve_segments_append)

text \<open>The specification: a field is acceptable when it is absent or null and not required,
  or present with the declared type.\<close>

definition field_ok :: "json \<Rightarrow> payload_field \<Rightarrow> bool" where
  "field_ok payload f =
     (case resolve_field payload (pf_name f) of
        None \<Rightarrow> \<not> pf_required f
      | Some v \<Rightarrow> (if v = JNull then \<not> pf_required f else matches_value (pf_field_type f) v))"

lemma validate_field_ok_iff: "validate_field payload f = [] \<longleftrightarrow> field_ok payload f"
  by (auto simp: validate_field_def field_ok_def split: option.splits json.splits)

lemma validate_field_names:
  "map fe_field (validate_field payload f) = (if field_ok payload f then [] else [pf_name f])"
  by (auto simp: validate_field_def field_ok_def split: option.splits json.splits)

lemma validate_loop_concat:
  "validate_loop payload fs errors = errors @ concat (map (validate_field payload) fs)"
  by (induction fs arbitrary: errors) auto

lemma validate_errors:
  "validate schema payload =
     (let errors = concat (map (validate_field payload) (ps_fields schema))
      in if errors = [] then Inr () else Inl errors)"
  by (simp add: validate_def validate_loop_concat)

lemma concat_field_names:
  "map fe_field (concat (map (validate_field payload) fs))
     = map pf_name (filter (\<lambda>f. \<not> field_ok payload f) fs)"
  by (induction fs) (auto simp: validate_field_names)

text \<open>C39: Payload validation accepts a payload exactly when every field of the schema is
  acceptable, and otherwise reports every offending field, once each and in schema order
  (validation does not stop at the first error).\<close>

theorem validate_reports_all:
  "(validate schema payload = Inr () \<longleftrightarrow> (\<forall>f \<in> set (ps_fields schema). field_ok payload f))
   \<and> (\<forall>es. validate schema payload = Inl es \<longrightarrow>
         map fe_field es = map pf_name (filter (\<lambda>f. \<not> field_ok payload f) (ps_fields schema))
         \<and> es \<noteq> [])"
proof -
  let ?es = "concat (map (validate_field payload) (ps_fields schema))"
  have "?es = [] \<longleftrightarrow> (\<forall>f \<in> set (ps_fields schema). field_ok payload f)"
    by (simp add: validate_field_ok_iff)
  then show ?thesis
    using concat_field_names [of payload "ps_fields schema"]
    by (simp add: validate_errors Let_def)
qed

theorem validate_reports_all_witness:
  "validate \<lparr>ps_fields = [\<lparr>pf_name = ''repo.name'', pf_field_type = FtString, pf_required = True\<rparr>,
      \<lparr>pf_name = ''n'', pf_field_type = FtNumber, pf_required = False\<rparr>]\<rparr>
     (JObject [(''repo'', JObject [(''name'', JString ''x'')]), (''n'', JNull)]) = Inr ()
   \<and> map fe_field (projl (validate \<lparr>ps_fields = [\<lparr>pf_name = ''a'', pf_field_type = FtString,
        pf_required = True\<rparr>, \<lparr>pf_name = ''n'', pf_field_type = FtNumber, pf_required = False\<rparr>]\<rparr>
        (JObject [(''n'', JBool True)]))) = [''a'', ''n'']"
proof -
  let ?s = "\<lparr>ps_fields = [\<lparr>pf_name = ''a'', pf_field_type = FtString, pf_required = True\<rparr>,
    \<lparr>pf_name = ''n'', pf_field_type = FtNumber, pf_required = False\<rparr>]\<rparr>"
  let ?p = "JObject [(''n'', JBool True)]"
  have "validate ?s ?p = Inl (projl (validate ?s ?p))"
    by (simp add: validate_errors validate_field_def resolve_field_def)
  then have "map fe_field (projl (validate ?s ?p))
      = map pf_name (filter (\<lambda>f. \<not> field_ok ?p f) (ps_fields ?s))"
    using validate_reports_all [of ?s ?p] by blast
  then show ?thesis
    by (simp add: validate_errors validate_field_def field_ok_def resolve_field_def)
qed

end
