(* ===== verification/External.thy ===== *)
theory External
  imports Payload
begin

text \<open>
  The code the repository calls and does not contain, as a record of functions every
  definition that needs one takes as its argument \<open>X\<close>: serde_json, ring's HMAC, regex,
  chrono's parsing and formatting, humantime, cron, the process environment and the file
  system as far as the code only looks at it. Nothing is
  assumed about them here; a property that relies on one names what it needs as a hypothesis.

  An \<open>f64\<close> is NaN, an infinity or a whole number of units of 2 to the power of -1074, which
  every finite double is.
\<close>

datatype f64 = NaN | NegInf | Finite int | PosInf

fun f64_less :: "f64 \<Rightarrow> f64 \<Rightarrow> bool" where
  "f64_less NaN _ = False"
| "f64_less _ NaN = False"
| "f64_less _ NegInf = False"
| "f64_less NegInf _ = True"
| "f64_less PosInf _ = False"
| "f64_less _ PosInf = True"
| "f64_less (Finite a) (Finite b) = (a < b)"

fun f64_eq :: "f64 \<Rightarrow> f64 \<Rightarrow> bool" where
  "f64_eq NaN _ = False"
| "f64_eq _ NaN = False"
| "f64_eq a b = (a = b)"

definition f64_le :: "f64 \<Rightarrow> f64 \<Rightarrow> bool" where
  "f64_le a b \<longleftrightarrow> f64_less a b \<or> f64_eq a b"

record external =
  env_var :: "string \<Rightarrow> string option"
  hmac_sha256_verify :: "string \<Rightarrow> bytes \<Rightarrow> bytes \<Rightarrow> bool"
  json_from_slice :: "string \<Rightarrow> string + json"
  json_to_string :: "json \<Rightarrow> string"
  utf8_lossy :: "string \<Rightarrow> string"
  number_as_f64 :: "string \<Rightarrow> f64 option"
  parse_f64 :: "string \<Rightarrow> f64 option"
  show_f64 :: "f64 \<Rightarrow> string"
  regex_ok :: "string \<Rightarrow> bool"
  regex_error_text :: "string \<Rightarrow> string"
  regex_is_match :: "string \<Rightarrow> string \<Rightarrow> bool"
  regex_replace_all :: "string \<Rightarrow> string \<Rightarrow> string \<Rightarrow> string"
  parse_hm :: "string \<Rightarrow> nat option"
  fmt_hm :: "nat \<Rightarrow> string"
  fmt_millis :: "nat \<Rightarrow> string"
  fmt_secs :: "int \<Rightarrow> string"
  parse_rfc3339 :: "string \<Rightarrow> int option"
  parse_naive :: "string \<Rightarrow> int option"
  parse_naive_frac :: "string \<Rightarrow> int option"
  humantime_format :: "duration \<Rightarrow> string"
  humantime_parse :: "string \<Rightarrow> string + duration"
  cron_ok :: "string \<Rightarrow> bool"
  path_exists :: "string \<Rightarrow> bool"
  path_canonicalize :: "string \<Rightarrow> string option"
  current_dir :: "string option"

text \<open>
  \<open>json_from_slice\<close> and \<open>utf8_lossy\<close> read a byte string; \<open>json_from_slice\<close> also stands for
  \<open>from_str\<close>. \<open>fmt_millis\<close> and \<open>fmt_secs\<close> format milliseconds and seconds since the epoch as
  \<open>%Y-%m-%dT%H:%M:%S%.3fZ\<close> and \<open>%Y-%m-%dT%H:%M:%SZ\<close>; \<open>parse_hm\<close> and \<open>fmt_hm\<close> read and write
  \<open>%H:%M\<close> as seconds from midnight; \<open>parse_rfc3339\<close>, \<open>parse_naive\<close> (\<open>%Y-%m-%dT%H:%M:%S\<close>)
  and \<open>parse_naive_frac\<close> (with \<open>%.f\<close>) give nanoseconds since the epoch.
\<close>

text \<open>A concrete instance for witnesses: unary time stamps, a small table of clock times.\<close>

definition sample_external :: external where
  "sample_external = \<lparr>
     env_var = (\<lambda>n. if n = ''TOKEN'' then Some ''s3cret'' else None),
     hmac_sha256_verify = (\<lambda>key body sig. sig = map (\<lambda>c. of_nat (of_char c)) key @ body),
     json_from_slice = (\<lambda>s. if s = ''{}'' then Inr (JObject [])
        else if s = ''{a}'' then Inr (JObject [(''a'', JString ''x'')]) else Inl ''bad''),
     json_to_string = (\<lambda>v. case v of JObject [] \<Rightarrow> ''{}'' | JNumber n \<Rightarrow> n | _ \<Rightarrow> ''{a}''),
     utf8_lossy = (\<lambda>s. s),
     number_as_f64 = (\<lambda>s. map_option (Finite \<circ> int) (parse_unsigned u64_max s)),
     parse_f64 = (\<lambda>s. map_option (Finite \<circ> int) (parse_unsigned u64_max s)),
     show_f64 = (\<lambda>v. case v of Finite i \<Rightarrow> show_int i | _ \<Rightarrow> ''NaN''),
     regex_ok = (\<lambda>p. True),
     regex_error_text = (\<lambda>p. ''bad''),
     regex_is_match = str_contains,
     regex_replace_all = str_replace,
     parse_hm = (\<lambda>s. if s = ''09:00'' then Some 32400 else if s = ''17:00'' then Some 61200 else None),
     fmt_hm = show_nat,
     fmt_millis = (\<lambda>n. replicate n CHR ''a''),
     fmt_secs = (\<lambda>n. replicate (1000 * nat n) CHR ''a''),
     parse_rfc3339 = (\<lambda>s. Some (1000000 * int (length s))),
     parse_naive = (\<lambda>s. None),
     parse_naive_frac = (\<lambda>s. None),
     humantime_format = show_nat,
     humantime_parse = (\<lambda>s. case parse_unsigned u64_max s of Some n \<Rightarrow> Inr n | None \<Rightarrow> Inl ''bad''),
     cron_ok = (\<lambda>s. True), path_exists = (\<lambda>p. True),
     path_canonicalize = (\<lambda>p. Some (''/'' @ p)), current_dir = Some ''/srv''\<rparr>"

end
