(* ===== verification/Config.thy ===== *)
theory Config
  imports External
begin

text \<open>
  \<open>src/config.rs\<close>: the configuration types and their validation.

  Each \<open>struct\<close> is a record and each \<open>enum\<close> a datatype. A \<open>HashMap<String, String>\<close> is the list
  of its entries in iteration order, with distinct keys. Unsigned integers are natural numbers
  within their width; durations are nanoseconds. \<open>validate\<close> follows the source section by section:
  every section returns the messages it pushes, in order.
\<close>

type_synonym string_map = "(string \<times> string) list"

section \<open>Data types\<close>

record server_config =
  sv_bind :: string
  sv_port :: nat

record database_config =
  db_path :: string

record logs_config =
  lg_dir :: string

record smtp_config =
  sm_host :: string
  sm_port :: nat
  sm_username :: string
  sm_password :: string
  sm_from :: string
  sm_starttls :: bool

record auth_config =
  au_session_lifetime :: duration
  au_secure_cookie :: bool
  au_base_url :: "string option"
  au_smtp :: "smtp_config option"

record scripts_config =
  sc_dir :: string

record rate_limit_config =
  rl_max_per_minute :: nat

datatype backoff_strategy = BackoffNone | BackoffLinear | BackoffExponential

record retry_config =
  rc_count :: nat
  rc_backoff :: backoff_strategy
  rc_initial_delay :: duration
  rc_max_delay :: duration

record defaults_config =
  df_rate_limit :: rate_limit_config
  df_timeout :: duration
  df_retries :: retry_config

datatype http_method = Get | Post | Put | Patch | Delete

datatype executor_config =
    Shell string
  | Script string
  | JavaScript string
  | Python string
  | Http http_method string string_map "string option" bool

datatype hmac_algorithm = Sha256

datatype hook_auth_config =
    AuthNone
  | Bearer string
  | Hmac string hmac_algorithm string

datatype filter_operator =
  OpEquals | OpNotEquals | OpContains | OpRegex | OpExists | OpGt | OpLt | OpGte | OpLte

record payload_filter =
  fl_field :: string
  fl_operator :: filter_operator
  fl_value :: "string option"

record time_window =
  tw_days :: "string list"
  tw_start_time :: string
  tw_end_time :: string

record trigger_rate_limit =
  tr_max_requests :: nat
  tr_window :: duration

record trigger_rules =
  ru_payload_filters :: "payload_filter list option"
  ru_time_windows :: "time_window list option"
  ru_cooldown :: "duration option"
  ru_rate_limit :: "trigger_rate_limit option"

datatype concurrency_mode = Mutex | Queue

record concurrency_config =
  cc_mode :: concurrency_mode
  cc_queue_depth :: nat

record approval_config =
  ac_required :: bool
  ac_timeout :: "duration option"

datatype notify_outcome = NotifySuccess | NotifyFailure | NotifyTimeout

record notification_config =
  nc_url :: string
  nc_on :: "notify_outcome list"
  nc_headers :: string_map
  nc_body :: string

record retention_config =
  rt_max_count :: "nat option"
  rt_max_age :: "duration option"

record backup_config =
  bk_endpoint :: string
  bk_bucket :: string
  bk_access_key :: string
  bk_secret_key :: string
  bk_region :: string
  bk_prefix :: string
  bk_schedule :: "string option"
  bk_retention :: retention_config

record masking_config =
  mk_env_vars :: "string list"
  mk_patterns :: "string list"
  mk_compiled_patterns :: "string list"

record hook_config =
  hk_name :: string
  hk_slug :: string
  hk_description :: string
  hk_enabled :: bool
  hk_auth :: "hook_auth_config option"
  hk_executor :: executor_config
  hk_env :: string_map
  hk_cwd :: "string option"
  hk_timeout :: "duration option"
  hk_retries :: "retry_config option"
  hk_rate_limit :: "rate_limit_config option"
  hk_payload :: "payload_schema option"
  hk_trigger_rules :: "trigger_rules option"
  hk_concurrency :: "concurrency_config option"
  hk_approval :: "approval_config option"
  hk_notification :: "notification_config option"

record app_config =
  cf_server :: server_config
  cf_database :: database_config
  cf_logs :: logs_config
  cf_auth :: auth_config
  cf_scripts :: scripts_config
  cf_defaults :: defaults_config
  cf_masking :: masking_config
  cf_hooks :: "hook_config list"
  cf_backup :: "backup_config option"

section \<open>Default values\<close>

definition default_server_config :: server_config where
  "default_server_config = \<lparr>sv_bind = ''127.0.0.1'', sv_port = 8080\<rparr>"

definition default_database_config :: database_config where
  "default_database_config = \<lparr>db_path = ''data/sendword.db''\<rparr>"

definition default_logs_config :: logs_config where
  "default_logs_config = \<lparr>lg_dir = ''data/logs''\<rparr>"

definition default_auth_config :: auth_config where
  "default_auth_config = \<lparr>au_session_lifetime = from_secs (24 * 60 * 60), au_secure_cookie = False,
     au_base_url = None, au_smtp = None\<rparr>"

definition default_scripts_config :: scripts_config where
  "default_scripts_config = \<lparr>sc_dir = ''data/scripts''\<rparr>"

definition default_rate_limit :: rate_limit_config where
  "default_rate_limit = \<lparr>rl_max_per_minute = 60\<rparr>"

definition default_retry_config :: retry_config where
  "default_retry_config = \<lparr>rc_count = 0, rc_backoff = BackoffExponential,
     rc_initial_delay = from_secs 1, rc_max_delay = from_secs 60\<rparr>"

definition default_defaults_config :: defaults_config where
  "default_defaults_config = \<lparr>df_rate_limit = default_rate_limit, df_timeout = from_secs 30,
     df_retries = default_retry_config\<rparr>"

definition default_app_config :: app_config where
  "default_app_config = \<lparr>cf_server = default_server_config, cf_database = default_database_config,
     cf_logs = default_logs_config, cf_auth = default_auth_config,
     cf_scripts = default_scripts_config, cf_defaults = default_defaults_config,
     cf_masking = \<lparr>mk_env_vars = [], mk_patterns = [], mk_compiled_patterns = []\<rparr>,
     cf_hooks = [], cf_backup = None\<rparr>"

lemmas default_config_defs =
  default_app_config_def default_server_config_def default_database_config_def
  default_logs_config_def default_auth_config_def default_scripts_config_def
  default_rate_limit_def default_retry_config_def default_defaults_config_def

section \<open>Slugs\<close>

definition slug_alnum :: "char \<Rightarrow> bool" where
  "slug_alnum c \<longleftrightarrow> (97 \<le> (of_char c :: nat) \<and> (of_char c :: nat) \<le> 122) \<or> is_digit c"

fun slug_loop :: "bool \<Rightarrow> string \<Rightarrow> bool" where
  "slug_loop prev_hyphen [] = True"
| "slug_loop prev_hyphen (b # bs) =
     (if slug_alnum b then slug_loop False bs
      else if b = CHR ''-'' then (if prev_hyphen then False else slug_loop True bs)
      else False)"

definition is_valid_slug :: "string \<Rightarrow> bool" where
  "is_valid_slug s =
     (let len = length s
      in if len = 0 \<or> len > 64 then False
         else if s ! 0 = CHR ''-'' \<or> s ! (len - 1) = CHR ''-'' then False
         else slug_loop False s)"

section \<open>Validation\<close>

definition validate_globals :: "app_config \<Rightarrow> string list" where
  "validate_globals cfg =
     (if sv_port (cf_server cfg) = 0 then [''server.port must be non-zero''] else [])
   @ (if rl_max_per_minute (df_rate_limit (cf_defaults cfg)) = 0
      then [''defaults.rate_limit.max_per_minute must be greater than 0''] else [])
   @ (if au_session_lifetime (cf_auth cfg) = 0
      then [''auth.session_lifetime must be greater than 0''] else [])
   @ (if sc_dir (cf_scripts cfg) = [] then [''scripts.dir must be non-empty''] else [])
   @ (if df_timeout (cf_defaults cfg) = 0
      then [''defaults.timeout must be greater than 0''] else [])
   @ (if rc_initial_delay (df_retries (cf_defaults cfg)) > rc_max_delay (df_retries (cf_defaults cfg))
      then [''defaults.retries.initial_delay must not exceed defaults.retries.max_delay'']
      else [])"

definition validate_masking :: "masking_config \<Rightarrow> string list" where
  "validate_masking m =
     concat (map (\<lambda>(i, name). if name = []
                   then [''masking.env_vars['' @ show_nat i @ ''] must be non-empty''] else [])
               (enumerate0 (mk_env_vars m)))"

text \<open>The head of a hook: name, slug, duplicate slug (against the slugs seen so far), executor,
  retries and rate limit.\<close>

definition validate_executor :: "string \<Rightarrow> executor_config \<Rightarrow> string list" where
  "validate_executor pfx e =
     (let path_error = (\<lambda>path. if path = [] then [pfx @ ''.executor.path must be non-empty''] else [])
      in case e of
           Shell command \<Rightarrow>
             (if command = [] then [pfx @ ''.executor.command must be non-empty''] else [])
         | Script path \<Rightarrow> path_error path
         | JavaScript path \<Rightarrow> path_error path
         | Python path \<Rightarrow> path_error path
         | Http method url headers body follow \<Rightarrow> [])"

definition validate_hook_head :: "string set \<Rightarrow> string \<Rightarrow> hook_config \<Rightarrow> string list" where
  "validate_hook_head seen pfx hook =
     (if hk_name hook = [] then [pfx @ ''.name must be non-empty''] else [])
   @ (if is_valid_slug (hk_slug hook) then []
      else [pfx @ ''.slug '' @ quoted (hk_slug hook)
            @ '' is invalid (must be 1-64 lowercase alphanumeric ''
            @ ''chars or hyphens, no leading/trailing/consecutive hyphens)''])
   @ (if hk_slug hook \<in> seen
      then [pfx @ ''.slug '' @ quoted (hk_slug hook) @ '' is a duplicate''] else [])
   @ validate_executor pfx (hk_executor hook)
   @ (case hk_retries hook of
        None \<Rightarrow> []
      | Some r \<Rightarrow>
          (if rc_initial_delay r > rc_max_delay r
           then [pfx @ ''.retries.initial_delay must not exceed '' @ pfx @ ''.retries.max_delay'']
           else []))
   @ (case hk_rate_limit hook of
        None \<Rightarrow> []
      | Some rl \<Rightarrow>
          (if rl_max_per_minute rl = 0
           then [pfx @ ''.rate_limit.max_per_minute must be greater than 0''] else []))"

definition validate_hook_auth :: "string \<Rightarrow> hook_auth_config option \<Rightarrow> string list" where
  "validate_hook_auth pfx auth =
     (case auth of
        None \<Rightarrow> []
      | Some AuthNone \<Rightarrow> []
      | Some (Bearer token) \<Rightarrow>
          (if token = [] then [pfx @ ''.auth.token must be non-empty''] else [])
      | Some (Hmac header algorithm secret) \<Rightarrow>
          (if header = [] then [pfx @ ''.auth.header must be non-empty''] else [])
        @ (if secret = [] then [pfx @ ''.auth.secret must be non-empty''] else []))"

definition validate_filter :: "external \<Rightarrow> string \<Rightarrow> nat \<times> payload_filter \<Rightarrow> string list" where
  "validate_filter X pfx = (\<lambda>(j, f).
     if fl_operator f = OpRegex
     then (case fl_value f of
             Some pattern \<Rightarrow>
               (if regex_ok X pattern then []
                else [pfx @ ''.trigger_rules.payload_filters['' @ show_nat j
                      @ ''].value is not a valid regex''])
           | None \<Rightarrow> [pfx @ ''.trigger_rules.payload_filters['' @ show_nat j
                      @ ''].value is required for regex operator''])
     else [])"

definition valid_days :: "string list" where
  "valid_days = [''Mon'', ''Tue'', ''Wed'', ''Thu'', ''Fri'', ''Sat'', ''Sun'']"

definition validate_window :: "external \<Rightarrow> string \<Rightarrow> nat \<times> time_window \<Rightarrow> string list" where
  "validate_window X pfx = (\<lambda>(j, w).
     let prefix_w = pfx @ ''.trigger_rules.time_windows['' @ show_nat j @ '']''
     in (if parse_hm X (tw_start_time w) = None
         then [prefix_w @ ''.start_time must be HH:MM format''] else [])
      @ (if parse_hm X (tw_end_time w) = None
         then [prefix_w @ ''.end_time must be HH:MM format''] else [])
      @ (case (parse_hm X (tw_start_time w), parse_hm X (tw_end_time w)) of
           (Some start, Some end_) \<Rightarrow>
             (if start \<ge> end_ then [prefix_w @ ''.start_time must be before end_time''] else [])
         | _ \<Rightarrow> [])
      @ concat (map (\<lambda>day. if list_ex (\<lambda>d. eq_ignore_ascii_case d day) valid_days then []
                  else [prefix_w @ ''.days contains invalid day '' @ quoted day
                        @ '' (expected Mon-Sun)'']) (tw_days w)))"

definition validate_rules :: "external \<Rightarrow> string \<Rightarrow> trigger_rules option \<Rightarrow> string list" where
  "validate_rules X pfx ro =
     (case ro of
        None \<Rightarrow> []
      | Some rules \<Rightarrow>
          (case ru_payload_filters rules of
             None \<Rightarrow> []
           | Some filters \<Rightarrow> concat (map (validate_filter X pfx) (enumerate0 filters)))
        @ (case ru_time_windows rules of
             None \<Rightarrow> []
           | Some windows \<Rightarrow> concat (map (validate_window X pfx) (enumerate0 windows)))
        @ (case ru_rate_limit rules of
             None \<Rightarrow> []
           | Some rl \<Rightarrow>
               (if tr_max_requests rl = 0
                then [pfx @ ''.trigger_rules.rate_limit.max_requests must be greater than 0'']
                else [])
             @ (if tr_window rl = 0
                then [pfx @ ''.trigger_rules.rate_limit.window must be greater than 0'']
                else [])))"

definition validate_barriers :: "string \<Rightarrow> hook_config \<Rightarrow> string list" where
  "validate_barriers pfx hook =
     (case hk_concurrency hook of
        None \<Rightarrow> []
      | Some c \<Rightarrow>
          (if cc_mode c = Queue \<and> cc_queue_depth c = 0
           then [pfx @ ''.concurrency.queue_depth must be greater than 0 in queue mode'']
           else []))
   @ (case hk_approval hook of
        None \<Rightarrow> []
      | Some a \<Rightarrow>
          (case ac_timeout a of
             None \<Rightarrow> []
           | Some timeout \<Rightarrow>
               (if timeout = 0 then [pfx @ ''.approval.timeout must be greater than 0 if set'']
                else [])))"

definition validate_hook :: "external \<Rightarrow> string set \<Rightarrow> nat \<Rightarrow> hook_config \<Rightarrow> string list" where
  "validate_hook X seen i hook =
     (let pfx = ''hooks['' @ show_nat i @ '']''
      in validate_hook_head seen pfx hook
       @ validate_hook_auth pfx (hk_auth hook)
       @ validate_rules X pfx (hk_trigger_rules hook)
       @ validate_barriers pfx hook)"

fun validate_hooks :: "external \<Rightarrow> string set \<Rightarrow> nat \<Rightarrow> hook_config list \<Rightarrow> string list" where
  "validate_hooks X seen i [] = []"
| "validate_hooks X seen i (hook # hooks) =
     validate_hook X seen i hook
   @ validate_hooks X (insert (hk_slug hook) seen) (Suc i) hooks"

definition validate_backup :: "external \<Rightarrow> backup_config option \<Rightarrow> string list" where
  "validate_backup X bo =
     (case bo of
        None \<Rightarrow> []
      | Some b \<Rightarrow>
          (case bk_schedule b of
             None \<Rightarrow> []
           | Some schedule \<Rightarrow>
               (if cron_ok X schedule then []
                else [''backup.schedule '' @ quoted schedule @ '' is not a valid cron expression'']))
        @ (if bk_bucket b = [] then [''backup.bucket must be non-empty''] else [])
        @ (if bk_endpoint b = [] then [''backup.endpoint must be non-empty''] else []))"

definition validate_config :: "external \<Rightarrow> app_config \<Rightarrow> string + unit" where
  "validate_config X cfg =
     (let errors = validate_globals cfg
                 @ validate_masking (cf_masking cfg)
                 @ validate_hooks X {} 0 (cf_hooks cfg)
                 @ validate_backup X (cf_backup cfg)
      in if errors = [] then Inr () else Inl (join [CHR 0x0A] errors))"

section \<open>Slugs: the loop and its specification\<close>

text \<open>The specification: at most 64 bytes, non-empty alphanumeric words joined by single
  hyphens.\<close>

definition slug_spec :: "string \<Rightarrow> bool" where
  "slug_spec s \<longleftrightarrow> length s \<le> 64
     \<and> (\<forall>w \<in> set (split_on (CHR ''-'') s). w \<noteq> [] \<and> list_all slug_alnum w)"

lemma slug_alnum_not_hyphen [simp]: "\<not> slug_alnum (CHR ''-'')"
  by (simp add: slug_alnum_def is_digit_def)

lemma slug_loop_words:
  assumes "s \<noteq> []" and "last s \<noteq> CHR ''-''"
  shows "slug_loop False s \<longleftrightarrow>
           (\<forall>w \<in> set (split_on (CHR ''-'') s). list_all slug_alnum w)
           \<and> (\<forall>w \<in> set (tl (split_on (CHR ''-'') s)). w \<noteq> [])"
    and "slug_loop True s \<longleftrightarrow>
           (\<forall>w \<in> set (split_on (CHR ''-'') s). w \<noteq> [] \<and> list_all slug_alnum w)"
  using assms
proof (induction s)
  case (Cons c cs)
  obtain w ws where w: "split_on (CHR ''-'') cs = w # ws"
    by (cases "split_on (CHR ''-'') cs") auto
  {
    case 1
    then show ?case
      using Cons.IH w by (cases "cs = []") (auto split: if_splits)
  next
    case 2
    then show ?case
      using Cons.IH w by (cases "cs = []") (auto split: if_splits)
  }
qed auto

lemma split_on_hd_Nil: "s \<noteq> [] \<Longrightarrow> hd (split_on d s) = [] \<longleftrightarrow> hd s = d"
  by (cases s) (auto split: list.splits)

lemma split_on_single_Nil: "split_on d s = [[]] \<longleftrightarrow> s = []"
  by (cases s) (auto split: list.splits)

lemma split_on_last_Nil: "s \<noteq> [] \<Longrightarrow> last (split_on d s) = [] \<longleftrightarrow> last s = d"
proof (induction s)
  case (Cons c cs)
  then show ?case
    by (cases "cs = []"; cases "split_on d cs") (auto simp: split_on_single_Nil split: if_splits)
qed simp

lemma valid_slug_iff: "is_valid_slug s \<longleftrightarrow> slug_spec s"
proof (cases "s = []")
  case False
  obtain w ws where w: "split_on (CHR ''-'') s = w # ws"
    by (cases "split_on (CHR ''-'') s") auto
  show ?thesis
  proof (cases "last s = CHR ''-''")
    case True
    then have "[] \<in> set (split_on (CHR ''-'') s)"
      using split_on_last_Nil [OF False, of "CHR ''-''"] by (metis last_in_set split_on_not_Nil)
    with True False show ?thesis
      by (auto simp: is_valid_slug_def slug_spec_def Let_def last_conv_nth)
  next
    case last: False
    have "s ! 0 = CHR ''-'' \<longleftrightarrow> w = []"
      using split_on_hd_Nil [OF False, of "CHR ''-''"] w False by (simp add: hd_conv_nth)
    with last False w show ?thesis
      using slug_loop_words(1) [OF False last]
      by (auto simp: is_valid_slug_def slug_spec_def Let_def last_conv_nth)
  qed
qed (simp add: is_valid_slug_def slug_spec_def)

text \<open>The slug check of the configuration accepts exactly the slugs of the documented
  form: 1 to 64 bytes, lower-case alphanumeric words joined by single hyphens.\<close>

theorem is_valid_slug_spec: "is_valid_slug s \<longleftrightarrow> slug_spec s"
  by (rule valid_slug_iff)

section \<open>What a valid configuration guarantees\<close>

lemma concat_map_enumerate_Nil:
  assumes "\<And>i x. g (i, x) = [] \<longleftrightarrow> P x"
  shows "concat (map g (enumerate0 xs)) = [] \<longleftrightarrow> (\<forall>x \<in> set xs. P x)"
proof -
  have "concat (map g (enumerate0 xs)) = [] \<longleftrightarrow> (\<forall>p \<in> set (enumerate0 xs). P (snd p))"
    using assms by (auto simp: concat_eq_Nil_conv)
  also have "\<dots> \<longleftrightarrow> (\<forall>x \<in> snd ` set (enumerate0 xs). P x)"
    by simp
  also have "snd ` set (enumerate0 xs) = set xs"
    by (simp add: enumerate0_def flip: set_map)
  finally show ?thesis .
qed

definition filter_ok :: "external \<Rightarrow> payload_filter \<Rightarrow> bool" where
  "filter_ok X f \<longleftrightarrow> (fl_operator f = OpRegex \<longrightarrow>
     (case fl_value f of None \<Rightarrow> False | Some p \<Rightarrow> regex_ok X p))"

definition window_ok :: "external \<Rightarrow> time_window \<Rightarrow> bool" where
  "window_ok X w \<longleftrightarrow>
     (case (parse_hm X (tw_start_time w), parse_hm X (tw_end_time w)) of
        (Some start, Some end_) \<Rightarrow> start < end_
      | _ \<Rightarrow> False)
     \<and> (\<forall>day \<in> set (tw_days w). \<exists>d \<in> set valid_days. eq_ignore_ascii_case d day)"

definition rules_ok :: "external \<Rightarrow> trigger_rules \<Rightarrow> bool" where
  "rules_ok X r \<longleftrightarrow>
     (\<forall>fs. ru_payload_filters r = Some fs \<longrightarrow> (\<forall>f \<in> set fs. filter_ok X f))
   \<and> (\<forall>ws. ru_time_windows r = Some ws \<longrightarrow> (\<forall>w \<in> set ws. window_ok X w))
   \<and> (\<forall>rl. ru_rate_limit r = Some rl \<longrightarrow> tr_max_requests rl > 0 \<and> tr_window rl > 0)"

definition executor_ok :: "executor_config \<Rightarrow> bool" where
  "executor_ok e \<longleftrightarrow> e \<notin> {Shell [], Script [], JavaScript [], Python []}"

definition hook_ok :: "external \<Rightarrow> hook_config \<Rightarrow> bool" where
  "hook_ok X h \<longleftrightarrow>
     hk_name h \<noteq> [] \<and> slug_spec (hk_slug h) \<and> executor_ok (hk_executor h)
   \<and> (\<forall>r. hk_retries h = Some r \<longrightarrow> rc_initial_delay r \<le> rc_max_delay r)
   \<and> (\<forall>rl. hk_rate_limit h = Some rl \<longrightarrow> rl_max_per_minute rl > 0)
   \<and> hk_auth h \<noteq> Some (Bearer [])
   \<and> (\<forall>hd alg sec. hk_auth h = Some (Hmac hd alg sec) \<longrightarrow> hd \<noteq> [] \<and> sec \<noteq> [])
   \<and> (\<forall>r. hk_trigger_rules h = Some r \<longrightarrow> rules_ok X r)
   \<and> (\<forall>c. hk_concurrency h = Some c \<longrightarrow> cc_mode c = Queue \<longrightarrow> cc_queue_depth c > 0)
   \<and> (\<forall>a t. hk_approval h = Some a \<longrightarrow> ac_timeout a = Some t \<longrightarrow> t > 0)"

lemma validate_filter_Nil_iff: "validate_filter X pfx (j, f) = [] \<longleftrightarrow> filter_ok X f"
  by (auto simp: validate_filter_def filter_ok_def split: option.splits)

lemma concat_if_Nil_iff:
  "concat (map (\<lambda>x. if P x then [] else [g x]) xs) = [] \<longleftrightarrow> (\<forall>x \<in> set xs. P x)"
  by (induction xs) auto

lemma validate_window_Nil_iff: "validate_window X pfx (j, w) = [] \<longleftrightarrow> window_ok X w"
  by (simp add: validate_window_def window_ok_def Let_def list_ex_iff concat_if_Nil_iff
      del: concat_eq_Nil_conv split: option.splits)

lemma validate_rules_Nil_iff:
  "validate_rules X pfx ro = [] \<longleftrightarrow> (\<forall>r. ro = Some r \<longrightarrow> rules_ok X r)"
  by (auto simp: validate_rules_def rules_ok_def
      concat_map_enumerate_Nil [where g = "validate_filter X pfx" and P = "filter_ok X",
        OF validate_filter_Nil_iff]
      concat_map_enumerate_Nil [where g = "validate_window X pfx" and P = "window_ok X",
        OF validate_window_Nil_iff]
      simp del: concat_eq_Nil_conv split: option.splits if_splits)

lemma validate_executor_Nil_iff: "validate_executor pfx e = [] \<longleftrightarrow> executor_ok e"
  by (cases e) (auto simp: validate_executor_def executor_ok_def)

lemma validate_hook_head_Nil_iff:
  "validate_hook_head seen pfx h = [] \<longleftrightarrow>
     hk_name h \<noteq> [] \<and> slug_spec (hk_slug h) \<and> hk_slug h \<notin> seen \<and> executor_ok (hk_executor h)
     \<and> (\<forall>r. hk_retries h = Some r \<longrightarrow> rc_initial_delay r \<le> rc_max_delay r)
     \<and> (\<forall>rl. hk_rate_limit h = Some rl \<longrightarrow> rl_max_per_minute rl > 0)"
  by (auto simp: validate_hook_head_def validate_executor_Nil_iff valid_slug_iff
      split: option.splits if_splits)

lemma validate_hook_Nil_iff:
  "validate_hook X seen i h = [] \<longleftrightarrow> hook_ok X h \<and> hk_slug h \<notin> seen"
proof -
  have auth: "validate_hook_auth pfx (hk_auth h) = [] \<longleftrightarrow>
      hk_auth h \<noteq> Some (Bearer [])
      \<and> (\<forall>hd alg sec. hk_auth h = Some (Hmac hd alg sec) \<longrightarrow> hd \<noteq> [] \<and> sec \<noteq> [])" for pfx
    by (auto simp: validate_hook_auth_def split: option.splits hook_auth_config.splits)
  have barriers: "validate_barriers pfx h = [] \<longleftrightarrow>
      (\<forall>c. hk_concurrency h = Some c \<longrightarrow> cc_mode c = Queue \<longrightarrow> cc_queue_depth c > 0)
      \<and> (\<forall>a t. hk_approval h = Some a \<longrightarrow> ac_timeout a = Some t \<longrightarrow> t > 0)" for pfx
    by (auto simp: validate_barriers_def split: option.splits)
  show ?thesis
    unfolding validate_hook_def Let_def append_is_Nil_conv auth barriers
      validate_hook_head_Nil_iff validate_rules_Nil_iff hook_ok_def by blast
qed

lemma validate_hooks_Nil_iff:
  "validate_hooks X seen i hooks = [] \<longleftrightarrow>
     (\<forall>h \<in> set hooks. hook_ok X h \<and> hk_slug h \<notin> seen) \<and> distinct (map hk_slug hooks)"
  by (induction hooks arbitrary: seen i) (auto simp: validate_hook_Nil_iff image_iff)

definition globals_ok :: "external \<Rightarrow> app_config \<Rightarrow> bool" where
  "globals_ok X cfg \<longleftrightarrow>
     sv_port (cf_server cfg) \<noteq> 0
   \<and> rl_max_per_minute (df_rate_limit (cf_defaults cfg)) > 0
   \<and> au_session_lifetime (cf_auth cfg) > 0 \<and> sc_dir (cf_scripts cfg) \<noteq> [] \<and> df_timeout (cf_defaults cfg) > 0
   \<and> rc_initial_delay (df_retries (cf_defaults cfg)) \<le> rc_max_delay (df_retries (cf_defaults cfg))
   \<and> [] \<notin> set (mk_env_vars (cf_masking cfg))
   \<and> (\<forall>b. cf_backup cfg = Some b \<longrightarrow> bk_bucket b \<noteq> [] \<and> bk_endpoint b \<noteq> []
        \<and> (\<forall>s. bk_schedule b = Some s \<longrightarrow> cron_ok X s))"

lemma validate_masking_Nil_iff: "validate_masking m = [] \<longleftrightarrow> [] \<notin> set (mk_env_vars m)"
  unfolding validate_masking_def
  by (subst concat_map_enumerate_Nil [where P = "\<lambda>n. n \<noteq> []"]) auto

lemma validate_config_wf:
  "validate_config X cfg = Inr () \<longleftrightarrow>
     globals_ok X cfg \<and> distinct (map hk_slug (cf_hooks cfg))
     \<and> (\<forall>h \<in> set (cf_hooks cfg). hook_ok X h)"
proof -
  have "validate_globals cfg = [] \<and> validate_masking (cf_masking cfg) = []
        \<and> validate_backup X (cf_backup cfg) = [] \<longleftrightarrow> globals_ok X cfg"
    by (auto simp: validate_globals_def validate_masking_Nil_iff validate_backup_def
        globals_ok_def split: option.splits if_splits)
  then show ?thesis
    unfolding validate_config_def Let_def by (auto simp: validate_hooks_Nil_iff)
qed

text \<open>C33: The configuration is accepted exactly when it is well formed: the global limits are
  positive, every hook meets its constraints (documented slug, non-empty command or path,
  ordered retry delays, compilable filters, parsable and ordered time windows, positive rate
  limits and queue depth), and no two hooks share a slug.\<close>

theorem validate_config_iff:
  "validate_config X cfg = Inr () \<longleftrightarrow>
     globals_ok X cfg \<and> distinct (map hk_slug (cf_hooks cfg))
     \<and> (\<forall>h \<in> set (cf_hooks cfg). hook_ok X h)"
  by (rule validate_config_wf)

text \<open>A server without any configuration file starts: the default configuration passes
  validation.\<close>

theorem default_config_valid: "validate_config X default_app_config = Inr ()"
  by (simp add: validate_config_wf globals_ok_def default_config_defs from_secs_def nanos_per_sec_def)

text \<open>A configuration for witnesses: one hook with a mutex-free shell command, a second one
  with a token, a queue and an approval.\<close>

definition sample_hook :: hook_config where
  "sample_hook = \<lparr>hk_name = ''Deploy'', hk_slug = ''deploy-app'', hk_description = [], hk_enabled = True, hk_auth = None,
     hk_executor = Shell ''make {{a}}'', hk_env = [], hk_cwd = None, hk_timeout = None,
     hk_retries = None, hk_rate_limit = None, hk_payload = None,
     hk_trigger_rules = Some \<lparr>ru_payload_filters = None,
        ru_time_windows = Some [\<lparr>tw_days = [''mon''], tw_start_time = ''09:00'', tw_end_time = ''17:00''\<rparr>],
        ru_cooldown = None, ru_rate_limit = Some \<lparr>tr_max_requests = 2, tr_window = from_secs 60\<rparr>\<rparr>,
     hk_concurrency = None, hk_approval = None, hk_notification = None\<rparr>"

definition sample_queue_hook :: hook_config where
  "sample_queue_hook = sample_hook\<lparr>hk_slug := ''q'', hk_auth := Some (Bearer ''tok''),
     hk_trigger_rules := None,
     hk_concurrency := Some \<lparr>cc_mode = Queue, cc_queue_depth = 2\<rparr>\<rparr>"

definition sample_config :: app_config where
  "sample_config = default_app_config\<lparr>
     cf_masking := \<lparr>mk_env_vars = [''TOKEN''], mk_patterns = [], mk_compiled_patterns = []\<rparr>,
     cf_hooks := [sample_hook, sample_queue_hook]\<rparr>"

theorem validate_config_iff_witness:
  "validate_config sample_external sample_config = Inr ()
   \<and> validate_config sample_external (sample_config\<lparr>cf_hooks := [sample_hook, sample_hook]\<rparr>) \<noteq> Inr ()"
proof -
  have slugs: "slug_spec ''deploy-app''" "slug_spec ''q''"
    by (simp_all add: slug_spec_def slug_alnum_def)
  have window: "window_ok sample_external
      \<lparr>tw_days = [''mon''], tw_start_time = ''09:00'', tw_end_time = ''17:00''\<rparr>"
    by (simp add: window_ok_def sample_external_def valid_days_def eq_ignore_ascii_case_def
        ascii_lower_def char_of_eq_iff)
  have "hook_ok sample_external sample_hook" "hook_ok sample_external sample_queue_hook"
    using slugs window
    by (simp_all add: hook_ok_def sample_hook_def sample_queue_hook_def executor_ok_def
        rules_ok_def from_secs_def nanos_per_sec_def)
  moreover have "globals_ok sample_external sample_config"
    by (simp add: globals_ok_def sample_config_def default_config_defs from_secs_def nanos_per_sec_def)
  ultimately show ?thesis
    using validate_config_iff [of sample_external sample_config]
      validate_config_iff [of sample_external "sample_config\<lparr>cf_hooks := [sample_hook, sample_hook]\<rparr>"]
    by (simp add: sample_config_def sample_hook_def sample_queue_hook_def)
qed

text \<open>Under a valid configuration the slug determines the hook, so the lookup by slug that
  every handler performs has one candidate.\<close>

lemma valid_config_find_hook:
  assumes "validate_config X cfg = Inr ()" and "h \<in> set (cf_hooks cfg)"
  shows "List.find (\<lambda>h'. hk_slug h' = hk_slug h) (cf_hooks cfg) = Some h"
proof -
  have "distinct (map hk_slug hs) \<Longrightarrow> h \<in> set hs
      \<Longrightarrow> List.find (\<lambda>h'. hk_slug h' = hk_slug h) hs = Some h" for hs
    by (induction hs) (auto simp: rev_image_eqI)
  with assms show ?thesis by (simp add: validate_config_wf)
qed

end
