(* ===== verification/Webhook_Auth.thy ===== *)
theory Webhook_Auth
  imports Config
begin

text \<open>
  \<open>src/webhook_auth.rs\<close>: authentication of a trigger request.

  The header map is what \<open>HeaderMap::get\<close> and \<open>HeaderValue::to_str\<close> tell the code: nothing for
  an absent header, \<open>Some None\<close> for a value that is not visible ASCII, \<open>Some (Some s)\<close> otherwise.
  Comparison and hex decoding run on bytes, as 8-bit words.
\<close>

type_synonym headers = "string \<Rightarrow> string option option"

datatype auth_result = AuthOk | AuthDenied string

definition as_bytes :: "string \<Rightarrow> bytes" where
  "as_bytes s = map (\<lambda>c. of_nat (of_char c)) s"

definition resolve_env_ref :: "external \<Rightarrow> string \<Rightarrow> string option" where
  "resolve_env_ref X value =
     (case Option.bind (strip_prefix ''${'' value) (strip_suffix ''}'') of
        Some var_name \<Rightarrow> env_var X var_name
      | None \<Rightarrow> Some value)"

fun xor_accumulate :: "u8 \<Rightarrow> (u8 \<times> u8) list \<Rightarrow> u8" where
  "xor_accumulate acc [] = acc"
| "xor_accumulate acc ((x, y) # rest) = xor_accumulate (acc OR (x XOR y)) rest"

definition constant_time_eq :: "bytes \<Rightarrow> bytes \<Rightarrow> bool" where
  "constant_time_eq a b =
     (if length a \<noteq> length b then False else xor_accumulate 0 (zip a b) = 0)"

definition hex_digit :: "u8 \<Rightarrow> u8 option" where
  "hex_digit b =
     (if 48 \<le> b \<and> b \<le> 57 then Some (b - 48)
      else if 97 \<le> b \<and> b \<le> 102 then Some (b - 97 + 10)
      else if 65 \<le> b \<and> b \<le> 70 then Some (b - 65 + 10)
      else None)"

text \<open>The loop over \<open>chunks(2)\<close>; the length is even, so no chunk has one byte.\<close>

fun hex_chunks :: "bytes \<Rightarrow> bytes option" where
  "hex_chunks [] = Some []"
| "hex_chunks [c] = None"
| "hex_chunks (c0 # c1 # rest) =
     (case hex_digit c0 of
        None \<Rightarrow> None
      | Some hi \<Rightarrow>
          (case hex_digit c1 of
             None \<Rightarrow> None
           | Some lo \<Rightarrow>
               (case hex_chunks rest of
                  None \<Rightarrow> None
                | Some bs \<Rightarrow> Some ((push_bit 4 hi OR lo) # bs))))"

definition hex_decode :: "bytes \<Rightarrow> bytes option" where
  "hex_decode hex = (if length hex mod 2 \<noteq> 0 then None else hex_chunks hex)"

definition hex_char :: "u8 \<Rightarrow> u8" where
  "hex_char d = (if d < 10 then 48 + d else 87 + d)"

definition hex_encode :: "bytes \<Rightarrow> bytes" where
  "hex_encode bs = concat (map (\<lambda>b. [hex_char (drop_bit 4 b), hex_char (b AND 15)]) bs)"

definition verify_bearer :: "external \<Rightarrow> string \<Rightarrow> headers \<Rightarrow> auth_result" where
  "verify_bearer X token_config hs =
     (case resolve_env_ref X token_config of
        None \<Rightarrow> AuthDenied ''server misconfiguration: token env var not set''
      | Some expected \<Rightarrow>
          (case hs ''authorization'' of
             None \<Rightarrow> AuthDenied ''missing Authorization header''
           | Some None \<Rightarrow> AuthDenied ''invalid Authorization header encoding''
           | Some (Some header_str) \<Rightarrow>
               (case strip_prefix ''Bearer '' header_str of
                  None \<Rightarrow> AuthDenied ''Authorization header is not Bearer scheme''
                | Some provided \<Rightarrow>
                    (if constant_time_eq (as_bytes expected) (as_bytes provided) then AuthOk
                     else AuthDenied ''bearer token mismatch''))))"

definition verify_hmac ::
  "external \<Rightarrow> string \<Rightarrow> hmac_algorithm \<Rightarrow> string \<Rightarrow> headers \<Rightarrow> string \<Rightarrow> auth_result" where
  "verify_hmac X header_name algorithm secret_config hs body =
     (case resolve_env_ref X secret_config of
        None \<Rightarrow> AuthDenied ''server misconfiguration: HMAC secret env var not set''
      | Some secret \<Rightarrow>
          (case hs header_name of
             None \<Rightarrow> AuthDenied (''missing signature header: '' @ header_name)
           | Some None \<Rightarrow> AuthDenied ''invalid signature header encoding''
           | Some (Some header_str) \<Rightarrow>
               (let hex_sig = (case algorithm of Sha256 \<Rightarrow>
                      (case strip_prefix ''sha256='' header_str of
                         Some h \<Rightarrow> h | None \<Rightarrow> header_str))
                in case hex_decode (as_bytes hex_sig) of
                     None \<Rightarrow> AuthDenied ''invalid hex in signature header''
                   | Some sig_bytes \<Rightarrow>
                       (if hmac_sha256_verify X secret (as_bytes body) sig_bytes then AuthOk
                        else AuthDenied ''HMAC signature mismatch''))))"

definition verify :: "external \<Rightarrow> hook_auth_config option \<Rightarrow> headers \<Rightarrow> string \<Rightarrow> auth_result" where
  "verify X auth hs body =
     (case auth of
        None \<Rightarrow> AuthOk
      | Some AuthNone \<Rightarrow> AuthOk
      | Some (Bearer token) \<Rightarrow> verify_bearer X token hs
      | Some (Hmac header algorithm secret) \<Rightarrow> verify_hmac X header algorithm secret hs body)"

section \<open>Comparison\<close>

lemma xor_zero_iff: "(x :: u8) XOR y = 0 \<longleftrightarrow> x = y"
  by (metis bit.xor_left_self word_bw_same(3))

lemma xor_accumulate_zero_iff:
  "xor_accumulate acc ps = 0 \<longleftrightarrow> acc = 0 \<and> (\<forall>(x, y) \<in> set ps. x = y)"
  by (induction acc ps rule: xor_accumulate.induct) (auto simp: or_eq_0_iff xor_zero_iff)

lemma zip_all_eq_iff:
  "length a = length b \<Longrightarrow> (\<forall>(x, y) \<in> set (zip a b). x = y) \<longleftrightarrow> a = b"
  by (induction a b rule: list_induct2) auto

text \<open>The constant-time comparison, which accumulates the exclusive-or of all byte pairs
  instead of stopping at the first difference, decides equality of the two byte strings.\<close>

lemma constant_time_eq_eq: "constant_time_eq a b \<longleftrightarrow> a = b"
  by (auto simp: constant_time_eq_def xor_accumulate_zero_iff zip_all_eq_iff)

lemma byte_of_char_inj: "(of_nat (of_char c) :: u8) = of_nat (of_char d) \<longleftrightarrow> c = d"
proof
  assume "(of_nat (of_char c) :: u8) = of_nat (of_char d)"
  then have "(of_char c :: nat) mod 256 = of_char d mod 256"
    by (simp add: word_of_nat_eq_iff take_bit_eq_mod)
  then show "c = d" by (simp add: of_char_mod_256)
qed simp

lemma as_bytes_inj: "as_bytes s = as_bytes t \<longleftrightarrow> s = t"
proof
  assume "as_bytes s = as_bytes t"
  then show "s = t"
  proof (induction s arbitrary: t)
    case (Cons c cs)
    then show ?case by (cases t) (auto simp: as_bytes_def byte_of_char_inj)
  qed (simp add: as_bytes_def)
qed simp

section \<open>Hexadecimal signatures\<close>

definition hex_lower :: "u8 \<Rightarrow> u8" where
  "hex_lower c = (if 65 \<le> c \<and> c \<le> 70 then c + 32 else c)"

text \<open>Facts about single nibbles are checked over all sixteen of them by evaluation.\<close>

definition all_nibbles :: "u8 list" where "all_nibbles = map word_of_nat [0..<16]"

lemma all_nibbles_set: "set all_nibbles = {d. d < 16}"
proof -
  have "d \<in> set all_nibbles" if "d < 16" for d :: u8
  proof -
    have "unat d < 16" using that by (simp add: word_less_nat_alt)
    moreover have "d = word_of_nat (unat d)" by simp
    ultimately show ?thesis unfolding all_nibbles_def set_map set_upt
      by (metis atLeastLessThan_iff imageI le0)
  qed
  moreover have "d < 16" if "d \<in> set all_nibbles" for d
    using that by (auto simp: all_nibbles_def word_less_nat_alt unat_of_nat)
  ultimately show ?thesis by auto
qed

lemma hex_range_table:
  "list_all (\<lambda>e. (48 + e \<le> 57 \<longrightarrow> hex_lower (48 + e) = hex_char e \<and> hex_digit (48 + e) = Some e)
       \<and> (97 + e \<le> 102 \<longrightarrow> hex_lower (97 + e) = hex_char (e + 10) \<and> e + 10 < 16
            \<and> hex_digit (97 + e) = Some (e + 10))
       \<and> (65 + e \<le> 70 \<longrightarrow> hex_lower (65 + e) = hex_char (e + 10) \<and> e + 10 < 16
            \<and> hex_digit (65 + e) = Some (e + 10))) all_nibbles"
  by code_simp

lemma hex_char_table:
  "list_all (\<lambda>e. hex_digit (hex_char e) = Some e
       \<and> (65 \<le> hex_char e - 32 \<and> hex_char e - 32 \<le> 70 \<longrightarrow> hex_digit (hex_char e - 32) = Some e))
     all_nibbles"
  by code_simp

lemma nibble_table:
  "list_all (\<lambda>h. list_all (\<lambda>l. drop_bit 4 (push_bit 4 h OR l) = h
       \<and> (push_bit 4 h OR l) AND 15 = l) all_nibbles) all_nibbles"
  by code_simp

lemma byte_offset:
  assumes "n \<le> c" and "c \<le> m" and "unat m < unat n + 16"
  shows "\<exists>e < 16. c = n + (e :: u8)"
proof -
  have "c - n < 16" using assms by (auto simp: word_less_nat_alt word_le_nat_alt unat_sub)
  then show ?thesis by (intro exI [of _ "c - n"]) simp
qed

lemma hex_digit_range:
  assumes "hex_digit c = Some d"
  shows "d < 16 \<and> hex_lower c = hex_char d"
proof -
  consider "48 \<le> c" "c \<le> 57" | "97 \<le> c" "c \<le> 102" | "65 \<le> c" "c \<le> 70"
    using assms by (auto simp: hex_digit_def split: if_splits)
  then obtain n e where "e < 16" and c: "c = n + e"
    and n: "n = 48 \<and> c \<le> 57 \<or> n = 97 \<and> c \<le> 102 \<or> n = 65 \<and> c \<le> 70"
    by cases (use byte_offset [of 48 c 57] byte_offset [of 97 c 102] byte_offset [of 65 c 70] in auto)
  with hex_range_table have "hex_lower c = hex_char (if n = 48 then e else e + 10)
      \<and> hex_digit c = Some (if n = 48 then e else e + 10) \<and> (n = 48 \<or> e + 10 < 16)"
    by (auto simp: list_all_iff all_nibbles_set)
  with assms \<open>e < 16\<close> show ?thesis by (auto split: if_splits)
qed

lemma hex_digit_iff: "hex_digit c = Some d \<longleftrightarrow> d < 16 \<and> hex_lower c = hex_char d"
proof
  assume d: "d < 16 \<and> hex_lower c = hex_char d"
  then have t: "hex_digit (hex_char d) = Some d"
    "65 \<le> hex_char d - 32 \<and> hex_char d - 32 \<le> 70 \<longrightarrow> hex_digit (hex_char d - 32) = Some d"
    using hex_char_table by (auto simp: list_all_iff all_nibbles_set)
  show "hex_digit c = Some d"
  proof (cases "65 \<le> c \<and> c \<le> 70")
    case True
    with d have "c = hex_char d - 32" by (simp add: hex_lower_def eq_diff_eq)
    with True t(2) show ?thesis by simp
  next
    case False
    with d t(1) show ?thesis by (auto simp: hex_lower_def)
  qed
qed (rule hex_digit_range)

lemma hex_digit_less: "hex_digit c = Some d \<Longrightarrow> d < 16"
  by (simp add: hex_digit_iff)

lemma nibbles: "push_bit 4 (drop_bit 4 b) OR (b AND 15) = (b :: u8)"
proof -
  have m: "(15 :: u8) = mask 4" by (simp add: mask_eq_exp_minus_1)
  show ?thesis
    unfolding m by (intro bit_word_eqI) (auto simp: bit_simps)
qed

lemma nibble_bounds: "drop_bit 4 (b :: u8) < 16" "(b :: u8) AND 15 < 16"
proof -
  have "unat b < 256" using unsigned_less [of b] by simp
  then show "drop_bit 4 b < 16"
    by (simp add: word_less_nat_alt drop_bit_eq_div unat_div less_mult_imp_div_less)
  have "b AND 15 \<le> 15" by (rule word_and_le1)
  then show "b AND 15 < 16" by (rule order.strict_trans1) simp
qed

lemma nibble_high: "h < 16 \<Longrightarrow> l < 16 \<Longrightarrow> drop_bit 4 (push_bit 4 h OR l) = (h :: u8)"
  and nibble_low: "h < 16 \<Longrightarrow> l < 16 \<Longrightarrow> (push_bit 4 h OR l) AND 15 = (l :: u8)"
  using nibble_table by (simp_all only: list_all_iff all_nibbles_set mem_Collect_eq)

lemma byte_split:
  "h < 16 \<Longrightarrow> l < 16 \<Longrightarrow> push_bit 4 h OR l = b \<longleftrightarrow> h = drop_bit 4 b \<and> l = (b :: u8) AND 15"
  using nibbles [of b] nibble_high nibble_low by metis

lemma hex_pair_iff:
  "hex_chunks (c0 # c1 # rest) = Some (b # bs) \<longleftrightarrow>
     hex_digit c0 = Some (drop_bit 4 b) \<and> hex_digit c1 = Some (b AND 15)
     \<and> hex_chunks rest = Some bs"
proof -
  have "hex_chunks (c0 # c1 # rest) = Some (b # bs) \<longleftrightarrow>
      (\<exists>hi lo. hex_digit c0 = Some hi \<and> hex_digit c1 = Some lo \<and> push_bit 4 hi OR lo = b)
      \<and> hex_chunks rest = Some bs"
    by (auto split: option.splits)
  then show ?thesis
    by (metis byte_split hex_digit_less nibble_bounds)
qed

lemma hex_chunks_iff:
  "length s mod 2 = 0 \<Longrightarrow> hex_chunks s = Some bs \<longleftrightarrow> map hex_lower s = hex_encode bs"
proof (induction "length s" arbitrary: s bs rule: less_induct)
  case less
  consider "s = []" | c0 c1 rest where "s = c0 # c1 # rest"
    using less.prems by (cases s rule: hex_chunks.cases) auto
  then show ?case
  proof cases
    case 1
    then show ?thesis by (cases bs) (auto simp: hex_encode_def)
  next
    case s: 2
    show ?thesis
    proof (cases bs)
      case Nil
      with s show ?thesis by (auto simp: hex_encode_def split: option.splits)
    next
      case (Cons b bs')
      have "map hex_lower s = hex_encode bs \<longleftrightarrow>
          hex_lower c0 = hex_char (drop_bit 4 b) \<and> hex_lower c1 = hex_char (b AND 15)
          \<and> map hex_lower rest = hex_encode bs'"
        by (simp add: s Cons hex_encode_def)
      also have "\<dots> \<longleftrightarrow> hex_chunks s = Some bs"
        using less.hyps [of rest bs'] less.prems
        by (simp only: s Cons hex_pair_iff) (simp add: hex_digit_iff nibble_bounds)
      finally show ?thesis by blast
    qed
  qed
qed

lemma length_hex_encode: "length (hex_encode bs) = 2 * length bs"
  by (induction bs) (auto simp: hex_encode_def)

text \<open>Hex decoding of signatures accepts exactly the encodings of byte strings, in lower or
  upper case, and returns the bytes encoded; odd lengths and other characters are refused.\<close>

theorem hex_decode_iff: "hex_decode s = Some bs \<longleftrightarrow> map hex_lower s = hex_encode bs"
proof (cases "length s mod 2 = 0")
  case True
  then show ?thesis by (simp add: hex_decode_def hex_chunks_iff)
next
  case False
  then have "map hex_lower s \<noteq> hex_encode bs"
    using length_hex_encode [of bs] by (metis length_map mod_mult_self1_is_0)
  with False show ?thesis by (simp add: hex_decode_def)
qed

section \<open>Acceptance\<close>

text \<open>C25: A trigger request is authenticated exactly when the hook is public, or its bearer
  token (after environment lookup) equals the one presented, or the presented signature decodes
  to bytes that the HMAC verification accepts for the body and the secret.\<close>

theorem verify_ok_iff:
  "verify X auth hs body = AuthOk \<longleftrightarrow>
     (case auth of
        None \<Rightarrow> True
      | Some AuthNone \<Rightarrow> True
      | Some (Bearer t) \<Rightarrow>
          \<exists>tok. resolve_env_ref X t = Some tok
              \<and> hs ''authorization'' = Some (Some (''Bearer '' @ tok))
      | Some (Hmac h Sha256 sc) \<Rightarrow>
          \<exists>secret value sig. resolve_env_ref X sc = Some secret \<and> hs h = Some (Some value)
              \<and> hex_decode (as_bytes (case strip_prefix ''sha256='' value of
                    Some v \<Rightarrow> v | None \<Rightarrow> value)) = Some sig
              \<and> hmac_sha256_verify X secret (as_bytes body) sig)"
proof -
  have bearer: "verify_bearer X t hs = AuthOk \<longleftrightarrow>
      (\<exists>tok. resolve_env_ref X t = Some tok
           \<and> hs ''authorization'' = Some (Some (''Bearer '' @ tok)))" for t
    by (auto simp: verify_bearer_def constant_time_eq_eq as_bytes_inj strip_prefix_Some_iff
        strip_prefix_None_iff prefix_def simp del: strip_prefix.simps
        split: option.splits if_splits)
  have hmac: "verify_hmac X h Sha256 sc hs body = AuthOk \<longleftrightarrow>
      (\<exists>secret value sig. resolve_env_ref X sc = Some secret \<and> hs h = Some (Some value)
         \<and> hex_decode (as_bytes (case strip_prefix ''sha256='' value of
                 Some v \<Rightarrow> v | None \<Rightarrow> value)) = Some sig
         \<and> hmac_sha256_verify X secret (as_bytes body) sig)" for h sc
    by (auto simp: verify_hmac_def Let_def simp del: strip_prefix.simps split: option.splits)
  show ?thesis
  proof (cases auth)
    case (Some a)
    then show ?thesis
    proof (cases a)
      case (Hmac h alg sc)
      with Some show ?thesis by (cases alg) (simp add: verify_def hmac)
    qed (simp_all add: verify_def bearer)
  qed (simp add: verify_def)
qed

end
