(* ===== verification/Models.thy ===== *)
theory Models
  imports Config "HOL-Library.Char_ord" "HOL-Library.List_Lexorder"
begin

text \<open>
  The rows of the database, as \<open>src/models/execution.rs\<close>, \<open>src/models/trigger_attempt.rs\<close>,
  \<open>src/barriers/execution_queue.rs\<close> and the migrations declare them, with the text form of the
  two status types, and the errors of \<open>src/error.rs\<close>. Time stamps are the strings the
  database stores; they are compared as strings, byte by byte, as SQLite compares text.
\<close>

section \<open>Errors\<close>

text \<open>What sqlx reports: a statement that could not be executed, a violated constraint, or no
  row where exactly one was asked for.\<close>

datatype sqlx_error = StatementFailed | UniqueViolation | ForeignKeyViolation | RowNotFound

datatype db_error =
    Sqlx sqlx_error
  | Io string
  | Migration string
  | NotFound string
  | Conflict string
  | Validation string

type_synonym 'a db_result = "db_error + 'a"

section \<open>Executions\<close>

datatype execution_status =
    Pending | PendingApproval | Approved | Rejected | Expired | Running | Success | Failed | TimedOut

definition is_terminal :: "execution_status \<Rightarrow> bool" where
  "is_terminal s \<longleftrightarrow> s \<in> {Success, Failed, TimedOut, Rejected, Expired}"

fun status_text :: "execution_status \<Rightarrow> string" where
  "status_text Pending = ''pending''"
| "status_text PendingApproval = ''pending_approval''"
| "status_text Approved = ''approved''"
| "status_text Rejected = ''rejected''"
| "status_text Expired = ''expired''"
| "status_text Running = ''running''"
| "status_text Success = ''success''"
| "status_text Failed = ''failed''"
| "status_text TimedOut = ''timed_out''"

lemma status_text_inj [simp]: "status_text s = status_text t \<longleftrightarrow> s = t"
  by (cases s; cases t) auto

record execution =
  ex_id :: string
  ex_hook_slug :: string
  ex_triggered_at :: string
  ex_started_at :: "string option"
  ex_completed_at :: "string option"
  ex_status :: execution_status
  ex_exit_code :: "int option"
  ex_log_path :: string
  ex_trigger_source :: string
  ex_request_payload :: string
  ex_retry_count :: nat
  ex_retry_of :: "string option"
  ex_approved_at :: "string option"
  ex_approved_by :: "string option"

record new_execution =
  ne_id :: "string option"
  ne_hook_slug :: string
  ne_log_path :: string
  ne_trigger_source :: string
  ne_request_payload :: string
  ne_retry_of :: "string option"
  ne_status :: "execution_status option"

section \<open>Trigger attempts\<close>

datatype trigger_attempt_status =
    Fired | AuthFailed | ValidationFailed | Filtered | RateLimited | ScheduleSkipped
  | CooldownSkipped | ConcurrencyRejected | AttemptPendingApproval

fun attempt_status_text :: "trigger_attempt_status \<Rightarrow> string" where
  "attempt_status_text Fired = ''fired''"
| "attempt_status_text AuthFailed = ''auth_failed''"
| "attempt_status_text ValidationFailed = ''validation_failed''"
| "attempt_status_text Filtered = ''filtered''"
| "attempt_status_text RateLimited = ''rate_limited''"
| "attempt_status_text ScheduleSkipped = ''schedule_skipped''"
| "attempt_status_text CooldownSkipped = ''cooldown_skipped''"
| "attempt_status_text ConcurrencyRejected = ''concurrency_rejected''"
| "attempt_status_text AttemptPendingApproval = ''pending_approval''"

definition attempt_status_parse :: "string \<Rightarrow> trigger_attempt_status option" where
  "attempt_status_parse s =
     (if s = ''fired'' then Some Fired
      else if s = ''auth_failed'' then Some AuthFailed
      else if s = ''validation_failed'' then Some ValidationFailed
      else if s = ''filtered'' then Some Filtered
      else if s = ''rate_limited'' then Some RateLimited
      else if s = ''schedule_skipped'' then Some ScheduleSkipped
      else if s = ''cooldown_skipped'' then Some CooldownSkipped
      else if s = ''concurrency_rejected'' then Some ConcurrencyRejected
      else if s = ''pending_approval'' then Some AttemptPendingApproval
      else None)"

record trigger_attempt =
  ta_id :: string
  ta_hook_slug :: string
  ta_attempted_at :: string
  ta_source_ip :: string
  ta_status :: trigger_attempt_status
  ta_reason :: string
  ta_execution_id :: "string option"

record new_trigger_attempt =
  nt_hook_slug :: string
  nt_source_ip :: string
  nt_status :: trigger_attempt_status
  nt_reason :: string
  nt_execution_id :: "string option"

section \<open>Counters, locks and queue\<close>

record rate_limit_counter =
  ct_hook_slug :: string
  ct_window_start :: string
  ct_count :: int

record execution_lock =
  lk_hook_slug :: string
  lk_execution_id :: string
  lk_acquired_at :: string

datatype queue_status = Waiting | Ready | QueueExpired

text \<open>An entry leaves the queue once, as ready or as expired.\<close>

instantiation queue_status :: order
begin

definition less_eq_queue_status :: "queue_status \<Rightarrow> queue_status \<Rightarrow> bool" where
  "less_eq_queue_status s t \<longleftrightarrow> s = t \<or> s = Waiting"

definition less_queue_status :: "queue_status \<Rightarrow> queue_status \<Rightarrow> bool" where
  "less_queue_status s t \<longleftrightarrow> s = Waiting \<and> t \<noteq> Waiting"

instance
  by standard (auto simp: less_eq_queue_status_def less_queue_status_def)

end

lemma waiting_least [simp]: "Waiting \<le> s"
  by (simp add: less_eq_queue_status_def)

record queue_row =
  qr_id :: string
  qr_hook_slug :: string
  qr_execution_id :: string
  qr_position :: nat
  qr_queued_at :: string
  qr_status :: queue_status

record queue_entry =
  qe_id :: string
  qe_hook_slug :: string
  qe_execution_id :: string
  qe_position :: nat

text \<open>The text form of a trigger attempt's status round-trips: \<open>parse\<close> reads back exactly
  the texts \<open>Display\<close> writes, and rejects every other text.\<close>

theorem attempt_status_parse_iff:
  "attempt_status_parse s = Some st \<longleftrightarrow> s = attempt_status_text st"
  by (cases st) (auto simp: attempt_status_parse_def)

end
