(* ===== verification/World.thy ===== *)
theory World
  imports Models External "HOL-Library.State_Monad"
begin

text \<open>
  The state the server works on, and the monad of its operations.

  The \<open>world\<close> holds the five tables of the database, the loaded configuration, the log files,
  and what the program has done to the outside: processes spawned, requests sent, delays slept,
  tasks handed to the runtime. What the outside answers comes from streams that are part of the
  world and are read one element at a time: whether the n-th SQL statement or file operation
  fails, the n-th reading of the clock, the n-th UUID, the outcome of the n-th process and of the
  n-th HTTP request. A property quantifies over the world, and so over all of these.

  A statement is atomic: it fails and changes nothing, or it takes effect as a whole.
\<close>

section \<open>What is run\<close>

datatype script_runtime = Direct | RunJavaScript | RunPython

datatype resolved_executor =
    RShell string
  | RScript string script_runtime
  | RHttp http_method string string_map "string option" bool

record execution_context =
  xc_execution_id :: string
  xc_hook_slug :: string
  xc_executor :: resolved_executor
  xc_env :: string_map
  xc_cwd :: "string option"
  xc_timeout :: duration
  xc_logs_dir :: string
  xc_payload_json :: string

record effective_retry_config =
  er_count :: nat
  er_backoff :: backoff_strategy
  er_initial_delay :: duration
  er_max_delay :: duration

record execution_result =
  xr_status :: execution_status
  xr_exit_code :: "int option"
  xr_log_dir :: string

text \<open>A process: the program, its arguments, its whole environment and its directory; and an
  HTTP request.\<close>

record command =
  cm_program :: string
  cm_args :: "string list"
  cm_env :: "string \<Rightarrow> string option"
  cm_cwd :: "string option"

record http_request =
  rq_method :: http_method
  rq_url :: string
  rq_headers :: string_map
  rq_body :: "string option"
  rq_follow_redirects :: bool

text \<open>Outcomes. A process cannot be spawned (with the text of the error, and whether its kind is
  \<open>NotFound\<close>), or it writes its output and exits with a code (none when a signal ended it),
  or waiting for it fails, or the time is over first.\<close>

datatype process_outcome =
    SpawnFailed bool string
  | Exited "int option" string string
  | WaitFailed string string
  | TimeElapsed string string

datatype http_outcome =
    HttpElapsed
  | HttpFailed string
  | HttpResponse nat string nat "(string \<times> string option) list" "string option"

text \<open>An HTTP response has a status code with its text, the elapsed milliseconds, headers (a value
  is missing when it is not UTF-8), and a body, missing when it cannot be read.\<close>

text \<open>Tasks handed to \<open>tokio::spawn\<close>: the body of \<open>trigger_hook\<close>, of \<open>replay_execution\<close> and of
  \<open>approve_execution\<close> with what they captured, and \<open>run_dequeued\<close>.\<close>

datatype task =
    RunTriggered execution_context effective_retry_config hook_config
  | RunReplay execution_context effective_retry_config hook_config
  | RunApproved execution_context effective_retry_config hook_config
  | RunDequeued string string "concurrency_config option" "approval_config option"

section \<open>The world\<close>

record world =
  w_config :: app_config
  w_execs :: "execution list"
  w_attempts :: "trigger_attempt list"
  w_counters :: "rate_limit_counter list"
  w_locks :: "execution_lock list"
  w_queue :: "queue_row list"
  w_files :: "string \<Rightarrow> string option"
  w_tasks :: "task list"
  w_commands :: "command list"
  w_requests :: "http_request list"
  w_sleeps :: "duration list"
  w_fault :: "nat \<Rightarrow> bool"
  w_stmts :: nat
  w_io_fault :: "nat \<Rightarrow> bool"
  w_ios :: nat
  w_clock :: "nat \<Rightarrow> nat"
  w_ticks :: nat
  w_uuids :: "nat \<Rightarrow> string"
  w_next_uuid :: nat
  w_procs :: "nat \<Rightarrow> process_outcome"
  w_responses :: "nat \<Rightarrow> http_outcome"

type_synonym 'a io = "(world, 'a) state"

abbreviation return :: "'a \<Rightarrow> 'a io" where "return \<equiv> State_Monad.return"

definition gets :: "(world \<Rightarrow> 'a) \<Rightarrow> 'a io" where
  "gets f = State (\<lambda>w. (f w, w))"

definition modify :: "(world \<Rightarrow> world) \<Rightarrow> unit io" where
  "modify f = State (\<lambda>w. ((), f w))"

lemma run_gets [simp]: "run_state (gets f) w = (f w, w)"
  by (simp add: gets_def)

lemma run_modify [simp]: "run_state (modify f) w = ((), f w)"
  by (simp add: modify_def)

text \<open>\<open>m?\<close> in a function that returns a \<open>Result\<close>: go on with the value or return the error.\<close>

definition and_then :: "('e + 'a) io \<Rightarrow> ('a \<Rightarrow> ('e + 'b) io) \<Rightarrow> ('e + 'b) io" where
  "and_then m f = do {
     r \<leftarrow> m;
     case r of Inl e \<Rightarrow> return (Inl e) | Inr a \<Rightarrow> f a
   }"

lemma run_and_then [simp]:
  "run_state (and_then m f) w =
     (case run_state m w of (Inl e, w') \<Rightarrow> (Inl e, w') | (Inr a, w') \<Rightarrow> run_state (f a) w')"
  by (simp add: and_then_def split: prod.splits sum.splits)

section \<open>Clock, identifiers, tasks\<close>

definition clock_now :: "nat io" where
  "clock_now = State (\<lambda>w. (w_clock w (w_ticks w), w\<lparr>w_ticks := Suc (w_ticks w)\<rparr>))"

definition now_utc :: "external \<Rightarrow> string io" where
  "now_utc X = do { t \<leftarrow> clock_now; return (fmt_millis X (t div 1000000)) }"

definition new_id :: "string io" where
  "new_id = State (\<lambda>w. (w_uuids w (w_next_uuid w), w\<lparr>w_next_uuid := Suc (w_next_uuid w)\<rparr>))"

definition spawn_task :: "task \<Rightarrow> unit io" where
  "spawn_task t = modify (\<lambda>w. w\<lparr>w_tasks := w_tasks w @ [t]\<rparr>)"

definition sleep :: "duration \<Rightarrow> unit io" where
  "sleep d = modify (\<lambda>w. w\<lparr>w_sleeps := w_sleeps w @ [d]\<rparr>)"

section \<open>Statements\<close>

definition sql :: "(world \<Rightarrow> sqlx_error + 'a \<times> world) \<Rightarrow> 'a db_result io" where
  "sql f = State (\<lambda>w.
     let w1 = w\<lparr>w_stmts := Suc (w_stmts w)\<rparr>
     in if w_fault w (w_stmts w) then (Inl (Sqlx StatementFailed), w1)
        else case f w1 of Inl e \<Rightarrow> (Inl (Sqlx e), w1) | Inr (a, w2) \<Rightarrow> (Inr a, w2))"

definition query :: "(world \<Rightarrow> 'a) \<Rightarrow> 'a db_result io" where
  "query f = sql (\<lambda>w. Inr (f w, w))"

definition update_rows :: "('r \<Rightarrow> bool) \<Rightarrow> ('r \<Rightarrow> 'r) \<Rightarrow> 'r list \<Rightarrow> 'r list" where
  "update_rows p f rows = map (\<lambda>r. if p r then f r else r) rows"

definition update_execs :: "(execution \<Rightarrow> bool) \<Rightarrow> (execution \<Rightarrow> execution) \<Rightarrow> nat db_result io" where
  "update_execs p f = sql (\<lambda>w.
     Inr (length (filter p (w_execs w)), w\<lparr>w_execs := update_rows p f (w_execs w)\<rparr>))"

definition update_queue :: "(queue_row \<Rightarrow> bool) \<Rightarrow> (queue_row \<Rightarrow> queue_row) \<Rightarrow> nat db_result io" where
  "update_queue p f = sql (\<lambda>w.
     Inr (length (filter p (w_queue w)), w\<lparr>w_queue := update_rows p f (w_queue w)\<rparr>))"

text \<open>\<open>ORDER BY key DESC\<close>: rows with equal keys stay in insertion order.\<close>

definition order_desc :: "('r \<Rightarrow> string) \<Rightarrow> 'r list \<Rightarrow> 'r list" where
  "order_desc key rows = rev (sort_key key (rev rows))"

definition limit_offset :: "int \<Rightarrow> int \<Rightarrow> 'r list \<Rightarrow> 'r list" where
  "limit_offset n k rows =
     (let rest = drop (nat k) rows in if n < 0 then rest else take (nat n) rest)"

text \<open>A process and a request.\<close>

definition io_step :: "bool io" where
  "io_step = State (\<lambda>w. (\<not> w_io_fault w (w_ios w), w\<lparr>w_ios := Suc (w_ios w)\<rparr>))"

definition start_process :: "command \<Rightarrow> process_outcome io" where
  "start_process c = State (\<lambda>w.
     (w_procs w (length (w_commands w)), w\<lparr>w_commands := w_commands w @ [c]\<rparr>))"

definition send_request :: "http_request \<Rightarrow> http_outcome io" where
  "send_request r = State (\<lambda>w.
     (w_responses w (length (w_requests w)), w\<lparr>w_requests := w_requests w @ [r]\<rparr>))"

section \<open>A concrete world\<close>

text \<open>For witnesses: empty tables, no failures, a clock that advances by a second with each
  reading, distinct identifiers, processes that succeed and requests that are answered 200.\<close>

definition sample_world :: world where
  "sample_world = \<lparr>
     w_config = sample_config, w_execs = [], w_attempts = [], w_counters = [], w_locks = [],
     w_queue = [], w_files = Map.empty, w_tasks = [], w_commands = [], w_requests = [],
     w_sleeps = [], w_fault = (\<lambda>_. False), w_stmts = 0, w_io_fault = (\<lambda>_. False), w_ios = 0,
     w_clock = (\<lambda>n. n * 1000000000), w_ticks = 0, w_uuids = (\<lambda>n. replicate (Suc n) (CHR ''u'')),
     w_next_uuid = 0, w_procs = (\<lambda>_. Exited (Some 0) ''out'' []),
     w_responses = (\<lambda>_. HttpResponse 200 ''200 OK'' 7 [] (Some ''ok''))\<rparr>"

definition sample_execution :: "string \<Rightarrow> string \<Rightarrow> execution_status \<Rightarrow> execution" where
  "sample_execution i at st = \<lparr>
     ex_id = i, ex_hook_slug = ''deploy'', ex_triggered_at = at, ex_started_at = None,
     ex_completed_at = None, ex_status = st, ex_exit_code = None, ex_log_path = ''logs/'' @ i,
     ex_trigger_source = ''1.2.3.4'', ex_request_payload = ''{}'', ex_retry_count = 0,
     ex_retry_of = None, ex_approved_at = None, ex_approved_by = None\<rparr>"

end
