(* ===== verification/World_Rules.thy ===== *)
theory World_Rules
  imports World
begin

text \<open>
  Reasoning about operations on the world: what running the primitives gives, and a locale for
  relations between the world before and after. A relation that is reflexive and transitive and
  does not look at the streams' positions is kept by an operation when every statement in it
  keeps it; the rules of the locale reduce an operation to its statements.
\<close>

section \<open>Running the primitives\<close>

lemma run_clock_now [simp]:
  "run_state clock_now w = (w_clock w (w_ticks w), w\<lparr>w_ticks := Suc (w_ticks w)\<rparr>)"
  by (simp add: clock_now_def)

lemma run_now_utc [simp]:
  "run_state (now_utc X) w
     = (fmt_millis X (w_clock w (w_ticks w) div 1000000), w\<lparr>w_ticks := Suc (w_ticks w)\<rparr>)"
  by (simp add: now_utc_def)

lemma run_new_id [simp]:
  "run_state new_id w = (w_uuids w (w_next_uuid w), w\<lparr>w_next_uuid := Suc (w_next_uuid w)\<rparr>)"
  by (simp add: new_id_def)

lemma run_spawn_task [simp]:
  "run_state (spawn_task t) w = ((), w\<lparr>w_tasks := w_tasks w @ [t]\<rparr>)"
  by (simp add: spawn_task_def)

lemma run_sleep [simp]: "run_state (sleep d) w = ((), w\<lparr>w_sleeps := w_sleeps w @ [d]\<rparr>)"
  by (simp add: sleep_def)

lemma run_io_step [simp]:
  "run_state io_step w = (\<not> w_io_fault w (w_ios w), w\<lparr>w_ios := Suc (w_ios w)\<rparr>)"
  by (simp add: io_step_def)

lemma run_start_process [simp]:
  "run_state (start_process c) w
     = (w_procs w (length (w_commands w)), w\<lparr>w_commands := w_commands w @ [c]\<rparr>)"
  by (simp add: start_process_def)

lemma run_send_request [simp]:
  "run_state (send_request r) w
     = (w_responses w (length (w_requests w)), w\<lparr>w_requests := w_requests w @ [r]\<rparr>)"
  by (simp add: send_request_def)

lemma run_sql [simp]:
  "run_state (sql f) w =
     (if w_fault w (w_stmts w)
      then (Inl (Sqlx StatementFailed), w\<lparr>w_stmts := Suc (w_stmts w)\<rparr>)
      else case f (w\<lparr>w_stmts := Suc (w_stmts w)\<rparr>) of
             Inl e \<Rightarrow> (Inl (Sqlx e), w\<lparr>w_stmts := Suc (w_stmts w)\<rparr>)
           | Inr (a, w') \<Rightarrow> (Inr a, w'))"
  by (simp add: sql_def Let_def)

lemma run_query [simp]:
  "run_state (query f) w =
     (if w_fault w (w_stmts w) then Inl (Sqlx StatementFailed)
      else Inr (f (w\<lparr>w_stmts := Suc (w_stmts w)\<rparr>)), w\<lparr>w_stmts := Suc (w_stmts w)\<rparr>)"
  by (simp add: query_def)

lemma run_update_execs [simp]:
  "run_state (update_execs p f) w =
     (if w_fault w (w_stmts w)
      then (Inl (Sqlx StatementFailed), w\<lparr>w_stmts := Suc (w_stmts w)\<rparr>)
      else (Inr (length (filter p (w_execs w))),
            w\<lparr>w_stmts := Suc (w_stmts w), w_execs := update_rows p f (w_execs w)\<rparr>))"
  by (simp add: update_execs_def)

lemma run_update_queue [simp]:
  "run_state (update_queue p f) w =
     (if w_fault w (w_stmts w)
      then (Inl (Sqlx StatementFailed), w\<lparr>w_stmts := Suc (w_stmts w)\<rparr>)
      else (Inr (length (filter p (w_queue w))),
            w\<lparr>w_stmts := Suc (w_stmts w), w_queue := update_rows p f (w_queue w)\<rparr>))"
  by (simp add: update_queue_def)

section \<open>Tables\<close>

lemma update_rows_append [simp]:
  "update_rows p f (rows @ rows') = update_rows p f rows @ update_rows p f rows'"
  by (simp add: update_rows_def)

lemma update_rows_Nil [simp]: "update_rows p f [] = []"
  by (simp add: update_rows_def)

lemma update_rows_Cons [simp]:
  "update_rows p f (r # rows) = (if p r then f r else r) # update_rows p f rows"
  by (simp add: update_rows_def)

lemma length_update_rows [simp]: "length (update_rows p f rows) = length rows"
  by (simp add: update_rows_def)

lemma update_rows_none: "(\<And>r. r \<in> set rows \<Longrightarrow> \<not> p r) \<Longrightarrow> update_rows p f rows = rows"
  by (simp add: update_rows_def map_idI)

lemma map_update_rows: "(\<And>r. g (f r) = g r) \<Longrightarrow> map g (update_rows p f rows) = map g rows"
  by (simp add: update_rows_def)

lemma set_update_rows: "set (update_rows p f rows) = (\<lambda>r. if p r then f r else r) ` set rows"
  by (simp add: update_rows_def)

definition find_row :: "('r \<Rightarrow> 'k) \<Rightarrow> 'k \<Rightarrow> 'r list \<Rightarrow> 'r option" where
  "find_row key k rows = List.find (\<lambda>r. key r = k) rows"

lemma find_row_Nil [simp]: "find_row key k [] = None"
  by (simp add: find_row_def)

lemma find_row_Cons [simp]:
  "find_row key k (r # rows) = (if key r = k then Some r else find_row key k rows)"
  by (simp add: find_row_def)

lemma find_row_append:
  "find_row key k (rows @ rows') =
     (case find_row key k rows of Some r \<Rightarrow> Some r | None \<Rightarrow> find_row key k rows')"
  by (induction rows) auto

lemma find_row_None_iff: "find_row key k rows = None \<longleftrightarrow> k \<notin> key ` set rows"
  by (induction rows) auto

lemma find_row_SomeD: "find_row key k rows = Some r \<Longrightarrow> r \<in> set rows \<and> key r = k"
  by (induction rows) (auto split: if_splits)

lemma find_row_Some_iff:
  "distinct (map key rows) \<Longrightarrow> find_row key k rows = Some r \<longleftrightarrow> r \<in> set rows \<and> key r = k"
  by (induction rows) auto

lemma find_row_update:
  assumes "\<And>r. key (f r) = key r"
  shows "find_row key k (update_rows p f rows) =
     map_option (\<lambda>r. if p r then f r else r) (find_row key k rows)"
  using assms by (induction rows) auto

lemma filter_key_unique:
  assumes "distinct (map key rows)" and "find_row key k rows = Some r"
  shows "filter (\<lambda>x. key x = k \<and> p x) rows = (if p r then [r] else [])"
  using assms
proof (induction rows)
  case (Cons x xs)
  show ?case
  proof (cases "key x = k")
    case True
    with Cons.prems have "x = r" "\<And>y. y \<in> set xs \<Longrightarrow> key y \<noteq> k" by (auto simp: image_iff)
    then have "filter (\<lambda>x. key x = k \<and> p x) xs = []" by (simp add: filter_empty_conv)
    with True \<open>x = r\<close> show ?thesis by simp
  qed (use Cons in simp)
qed simp

lemma filter_key_none: "find_row key k rows = None \<Longrightarrow> filter (\<lambda>x. key x = k \<and> p x) rows = []"
  by (auto simp: find_row_None_iff filter_empty_conv)

section \<open>Relations an operation keeps\<close>

locale world_relation =
  fixes R :: "world \<Rightarrow> world \<Rightarrow> bool"
  assumes rel_refl: "R w w"
    and rel_trans: "R u v \<Longrightarrow> R v w \<Longrightarrow> R u w"
    and rel_stmts: "R w (w\<lparr>w_stmts := n\<rparr>)"
    and rel_ticks: "R w (w\<lparr>w_ticks := n\<rparr>)"
    and rel_uuid: "R w (w\<lparr>w_next_uuid := Suc (w_next_uuid w)\<rparr>)"
begin

lemma keeps_return: "state_io_rel R (return x)"
  by (simp add: state_io_rel_def rel_refl)

lemma keeps_gets: "state_io_rel R (gets f)"
  by (simp add: state_io_rel_def rel_refl)

lemma keeps_bind:
  assumes "state_io_rel R m" and "\<And>a. state_io_rel R (f a)"
  shows "state_io_rel R (m \<bind> f)"
  using assms unfolding state_io_rel_def
  by (auto split: prod.splits) (metis rel_trans snd_conv)

lemma keeps_and_then:
  assumes "state_io_rel R m" and "\<And>a. state_io_rel R (f a)"
  shows "state_io_rel R (and_then m f)"
  unfolding and_then_def
  by (rule keeps_bind [OF assms(1)]) (auto split: sum.splits simp: assms(2) keeps_return)

lemma keeps_clock_now: "state_io_rel R clock_now"
  by (simp add: state_io_rel_def rel_ticks)

lemma keeps_now_utc: "state_io_rel R (now_utc X)"
  by (simp add: state_io_rel_def rel_ticks)

lemma keeps_new_id: "state_io_rel R new_id"
  by (simp add: state_io_rel_def rel_uuid)

lemma keeps_query: "state_io_rel R (query f)"
  by (simp add: state_io_rel_def rel_stmts)

lemma keeps_sql:
  assumes "\<And>w a w'. f w = Inr (a, w') \<Longrightarrow> R w w'"
  shows "state_io_rel R (sql f)"
  using assms rel_stmts rel_trans
  by (auto simp: state_io_rel_def split: sum.splits prod.splits) blast

lemma keeps_if: "state_io_rel R m \<Longrightarrow> state_io_rel R n \<Longrightarrow> state_io_rel R (if b then m else n)"
  by simp

lemma keeps_option:
  "state_io_rel R m \<Longrightarrow> (\<And>a. state_io_rel R (f a)) \<Longrightarrow>
     state_io_rel R (case x of None \<Rightarrow> m | Some a \<Rightarrow> f a)"
  by (cases x) auto

lemma keeps_sum:
  "(\<And>e. state_io_rel R (f e)) \<Longrightarrow> (\<And>a. state_io_rel R (g a)) \<Longrightarrow>
     state_io_rel R (case x of Inl e \<Rightarrow> f e | Inr a \<Rightarrow> g a)"
  by (cases x) auto

lemma keeps_prod:
  "(\<And>a b. state_io_rel R (f a b)) \<Longrightarrow> state_io_rel R (case x of (a, b) \<Rightarrow> f a b)"
  by (cases x) auto

lemma keeps_let: "(\<And>a. state_io_rel R (f a)) \<Longrightarrow> state_io_rel R (let a = x in f a)"
  by (simp add: Let_def)

lemma keeps_process_outcome:
  "(\<And>a b. state_io_rel R (f1 a b)) \<Longrightarrow> (\<And>a b c. state_io_rel R (f2 a b c)) \<Longrightarrow>
     (\<And>a b. state_io_rel R (f3 a b)) \<Longrightarrow> (\<And>a b. state_io_rel R (f4 a b)) \<Longrightarrow>
     state_io_rel R (case x of SpawnFailed a b \<Rightarrow> f1 a b | Exited a b c \<Rightarrow> f2 a b c
                             | WaitFailed a b \<Rightarrow> f3 a b | TimeElapsed a b \<Rightarrow> f4 a b)"
  by (cases x) auto

lemma keeps_resolved_executor:
  "(\<And>a. state_io_rel R (f1 a)) \<Longrightarrow> (\<And>a b. state_io_rel R (f2 a b)) \<Longrightarrow>
     (\<And>a b c d e. state_io_rel R (f3 a b c d e)) \<Longrightarrow>
     state_io_rel R (case x of RShell a \<Rightarrow> f1 a | RScript a b \<Rightarrow> f2 a b
                             | RHttp a b c d e \<Rightarrow> f3 a b c d e)"
  by (cases x) auto

lemma keeps_http_outcome:
  "state_io_rel R m \<Longrightarrow> (\<And>a. state_io_rel R (f1 a)) \<Longrightarrow>
     (\<And>a b c d e. state_io_rel R (f2 a b c d e)) \<Longrightarrow>
     state_io_rel R (case x of HttpElapsed \<Rightarrow> m | HttpFailed a \<Rightarrow> f1 a
                             | HttpResponse a b c d e \<Rightarrow> f2 a b c d e)"
  by (cases x) auto

lemmas keeps_basic =
  keeps_return keeps_gets keeps_bind keeps_and_then keeps_clock_now keeps_now_utc keeps_new_id
  keeps_query keeps_if keeps_option keeps_sum keeps_prod keeps_let
  keeps_process_outcome keeps_resolved_executor keeps_http_outcome

end

text \<open>No statement fails.\<close>

definition no_faults :: "world \<Rightarrow> bool" where
  "no_faults w \<longleftrightarrow> (\<forall>n. \<not> w_fault w n)"

lemma no_faultsD [dest]: "no_faults w \<Longrightarrow> \<not> w_fault w n"
  by (simp add: no_faults_def)

end
