(* ===== verification/History.thy ===== *)
theory History
  imports World_Rules
begin

text \<open>
  The history the database keeps: every row of the table of executions stays where it is with
  its identity (id, hook, time, log path, source, payload, origin), every trigger attempt stays as
  it was written, and an entry of the queue only ever leaves it; new rows are only added at the end.
  What the handlers do also keeps the configuration. The relation is an instance of
  \<open>world_relation\<close>; the collection \<open>history_intros\<close> reduces an operation to its statements, and
  each component adds its own operations to it.
\<close>

named_theorems history_intros \<open>operations that keep the history\<close>

definition identity :: "execution \<Rightarrow> string \<times> string \<times> string \<times> string \<times> string \<times> string \<times> string option" where
  "identity e = (ex_id e, ex_hook_slug e, ex_triggered_at e, ex_log_path e, ex_trigger_source e,
                 ex_request_payload e, ex_retry_of e)"

definition entry_key :: "queue_row \<Rightarrow> string \<times> string \<times> string \<times> nat \<times> string" where
  "entry_key q = (qr_id q, qr_hook_slug q, qr_execution_id q, qr_position q, qr_queued_at q)"

definition queue_advances :: "queue_row list \<Rightarrow> queue_row list \<Rightarrow> bool" where
  "queue_advances qs qs' \<longleftrightarrow> length qs \<le> length qs'
     \<and> (\<forall>k < length qs. entry_key (qs' ! k) = entry_key (qs ! k) \<and> qr_status (qs ! k) \<le> qr_status (qs' ! k))"

lemma queue_advances_refl [simp]: "queue_advances qs qs"
  by (simp add: queue_advances_def)

lemma queue_advances_trans: "queue_advances qs rs \<Longrightarrow> queue_advances rs ts \<Longrightarrow> queue_advances qs ts"
  by (auto simp: queue_advances_def) (meson less_le_trans order.trans)

lemma queue_advances_append [simp]: "queue_advances qs (qs @ new)"
  by (simp add: queue_advances_def nth_append)

lemma queue_advances_update:
  assumes "\<And>q. p q \<Longrightarrow> entry_key (f q) = entry_key q \<and> qr_status q \<le> qr_status (f q)"
  shows "queue_advances qs (update_rows p f qs)"
  using assms by (simp add: queue_advances_def update_rows_def)

lemma entry_key_update [simp]: "entry_key (q\<lparr>qr_status := s\<rparr>) = entry_key q"
  by (simp add: entry_key_def)

definition past_kept :: "world \<Rightarrow> world \<Rightarrow> bool" where
  "past_kept w w' \<longleftrightarrow>
     prefix (map identity (w_execs w)) (map identity (w_execs w'))
     \<and> prefix (w_attempts w) (w_attempts w') \<and> queue_advances (w_queue w) (w_queue w')"

definition history_kept :: "world \<Rightarrow> world \<Rightarrow> bool" where
  "history_kept w w' \<longleftrightarrow>
     prefix (map identity (w_execs w)) (map identity (w_execs w'))
     \<and> prefix (w_attempts w) (w_attempts w') \<and> queue_advances (w_queue w) (w_queue w')
     \<and> w_config w' = w_config w"

lemma history_past: "history_kept w w' \<longleftrightarrow> past_kept w w' \<and> w_config w' = w_config w"
  by (auto simp: history_kept_def past_kept_def)

lemma past_kept_trans: "past_kept u v \<Longrightarrow> past_kept v w \<Longrightarrow> past_kept u w"
  by (auto simp: past_kept_def intro: prefix_order.trans queue_advances_trans)

lemma history_keptI:
  "w_execs w' = w_execs w \<Longrightarrow> w_attempts w' = w_attempts w \<Longrightarrow> w_queue w' = w_queue w \<Longrightarrow>
   w_config w' = w_config w \<Longrightarrow> history_kept w w'"
  by (simp add: history_kept_def)

interpretation history: world_relation history_kept
proof
  show "history_kept w w" for w by (simp add: history_kept_def)
  show "history_kept u w" if "history_kept u v" "history_kept v w" for u v w
    using that by (auto simp: history_kept_def intro: prefix_order.trans queue_advances_trans)
qed (simp_all add: history_kept_def)

lemmas [history_intros] = history.keeps_basic

lemma history_modify [history_intros]:
  "(\<And>w. history_kept w (f w)) \<Longrightarrow> state_io_rel history_kept (modify f)"
  by (simp add: state_io_rel_def)

lemma history_update_execs [history_intros]:
  assumes "\<And>e. identity (f e) = identity e"
  shows "state_io_rel history_kept (update_execs p f)"
  by (auto simp: state_io_rel_def history_kept_def map_update_rows [where g = identity, OF assms])

lemma history_update_queue [history_intros]:
  assumes "\<And>q. p q \<Longrightarrow> entry_key (f q) = entry_key q \<and> qr_status q \<le> qr_status (f q)"
  shows "state_io_rel history_kept (update_queue p f)"
  using queue_advances_update [of p f, OF assms] by (auto simp: state_io_rel_def history_kept_def)

lemma history_spawn [history_intros]: "state_io_rel history_kept (spawn_task t)"
  by (simp add: state_io_rel_def history_kept_def)

lemma history_sleep [history_intros]: "state_io_rel history_kept (sleep d)"
  by (simp add: state_io_rel_def history_kept_def)

lemma history_io_step [history_intros]: "state_io_rel history_kept io_step"
  by (simp add: state_io_rel_def history_kept_def)

lemma history_start_process [history_intros]: "state_io_rel history_kept (start_process c)"
  by (simp add: state_io_rel_def history_kept_def)

lemma history_send_request [history_intros]: "state_io_rel history_kept (send_request r)"
  by (simp add: state_io_rel_def history_kept_def)

lemma identity_update [simp]:
  "identity (e\<lparr>ex_status := s\<rparr>) = identity e"
  "identity (e\<lparr>ex_started_at := t\<rparr>) = identity e"
  "identity (e\<lparr>ex_completed_at := t\<rparr>) = identity e"
  "identity (e\<lparr>ex_exit_code := c\<rparr>) = identity e"
  "identity (e\<lparr>ex_retry_count := n\<rparr>) = identity e"
  "identity (e\<lparr>ex_approved_at := t\<rparr>) = identity e"
  "identity (e\<lparr>ex_approved_by := b\<rparr>) = identity e"
  by (simp_all add: identity_def)

end
