(* ===== verification/Attempt_Model.thy ===== *)
theory Attempt_Model
  imports History
begin

text \<open>\<open>src/models/trigger_attempt.rs\<close>: the audit log of trigger attempts.\<close>

definition attempt_row :: "string \<Rightarrow> string \<Rightarrow> new_trigger_attempt \<Rightarrow> trigger_attempt" where
  "attempt_row aid attempted_at new =
     \<lparr>ta_id = aid, ta_hook_slug = nt_hook_slug new, ta_attempted_at = attempted_at,
      ta_source_ip = nt_source_ip new, ta_status = nt_status new, ta_reason = nt_reason new,
      ta_execution_id = nt_execution_id new\<rparr>"

definition insert_attempt_row :: "trigger_attempt \<Rightarrow> unit db_result io" where
  "insert_attempt_row row = sql (\<lambda>w.
     if ta_id row \<in> ta_id ` set (w_attempts w) then Inl UniqueViolation
     else if \<not> set_option (ta_execution_id row) \<subseteq> ex_id ` set (w_execs w) then Inl ForeignKeyViolation
     else Inr ((), w\<lparr>w_attempts := w_attempts w @ [row]\<rparr>))"

definition attempt_get_by_id :: "string \<Rightarrow> trigger_attempt db_result io" where
  "attempt_get_by_id aid =
     and_then (query (\<lambda>w. find_row ta_id aid (w_attempts w)))
       (\<lambda>row. case row of Some a \<Rightarrow> return (Inr a)
                        | None \<Rightarrow> return (Inl (NotFound (''trigger_attempt '' @ aid))))"

definition attempt_insert :: "external \<Rightarrow> new_trigger_attempt \<Rightarrow> trigger_attempt db_result io" where
  "attempt_insert X new = do {
     aid \<leftarrow> new_id;
     attempted_at \<leftarrow> now_utc X;
     and_then (insert_attempt_row (attempt_row aid attempted_at new))
       (\<lambda>_. attempt_get_by_id aid)
   }"

definition attempt_list_by_hook :: "string \<Rightarrow> int \<Rightarrow> int \<Rightarrow> trigger_attempt list db_result io" where
  "attempt_list_by_hook slug limit offset =
     query (\<lambda>w. limit_offset limit offset
       (order_desc ta_attempted_at (filter (\<lambda>a. ta_hook_slug a = slug) (w_attempts w))))"

definition attempt_list_by_hook_filtered :: "string \<Rightarrow> trigger_attempt_status \<Rightarrow> int \<Rightarrow> int
    \<Rightarrow> trigger_attempt list db_result io" where
  "attempt_list_by_hook_filtered slug status limit offset =
     query (\<lambda>w. limit_offset limit offset (order_desc ta_attempted_at
       (filter (\<lambda>a. ta_hook_slug a = slug
                    \<and> attempt_status_text (ta_status a) = attempt_status_text status) (w_attempts w))))"

definition attempt_count_by_hook :: "string \<Rightarrow> int db_result io" where
  "attempt_count_by_hook slug =
     query (\<lambda>w. int (length (filter (\<lambda>a. ta_hook_slug a = slug) (w_attempts w))))"

definition attempt_count_by_hook_filtered :: "string \<Rightarrow> trigger_attempt_status option
    \<Rightarrow> int db_result io" where
  "attempt_count_by_hook_filtered slug status =
     (case status of
        None \<Rightarrow> attempt_count_by_hook slug
      | Some s \<Rightarrow> query (\<lambda>w. int (length (filter (\<lambda>a. ta_hook_slug a = slug
            \<and> attempt_status_text (ta_status a) = attempt_status_text s) (w_attempts w)))))"

definition attempt_list_recent :: "int \<Rightarrow> trigger_attempt list db_result io" where
  "attempt_list_recent limit =
     query (\<lambda>w. limit_offset limit 0 (order_desc ta_attempted_at (w_attempts w)))"

section \<open>Lemmas\<close>

lemma run_attempt_get_by_id [simp]:
  "run_state (attempt_get_by_id i) w =
     (if w_fault w (w_stmts w) then Inl (Sqlx StatementFailed)
      else case find_row ta_id i (w_attempts w) of
             Some a \<Rightarrow> Inr a | None \<Rightarrow> Inl (NotFound (''trigger_attempt '' @ i)),
      w\<lparr>w_stmts := Suc (w_stmts w)\<rparr>)"
  by (simp add: attempt_get_by_id_def split: option.splits)

text \<open>The fresh identifier and the reference of a new attempt are acceptable.\<close>

definition attempt_acceptable :: "new_trigger_attempt \<Rightarrow> world \<Rightarrow> bool" where
  "attempt_acceptable new w \<longleftrightarrow>
     w_uuids w (w_next_uuid w) \<notin> ta_id ` set (w_attempts w)
     \<and> set_option (nt_execution_id new) \<subseteq> ex_id ` set (w_execs w)"

lemma attempt_insert_world:
  "snd (run_state (attempt_insert X new) w) =
     (let row = attempt_row (w_uuids w (w_next_uuid w))
                  (fmt_millis X (w_clock w (w_ticks w) div 1000000)) new;
          ok = (\<not> w_fault w (w_stmts w) \<and> attempt_acceptable new w)
      in w\<lparr>w_next_uuid := Suc (w_next_uuid w), w_ticks := Suc (w_ticks w),
           w_stmts := (if ok then w_stmts w + 2 else Suc (w_stmts w)),
           w_attempts := (if ok then w_attempts w @ [row] else w_attempts w)\<rparr>)"
  by (auto simp: attempt_insert_def insert_attempt_row_def attempt_acceptable_def attempt_row_def
      Let_def split: option.splits)

lemma history_attempt_insert [history_intros]: "state_io_rel history_kept (attempt_insert X new)"
  unfolding attempt_insert_def insert_attempt_row_def attempt_get_by_id_def
  by (intro history_intros history.keeps_sql) (auto simp: history_kept_def split: if_splits)

text \<open>An attempt is logged faithfully: with no failing statement, a fresh identifier and a
  reference to an existing execution, \<open>insert\<close> adds exactly one row at the end of the log,
  returns that row, and the row carries the hook, source, status, reason and execution it was
  given.\<close>

theorem attempt_insert_logs:
  assumes "no_faults w" and "attempt_acceptable new w"
  shows "\<exists>a. fst (run_state (attempt_insert X new) w) = Inr a
           \<and> w_attempts (snd (run_state (attempt_insert X new) w)) = w_attempts w @ [a]
           \<and> w_execs (snd (run_state (attempt_insert X new) w)) = w_execs w
           \<and> (ta_hook_slug a, ta_source_ip a, ta_status a, ta_reason a, ta_execution_id a)
             = (nt_hook_slug new, nt_source_ip new, nt_status new, nt_reason new, nt_execution_id new)"
proof -
  have "find_row ta_id (w_uuids w (w_next_uuid w)) (w_attempts w) = None"
    using assms(2) by (simp add: attempt_acceptable_def find_row_None_iff)
  with assms show ?thesis
    by (simp add: attempt_insert_def insert_attempt_row_def attempt_acceptable_def no_faults_def
        attempt_row_def find_row_append)
qed

theorem attempt_insert_logs_witness:
  "\<exists>a. w_attempts (snd (run_state (attempt_insert sample_external
      \<lparr>nt_hook_slug = ''deploy'', nt_source_ip = ''1.2.3.4'', nt_status = Filtered,
       nt_reason = ''no'', nt_execution_id = None\<rparr>) sample_world)) = [a]
      \<and> ta_reason a = ''no''"
proof -
  let ?new = "\<lparr>nt_hook_slug = ''deploy'', nt_source_ip = ''1.2.3.4'', nt_status = Filtered,
       nt_reason = ''no'', nt_execution_id = None\<rparr>"
  have "no_faults sample_world" "attempt_acceptable ?new sample_world"
    by (simp_all add: no_faults_def sample_world_def attempt_acceptable_def)
  from attempt_insert_logs [OF this, of sample_external] show ?thesis
    by (auto simp: sample_world_def)
qed

end
