(* ===== verification/Execution_Model.thy ===== *)
theory Execution_Model
  imports History "HOL-Library.Multiset"
begin

text \<open>
  \<open>src/models/execution.rs\<close>: the queries and status transitions on the table of executions.
  Every function is one statement, or a statement and a read back; a transition is an
  \<open>UPDATE\<close> guarded by the status it starts from, whose number of affected rows decides.
\<close>

section \<open>Creating and reading\<close>

definition new_row :: "string \<Rightarrow> string \<Rightarrow> new_execution \<Rightarrow> execution" where
  "new_row eid triggered_at new =
     \<lparr>ex_id = eid, ex_hook_slug = ne_hook_slug new, ex_triggered_at = triggered_at,
      ex_started_at = None, ex_completed_at = None,
      ex_status = (case ne_status new of Some s \<Rightarrow> s | None \<Rightarrow> Pending),
      ex_exit_code = None, ex_log_path = ne_log_path new,
      ex_trigger_source = ne_trigger_source new, ex_request_payload = ne_request_payload new,
      ex_retry_count = 0, ex_retry_of = ne_retry_of new, ex_approved_at = None,
      ex_approved_by = None\<rparr>"

definition insert_execution :: "execution \<Rightarrow> unit db_result io" where
  "insert_execution row = sql (\<lambda>w.
     if ex_id row \<in> ex_id ` set (w_execs w) then Inl UniqueViolation
     else if \<not> set_option (ex_retry_of row) \<subseteq> ex_id ` set (w_execs w) then Inl ForeignKeyViolation
     else Inr ((), w\<lparr>w_execs := w_execs w @ [row]\<rparr>))"

definition execution_get_by_id :: "string \<Rightarrow> execution db_result io" where
  "execution_get_by_id eid =
     and_then (query (\<lambda>w. find_row ex_id eid (w_execs w)))
       (\<lambda>row. case row of Some e \<Rightarrow> return (Inr e)
                        | None \<Rightarrow> return (Inl (NotFound (''execution '' @ eid))))"

definition execution_create :: "external \<Rightarrow> new_execution \<Rightarrow> execution db_result io" where
  "execution_create X new = do {
     eid \<leftarrow> (case ne_id new of Some i \<Rightarrow> return i | None \<Rightarrow> new_id);
     triggered_at \<leftarrow> now_utc X;
     and_then (insert_execution (new_row eid triggered_at new))
       (\<lambda>_. execution_get_by_id eid)
   }"

section \<open>Transitions\<close>

text \<open>The tail of a guarded update: no affected row is a conflict.\<close>

definition require_affected :: "nat db_result io \<Rightarrow> string \<Rightarrow> unit db_result io" where
  "require_affected m msg =
     and_then m (\<lambda>n. return (if n = 0 then Inl (Conflict msg) else Inr ()))"

definition mark_running :: "external \<Rightarrow> string \<Rightarrow> unit db_result io" where
  "mark_running X eid = do {
     started_at \<leftarrow> now_utc X;
     require_affected
       (update_execs (\<lambda>e. ex_id e = eid \<and> ex_status e = Pending)
          (\<lambda>e. e\<lparr>ex_status := Running, ex_started_at := Some started_at\<rparr>))
       (''execution '' @ eid @ '' is not in pending status'')
   }"

definition mark_completed :: "external \<Rightarrow> string \<Rightarrow> execution_status \<Rightarrow> int option
    \<Rightarrow> unit db_result io" where
  "mark_completed X eid status exit_code = do {
     completed_at \<leftarrow> now_utc X;
     require_affected
       (update_execs (\<lambda>e. ex_id e = eid \<and> ex_status e = Running)
          (\<lambda>e. e\<lparr>ex_status := status, ex_completed_at := Some completed_at,
                 ex_exit_code := exit_code\<rparr>))
       (''execution '' @ eid @ '' is not in running status'')
   }"

definition increment_retry_count :: "string \<Rightarrow> unit db_result io" where
  "increment_retry_count eid =
     and_then (update_execs (\<lambda>e. ex_id e = eid) (\<lambda>e. e\<lparr>ex_retry_count := Suc (ex_retry_count e)\<rparr>))
       (\<lambda>_. return (Inr ()))"

definition mark_approved :: "external \<Rightarrow> string \<Rightarrow> string \<Rightarrow> execution db_result io" where
  "mark_approved X eid approved_by = do {
     approved_at \<leftarrow> now_utc X;
     and_then
       (require_affected
          (update_execs (\<lambda>e. ex_id e = eid \<and> ex_status e = PendingApproval)
             (\<lambda>e. e\<lparr>ex_status := Approved, ex_approved_at := Some approved_at,
                    ex_approved_by := Some approved_by\<rparr>))
          (''execution '' @ eid @ '' is not in pending_approval status''))
       (\<lambda>_. execution_get_by_id eid)
   }"

definition mark_rejected :: "external \<Rightarrow> string \<Rightarrow> string \<Rightarrow> execution db_result io" where
  "mark_rejected X eid rejected_by = do {
     completed_at \<leftarrow> now_utc X;
     and_then
       (require_affected
          (update_execs (\<lambda>e. ex_id e = eid \<and> ex_status e = PendingApproval)
             (\<lambda>e. e\<lparr>ex_status := Rejected, ex_completed_at := Some completed_at,
                    ex_approved_at := Some completed_at, ex_approved_by := Some rejected_by\<rparr>))
          (''execution '' @ eid @ '' is not in pending_approval status''))
       (\<lambda>_. execution_get_by_id eid)
   }"

definition mark_expired :: "external \<Rightarrow> string \<Rightarrow> unit db_result io" where
  "mark_expired X eid = do {
     completed_at \<leftarrow> now_utc X;
     and_then
       (update_execs (\<lambda>e. ex_id e = eid \<and> ex_status e = PendingApproval)
          (\<lambda>e. e\<lparr>ex_status := Expired, ex_completed_at := Some completed_at\<rparr>))
       (\<lambda>_. return (Inr ()))
   }"

definition mark_pending_approval :: "string \<Rightarrow> unit db_result io" where
  "mark_pending_approval eid =
     require_affected
       (update_execs (\<lambda>e. ex_id e = eid \<and> ex_status e = Pending)
          (\<lambda>e. e\<lparr>ex_status := PendingApproval\<rparr>))
       (''execution '' @ eid @ '' is not in pending status'')"

section \<open>Lists and counts\<close>

definition get_latest_started_by_hook :: "string \<Rightarrow> execution option db_result io" where
  "get_latest_started_by_hook slug =
     query (\<lambda>w. case order_desc (the \<circ> ex_started_at)
                       (filter (\<lambda>e. ex_hook_slug e = slug \<and> ex_started_at e \<noteq> None) (w_execs w)) of
                  [] \<Rightarrow> None | e # _ \<Rightarrow> Some e)"

definition execution_list_by_hook :: "string \<Rightarrow> int \<Rightarrow> int \<Rightarrow> execution list db_result io" where
  "execution_list_by_hook slug limit offset =
     query (\<lambda>w. limit_offset limit offset
       (order_desc ex_triggered_at (filter (\<lambda>e. ex_hook_slug e = slug) (w_execs w))))"

definition execution_list_recent :: "int \<Rightarrow> execution list db_result io" where
  "execution_list_recent limit =
     query (\<lambda>w. limit_offset limit 0 (order_desc ex_triggered_at (w_execs w)))"

definition get_latest_by_hook :: "string \<Rightarrow> execution option db_result io" where
  "get_latest_by_hook slug =
     query (\<lambda>w. case order_desc ex_triggered_at (filter (\<lambda>e. ex_hook_slug e = slug) (w_execs w)) of
                  [] \<Rightarrow> None | e # _ \<Rightarrow> Some e)"

definition list_recent_by_hook :: "string \<Rightarrow> int \<Rightarrow> execution list db_result io" where
  "list_recent_by_hook slug limit =
     query (\<lambda>w. limit_offset limit 0
       (order_desc ex_triggered_at (filter (\<lambda>e. ex_hook_slug e = slug) (w_execs w))))"

definition execution_count_by_hook :: "string \<Rightarrow> int db_result io" where
  "execution_count_by_hook slug =
     query (\<lambda>w. int (length (filter (\<lambda>e. ex_hook_slug e = slug) (w_execs w))))"

record execution_filters =
  xf_status :: "string option"
  xf_from_date :: "string option"
  xf_to_date :: "string option"

definition list_by_status :: "string \<Rightarrow> string \<Rightarrow> int \<Rightarrow> int \<Rightarrow> execution list db_result io" where
  "list_by_status slug s limit offset =
     query (\<lambda>w. limit_offset limit offset (order_desc ex_triggered_at
       (filter (\<lambda>e. ex_hook_slug e = slug \<and> status_text (ex_status e) = s) (w_execs w))))"

text \<open>\<open>as usize\<close> of an \<open>i64\<close>.\<close>

definition as_usize :: "int \<Rightarrow> nat" where "as_usize i = nat (i mod 2 ^ 64)"

definition in_date_range :: "string option \<Rightarrow> string option \<Rightarrow> execution \<Rightarrow> bool" where
  "in_date_range from_date to_date e =
     (if (case from_date of Some f \<Rightarrow> ex_triggered_at e < f | None \<Rightarrow> False) then False
      else case to_date of
             Some t \<Rightarrow> \<not> take (min (length t) (length (ex_triggered_at e))) (ex_triggered_at e) > t
           | None \<Rightarrow> True)"

definition execution_list_by_hook_filtered :: "string \<Rightarrow> execution_filters \<Rightarrow> int \<Rightarrow> int
    \<Rightarrow> execution list db_result io" where
  "execution_list_by_hook_filtered slug filters limit offset =
     (case (xf_status filters, xf_from_date filters, xf_to_date filters) of
        (None, None, None) \<Rightarrow> execution_list_by_hook slug limit offset
      | (Some s, None, None) \<Rightarrow> list_by_status slug s limit offset
      | (status, from_date, to_date) \<Rightarrow>
          and_then
            (case status of
               Some s \<Rightarrow> list_by_status slug s (limit + offset) 0
             | None \<Rightarrow> execution_list_by_hook slug (limit + offset) 0)
            (\<lambda>candidates. return (Inr
               (take (as_usize limit) (drop (as_usize offset)
                  (filter (in_date_range from_date to_date) candidates))))))"

definition execution_count_by_hook_filtered :: "string \<Rightarrow> execution_filters \<Rightarrow> int db_result io" where
  "execution_count_by_hook_filtered slug filters =
     (case (xf_status filters, xf_from_date filters, xf_to_date filters) of
        (None, None, None) \<Rightarrow> execution_count_by_hook slug
      | (Some s, None, None) \<Rightarrow>
          query (\<lambda>w. int (length (filter
            (\<lambda>e. ex_hook_slug e = slug \<and> status_text (ex_status e) = s) (w_execs w))))
      | (status, from_date, to_date) \<Rightarrow>
          and_then
            (execution_list_by_hook_filtered slug
               \<lparr>xf_status = status, xf_from_date = from_date, xf_to_date = to_date\<rparr>
               (int (i64_max div 2)) 0)
            (\<lambda>rows. return (Inr (int (length rows)))))"

definition list_pending_approval :: "execution list db_result io" where
  "list_pending_approval =
     query (\<lambda>w. order_desc ex_triggered_at
       (filter (\<lambda>e. ex_status e = PendingApproval) (w_execs w)))"

section \<open>What a transition does\<close>

definition find_exec :: "string \<Rightarrow> world \<Rightarrow> execution option" where
  "find_exec i w = find_row ex_id i (w_execs w)"

definition status_of :: "string \<Rightarrow> world \<Rightarrow> execution_status option" where
  "status_of i w = map_option ex_status (find_exec i w)"

definition exec_ids_distinct :: "world \<Rightarrow> bool" where
  "exec_ids_distinct w \<longleftrightarrow> distinct (map ex_id (w_execs w))"

text \<open>The row \<open>i\<close> went from one status to another, and no other row changed.\<close>

definition moved :: "execution_status \<Rightarrow> execution_status \<Rightarrow> string \<Rightarrow> world \<Rightarrow> world \<Rightarrow> bool" where
  "moved s t i w w' \<longleftrightarrow>
     status_of i w = Some s \<and> status_of i w' = Some t
     \<and> (\<forall>j. j \<noteq> i \<longrightarrow> find_exec j w' = find_exec j w)
     \<and> map ex_id (w_execs w') = map ex_id (w_execs w)"

lemma run_execution_get_by_id [simp]:
  "run_state (execution_get_by_id i) w =
     (if w_fault w (w_stmts w) then Inl (Sqlx StatementFailed)
      else case find_exec i w of Some e \<Rightarrow> Inr e | None \<Rightarrow> Inl (NotFound (''execution '' @ i)),
      w\<lparr>w_stmts := Suc (w_stmts w)\<rparr>)"
  by (simp add: execution_get_by_id_def find_exec_def split: option.splits)

lemma run_require_affected [simp]:
  "run_state (require_affected m msg) w =
     (case run_state m w of
        (Inl e, w') \<Rightarrow> (Inl e, w')
      | (Inr n, w') \<Rightarrow> (if n = 0 then Inl (Conflict msg) else Inr (), w'))"
  by (simp add: require_affected_def split: prod.splits sum.splits)

lemma find_exec_cong [simp]:
  "find_exec i (w\<lparr>w_stmts := n\<rparr>) = find_exec i w"
  "find_exec i (w\<lparr>w_ticks := n\<rparr>) = find_exec i w"
  by (simp_all add: find_exec_def)

lemma guarded_update:
  assumes ids: "distinct (map ex_id rows)" and f: "\<And>e. ex_id (f e) = ex_id e"
  shows "length (filter (\<lambda>e. ex_id e = i \<and> ex_status e = s) rows)
           = (if map_option ex_status (find_row ex_id i rows) = Some s then 1 else 0)"
    and "find_row ex_id j (update_rows (\<lambda>e. ex_id e = i \<and> ex_status e = s) f rows)
           = (if j = i \<and> map_option ex_status (find_row ex_id i rows) = Some s
              then map_option f (find_row ex_id i rows) else find_row ex_id j rows)"
proof -
  show "length (filter (\<lambda>e. ex_id e = i \<and> ex_status e = s) rows)
           = (if map_option ex_status (find_row ex_id i rows) = Some s then 1 else 0)"
  proof (cases "find_row ex_id i rows")
    case None
    then show ?thesis by (simp add: filter_key_none)
  next
    case (Some e)
    then show ?thesis by (simp add: filter_key_unique [OF ids Some])
  qed
  show "find_row ex_id j (update_rows (\<lambda>e. ex_id e = i \<and> ex_status e = s) f rows)
           = (if j = i \<and> map_option ex_status (find_row ex_id i rows) = Some s
              then map_option f (find_row ex_id i rows) else find_row ex_id j rows)"
    using find_row_SomeD [of ex_id j rows]
    by (cases "find_row ex_id j rows") (auto simp: find_row_update [where key = ex_id, OF f])
qed

lemma guarded_transition_run:
  assumes "exec_ids_distinct w" and f: "\<And>e. ex_id (f e) = ex_id e" "\<And>e. ex_status (f e) = t"
    and w1: "w_execs w1 = w_execs w"
    and "run_state (require_affected
           (update_execs (\<lambda>e. ex_id e = i \<and> ex_status e = s) f) msg) w1 = (r, w')"
  shows "(w_execs w' = w_execs w \<and> isl r) \<or> (moved s t i w w' \<and> r = Inr ())"
proof (cases "w_fault w1 (w_stmts w1)")
  case True
  with assms show ?thesis by auto
next
  case False
  note ids = assms(1) [unfolded exec_ids_distinct_def]
  note g = guarded_update [OF ids f(1)]
  have run: "r = (if status_of i w = Some s then Inr () else Inl (Conflict msg))"
      "w_execs w' = update_rows (\<lambda>e. ex_id e = i \<and> ex_status e = s) f (w_execs w)"
    using assms(5) False by (auto simp: w1 g(1) status_of_def find_exec_def split: if_splits)
  show ?thesis
  proof (cases "status_of i w = Some s")
    case True
    then have "moved s t i w w'"
      by (auto simp: moved_def status_of_def find_exec_def run g(2) map_update_rows f option.map_comp)
    with True run show ?thesis by simp
  next
    case False
    have "update_rows (\<lambda>e. ex_id e = i \<and> ex_status e = s) f (w_execs w) = w_execs w"
    proof (rule update_rows_none)
      fix e assume "e \<in> set (w_execs w)"
      then show "\<not> (ex_id e = i \<and> ex_status e = s)"
        using False by (auto simp: status_of_def find_exec_def find_row_Some_iff [OF ids])
    qed
    with run False show ?thesis by simp
  qed
qed

section \<open>Guarded transitions as an interface\<close>

text \<open>What the callers rely on: the operation either leaves the table of executions alone and
  reports an error, or it moves the row from the source to the target status.\<close>

locale guarded_transition =
  fixes op :: "string \<Rightarrow> 'a db_result io" and source target :: execution_status
  assumes op_cases: "exec_ids_distinct w \<Longrightarrow> run_state (op i) w = (r, w') \<Longrightarrow>
      (w_execs w' = w_execs w \<and> isl r) \<or> moved source target i w w'"
begin

lemma ids_kept:
  "exec_ids_distinct w \<Longrightarrow> run_state (op i) w = (r, w') \<Longrightarrow> exec_ids_distinct w'"
  using op_cases by (fastforce simp: exec_ids_distinct_def moved_def)

lemma success:
  "exec_ids_distinct w \<Longrightarrow> run_state (op i) w = (Inr a, w') \<Longrightarrow> moved source target i w w'"
  using op_cases by fastforce

lemma refused:
  assumes "exec_ids_distinct w" and "run_state (op i) w = (r, w')" and "status_of i w \<noteq> Some source"
  shows "isl r \<and> w_execs w' = w_execs w"
  using op_cases [OF assms(1,2)] assms(3) by (auto simp: moved_def)

end

text \<open>Two transitions out of the same status: when one has succeeded, the other is refused.\<close>

locale competing_transitions =
  first: guarded_transition op\<^sub>1 source target\<^sub>1 + second: guarded_transition op\<^sub>2 source target\<^sub>2
  for op\<^sub>1 :: "string \<Rightarrow> 'a db_result io" and op\<^sub>2 :: "string \<Rightarrow> 'b db_result io"
    and source target\<^sub>1 target\<^sub>2 +
  assumes leaves: "target\<^sub>1 \<noteq> source"
begin

lemma loser:
  assumes "exec_ids_distinct w" and "run_state (op\<^sub>1 i) w = (Inr a, w1)"
    and "run_state (op\<^sub>2 i) w1 = (r, w2)"
  shows "isl r \<and> w_execs w2 = w_execs w1"
proof (rule second.refused [OF first.ids_kept [OF assms(1,2)] assms(3)])
  show "status_of i w1 \<noteq> Some source"
    using first.success [OF assms(1,2)] leaves by (simp add: moved_def)
qed

end

section \<open>The transitions of this file\<close>

lemma guarded_read_back:
  assumes "exec_ids_distinct w" and f: "\<And>e. ex_id (f e) = ex_id e" "\<And>e. ex_status (f e) = t"
    and "run_state (and_then (require_affected
           (update_execs (\<lambda>e. ex_id e = i \<and> ex_status e = s) f) msg)
           (\<lambda>_. execution_get_by_id i)) (w\<lparr>w_ticks := n\<rparr>) = (r, w')"
  shows "(w_execs w' = w_execs w \<and> isl r) \<or> moved s t i w w'"
proof -
  obtain r1 w1 where 1: "run_state (require_affected
      (update_execs (\<lambda>e. ex_id e = i \<and> ex_status e = s) f) msg) (w\<lparr>w_ticks := n\<rparr>) = (r1, w1)"
    by fastforce
  from guarded_transition_run [OF assms(1) f _ 1] have
    "(w_execs w1 = w_execs w \<and> isl r1) \<or> (moved s t i w w1 \<and> r1 = Inr ())" by simp
  with assms(4) 1 show ?thesis
    by (cases r1) (auto simp: moved_def status_of_def find_exec_def simp del: run_require_affected)
qed

text \<open>The two shapes of a transition: read the clock, update, and maybe read the row back.\<close>

lemma transition_ops:
  assumes f: "\<And>n e. ex_id (f n e) = ex_id e" "\<And>n e. ex_status (f n e) = t"
  shows "guarded_transition (\<lambda>i. do {
             n \<leftarrow> now_utc X;
             require_affected (update_execs (\<lambda>e. ex_id e = i \<and> ex_status e = s) (f n)) (msg i)
           }) s t"
    and "guarded_transition (\<lambda>i. do {
             n \<leftarrow> now_utc X;
             and_then (require_affected
               (update_execs (\<lambda>e. ex_id e = i \<and> ex_status e = s) (f n)) (msg i))
               (\<lambda>_. execution_get_by_id i)
           }) s t"
    and "guarded_transition (\<lambda>i. 
             require_affected (update_execs (\<lambda>e. ex_id e = i \<and> ex_status e = s) (f [])) (msg i)) s t"
proof -
  note simps = run_state_bind run_now_utc prod.case
  show "guarded_transition (\<lambda>i. do {
             n \<leftarrow> now_utc X;
             require_affected (update_execs (\<lambda>e. ex_id e = i \<and> ex_status e = s) (f n)) (msg i)
           }) s t"
    by (standard, simp only: simps)
       (frule guarded_transition_run [OF _ f, rotated 2], assumption, simp, blast)
  show "guarded_transition (\<lambda>i. do {
             n \<leftarrow> now_utc X;
             and_then (require_affected
               (update_execs (\<lambda>e. ex_id e = i \<and> ex_status e = s) (f n)) (msg i))
               (\<lambda>_. execution_get_by_id i)
           }) s t"
    by (standard, simp only: simps) (rule guarded_read_back [OF _ f])
  show "guarded_transition (\<lambda>i. 
             require_affected (update_execs (\<lambda>e. ex_id e = i \<and> ex_status e = s) (f [])) (msg i)) s t"
    by (standard) (frule guarded_transition_run [OF _ f refl], assumption, blast)
qed

interpretation running: guarded_transition "mark_running X" Pending Running for X
  unfolding mark_running_def by (rule transition_ops) simp_all

interpretation completed:
  guarded_transition "\<lambda>i. mark_completed X i st code" Running st for X st code
  unfolding mark_completed_def by (rule transition_ops) simp_all

interpretation approved:
  guarded_transition "\<lambda>i. mark_approved X i who" PendingApproval Approved for X who
  unfolding mark_approved_def by (rule transition_ops) simp_all

interpretation rejected:
  guarded_transition "\<lambda>i. mark_rejected X i who" PendingApproval Rejected for X who
  unfolding mark_rejected_def by (rule transition_ops) simp_all

interpretation deferred: guarded_transition mark_pending_approval Pending PendingApproval
  unfolding mark_pending_approval_def by (rule transition_ops) simp_all

interpretation approve_first:
  competing_transitions "\<lambda>i. mark_approved X i who" "\<lambda>i. mark_rejected X i who'"
    PendingApproval Approved Rejected for X who who'
  by unfold_locales simp

interpretation approve_twice:
  competing_transitions "\<lambda>i. mark_approved X i who" "\<lambda>i. mark_approved X i who'"
    PendingApproval Approved Approved for X who who'
  by unfold_locales simp

interpretation reject_first:
  competing_transitions "\<lambda>i. mark_rejected X i who" "\<lambda>i. mark_approved X i who'"
    PendingApproval Rejected Approved for X who who'
  by unfold_locales simp

interpretation reject_twice:
  competing_transitions "\<lambda>i. mark_rejected X i who" "\<lambda>i. mark_rejected X i who'"
    PendingApproval Rejected Rejected for X who who'
  by unfold_locales simp

lemma mark_expired_run:
  assumes "exec_ids_distinct w" and "no_faults w" and "run_state (mark_expired X i) w = (r, w')"
  shows "r = Inr ()"
    and "status_of i w = Some PendingApproval \<Longrightarrow> moved PendingApproval Expired i w w'"
    and "status_of i w \<noteq> Some PendingApproval \<Longrightarrow> find_exec j w' = find_exec j w"
proof -
  let ?f = "\<lambda>e. e\<lparr>ex_status := Expired,
      ex_completed_at := Some (fmt_millis X (w_clock w (w_ticks w) div 1000000))\<rparr>"
  let ?p = "\<lambda>e. ex_id e = i \<and> ex_status e = PendingApproval"
  have w': "w_execs w' = update_rows ?p ?f (w_execs w)" and "r = Inr ()"
    using assms(2,3) by (auto simp: mark_expired_def no_faults_def)
  then show "r = Inr ()" by simp
  note find = guarded_update(2) [OF assms(1) [unfolded exec_ids_distinct_def], where f = ?f and i = i]
  show "status_of i w = Some PendingApproval \<Longrightarrow> moved PendingApproval Expired i w w'"
    by (auto simp: moved_def status_of_def find_exec_def w' find map_update_rows)
  show "status_of i w \<noteq> Some PendingApproval \<Longrightarrow> find_exec j w' = find_exec j w"
    by (auto simp: status_of_def find_exec_def w' find)
qed

section \<open>History\<close>

lemma history_insert_execution [history_intros]:
  "state_io_rel history_kept (insert_execution row)"
  unfolding insert_execution_def
  by (rule history.keeps_sql) (auto simp: history_kept_def split: if_splits)

lemma history_get_by_id [history_intros]: "state_io_rel history_kept (execution_get_by_id i)"
  unfolding execution_get_by_id_def by (intro history_intros)

lemma history_require_affected [history_intros]:
  "state_io_rel history_kept m \<Longrightarrow> state_io_rel history_kept (require_affected m msg)"
  unfolding require_affected_def by (intro history_intros)

lemma history_execution_ops [history_intros]:
  "state_io_rel history_kept (execution_create X new)"
  "state_io_rel history_kept (mark_running X i)"
  "state_io_rel history_kept (mark_completed X i st code)"
  "state_io_rel history_kept (increment_retry_count i)"
  "state_io_rel history_kept (mark_approved X i who)"
  "state_io_rel history_kept (mark_rejected X i who)"
  "state_io_rel history_kept (mark_expired X i)"
  "state_io_rel history_kept (mark_pending_approval i)"
  "state_io_rel history_kept (get_latest_started_by_hook slug)"
  unfolding execution_create_def mark_running_def mark_completed_def increment_retry_count_def
    mark_approved_def mark_rejected_def mark_expired_def mark_pending_approval_def
    get_latest_started_by_hook_def
  by (intro history_intros; simp)+

section \<open>Properties\<close>

text \<open>An approval is decided once. When \<open>mark_approved\<close> or \<open>mark_rejected\<close> has succeeded,
  the execution was pending approval before and is approved, or rejected, now; and every later
  attempt to approve or to reject it returns an error and changes no execution.\<close>

theorem decision_once:
  assumes "exec_ids_distinct w"
    and "op1 = mark_approved X i who \<and> s = Approved \<or> op1 = mark_rejected X i who \<and> s = Rejected"
    and "op2 = mark_approved X i who' \<or> op2 = mark_rejected X i who'"
    and "run_state op1 w = (Inr e, w1)" and "run_state op2 w1 = (r, w2)"
  shows "status_of i w = Some PendingApproval \<and> status_of i w1 = Some s
           \<and> isl r \<and> w_execs w2 = w_execs w1"
  using assms(2)
proof
  assume o: "op1 = mark_approved X i who \<and> s = Approved"
  with assms(4) have 1: "run_state (mark_approved X i who) w = (Inr e, w1)" by simp
  from approved.success [OF assms(1) 1] approve_first.loser [OF assms(1) 1]
    approve_twice.loser [OF assms(1) 1] assms(3,5) o
  show ?thesis by (auto simp: moved_def)
next
  assume o: "op1 = mark_rejected X i who \<and> s = Rejected"
  with assms(4) have 1: "run_state (mark_rejected X i who) w = (Inr e, w1)" by simp
  from rejected.success [OF assms(1) 1] reject_first.loser [OF assms(1) 1]
    reject_twice.loser [OF assms(1) 1] assms(3,5) o
  show ?thesis by (auto simp: moved_def)
qed

text \<open>An approval that is refused after it was granted, on a concrete table.\<close>

definition pending_world :: world where
  "pending_world = sample_world\<lparr>w_execs := [sample_execution ''e1'' ''a'' PendingApproval]\<rparr>"

theorem decision_once_witness:
  "status_of ''e1'' (snd (run_state (mark_approved sample_external ''e1'' ''ann'') pending_world))
     = Some Approved
   \<and> isl (fst (run_state (mark_rejected sample_external ''e1'' ''bob'')
       (snd (run_state (mark_approved sample_external ''e1'' ''ann'') pending_world))))"
proof -
  let ?p = "run_state (mark_approved sample_external ''e1'' ''ann'') pending_world"
  have ids: "exec_ids_distinct pending_world"
    by (simp add: exec_ids_distinct_def pending_world_def)
  obtain e where e: "?p = (Inr e, snd ?p)"
    by (simp add: mark_approved_def pending_world_def sample_world_def sample_execution_def find_exec_def)
  show ?thesis
    using decision_once [OF ids disjI1 [OF conjI [OF refl refl]] disjI2 [OF refl] e]
    by (metis prod.collapse)
qed

text \<open>\<open>mark_running\<close> starts an execution exactly when it is pending. If no statement fails,
  a pending execution becomes running with its start time set and all other executions stay as
  they are; for every other execution, or an unknown id, the result is a conflict and no
  execution changes.\<close>

theorem mark_running_spec:
  assumes "exec_ids_distinct w" and "no_faults w" and "run_state (mark_running X i) w = (r, w')"
  shows "if status_of i w = Some Pending
         then r = Inr () \<and> (\<forall>j. find_exec j w' =
                (if j = i then map_option (\<lambda>e. e\<lparr>ex_status := Running, ex_started_at :=
                     Some (fmt_millis X (w_clock w (w_ticks w) div 1000000))\<rparr>) (find_exec i w)
                 else find_exec j w))
         else r = Inl (Conflict (''execution '' @ i @ '' is not in pending status''))
              \<and> (\<forall>j. find_exec j w' = find_exec j w)"
proof -
  let ?f = "\<lambda>e. e\<lparr>ex_status := Running,
      ex_started_at := Some (fmt_millis X (w_clock w (w_ticks w) div 1000000))\<rparr>"
  note g = guarded_update [OF assms(1) [unfolded exec_ids_distinct_def],
      where f = ?f and i = i and s = Pending, simplified]
  show ?thesis
    using assms(2,3) by (auto simp: mark_running_def no_faults_def status_of_def find_exec_def g)
qed

theorem mark_running_spec_witness:
  "fst (run_state (mark_running sample_external ''e1'') pending_world)
     = Inl (Conflict ''execution e1 is not in pending status'')"
proof -
  have "exec_ids_distinct pending_world" "no_faults pending_world"
    "status_of ''e1'' pending_world = Some PendingApproval"
    by (simp_all add: exec_ids_distinct_def no_faults_def pending_world_def sample_world_def
        sample_execution_def status_of_def find_exec_def)
  with mark_running_spec [OF this(1,2) prod.collapse [symmetric], where X = sample_external and i = "''e1''"]
  show ?thesis by simp
qed

lemma set_order_desc [simp]: "set (order_desc key rows) = set rows"
  by (simp add: order_desc_def)

lemma mset_order_desc [simp]: "mset (order_desc key rows) = mset rows"
  by (simp add: order_desc_def)

lemma length_order_desc [simp]: "length (order_desc key rows) = length rows"
  by (simp add: order_desc_def)

lemma sorted_order_desc: "sorted_wrt (\<lambda>a b. key b \<le> key a) (order_desc key rows)"
  using sorted_sort_key [of key "rev rows"] by (simp add: order_desc_def sorted_wrt_rev sorted_wrt_map)

lemma concat_pages: "concat (map (\<lambda>k. take n (drop (k * n) rows)) [0..<m]) = take (m * n) rows"
proof (induction m)
  case (Suc m)
  then show ?case using take_add [of "m * n" n rows] by (simp add: add.commute)
qed simp

text \<open>Paging through a hook's executions shows each of them exactly once, newest first. When
  no statement fails, the first \<open>m\<close> pages of \<open>n\<close> rows, put together, are a permutation of the
  hook's rows in descending order of their trigger time, as soon as \<open>m * n\<close> covers the number
  that \<open>count_by_hook\<close> reports.\<close>

theorem pages_partition:
  assumes "no_faults w"
    and "\<And>k. pages k = projr (fst (run_state (execution_list_by_hook slug (int n) (int (k * n))) w))"
    and "fst (run_state (execution_count_by_hook slug) w) = Inr c" and "c \<le> int (m * n)"
  shows "mset (concat (map pages [0..<m])) = mset (filter (\<lambda>e. ex_hook_slug e = slug) (w_execs w))
         \<and> sorted_wrt (\<lambda>a b. ex_triggered_at b \<le> ex_triggered_at a) (concat (map pages [0..<m]))"
proof -
  let ?rows = "order_desc ex_triggered_at (filter (\<lambda>e. ex_hook_slug e = slug) (w_execs w))"
  have "pages = (\<lambda>k. take n (drop (k * n) ?rows))"
    using assms(1) by (simp add: fun_eq_iff assms(2) execution_list_by_hook_def no_faults_def limit_offset_def
        Let_def nat_mult_distrib)
  then have "concat (map pages [0..<m]) = take (m * n) ?rows" by (simp add: concat_pages)
  also have "\<dots> = ?rows"
    using assms(1,3,4) by (simp add: execution_count_by_hook_def no_faults_def flip: of_nat_mult)
  finally show ?thesis by (simp add: sorted_order_desc)
qed

definition two_world :: world where
  "two_world = sample_world\<lparr>w_execs :=
     [sample_execution ''e1'' ''2026-01-01'' Success, sample_execution ''e2'' ''2026-02-01'' Failed]\<rparr>"

theorem pages_partition_witness:
  "mset (concat (map (\<lambda>k. projr (fst (run_state (execution_list_by_hook ''deploy'' (int 1)
       (int (k * 1))) two_world))) [0..<2])) = mset (w_execs two_world)"
  using pages_partition [OF _ refl, of two_world "''deploy''" 2 2 1]
  by (simp add: two_world_def sample_world_def sample_execution_def no_faults_def
      execution_count_by_hook_def)

definition matches_filters :: "string \<Rightarrow> execution_filters \<Rightarrow> execution \<Rightarrow> bool" where
  "matches_filters slug fs e \<longleftrightarrow>
     ex_hook_slug e = slug
     \<and> (case xf_status fs of Some s \<Rightarrow> status_text (ex_status e) = s | None \<Rightarrow> True)
     \<and> in_date_range (xf_from_date fs) (xf_to_date fs) e"

lemma length_filter_mset: "mset xs = mset ys \<Longrightarrow> length (filter p xs) = length (filter p ys)"
  by (metis mset_filter size_mset)

lemma count_filtered_rows:
  assumes "no_faults w" and "length (w_execs w) < 2 ^ 62"
  shows "fst (run_state (execution_count_by_hook_filtered slug fs) w)
           = Inr (int (length (filter (matches_filters slug fs) (w_execs w))))"
proof -
  have nf: "\<not> w_fault w n" for n using assms(1) by blast
  have big: "int (i64_max div 2) = 2 ^ 62 - 1" "(2 ^ 62 - 1 :: int) mod 2 ^ 64 = 2 ^ 62 - 1"
    by (simp_all add: i64_max_def)
  have len: "length (filter p (w_execs w)) \<le> 4611686018427387903" for p
    using assms(2) length_filter_le [of p "w_execs w"]
    by (simp del: length_filter_le)
  have cut: "take 4611686018427387903 (order_desc ex_triggered_at (filter p (w_execs w)))
      = order_desc ex_triggered_at (filter p (w_execs w))" for p
    by (simp add: len)
  have ord: "length (filter q (order_desc ex_triggered_at (filter p (w_execs w))))
      = length (filter (\<lambda>e. p e \<and> q e) (w_execs w))" for p q
    using length_filter_mset [of _ "filter p (w_execs w)" q]
    by (simp add: filter_filter conj_commute)
  have m: "matches_filters slug fs = (\<lambda>e. ex_hook_slug e = slug
      \<and> (case xf_status fs of Some s \<Rightarrow> status_text (ex_status e) = s | None \<Rightarrow> True)
      \<and> in_date_range (xf_from_date fs) (xf_to_date fs) e)"
    by (simp add: matches_filters_def fun_eq_iff)
  show ?thesis
  proof (cases "xf_from_date fs = None \<and> xf_to_date fs = None")
    case True
    then show ?thesis
      by (auto simp: execution_count_by_hook_filtered_def execution_count_by_hook_def nf
          m in_date_range_def split: option.splits)
  next
    case False
    then show ?thesis
      by (auto simp: execution_count_by_hook_filtered_def execution_list_by_hook_filtered_def nf
          list_by_status_def execution_list_by_hook_def limit_offset_def Let_def big as_usize_def
          m cut len ord conj_ac min_absorb1 split: option.splits)
  qed
qed

text \<open>\<open>count_by_hook_filtered\<close> counts the rows that satisfy every filter: for each
  combination of status and date bounds the result is the number of the hook's executions with
  that status (if given) in the inclusive date range (if given), for every table of fewer than
  2 to the power of 62 rows.\<close>

theorem count_filtered_correct:
  assumes "no_faults w" and "length (w_execs w) < 2 ^ 62"
  shows "fst (run_state (execution_count_by_hook_filtered slug fs) w)
           = Inr (int (length (filter (matches_filters slug fs) (w_execs w))))"
  by (rule count_filtered_rows [OF assms])

theorem count_filtered_correct_witness:
  "fst (run_state (execution_count_by_hook_filtered ''deploy''
     \<lparr>xf_status = None, xf_from_date = None, xf_to_date = Some ''2026-01''\<rparr>) two_world) = Inr 1"
  using count_filtered_correct [of two_world "''deploy''"
      "\<lparr>xf_status = None, xf_from_date = None, xf_to_date = Some ''2026-01''\<rparr>"]
  by (simp add: two_world_def sample_world_def sample_execution_def no_faults_def
      matches_filters_def in_date_range_def less_char_def)

text \<open>With a date bound, a page can be empty although rows match. \<open>list_by_hook_filtered\<close>
  fetches only the newest \<open>limit + offset\<close> rows before it applies the date bounds: in a table of
  two executions of which the older one is in the range, the first page of size one is empty,
  while the filtered count that the pager uses is one.\<close>

theorem filtered_page_misses_row:
  "let fs = \<lparr>xf_status = None, xf_from_date = None, xf_to_date = Some ''2026-01''\<rparr> in
     fst (run_state (execution_list_by_hook_filtered ''deploy'' fs 1 0) two_world) = Inr []
     \<and> fst (run_state (execution_count_by_hook_filtered ''deploy'' fs) two_world) = Inr 1"
proof -
  let ?fs = "\<lparr>xf_status = None, xf_from_date = None, xf_to_date = Some ''2026-01''\<rparr>"
  have "fst (run_state (execution_list_by_hook_filtered ''deploy'' ?fs 1 0) two_world) = Inr []"
    by (simp add: two_world_def sample_world_def sample_execution_def less_char_def order_desc_def
        execution_list_by_hook_filtered_def execution_list_by_hook_def limit_offset_def
        as_usize_def in_date_range_def)
  moreover have "fst (run_state (execution_count_by_hook_filtered ''deploy'' ?fs) two_world) = Inr 1"
    using count_filtered_rows [of two_world "''deploy''" ?fs]
    by (simp add: two_world_def sample_world_def sample_execution_def no_faults_def
        matches_filters_def in_date_range_def less_char_def)
  ultimately show ?thesis by simp
qed

end
