(* ===== verification/Trigger_Rules.thy ===== *)
theory Trigger_Rules
  imports Execution_Model
begin

text \<open>
  \<open>src/trigger_rules\<close>: the payload filters, time windows, cooldown and rate limit that are
  evaluated before an execution is created.
\<close>

datatype eval_outcome = Allow | EvalReject trigger_attempt_status string

section \<open>Payload filters\<close>

definition filter_value :: "payload_filter \<Rightarrow> string" where
  "filter_value f = (case fl_value f of Some v \<Rightarrow> v | None \<Rightarrow> [])"

definition json_as_str :: "external \<Rightarrow> json \<Rightarrow> string" where
  "json_as_str X v = (case v of JString s \<Rightarrow> s | _ \<Rightarrow> json_to_string X v)"

fun type_name :: "json \<Rightarrow> string" where
  "type_name JNull = ''null''"
| "type_name (JBool _) = ''boolean''"
| "type_name (JNumber _) = ''number''"
| "type_name (JString _) = ''string''"
| "type_name (JArray _) = ''array''"
| "type_name (JObject _) = ''object''"

definition as_f64 :: "external \<Rightarrow> json \<Rightarrow> f64 option" where
  "as_f64 X v = (case v of JNumber n \<Rightarrow> number_as_f64 X n | _ \<Rightarrow> None)"

definition numeric_compare :: "external \<Rightarrow> payload_filter \<Rightarrow> json \<Rightarrow> (f64 \<Rightarrow> f64 \<Rightarrow> bool) \<Rightarrow> string
    \<Rightarrow> string option" where
  "numeric_compare X f payload cmp op =
     (case parse_f64 X (filter_value f) of
        None \<Rightarrow> Some (''filter value '' @ quoted (filter_value f)
                     @ '' is not a number (required for '' @ op @ '' operator)'')
      | Some threshold \<Rightarrow>
          (case resolve_field payload (fl_field f) of
             None \<Rightarrow> Some (''field '' @ quoted (fl_field f) @ '' not found'')
           | Some v \<Rightarrow>
               (case as_f64 X v of
                  Some field_val \<Rightarrow>
                    (if cmp field_val threshold then None
                     else Some (''field '' @ quoted (fl_field f) @ '' = '' @ show_f64 X field_val
                                @ '' is not '' @ op @ '' '' @ show_f64 X threshold))
                | None \<Rightarrow> Some (''field '' @ quoted (fl_field f) @ '' = '' @ json_to_string X v
                               @ '' is not numeric (required for '' @ op @ '' operator)''))))"

definition not_found :: "payload_filter \<Rightarrow> string" where
  "not_found f = ''field '' @ quoted (fl_field f) @ '' not found''"

definition check_contains :: "external \<Rightarrow> payload_filter \<Rightarrow> json \<Rightarrow> string option" where
  "check_contains X f payload =
     (case resolve_field payload (fl_field f) of
        None \<Rightarrow> Some (not_found f)
      | Some (JString s) \<Rightarrow>
          (if str_contains (filter_value f) s then None
           else Some (''field '' @ quoted (fl_field f) @ '' = '' @ quoted s
                      @ '' does not contain '' @ quoted (filter_value f)))
      | Some (JArray arr) \<Rightarrow>
          (if list_ex (\<lambda>el. json_as_str X el = filter_value f) arr then None
           else Some (''field '' @ quoted (fl_field f) @ '' array does not contain element ''
                      @ quoted (filter_value f)))
      | Some v \<Rightarrow> Some (''field '' @ quoted (fl_field f) @ '' is '' @ type_name v
                       @ '' (contains requires string or array)''))"

definition check_filter :: "external \<Rightarrow> payload_filter \<Rightarrow> json \<Rightarrow> string option" where
  "check_filter X f payload =
     (case fl_operator f of
        OpExists \<Rightarrow>
          (case resolve_field payload (fl_field f) of
             Some v \<Rightarrow> if v \<noteq> JNull then None
                       else Some (''field '' @ quoted (fl_field f) @ '' does not exist or is null'')
           | None \<Rightarrow> Some (''field '' @ quoted (fl_field f) @ '' does not exist or is null''))
      | OpEquals \<Rightarrow>
          (case resolve_field payload (fl_field f) of
             None \<Rightarrow> Some (not_found f)
           | Some v \<Rightarrow>
               if json_as_str X v = filter_value f then None
               else Some (''field '' @ quoted (fl_field f) @ '' = '' @ json_to_string X v
                          @ '' does not equal '' @ quoted (filter_value f)))
      | OpNotEquals \<Rightarrow>
          (case resolve_field payload (fl_field f) of
             None \<Rightarrow> Some (not_found f)
           | Some v \<Rightarrow>
               if json_as_str X v \<noteq> filter_value f then None
               else Some (''field '' @ quoted (fl_field f) @ '' = '' @ json_to_string X v
                          @ '' equals '' @ quoted (filter_value f) @ '' (not_equals failed)''))
      | OpContains \<Rightarrow> check_contains X f payload
      | OpRegex \<Rightarrow>
          (let re = (if regex_ok X (filter_value f) then filter_value f else [])
           in case resolve_field payload (fl_field f) of
                None \<Rightarrow> Some (not_found f)
              | Some v \<Rightarrow>
                  if regex_is_match X re (json_as_str X v) then None
                  else Some (''field '' @ quoted (fl_field f) @ '' = '' @ quoted (json_as_str X v)
                             @ '' does not match regex '' @ quoted (filter_value f)))
      | OpGt \<Rightarrow> numeric_compare X f payload (\<lambda>a b. f64_less b a) ''>''
      | OpLt \<Rightarrow> numeric_compare X f payload f64_less ''<''
      | OpGte \<Rightarrow> numeric_compare X f payload (\<lambda>a b. f64_le b a) ''>=''
      | OpLte \<Rightarrow> numeric_compare X f payload f64_le ''<='')"

fun filters_evaluate :: "external \<Rightarrow> payload_filter list \<Rightarrow> json \<Rightarrow> eval_outcome" where
  "filters_evaluate X [] payload = Allow"
| "filters_evaluate X (f # fs) payload =
     (case check_filter X f payload of
        Some reason \<Rightarrow> EvalReject Filtered reason
      | None \<Rightarrow> filters_evaluate X fs payload)"

section \<open>Time windows\<close>

datatype weekday = Mon | Tue | Wed | Thu | Fri | Sat | Sun

fun weekday_abbrev :: "weekday \<Rightarrow> string" where
  "weekday_abbrev Mon = ''Mon''"
| "weekday_abbrev Tue = ''Tue''"
| "weekday_abbrev Wed = ''Wed''"
| "weekday_abbrev Thu = ''Thu''"
| "weekday_abbrev Fri = ''Fri''"
| "weekday_abbrev Sat = ''Sat''"
| "weekday_abbrev Sun = ''Sun''"

text \<open>A \<open>DateTime<Utc>\<close> is the number of nanoseconds since the epoch, which was a Thursday.\<close>

definition secs_of_day :: "nat \<Rightarrow> nat" where
  "secs_of_day now = now div 1000000000 mod 86400"

definition weekday_of :: "nat \<Rightarrow> weekday" where
  "weekday_of now = [Thu, Fri, Sat, Sun, Mon, Tue, Wed] ! (now div 1000000000 div 86400 mod 7)"

definition day_matches :: "string list \<Rightarrow> weekday \<Rightarrow> bool" where
  "day_matches days d \<longleftrightarrow> days = [] \<or> list_ex (\<lambda>s. eq_ignore_ascii_case s (weekday_abbrev d)) days"

fun windows_loop :: "external \<Rightarrow> time_window list \<Rightarrow> nat \<Rightarrow> weekday \<Rightarrow> bool" where
  "windows_loop X [] current_time current_day = False"
| "windows_loop X (w # ws) current_time current_day =
     (case (parse_hm X (tw_start_time w), parse_hm X (tw_end_time w)) of
        (Some start, Some end_t) \<Rightarrow>
          (if day_matches (tw_days w) current_day \<and> current_time \<ge> start \<and> current_time < end_t
           then True else windows_loop X ws current_time current_day)
      | _ \<Rightarrow> windows_loop X ws current_time current_day)"

definition windows_evaluate_at :: "external \<Rightarrow> time_window list \<Rightarrow> nat \<Rightarrow> eval_outcome" where
  "windows_evaluate_at X windows now =
     (if windows_loop X windows (secs_of_day now) (weekday_of now) then Allow
      else EvalReject ScheduleSkipped
             (''no time window matches current time '' @ weekday_abbrev (weekday_of now) @ '' ''
              @ fmt_hm X (secs_of_day now)))"

definition windows_evaluate :: "external \<Rightarrow> time_window list \<Rightarrow> eval_outcome io" where
  "windows_evaluate X windows = do { now \<leftarrow> clock_now; return (windows_evaluate_at X windows now) }"

section \<open>Cooldown\<close>

text \<open>\<open>chrono::Duration::from_std\<close>: a signed duration of at most \<open>i64::MAX\<close> milliseconds.\<close>

definition chrono_from_std :: "duration \<Rightarrow> int option" where
  "chrono_from_std d = (if d \<le> i64_max * 1000000 then Some (int d) else None)"

definition parse_started_at :: "external \<Rightarrow> string \<Rightarrow> int option" where
  "parse_started_at X s =
     (case parse_rfc3339 X s of
        Some t \<Rightarrow> Some t
      | None \<Rightarrow> (case parse_naive X s of Some t \<Rightarrow> Some t | None \<Rightarrow> parse_naive_frac X s))"

definition cooldown_evaluate_at :: "external \<Rightarrow> string \<Rightarrow> duration \<Rightarrow> nat \<Rightarrow> eval_outcome io" where
  "cooldown_evaluate_at X hook_slug cooldown now = do {
     latest \<leftarrow> get_latest_started_by_hook hook_slug;
     return (case latest of
         Inr (Some ex) \<Rightarrow>
           (case ex_started_at ex of
              None \<Rightarrow> Allow
            | Some started_at_str \<Rightarrow>
                (case parse_started_at X started_at_str of
                   None \<Rightarrow> Allow
                 | Some started_at \<Rightarrow>
                     (let elapsed = int now - started_at
                      in case chrono_from_std cooldown of
                           None \<Rightarrow> Allow
                         | Some cd \<Rightarrow>
                             if elapsed < cd
                             then EvalReject CooldownSkipped
                                    (''cooldown active, ''
                                     @ show_int (max ((cd - elapsed) div 1000000000) 0) @ ''s remaining'')
                             else Allow)))
       | Inr None \<Rightarrow> Allow
       | Inl e \<Rightarrow> Allow)
   }"

definition cooldown_evaluate :: "external \<Rightarrow> string \<Rightarrow> duration \<Rightarrow> eval_outcome io" where
  "cooldown_evaluate X hook_slug cooldown = do {
     now \<leftarrow> clock_now; cooldown_evaluate_at X hook_slug cooldown now }"

section \<open>Rate limit\<close>

definition as_i64 :: "nat \<Rightarrow> int" where
  "as_i64 n = (let m = int n mod 2 ^ 64 in if m < 2 ^ 63 then m else m - 2 ^ 64)"

definition counter_is :: "string \<Rightarrow> string \<Rightarrow> rate_limit_counter \<Rightarrow> bool" where
  "counter_is slug start c \<longleftrightarrow> ct_hook_slug c = slug \<and> ct_window_start c = start"

definition ensure_counter :: "string \<Rightarrow> string \<Rightarrow> nat db_result io" where
  "ensure_counter slug start = sql (\<lambda>w.
     if list_ex (counter_is slug start) (w_counters w) then Inr (0, w)
     else Inr (1, w\<lparr>w_counters := w_counters w @
            [\<lparr>ct_hook_slug = slug, ct_window_start = start, ct_count = 0\<rparr>]\<rparr>))"

definition increment_counter :: "string \<Rightarrow> string \<Rightarrow> int \<Rightarrow> nat db_result io" where
  "increment_counter slug start limit = sql (\<lambda>w.
     let p = (\<lambda>c. counter_is slug start c \<and> ct_count c < limit)
     in Inr (length (filter p (w_counters w)),
             w\<lparr>w_counters := update_rows p (\<lambda>c. c\<lparr>ct_count := ct_count c + 1\<rparr>) (w_counters w)\<rparr>))"

definition window_start_secs :: "trigger_rate_limit \<Rightarrow> nat \<Rightarrow> nat" where
  "window_start_secs config now =
     (let window_secs = max (as_secs (tr_window config)) 1
      in now div 1000000000 div window_secs * window_secs)"

definition rate_limit_evaluate_at :: "external \<Rightarrow> string \<Rightarrow> trigger_rate_limit \<Rightarrow> nat
    \<Rightarrow> eval_outcome io" where
  "rate_limit_evaluate_at X hook_slug config now = do {
     let window_start = fmt_secs X (int (window_start_secs config now));
     _ \<leftarrow> ensure_counter hook_slug window_start;
     result \<leftarrow> increment_counter hook_slug window_start (as_i64 (tr_max_requests config));
     return (case result of
         Inr n \<Rightarrow> if n = 1 then Allow
                  else EvalReject RateLimited
                         (''rate limit exceeded ('' @ show_nat (tr_max_requests config) @ '' per ''
                          @ humantime_format X (tr_window config) @ '')'')
       | Inl e \<Rightarrow> Allow)
   }"

definition rate_limit_evaluate :: "external \<Rightarrow> string \<Rightarrow> trigger_rate_limit \<Rightarrow> eval_outcome io" where
  "rate_limit_evaluate X hook_slug config = do {
     now \<leftarrow> clock_now; rate_limit_evaluate_at X hook_slug config now }"

section \<open>History\<close>

lemma history_rules [history_intros]:
  "state_io_rel history_kept (windows_evaluate X ws)"
  "state_io_rel history_kept (cooldown_evaluate X slug cd)"
  "state_io_rel history_kept (rate_limit_evaluate X slug rl)"
  unfolding windows_evaluate_def cooldown_evaluate_def cooldown_evaluate_at_def
    rate_limit_evaluate_def rate_limit_evaluate_at_def ensure_counter_def increment_counter_def
  by (intro history_intros history.keeps_sql;
      auto simp: history_kept_def Let_def split: if_splits)+

section \<open>Filters\<close>

text \<open>What a filter asks of the payload, said without the order of the checks: the field is
  there, and its value is in the relation to the filter's value that the operator names.\<close>

definition operator_holds :: "external \<Rightarrow> filter_operator \<Rightarrow> string \<Rightarrow> json \<Rightarrow> bool" where
  "operator_holds X op expected v =
     (let number = (\<lambda>r. \<exists>a b. as_f64 X v = Some a \<and> parse_f64 X expected = Some b \<and> r a b)
      in case op of
           OpExists \<Rightarrow> v \<noteq> JNull
         | OpEquals \<Rightarrow> json_as_str X v = expected
         | OpNotEquals \<Rightarrow> json_as_str X v \<noteq> expected
         | OpContains \<Rightarrow> (\<exists>s. v = JString s \<and> sublist expected s)
                         \<or> (\<exists>xs el. v = JArray xs \<and> el \<in> set xs \<and> json_as_str X el = expected)
         | OpRegex \<Rightarrow> regex_is_match X (if regex_ok X expected then expected else []) (json_as_str X v)
         | OpGt \<Rightarrow> number (\<lambda>a b. f64_less b a)
         | OpLt \<Rightarrow> number f64_less
         | OpGte \<Rightarrow> number (\<lambda>a b. f64_le b a)
         | OpLte \<Rightarrow> number f64_le)"

definition filter_holds :: "external \<Rightarrow> json \<Rightarrow> payload_filter \<Rightarrow> bool" where
  "filter_holds X payload f \<longleftrightarrow>
     (\<exists>v. resolve_field payload (fl_field f) = Some v
          \<and> operator_holds X (fl_operator f) (filter_value f) v)"

lemma numeric_compare_None:
  "numeric_compare X f payload cmp op = None \<longleftrightarrow>
     (\<exists>v a b. resolve_field payload (fl_field f) = Some v \<and> as_f64 X v = Some a
              \<and> parse_f64 X (filter_value f) = Some b \<and> cmp a b)"
  by (auto simp: numeric_compare_def split: option.splits)

lemma check_contains_None:
  "check_contains X f payload = None \<longleftrightarrow>
     (\<exists>v. resolve_field payload (fl_field f) = Some v \<and> operator_holds X OpContains (filter_value f) v)"
  by (auto simp: check_contains_def operator_holds_def str_contains_iff list_ex_iff
      split: option.splits json.splits)

lemma check_filter_None: "check_filter X f payload = None \<longleftrightarrow> filter_holds X payload f"
  by (cases "fl_operator f")
     (auto simp: check_filter_def filter_holds_def operator_holds_def Let_def numeric_compare_None
       check_contains_None not_found_def split: option.splits)


section \<open>Windows\<close>

definition window_seconds :: "external \<Rightarrow> time_window \<Rightarrow> weekday \<Rightarrow> nat set" where
  "window_seconds X w d =
     (case (parse_hm X (tw_start_time w), parse_hm X (tw_end_time w)) of
        (Some start, Some end_t) \<Rightarrow> if day_matches (tw_days w) d then {start..<end_t} else {}
      | _ \<Rightarrow> {})"

lemma windows_loop_iff:
  "windows_loop X ws t d \<longleftrightarrow> t \<in> (\<Union>w\<in>set ws. window_seconds X w d)"
  by (induction ws) (auto simp: window_seconds_def split: option.splits if_splits)

lemma weekday_next:
  "weekday_of (now + 86400 * 1000000000) =
     (case weekday_of now of Mon \<Rightarrow> Tue | Tue \<Rightarrow> Wed | Wed \<Rightarrow> Thu | Thu \<Rightarrow> Fri | Fri \<Rightarrow> Sat
        | Sat \<Rightarrow> Sun | Sun \<Rightarrow> Mon)"
proof -
  define k where "k = now div 1000000000 div 86400"
  have "(now + 86400 * 1000000000) div 1000000000 div 86400 = Suc k" by (simp add: k_def)
  moreover have "k mod 7 = 0 \<or> k mod 7 = 1 \<or> k mod 7 = 2 \<or> k mod 7 = 3 \<or> k mod 7 = 4
      \<or> k mod 7 = 5 \<or> k mod 7 = 6"
    using mod_less_divisor [of 7 k] by linarith
  ultimately show ?thesis
    unfolding weekday_of_def k_def [symmetric] by (elim disjE) (simp_all add: mod_Suc k_def [symmetric])
qed

text \<open>The time windows allow a request exactly during the seconds the windows cover on the
  current weekday: the union of the half-open intervals from start to end of the windows whose
  day list is empty or names the day. A window whose end is not after its start covers no
  second at all. The weekday is the right one: the epoch was a Thursday and 24 hours later it is
  the next day.\<close>

theorem windows_evaluate_spec:
  "windows_evaluate_at X ws now =
     (if secs_of_day now \<in> (\<Union>w\<in>set ws. window_seconds X w (weekday_of now)) then Allow
      else EvalReject ScheduleSkipped
             (''no time window matches current time '' @ weekday_abbrev (weekday_of now) @ '' ''
              @ fmt_hm X (secs_of_day now)))
   \<and> weekday_of 0 = Thu
   \<and> weekday_of (now + 86400 * 1000000000) =
     (case weekday_of now of Mon \<Rightarrow> Tue | Tue \<Rightarrow> Wed | Wed \<Rightarrow> Thu | Thu \<Rightarrow> Fri | Fri \<Rightarrow> Sat
        | Sat \<Rightarrow> Sun | Sun \<Rightarrow> Mon)"
  by (simp only: windows_evaluate_at_def windows_loop_iff weekday_next) (simp add: weekday_of_def)

section \<open>Rate limit\<close>

definition counter_key :: "rate_limit_counter \<Rightarrow> string \<times> string" where
  "counter_key c = (ct_hook_slug c, ct_window_start c)"

definition counters_distinct :: "world \<Rightarrow> bool" where
  "counters_distinct w \<longleftrightarrow> distinct (map counter_key (w_counters w))"

definition counter_value :: "string \<Rightarrow> string \<Rightarrow> world \<Rightarrow> int" where
  "counter_value slug start w =
     (case find_row counter_key (slug, start) (w_counters w) of Some c \<Rightarrow> ct_count c | None \<Rightarrow> 0)"

lemma counter_is_key: "counter_is slug start = (\<lambda>c. counter_key c = (slug, start))"
  by (auto simp: counter_is_def counter_key_def fun_eq_iff)

lemma counter_key_update [simp]: "counter_key (c\<lparr>ct_count := n\<rparr>) = counter_key c"
  by (simp add: counter_key_def)

lemma rate_limit_step:
  assumes "no_faults w" and "counters_distinct w"
    and "start = fmt_secs X (int (window_start_secs config now))"
    and "limit = as_i64 (tr_max_requests config)" and "0 < limit"
    and "run_state (rate_limit_evaluate_at X slug config now) w = (r, w')"
  shows "no_faults w'" and "counters_distinct w'"
    and "(r = Allow) = (counter_value slug start w < limit)"
    and "counter_value slug start w' =
           (if counter_value slug start w < limit then counter_value slug start w + 1
            else counter_value slug start w)"
proof -
  let ?k = "(slug, start)" and ?rows = "w_counters w"
  define rows where "rows = (if find_row counter_key ?k ?rows = None
    then ?rows @ [\<lparr>ct_hook_slug = slug, ct_window_start = start, ct_count = 0\<rparr>] else ?rows)"
  define p where "p = (\<lambda>c. counter_key c = ?k \<and> ct_count c < limit)"
  have ex: "list_ex (\<lambda>c. counter_key c = ?k) ?rows \<longleftrightarrow> find_row counter_key ?k ?rows \<noteq> None"
    by (auto simp: list_ex_iff find_row_None_iff) (metis image_eqI)
  have dist: "distinct (map counter_key rows)"
    using assms(2) by (auto simp: rows_def counters_distinct_def find_row_None_iff counter_key_def)
  obtain c where c: "find_row counter_key ?k rows = Some c" "ct_count c = counter_value slug start w"
    by (cases "find_row counter_key ?k ?rows")
       (auto simp: rows_def counter_value_def find_row_append counter_key_def)
  have n: "length (filter p rows) = (if ct_count c < limit then 1 else 0)"
    unfolding p_def filter_key_unique [OF dist c(1)] by simp
  have run: "w_counters w' = update_rows p (\<lambda>c. c\<lparr>ct_count := ct_count c + 1\<rparr>) rows"
      "no_faults w'" "(r = Allow) = (length (filter p rows) = 1)"
    using assms(1,6)
    by (auto simp: rate_limit_evaluate_at_def ensure_counter_def increment_counter_def Let_def ex
        no_faults_def rows_def p_def assms(3,4)[symmetric] counter_is_key cong: conj_cong
        split: if_splits)
  show "no_faults w'" by fact
  show "counters_distinct w'"
    using dist by (simp add: counters_distinct_def run map_update_rows)
  show "(r = Allow) = (counter_value slug start w < limit)"
    by (simp add: run n c(2))
  have "find_row counter_key ?k (w_counters w') =
      map_option (\<lambda>c. if p c then c\<lparr>ct_count := ct_count c + 1\<rparr> else c) (Some c)"
    unfolding run c(1) [symmetric] by (rule find_row_update) simp
  moreover have "counter_key c = ?k" using c(1) by (auto dest: find_row_SomeD)
  ultimately show "counter_value slug start w' =
           (if counter_value slug start w < limit then counter_value slug start w + 1
            else counter_value slug start w)"
    using c(2) by (simp add: counter_value_def p_def)
qed

text \<open>A sequence of requests to one hook.\<close>

fun rate_limit_run :: "external \<Rightarrow> string \<Rightarrow> trigger_rate_limit \<Rightarrow> nat list \<Rightarrow> eval_outcome list io" where
  "rate_limit_run X slug config [] = return []"
| "rate_limit_run X slug config (now # nows) = do {
     r \<leftarrow> rate_limit_evaluate_at X slug config now;
     rs \<leftarrow> rate_limit_run X slug config nows;
     return (r # rs)
   }"

lemma rate_limit_run_count:
  assumes "no_faults w" and "counters_distinct w" and "0 < limit"
    and "limit = as_i64 (tr_max_requests config)"
    and "\<forall>now\<in>set nows. fmt_secs X (int (window_start_secs config now)) = start"
    and "counter_value slug start w \<le> limit"
  shows "int (length (filter (\<lambda>r. r = Allow) (fst (run_state (rate_limit_run X slug config nows) w))))
           = min (int (length nows)) (limit - counter_value slug start w)"
  using assms(1,2,5,6)
proof (induction nows arbitrary: w)
  case (Cons now nows)
  obtain r w' where run: "run_state (rate_limit_evaluate_at X slug config now) w = (r, w')"
    by fastforce
  note step = rate_limit_step [OF Cons.prems(1,2) _ assms(4,3) run, of start]
  from step Cons.prems have "counter_value slug start w' \<le> limit" by simp
  with Cons.IH [of w'] step Cons.prems
  show ?case by (auto simp: run split: prod.splits)
qed simp



section \<open>Cooldown\<close>

lemma order_desc_first:
  assumes "order_desc key rows = r # rs"
  shows "r \<in> set rows" and "\<And>x. x \<in> set rows \<Longrightarrow> key x \<le> key r"
proof -
  have set: "set rows = insert r (set rs)" using set_order_desc [of key rows] assms by simp
  then show "r \<in> set rows" by simp
  have "\<forall>x\<in>set rs. key x \<le> key r" using sorted_order_desc [of key rows] assms by simp
  with set show "\<And>x. x \<in> set rows \<Longrightarrow> key x \<le> key r" by auto
qed

text \<open>The hook's latest start: the greatest start time of its started executions.\<close>

definition latest_start :: "string \<Rightarrow> world \<Rightarrow> string option" where
  "latest_start slug w =
     (let starts = {t. \<exists>e\<in>set (w_execs w). ex_hook_slug e = slug \<and> ex_started_at e = Some t}
      in if starts = {} then None else Some (Max starts))"

lemma get_latest_started:
  assumes "no_faults w"
  shows "\<exists>latest. run_state (get_latest_started_by_hook slug) w
             = (Inr latest, w\<lparr>w_stmts := Suc (w_stmts w)\<rparr>)
           \<and> Option.bind latest ex_started_at = latest_start slug w
           \<and> (latest = None \<or> latest_start slug w \<noteq> None)"
proof -
  let ?starts = "{t. \<exists>e\<in>set (w_execs w). ex_hook_slug e = slug \<and> ex_started_at e = Some t}"
  let ?rows = "filter (\<lambda>e. ex_hook_slug e = slug \<and> ex_started_at e \<noteq> None) (w_execs w)"
  have starts: "?starts = (the \<circ> ex_started_at) ` set ?rows" by force
  show ?thesis
  proof (cases "order_desc (the \<circ> ex_started_at) ?rows")
    case Nil
    then have "set ?rows = {}" using set_order_desc [of "the \<circ> ex_started_at" ?rows] by simp
    then have "?starts = {}" unfolding starts by simp
    with Nil assms show ?thesis
      by (simp add: get_latest_started_by_hook_def no_faults_def latest_start_def)
  next
    case (Cons r rs)
    note first = order_desc_first [OF Cons]
    then obtain t where t: "ex_started_at r = Some t" by auto
    have "Max ?starts = t"
      unfolding starts
    proof (rule Max_eqI)
      show "t \<in> (the \<circ> ex_started_at) ` set ?rows"
        using first(1) t by (intro image_eqI [of _ _ r]) simp_all
    qed (use first(2) t in auto)
    moreover have "?starts \<noteq> {}" unfolding starts using first(1) by auto
    ultimately show ?thesis
      using Cons assms t by (simp add: get_latest_started_by_hook_def no_faults_def latest_start_def)
  qed
qed

text \<open>The cooldown skips a request exactly when the hook's latest start lies less than the
  cooldown before the request; every doubt (nothing started, a time stamp that cannot be read, a
  cooldown beyond chrono's range) lets it pass.\<close>

theorem cooldown_spec:
  assumes "no_faults w"
  shows "(case fst (run_state (cooldown_evaluate_at X slug cd now) w) of
            EvalReject st msg \<Rightarrow> st = CooldownSkipped | Allow \<Rightarrow> True)
         \<and> (fst (run_state (cooldown_evaluate_at X slug cd now) w) \<noteq> Allow) =
             (\<exists>s t. latest_start slug w = Some s \<and> parse_started_at X s = Some t
                    \<and> int now - t < int cd \<and> cd \<le> i64_max * 1000000)"
proof -
  obtain latest where l: "run_state (get_latest_started_by_hook slug) w
             = (Inr latest, w\<lparr>w_stmts := Suc (w_stmts w)\<rparr>)"
      "Option.bind latest ex_started_at = latest_start slug w"
    using get_latest_started [OF assms] by blast
  show ?thesis
    by (simp add: cooldown_evaluate_at_def l(1) flip: l(2))
       (auto simp: chrono_from_std_def Let_def split: option.splits)
qed

definition started_world :: world where
  "started_world = sample_world\<lparr>w_execs :=
     [(sample_execution ''e1'' ''a'' Running)\<lparr>ex_started_at := Some ''aaaa''\<rparr>]\<rparr>"

theorem cooldown_spec_witness:
  "fst (run_state (cooldown_evaluate_at sample_external ''deploy'' 5000000 6000000) started_world) \<noteq> Allow"
proof -
  have "no_faults started_world" by (simp add: no_faults_def started_world_def sample_world_def)
  moreover have "{t. \<exists>e\<in>set (w_execs started_world). ex_hook_slug e = ''deploy'' \<and> ex_started_at e = Some t}
      = {''aaaa''}"
    by (auto simp: started_world_def sample_execution_def)
  then have "latest_start ''deploy'' started_world = Some ''aaaa''"
    by (simp add: latest_start_def)
  ultimately show ?thesis
    using cooldown_spec [of started_world sample_external "''deploy''" 5000000 6000000]
    by (simp add: parse_started_at_def sample_external_def i64_max_def)
qed

end
