(* ===== verification/Barrier_Store.thy ===== *)
theory Barrier_Store
  imports Trigger_Rules
begin

text \<open>
  \<open>src/barriers/execution_lock.rs\<close> and \<open>src/barriers/execution_queue.rs\<close>: the lock a hook's
  executions take turns to hold, and the queue of executions waiting for it. The two locales
  \<open>mutex\<close> and \<open>fifo\<close> state what the barriers rely on; both are interpreted on the tables.
\<close>

section \<open>The lock\<close>

definition try_acquire :: "external \<Rightarrow> string \<Rightarrow> string \<Rightarrow> bool db_result io" where
  "try_acquire X hook_slug execution_id = do {
     acquired_at \<leftarrow> now_utc X;
     and_then (sql (\<lambda>w.
         if hook_slug \<in> lk_hook_slug ` set (w_locks w) then Inr (0, w)
         else Inr (1 :: nat, w\<lparr>w_locks := w_locks w @
                [\<lparr>lk_hook_slug = hook_slug, lk_execution_id = execution_id,
                  lk_acquired_at = acquired_at\<rparr>]\<rparr>)))
       (\<lambda>n. return (Inr (n = 1)))
   }"

definition release :: "string \<Rightarrow> unit db_result io" where
  "release hook_slug = sql (\<lambda>w.
     Inr ((), w\<lparr>w_locks := filter (\<lambda>l. lk_hook_slug l \<noteq> hook_slug) (w_locks w)\<rparr>))"

definition hand_off :: "external \<Rightarrow> string \<Rightarrow> string \<Rightarrow> unit db_result io" where
  "hand_off X hook_slug next_execution_id = do {
     acquired_at \<leftarrow> now_utc X;
     sql (\<lambda>w. Inr ((), w\<lparr>w_locks := update_rows (\<lambda>l. lk_hook_slug l = hook_slug)
       (\<lambda>l. l\<lparr>lk_execution_id := next_execution_id, lk_acquired_at := acquired_at\<rparr>) (w_locks w)\<rparr>))
   }"

definition get_holder :: "string \<Rightarrow> string option db_result io" where
  "get_holder hook_slug =
     query (\<lambda>w. map_option lk_execution_id (find_row lk_hook_slug hook_slug (w_locks w)))"

section \<open>The queue\<close>

definition next_position :: "string \<Rightarrow> queue_row list \<Rightarrow> nat" where
  "next_position hook_slug rows =
     Max (insert 0 (set (map qr_position (filter (\<lambda>q. qr_hook_slug q = hook_slug) rows)))) + 1"

definition insert_queue_row :: "string \<Rightarrow> string \<Rightarrow> string \<Rightarrow> string \<Rightarrow> unit db_result io" where
  "insert_queue_row qid hook_slug execution_id queued_at = sql (\<lambda>w.
     if qid \<in> qr_id ` set (w_queue w) then Inl UniqueViolation
     else if execution_id \<notin> ex_id ` set (w_execs w) then Inl ForeignKeyViolation
     else Inr ((), w\<lparr>w_queue := w_queue w @
            [\<lparr>qr_id = qid, qr_hook_slug = hook_slug, qr_execution_id = execution_id,
              qr_position = next_position hook_slug (w_queue w), qr_queued_at = queued_at,
              qr_status = Waiting\<rparr>]\<rparr>))"

definition enqueue :: "external \<Rightarrow> string \<Rightarrow> string \<Rightarrow> nat db_result io" where
  "enqueue X hook_slug execution_id = do {
     qid \<leftarrow> new_id;
     queued_at \<leftarrow> now_utc X;
     and_then (insert_queue_row qid hook_slug execution_id queued_at)
       (\<lambda>_. sql (\<lambda>w. case find_row qr_id qid (w_queue w) of
                       Some q \<Rightarrow> Inr (qr_position q, w) | None \<Rightarrow> Inl RowNotFound))
   }"

definition waiting_rows :: "string \<Rightarrow> queue_row list \<Rightarrow> queue_row list" where
  "waiting_rows hook_slug rows = filter (\<lambda>q. qr_hook_slug q = hook_slug \<and> qr_status q = Waiting) rows"

definition peek_next :: "string \<Rightarrow> queue_entry option db_result io" where
  "peek_next hook_slug = query (\<lambda>w.
     case sort_key qr_position (waiting_rows hook_slug (w_queue w)) of
       [] \<Rightarrow> None
     | q # _ \<Rightarrow> Some \<lparr>qe_id = qr_id q, qe_hook_slug = qr_hook_slug q,
                      qe_execution_id = qr_execution_id q, qe_position = qr_position q\<rparr>)"

definition mark_ready :: "string \<Rightarrow> unit db_result io" where
  "mark_ready queue_entry_id =
     and_then (update_queue (\<lambda>q. qr_id q = queue_entry_id \<and> qr_status q = Waiting)
                 (\<lambda>q. q\<lparr>qr_status := Ready\<rparr>))
       (\<lambda>_. return (Inr ()))"

definition count_waiting :: "string \<Rightarrow> nat db_result io" where
  "count_waiting hook_slug = query (\<lambda>w. length (waiting_rows hook_slug (w_queue w)))"

definition expire_for_execution :: "string \<Rightarrow> unit db_result io" where
  "expire_for_execution execution_id =
     and_then (update_queue (\<lambda>q. qr_execution_id q = execution_id \<and> qr_status q = Waiting)
                 (\<lambda>q. q\<lparr>qr_status := QueueExpired\<rparr>))
       (\<lambda>_. return (Inr ()))"

section \<open>History\<close>

lemma history_barrier_store [history_intros]:
  "state_io_rel history_kept (try_acquire X slug i)"
  "state_io_rel history_kept (release slug)"
  "state_io_rel history_kept (hand_off X slug i)"
  "state_io_rel history_kept (get_holder slug)"
  "state_io_rel history_kept (enqueue X slug i)"
  "state_io_rel history_kept (peek_next slug)"
  "state_io_rel history_kept (mark_ready qi)"
  "state_io_rel history_kept (count_waiting slug)"
  "state_io_rel history_kept (expire_for_execution i)"
  unfolding try_acquire_def release_def hand_off_def get_holder_def enqueue_def peek_next_def
    mark_ready_def count_waiting_def expire_for_execution_def insert_queue_row_def
  by (intro history_intros history.keeps_sql;
      auto simp: history_kept_def split: if_splits option.splits)+

section \<open>Locks as an interface\<close>

text \<open>What a client of a lock per key relies on: a free lock is taken by the first that asks, a
  held one is refused and keeps its holder, releasing frees it, transferring a held lock replaces
  the holder in one step; and other keys are not touched.\<close>

locale mutex =
  fixes good :: "'s \<Rightarrow> bool" and holder :: "'k \<Rightarrow> 's \<Rightarrow> 'h option"
    and acquire :: "'k \<Rightarrow> 'h \<Rightarrow> 's \<Rightarrow> bool \<times> 's" and free :: "'k \<Rightarrow> 's \<Rightarrow> 's"
    and transfer :: "'k \<Rightarrow> 'h \<Rightarrow> 's \<Rightarrow> 's"
  assumes acquire: "good s \<Longrightarrow> acquire k h s = (got, s') \<Longrightarrow>
      good s' \<and> (got \<longleftrightarrow> holder k s = None)
      \<and> holder k s' = (case holder k s of None \<Rightarrow> Some h | Some h' \<Rightarrow> Some h')
      \<and> (\<forall>j. j \<noteq> k \<longrightarrow> holder j s' = holder j s)"
    and free: "good s \<Longrightarrow> good (free k s) \<and> holder k (free k s) = None
      \<and> (\<forall>j. j \<noteq> k \<longrightarrow> holder j (free k s) = holder j s)"
    and transfer: "good s \<Longrightarrow> good (transfer k h s)
      \<and> holder k (transfer k h s) = map_option (\<lambda>_. h) (holder k s)
      \<and> (\<forall>j. j \<noteq> k \<longrightarrow> holder j (transfer k h s) = holder j s)"

text \<open>Several contenders, one after the other.\<close>

fun contend :: "('h \<Rightarrow> 's \<Rightarrow> bool \<times> 's) \<Rightarrow> 'h list \<Rightarrow> 's \<Rightarrow> bool list \<times> 's" where
  "contend acq [] s = ([], s)"
| "contend acq (h # hs) s =
     (case acq h s of (got, s') \<Rightarrow> (case contend acq hs s' of (gots, s'') \<Rightarrow> (got # gots, s'')))"

context mutex
begin

lemma contend_good: "good s \<Longrightarrow> good (snd (contend (acquire k) hs s))"
proof (induction hs arbitrary: s)
  case (Cons h hs)
  obtain got s' where "acquire k h s = (got, s')" by fastforce
  with acquire [OF Cons.prems this] Cons.IH [of s'] show ?case by (auto split: prod.splits)
qed simp

lemma contend_held:
  assumes "good s" and "holder k s = Some h0"
  shows "fst (contend (acquire k) hs s) = map (\<lambda>_. False) hs
         \<and> holder k (snd (contend (acquire k) hs s)) = Some h0"
  using assms
proof (induction hs arbitrary: s)
  case (Cons h hs)
  obtain got s' where "acquire k h s = (got, s')" by fastforce
  with acquire [OF Cons.prems(1) this] Cons.IH [of s'] Cons.prems show ?case
    by (auto split: prod.splits)
qed simp

lemma contend_free:
  assumes "good s" and "holder k s = None"
  shows "fst (contend (acquire k) (h # hs) s) = True # map (\<lambda>_. False) hs
         \<and> holder k (snd (contend (acquire k) (h # hs) s)) = Some h"
proof -
  obtain got s' where a: "acquire k h s = (got, s')" by fastforce
  from acquire [OF assms(1) this] assms(2) have "good s'" "holder k s' = Some h" "got" by auto
  with contend_held [of s' k h hs] a show ?thesis by (auto split: prod.splits)
qed

end

definition holder_of :: "string \<Rightarrow> world \<Rightarrow> string option" where
  "holder_of slug w = map_option lk_execution_id (find_row lk_hook_slug slug (w_locks w))"

definition acquired :: "external \<Rightarrow> string \<Rightarrow> string \<Rightarrow> world \<Rightarrow> bool \<times> world" where
  "acquired X slug i w = (case run_state (try_acquire X slug i) w of (r, w') \<Rightarrow> (r = Inr True, w'))"

definition locks_ok :: "world \<Rightarrow> bool" where
  "locks_ok w \<longleftrightarrow> no_faults w \<and> distinct (map lk_hook_slug (w_locks w))"

lemma run_get_holder [simp]:
  "run_state (get_holder slug) w =
     (if w_fault w (w_stmts w) then Inl (Sqlx StatementFailed) else Inr (holder_of slug w),
      w\<lparr>w_stmts := Suc (w_stmts w)\<rparr>)"
  by (simp add: get_holder_def holder_of_def)

lemma find_row_filter_other:
  "j \<noteq> k \<Longrightarrow> find_row key j (filter (\<lambda>r. key r \<noteq> k) rows) = find_row key j rows"
  by (induction rows) auto

interpretation execution_locks: mutex locks_ok holder_of "acquired X"
  "\<lambda>slug w. snd (run_state (release slug) w)"
  "\<lambda>slug i w. snd (run_state (hand_off X slug i) w)" for X
proof
  fix w k h got w'
  assume "locks_ok w" and "acquired X k h w = (got, w')"
  then show "locks_ok w' \<and> (got \<longleftrightarrow> holder_of k w = None)
      \<and> holder_of k w' = (case holder_of k w of None \<Rightarrow> Some h | Some h' \<Rightarrow> Some h')
      \<and> (\<forall>j. j \<noteq> k \<longrightarrow> holder_of j w' = holder_of j w)"
    using find_row_None_iff [of lk_hook_slug k "w_locks w"]
    by (auto simp: acquired_def try_acquire_def locks_ok_def no_faults_def holder_of_def
        find_row_append split: option.splits if_splits)
next
  fix w k
  assume "locks_ok w"
  then show "locks_ok (snd (run_state (release k) w))
      \<and> holder_of k (snd (run_state (release k) w)) = None
      \<and> (\<forall>j. j \<noteq> k \<longrightarrow> holder_of j (snd (run_state (release k) w)) = holder_of j w)"
    by (auto simp: release_def locks_ok_def no_faults_def holder_of_def find_row_None_iff
        find_row_filter_other distinct_map_filter)
next
  fix w k h
  assume "locks_ok w"
  then show "locks_ok (snd (run_state (hand_off X k h) w))
      \<and> holder_of k (snd (run_state (hand_off X k h) w)) = map_option (\<lambda>_. h) (holder_of k w)
      \<and> (\<forall>j. j \<noteq> k \<longrightarrow> holder_of j (snd (run_state (hand_off X k h) w)) = holder_of j w)"
    by (auto simp: hand_off_def locks_ok_def no_faults_def holder_of_def map_update_rows
        find_row_update [where key = lk_hook_slug] option.map_comp
        dest: find_row_SomeD intro!: option.map_cong0
        split: option.splits)
qed

section \<open>Queues as an interface\<close>

text \<open>A queue holds a list: pushing appends at the end, popping removes the first element. \<open>able\<close>
  says which elements may be pushed; pushing keeps others able.\<close>

locale fifo =
  fixes good :: "'s \<Rightarrow> bool" and able :: "'a \<Rightarrow> 's \<Rightarrow> bool" and contents :: "'s \<Rightarrow> 'a list"
    and push :: "'a \<Rightarrow> 's \<Rightarrow> 's" and pop :: "'s \<Rightarrow> 'a option \<times> 's"
  assumes push: "good s \<Longrightarrow> able x s \<Longrightarrow>
      good (push x s) \<and> contents (push x s) = contents s @ [x] \<and> (\<forall>y. able y s \<longrightarrow> able y (push x s))"
    and pop: "good s \<Longrightarrow> pop s = (r, s') \<Longrightarrow>
      good s' \<and> (case contents s of [] \<Rightarrow> r = None \<and> contents s' = []
                                  | x # xs \<Rightarrow> r = Some x \<and> contents s' = xs)"

fun drain :: "('s \<Rightarrow> 'a option \<times> 's) \<Rightarrow> nat \<Rightarrow> 's \<Rightarrow> 'a option list \<times> 's" where
  "drain pp 0 s = ([], s)"
| "drain pp (Suc n) s =
     (case pp s of (r, s') \<Rightarrow> (case drain pp n s' of (rs, s'') \<Rightarrow> (r # rs, s'')))"

context fifo
begin

lemma push_all:
  assumes "good s" and "\<forall>x\<in>set xs. able x s"
  shows "good (fold push xs s) \<and> contents (fold push xs s) = contents s @ xs"
  using assms
proof (induction xs arbitrary: s)
  case (Cons x xs)
  with push [of s x] Cons.IH [of "push x s"] show ?case by simp
qed simp

lemma drain_all:
  assumes "good s" and "n \<le> length (contents s)"
  shows "fst (drain pop n s) = map Some (take n (contents s))
         \<and> contents (snd (drain pop n s)) = drop n (contents s)"
  using assms
proof (induction n arbitrary: s)
  case (Suc n)
  obtain r s' where p: "pop s = (r, s')" by fastforce
  from Suc.prems(2) obtain x xs where c: "contents s = x # xs" by (cases "contents s") auto
  from pop [OF Suc.prems(1) p] c have "good s'" "r = Some x" "contents s' = xs" by auto
  with Suc.IH [of s'] Suc.prems(2) c p show ?case by (auto split: prod.splits)
qed simp

lemma first_in_first_out:
  assumes "good s" and "contents s = []" and "\<forall>x\<in>set xs. able x s"
  shows "fst (drain pop (length xs) (fold push xs s)) = map Some xs
         \<and> contents (snd (drain pop (length xs) (fold push xs s))) = []"
  using push_all [OF assms(1,3)] drain_all [of "fold push xs s" "length xs"] assms(2) by simp

end

definition queue_of :: "string \<Rightarrow> world \<Rightarrow> string list" where
  "queue_of slug w = map qr_execution_id (waiting_rows slug (w_queue w))"

text \<open>The rows of a hook are numbered upwards, and an identifier the stream still has to give is
  not in use.\<close>

definition queue_ok :: "world \<Rightarrow> bool" where
  "queue_ok w \<longleftrightarrow>
     no_faults w
     \<and> (\<forall>slug. sorted_wrt (<) (map qr_position (filter (\<lambda>q. qr_hook_slug q = slug) (w_queue w))))
     \<and> distinct (map qr_id (w_queue w)) \<and> inj (w_uuids w)
     \<and> qr_id ` set (w_queue w) \<subseteq> w_uuids w ` {..<w_next_uuid w}"

definition enqueued :: "external \<Rightarrow> string \<Rightarrow> string \<Rightarrow> world \<Rightarrow> world" where
  "enqueued X slug i w = snd (run_state (enqueue X slug i) w)"

text \<open>How the completion handler takes the next execution off the queue.\<close>

definition take_next :: "string \<Rightarrow> string option io" where
  "take_next slug = do {
     next_entry \<leftarrow> peek_next slug;
     (case next_entry of
        Inr (Some q) \<Rightarrow> do { _ \<leftarrow> mark_ready (qe_id q); return (Some (qe_execution_id q)) }
      | _ \<Rightarrow> return None)
   }"

lemma next_position_greater:
  "q \<in> set rows \<Longrightarrow> qr_hook_slug q = slug \<Longrightarrow> qr_position q < next_position slug rows"
  by (auto simp: next_position_def less_Suc_eq_le intro!: Max_ge)

lemma waiting_sorted:
  assumes "queue_ok w"
  shows "sort_key qr_position (waiting_rows slug (w_queue w)) = waiting_rows slug (w_queue w)"
proof -
  have "sorted (map qr_position (filter (\<lambda>q. qr_hook_slug q = slug) (w_queue w)))"
    using assms unfolding queue_ok_def by (blast intro: strict_sorted_imp_sorted)
  then have "sorted (map qr_position (filter (\<lambda>q. qr_status q = Waiting)
      (filter (\<lambda>q. qr_hook_slug q = slug) (w_queue w))))"
    by (rule sorted_filter)
  then have "sorted (map qr_position (waiting_rows slug (w_queue w)))"
    by (simp add: waiting_rows_def conj_commute)
  then show ?thesis by (rule sort_key_id_if_sorted)
qed

lemma waiting_rows_append [simp]:
  "waiting_rows slug (rows @ rows') = waiting_rows slug rows @ waiting_rows slug rows'"
  by (simp add: waiting_rows_def)

lemma fresh_queue_id: "queue_ok w \<Longrightarrow> w_uuids w (w_next_uuid w) \<notin> qr_id ` set (w_queue w)"
  unfolding queue_ok_def inj_def by (fastforce simp: subset_iff)

lemma enqueued_world:
  assumes "queue_ok w" and "i \<in> ex_id ` set (w_execs w)"
  shows "w_queue (enqueued X slug i w) = w_queue w @
            [\<lparr>qr_id = w_uuids w (w_next_uuid w), qr_hook_slug = slug, qr_execution_id = i,
              qr_position = next_position slug (w_queue w),
              qr_queued_at = fmt_millis X (w_clock w (w_ticks w) div 1000000), qr_status = Waiting\<rparr>]"
    and "w_execs (enqueued X slug i w) = w_execs w"
    and "w_fault (enqueued X slug i w) = w_fault w" and "w_uuids (enqueued X slug i w) = w_uuids w"
    and "w_next_uuid (enqueued X slug i w) = Suc (w_next_uuid w)"
proof -
  note fresh = fresh_queue_id [OF assms(1)]
  then have "find_row qr_id (w_uuids w (w_next_uuid w)) (w_queue w) = None"
    by (simp add: find_row_None_iff)
  then show "w_queue (enqueued X slug i w) = w_queue w @
            [\<lparr>qr_id = w_uuids w (w_next_uuid w), qr_hook_slug = slug, qr_execution_id = i,
              qr_position = next_position slug (w_queue w),
              qr_queued_at = fmt_millis X (w_clock w (w_ticks w) div 1000000), qr_status = Waiting\<rparr>]"
    "w_execs (enqueued X slug i w) = w_execs w"
    "w_fault (enqueued X slug i w) = w_fault w" "w_uuids (enqueued X slug i w) = w_uuids w"
    "w_next_uuid (enqueued X slug i w) = Suc (w_next_uuid w)"
    using assms fresh
    by (simp_all add: enqueued_def enqueue_def insert_queue_row_def queue_ok_def no_faults_def
        find_row_append)
qed

lemma queue_ok_enqueued:
  assumes "queue_ok w" and "i \<in> ex_id ` set (w_execs w)"
  shows "queue_ok (enqueued X slug i w)"
proof -
  note e = enqueued_world [OF assms, of X slug]
  have "sorted_wrt (<) (map qr_position (filter (\<lambda>q. qr_hook_slug q = s) (w_queue (enqueued X slug i w))))" for s
    using assms(1) by (auto simp: e(1) queue_ok_def sorted_wrt_append intro: next_position_greater)
  moreover have "distinct (map qr_id (w_queue (enqueued X slug i w)))"
    using assms(1) fresh_queue_id [OF assms(1)] by (simp add: e(1) queue_ok_def)
  moreover have "qr_id ` set (w_queue (enqueued X slug i w)) \<subseteq> w_uuids w ` {..<Suc (w_next_uuid w)}"
    using assms(1) by (auto simp: e(1) queue_ok_def lessThan_Suc)
  ultimately show ?thesis
    using assms(1) by (simp add: queue_ok_def no_faults_def e(3-5))
qed

lemma waiting_rows_ready:
  "waiting_rows slug (update_rows (\<lambda>q. qr_id q = k \<and> qr_status q = Waiting)
       (\<lambda>q. q\<lparr>qr_status := Ready\<rparr>) rows)
     = filter (\<lambda>q. qr_id q \<noteq> k) (waiting_rows slug rows)"
  by (induction rows) (auto simp: waiting_rows_def)

lemma take_next_world:
  assumes "queue_ok w"
  shows "run_state (take_next slug) w =
    (case waiting_rows slug (w_queue w) of
       [] \<Rightarrow> (None, w\<lparr>w_stmts := Suc (w_stmts w)\<rparr>)
     | q # qs \<Rightarrow> (Some (qr_execution_id q),
                  w\<lparr>w_stmts := Suc (Suc (w_stmts w)),
                    w_queue := update_rows (\<lambda>r. qr_id r = qr_id q \<and> qr_status r = Waiting)
                      (\<lambda>r. r\<lparr>qr_status := Ready\<rparr>) (w_queue w)\<rparr>))"
  using assms waiting_sorted [OF assms, of slug]
  by (auto simp: take_next_def peek_next_def mark_ready_def queue_ok_def no_faults_def
      split: list.splits)

lemma filter_position_update:
  "map qr_position (filter (\<lambda>q. qr_hook_slug q = s) (update_rows p (\<lambda>q. q\<lparr>qr_status := st\<rparr>) rows))
     = map qr_position (filter (\<lambda>q. qr_hook_slug q = s) rows)"
  by (induction rows) auto

lemma queue_ok_stmts [simp]: "queue_ok (w\<lparr>w_stmts := n\<rparr>) = queue_ok w"
  by (simp add: queue_ok_def no_faults_def)

lemma queue_ok_status:
  "queue_ok w \<Longrightarrow> queue_ok (w\<lparr>w_stmts := n, w_queue := update_rows p (\<lambda>q. q\<lparr>qr_status := st\<rparr>) (w_queue w)\<rparr>)"
  by (auto simp: queue_ok_def no_faults_def filter_position_update map_update_rows set_update_rows)

interpretation execution_queue: fifo queue_ok "\<lambda>i w. i \<in> ex_id ` set (w_execs w)" "queue_of slug"
  "enqueued X slug" "run_state (take_next slug)" for X slug
proof
  fix w x
  assume w: "queue_ok w" and "x \<in> ex_id ` set (w_execs w)"
  then show "queue_ok (enqueued X slug x w)
      \<and> queue_of slug (enqueued X slug x w) = queue_of slug w @ [x]
      \<and> (\<forall>y. y \<in> ex_id ` set (w_execs w) \<longrightarrow> y \<in> ex_id ` set (w_execs (enqueued X slug x w)))"
    using enqueued_world [of w x X slug] queue_ok_enqueued [of w x X slug]
    by (simp add: queue_of_def waiting_rows_def)
next
  fix w r w'
  assume w: "queue_ok w" and run: "run_state (take_next slug) w = (r, w')"
  show "queue_ok w' \<and> (case queue_of slug w of [] \<Rightarrow> r = None \<and> queue_of slug w' = []
          | x # xs \<Rightarrow> r = Some x \<and> queue_of slug w' = xs)"
  proof (cases "waiting_rows slug (w_queue w)")
    case Nil
    with w run show ?thesis
      by (auto simp: take_next_world queue_of_def)
  next
    case (Cons q qs)
    have "distinct (map qr_id (waiting_rows slug (w_queue w)))"
      using w by (simp add: queue_ok_def waiting_rows_def distinct_map_filter)
    then have "filter (\<lambda>r. qr_id r \<noteq> qr_id q) (q # qs) = qs"
      using Cons by (auto simp: filter_id_conv) (metis image_eqI)
    with Cons w run show ?thesis
      by (auto simp: take_next_world queue_of_def waiting_rows_ready queue_ok_status)
  qed
qed

section \<open>Properties\<close>

text \<open>C23: The lock is exclusive. Of any executions that try to acquire a hook's free lock one after
  the other exactly the first gets it and holds it, also when other hooks' locks are taken; once
  released, the lock is free again, and a hand-off changes the holder without ever freeing it.\<close>

theorem lock_exclusive:
  assumes "locks_ok w" and "holder_of slug w = None"
    and "contend (acquired X slug) (i # ids) w = (gots, w')"
  shows "gots = True # map (\<lambda>_. False) ids \<and> holder_of slug w' = Some i
         \<and> holder_of slug (snd (run_state (hand_off X slug j) w')) = Some j
         \<and> holder_of slug (snd (run_state (release slug) w')) = None"
proof -
  have c: "gots = True # map (\<lambda>_. False) ids" "holder_of slug w' = Some i"
    using execution_locks.contend_free [OF assms(1,2), of X i ids] assms(3) by simp_all
  have "locks_ok w'"
    using execution_locks.contend_good [OF assms(1)] assms(3) by (metis snd_conv)
  with c show ?thesis
    using execution_locks.transfer [where s = w' and k = slug and h = j and X = X]
      execution_locks.free [where s = w' and k = slug] by simp
qed

text \<open>C22: The queue is first in, first out. Executions enqueued for a hook into its empty queue
  are taken by the completion handler in the order they were enqueued, each exactly once, also
  when the queues of other hooks are used in between positions.\<close>

theorem queue_fifo:
  assumes "queue_ok w" and "queue_of slug w = []" and "set ids \<subseteq> ex_id ` set (w_execs w)"
  shows "fst (drain (run_state (take_next slug)) (length ids) (fold (enqueued X slug) ids w)) = map Some ids
         \<and> queue_of slug (snd (drain (run_state (take_next slug)) (length ids)
             (fold (enqueued X slug) ids w))) = []"
  using execution_queue.first_in_first_out [OF assms(1,2)] assms(3) by blast

text \<open>Three contenders and a queue of two, on a concrete world.\<close>

theorem lock_exclusive_witness:
  "fst (contend (acquired sample_external ''deploy'') [''e1'', ''e2'', ''e3''] sample_world)
     = [True, False, False]"
proof -
  have "locks_ok sample_world" "holder_of ''deploy'' sample_world = None"
    by (simp_all add: locks_ok_def no_faults_def sample_world_def holder_of_def)
  from lock_exclusive [OF this prod.collapse [symmetric],
      where X = sample_external and i = "''e1''" and ids = "[''e2'', ''e3'']"]
  show ?thesis by simp
qed

lemma two_world_queue: "queue_ok two_world \<and> queue_of slug two_world = []"
  by (auto simp: queue_ok_def no_faults_def queue_of_def waiting_rows_def two_world_def
      sample_world_def inj_def)

theorem queue_fifo_witness:
  "fst (drain (run_state (take_next ''deploy'')) 2
     (fold (enqueued sample_external ''deploy'') [''e2'', ''e1''] two_world)) = [Some ''e2'', Some ''e1'']"
proof -
  have "set [''e2'', ''e1''] \<subseteq> ex_id ` set (w_execs two_world)"
    by (simp add: two_world_def sample_execution_def)
  from queue_fifo [OF two_world_queue [THEN conjunct1] two_world_queue [THEN conjunct2] this,
      where X = sample_external]
  show ?thesis by (simp add: numeral_2_eq_2)
qed

end
