(* ===== verification/Interpolation.thy ===== *)
theory Interpolation
  imports Config
begin

text \<open>
  \<open>src/interpolation.rs\<close>: shell escaping and \<open>{{field}}\<close> placeholders.

  The placeholder pattern of the source is a fixed regular expression: two opening braces,
  white space, one or more word characters or dots, white space, two closing braces. Its
  character classes are disjoint, so a match from a given position is unique and is found by
  scanning once; \<open>replace_all\<close> takes the leftmost match, replaces it and goes on behind it.
\<close>

abbreviation squote :: char where "squote \<equiv> CHR 0x27"
abbreviation backslash :: char where "backslash \<equiv> CHR 0x5C"

definition shell_escape :: "string \<Rightarrow> string" where
  "shell_escape value =
     (if squote \<notin> set value then quoted value
      else quoted (str_replace [squote] [squote, backslash, squote, squote] value))"

fun value_to_string :: "external \<Rightarrow> json \<Rightarrow> string" where
  "value_to_string X (JString s) = s"
| "value_to_string X (JNumber n) = n"
| "value_to_string X (JBool b) = (if b then ''true'' else ''false'')"
| "value_to_string X JNull = []"
| "value_to_string X other = json_to_string X other"

definition placeholder_char :: "char \<Rightarrow> bool" where
  "placeholder_char c \<longleftrightarrow>
     (let n = of_char c :: nat
      in (48 \<le> n \<and> n \<le> 57) \<or> (65 \<le> n \<and> n \<le> 90) \<or> (97 \<le> n \<and> n \<le> 122)
         \<or> c = CHR ''_'' \<or> c = CHR ''.'')"

text \<open>A match at the start of the text: the field path and the text behind the match.\<close>

definition match_placeholder :: "string \<Rightarrow> (string \<times> string) option" where
  "match_placeholder s =
     (case strip_prefix ''{{'' s of
        None \<Rightarrow> None
      | Some s1 \<Rightarrow>
          (let s2 = dropWhile is_space s1;
               name = takeWhile placeholder_char s2;
               s3 = dropWhile is_space (dropWhile placeholder_char s2)
           in if name = [] then None
              else map_option (Pair name) (strip_prefix ''}}'' s3)))"

lemma match_placeholder_shorter:
  "match_placeholder s = Some (name, rest) \<Longrightarrow> length rest < length s"
proof -
  assume m: "match_placeholder s = Some (name, rest)"
  then obtain s1 where s: "s = ''{{'' @ s1"
    and r: "dropWhile is_space (dropWhile placeholder_char (dropWhile is_space s1)) = ''}}'' @ rest"
    by (auto simp: match_placeholder_def Let_def strip_prefix_Some_iff
        simp del: strip_prefix.simps append.simps split: option.splits if_splits)
  have "length (''}}'' @ rest) \<le> length s1"
    unfolding r [symmetric] by (meson length_dropWhile_le le_trans)
  then show ?thesis by (simp add: s)
qed

text \<open>The replacement for one match: the escaped value, or the matched text itself when the
  field does not resolve.\<close>

definition replacement :: "external \<Rightarrow> json \<Rightarrow> string \<Rightarrow> string \<Rightarrow> string" where
  "replacement X payload whole name =
     (case resolve_field payload name of
        Some value \<Rightarrow> shell_escape (value_to_string X value)
      | None \<Rightarrow> whole)"

function replace_placeholders :: "external \<Rightarrow> json \<Rightarrow> string \<Rightarrow> string" where
  "replace_placeholders X payload [] = []"
| "replace_placeholders X payload (c # cs) =
     (case match_placeholder (c # cs) of
        None \<Rightarrow> c # replace_placeholders X payload cs
      | Some (name, rest) \<Rightarrow>
          replacement X payload (take (length (c # cs) - length rest) (c # cs)) name
          @ replace_placeholders X payload rest)"
  by pat_completeness auto
termination
  by (relation "measure (\<lambda>(X, payload, s). length s)")
     (auto dest: match_placeholder_shorter)

definition interpolate_command :: "external \<Rightarrow> string \<Rightarrow> json \<Rightarrow> string" where
  "interpolate_command X template payload =
     (if \<not> str_contains ''{{'' template then template
      else replace_placeholders X payload template)"

section \<open>Shell escaping\<close>

text \<open>
  The specification: how \<open>sh\<close> reads one word. Inside single quotes every character but the
  closing quote is literal; outside, a backslash makes the next character literal (and removes a
  line break), white space and the operators end the word, and every other character stands
  for itself. The flag says whether a single quote is open; \<open>None\<close> is an unterminated quote.
\<close>

definition sh_special :: "char \<Rightarrow> bool" where
  "sh_special c \<longleftrightarrow> is_space c \<or> c \<in> set ''|&;<>()$`*?[#~{}!''  \<or> c = CHR 0x22"

fun sh_word :: "bool \<Rightarrow> string \<Rightarrow> string \<Rightarrow> (string \<times> string) option" where
  "sh_word True acc [] = None"
| "sh_word True acc (c # cs) =
     (if c = squote then sh_word False acc cs else sh_word True (acc @ [c]) cs)"
| "sh_word False acc [] = Some (acc, [])"
| "sh_word False acc (c # cs) =
     (if c = squote then sh_word True acc cs
      else if c = backslash then
        (case cs of
           [] \<Rightarrow> Some (acc @ [c], [])
         | d # ds \<Rightarrow> sh_word False (if d = CHR 0x0A then acc else acc @ [d]) ds)
      else if sh_special c then Some (acc, c # cs)
      else sh_word False (acc @ [c]) cs)"

abbreviation escaped_body :: "string \<Rightarrow> string" where
  "escaped_body v \<equiv> str_replace [squote] [squote, backslash, squote, squote] v"

lemma shell_escape_eq: "shell_escape v = quoted (escaped_body v)"
proof (cases "squote \<in> set v")
  case False
  then have "\<not> sublist [squote] v" by (auto simp: sublist_def)
  then show ?thesis using False by (simp add: shell_escape_def str_replace_absent)
qed (simp add: shell_escape_def)

lemma sh_word_escaped_body:
  "sh_word True acc (escaped_body v @ squote # rest) = sh_word False (acc @ v) rest"
proof (induction v arbitrary: acc)
  case (Cons c cs)
  show ?case by (cases "c = squote") (simp_all add: Cons.IH)
qed simp

text \<open>C34: Shell escaping is injection-proof: whatever the value is, the shell reads the escaped
  value, in an unquoted position, as exactly the characters of the value and goes on with the
  text behind it. No character of the value is ever read as an operator or an expansion.\<close>

theorem shell_escape_literal:
  "sh_word False acc (shell_escape v @ rest) = sh_word False (acc @ v) rest"
  by (simp add: shell_escape_eq quoted_def sh_word_escaped_body)

section \<open>Placeholders\<close>

lemma match_placeholder_prefix: "match_placeholder s = Some r \<Longrightarrow> prefix ''{{'' s"
  by (auto simp: match_placeholder_def strip_prefix_Some_iff simp del: strip_prefix.simps
      split: option.splits)

lemma match_placeholder_simple:
  assumes "name \<noteq> []" and "list_all placeholder_char name"
    and "list_all is_space ws" and "list_all is_space ws'"
  shows "match_placeholder (''{{'' @ ws @ name @ ws' @ ''}}'' @ rest) = Some (name, rest)"
proof -
  have sp: "\<not> is_space c" if "placeholder_char c" for c
    using that by (auto simp: placeholder_char_def is_space_def Let_def)
  have pl: "\<not> placeholder_char c" if "is_space c" for c
    using that sp by blast
  have "dropWhile is_space (ws @ name @ ws' @ ''}}'' @ rest) = name @ ws' @ ''}}'' @ rest"
    using assms sp by (cases name) (auto simp: dropWhile_append3 list_all_iff)
  moreover have "takeWhile placeholder_char (name @ ws' @ ''}}'' @ rest) = name"
    using assms pl
    by (cases ws') (auto simp: takeWhile_append list_all_iff placeholder_char_def)
  moreover have "dropWhile placeholder_char (name @ ws' @ ''}}'' @ rest) = ws' @ ''}}'' @ rest"
    using assms pl
    by (cases ws') (auto simp: dropWhile_append list_all_iff placeholder_char_def)
  moreover have "dropWhile is_space (ws' @ ''}}'' @ rest) = ''}}'' @ rest"
    using assms by (auto simp: dropWhile_append list_all_iff is_space_def)
  ultimately show ?thesis
    using assms by (simp add: match_placeholder_def Let_def)
qed

lemma replace_placeholders_skip:
  assumes "\<not> sublist ''{{'' a" and "match_placeholder s \<noteq> None \<or> s = []"
  shows "replace_placeholders X payload (a @ s) = a @ replace_placeholders X payload s"
  using assms
proof (induction a)
  case (Cons c cs)
  have no: "match_placeholder (c # cs @ s) = None"
  proof (cases cs)
    case Nil
    show ?thesis
    proof (cases s)
      case s: (Cons d ds)
      with Cons.prems(2) Nil have "prefix ''{{'' s"
        using match_placeholder_prefix by blast
      then have "cs @ s = CHR ''{'' # CHR ''{'' # tl ds"
        using s Nil by (cases ds) (auto simp: prefix_Cons)
      then show ?thesis
        by (auto simp: match_placeholder_def Let_def is_space_def placeholder_char_def)
    qed (simp add: Nil match_placeholder_def)
  next
    case c: (Cons d ds)
    with Cons.prems(1) have "\<not> prefix ''{{'' (c # cs @ s)"
      by (auto simp: sublist_Cons_right)
    then show ?thesis
      by (cases "match_placeholder (c # cs @ s)") (auto dest: match_placeholder_prefix)
  qed
  with Cons show ?case by (auto simp: sublist_Cons_right)
qed simp

lemma replace_placeholders_no_open:
  "\<not> sublist ''{{'' s \<Longrightarrow> replace_placeholders X payload s = s"
  using replace_placeholders_skip [of s "[]"] by simp

lemma interpolate_command_eq: "interpolate_command X t payload = replace_placeholders X payload t"
  by (simp add: interpolate_command_def str_contains_iff replace_placeholders_no_open)

lemma replace_placeholders_match:
  assumes "match_placeholder (w @ b) = Some (name, b)"
  shows "replace_placeholders X payload (w @ b)
           = replacement X payload w name @ replace_placeholders X payload b"
proof -
  obtain c cs where s: "w @ b = c # cs"
    using match_placeholder_shorter [OF assms] by (cases "w @ b") auto
  have "take (length (c # cs) - length b) (c # cs) = w"
    unfolding s [symmetric] by simp
  with assms show ?thesis unfolding s by simp
qed

text \<open>Interpolation replaces the first placeholder of a template (white space inside the
  braces ignored) by the escaped string form of the field it names, leaves the text before it
  unchanged, and goes on with the text behind it; an unresolved placeholder stays as it is.\<close>

theorem interpolate_command_first:
  assumes "\<not> sublist ''{{'' a" and "name \<noteq> []" and "list_all placeholder_char name"
    and "list_all is_space ws" and "list_all is_space ws'"
  shows "interpolate_command X (a @ ''{{'' @ ws @ name @ ws' @ ''}}'' @ b) payload =
     a @ (case resolve_field payload name of
            Some v \<Rightarrow> shell_escape (value_to_string X v)
          | None \<Rightarrow> ''{{'' @ ws @ name @ ws' @ ''}}'')
       @ interpolate_command X b payload"
proof -
  define w where "w = ''{{'' @ ws @ name @ ws' @ ''}}''"
  have "match_placeholder (w @ b) = Some (name, b)"
    using match_placeholder_simple [OF assms(2-5)] by (simp add: w_def)
  then have "interpolate_command X (a @ w @ b) payload
      = a @ replacement X payload w name @ interpolate_command X b payload"
    using replace_placeholders_skip [OF assms(1), of "w @ b"]
    by (simp add: interpolate_command_eq replace_placeholders_match)
  then show ?thesis by (simp add: w_def replacement_def split: option.split)
qed

theorem interpolate_command_first_witness:
  "interpolate_command sample_external ''echo {{ a.b }};'' (JObject [(''a'', JObject [(''b'', JString ''x y'')])])
     = ''echo '' @ shell_escape ''x y'' @ '';''"
proof -
  have "\<not> sublist ''{{'' ''echo ''" by (simp add: sublist_Cons_right prefix_Cons)
  moreover have "list_all placeholder_char ''a.b''"
    by (simp add: placeholder_char_def)
  moreover have "list_all is_space '' ''" by (simp add: is_space_def)
  ultimately show ?thesis
    using interpolate_command_first [of "''echo ''" "''a.b''" "'' ''" "'' ''" sample_external "'';''"
        "JObject [(''a'', JObject [(''b'', JString ''x y'')])]"]
    by (simp add: interpolate_command_def [of _ "'';''"] starts_with_def resolve_field_def)
qed

end
