(* ===== verification/Executor.thy ===== *)
theory Executor
  imports Barrier_Store Interpolation
begin

text \<open>
  \<open>src/executor\<close>: resolving a hook's executor against a payload, and running it as a shell
  command, a script or an HTTP request. An execution goes from pending to running before the
  process is started and to a terminal status when the outcome is known. Writing to an open log
  file is modelled as appending to it; a failed file operation leaves the files as they were.
\<close>

section \<open>Resolving\<close>

definition resolve_executor :: "external \<Rightarrow> executor_config \<Rightarrow> string \<Rightarrow> resolved_executor" where
  "resolve_executor X config payload_json =
     (case config of
        Shell command \<Rightarrow>
          RShell (case json_from_slice X payload_json of
                    Inr payload_value \<Rightarrow> interpolate_command X command payload_value
                  | Inl _ \<Rightarrow> command)
      | Script path \<Rightarrow> RScript path Direct
      | JavaScript path \<Rightarrow> RScript path RunJavaScript
      | Python path \<Rightarrow> RScript path RunPython
      | Http method url hdrs body follow_redirects \<Rightarrow>
          (let payload_value = (case json_from_slice X payload_json of
                                  Inr v \<Rightarrow> v | Inl _ \<Rightarrow> JObject [])
           in RHttp method (interpolate_command X url payload_value) hdrs
                (map_option (\<lambda>b. interpolate_command X b payload_value) body) follow_redirects))"

section \<open>Log files\<close>

definition path_join :: "string \<Rightarrow> string \<Rightarrow> string" where
  "path_join a b =
     (if starts_with ''/'' b then b
      else if a = [] \<or> ends_with ''/'' a then a @ b
      else a @ ''/'' @ b)"

definition write_file :: "string \<Rightarrow> string \<Rightarrow> unit io" where
  "write_file path content = modify (\<lambda>w. w\<lparr>w_files := (w_files w)(path \<mapsto> content)\<rparr>)"

definition open_append :: "string \<Rightarrow> unit io" where
  "open_append path = modify (\<lambda>w.
     w\<lparr>w_files := (w_files w)(path \<mapsto> (case w_files w path of Some s \<Rightarrow> s | None \<Rightarrow> []))\<rparr>)"

definition append_file :: "string \<Rightarrow> string \<Rightarrow> unit io" where
  "append_file path content = modify (\<lambda>w.
     w\<lparr>w_files := (case w_files w path of
                      Some s \<Rightarrow> (w_files w)(path \<mapsto> s @ content) | None \<Rightarrow> w_files w)\<rparr>)"

definition if_ok :: "unit io \<Rightarrow> 'a option io \<Rightarrow> 'a option io" where
  "if_ok act rest = do { ok \<leftarrow> io_step; if ok then do { _ \<leftarrow> act; rest } else return None }"

definition prepare_log_files :: "string \<Rightarrow> string \<Rightarrow> string \<Rightarrow> string option io" where
  "prepare_log_files logs_dir execution_id payload_json = do {
     let log_dir = path_join logs_dir execution_id;
     if_ok (return ())
       (if_ok (write_file (path_join log_dir ''payload.json'') payload_json)
         (if_ok (open_append (path_join log_dir ''stdout.log''))
           (if_ok (open_append (path_join log_dir ''stderr.log''))
             (return (Some log_dir)))))
   }"

section \<open>The environment of a child process\<close>

definition inherit_vars :: "string list" where
  "inherit_vars = [''PATH'', ''HOME'', ''USER'', ''LANG'']"

definition system_env_vars :: "external \<Rightarrow> string_map" where
  "system_env_vars X =
     List.map_filter (\<lambda>name. map_option (\<lambda>val. (name, val)) (env_var X name)) inherit_vars"

definition extend_env :: "string_map \<Rightarrow> (string \<Rightarrow> string option) \<Rightarrow> string \<Rightarrow> string option" where
  "extend_env entries env = foldl (\<lambda>e (k, v). e(k \<mapsto> v)) env entries"

definition base_env :: "external \<Rightarrow> execution_context \<Rightarrow> string \<Rightarrow> string option" where
  "base_env X ctx =
     extend_env [(''SENDWORD_EXECUTION_ID'', xc_execution_id ctx),
                 (''SENDWORD_HOOK_SLUG'', xc_hook_slug ctx),
                 (''SENDWORD_PAYLOAD'', xc_payload_json ctx)]
       (extend_env (xc_env ctx) (extend_env (system_env_vars X) Map.empty))"

function flatten_recursive :: "json \<Rightarrow> string \<Rightarrow> string_map" where
  "flatten_recursive (JObject kvs) pfx =
     concat (map (\<lambda>(key, val). flatten_recursive val
       (if pfx = [] then key else pfx @ ''.'' @ key)) kvs)"
| "flatten_recursive (JArray arr) pfx =
     concat (map (\<lambda>(i, val). flatten_recursive val
       (if pfx = [] then show_nat i else pfx @ ''.'' @ show_nat i)) (enumerate0 arr))"
| "flatten_recursive (JString s) pfx = (if pfx \<noteq> [] then [(pfx, s)] else [])"
| "flatten_recursive (JNumber n) pfx = (if pfx \<noteq> [] then [(pfx, n)] else [])"
| "flatten_recursive (JBool b) pfx =
     (if pfx \<noteq> [] then [(pfx, if b then ''true'' else ''false'')] else [])"
| "flatten_recursive JNull pfx = []"
  by pat_completeness auto
termination
proof (relation "measure (\<lambda>(v, pfx). size v)")
  show "((b, if pfx = [] then a else pfx @ ''.'' @ a), JObject kvs, pfx)
      \<in> measure (\<lambda>(v, pfx). size v)" if "x \<in> set kvs" "(a, b) = x" for kvs pfx x a b
    using that by (induction kvs) auto
  show "((b, if pfx = [] then show_nat i else pfx @ ''.'' @ show_nat i), JArray arr, pfx)
      \<in> measure (\<lambda>(v, pfx). size v)" if "x \<in> set (enumerate0 arr)" "(i, b) = x" for arr pfx x i b
  proof -
    have "b \<in> set arr" using that by (auto simp: enumerate0_def dest: set_zip_rightD)
    then have "size b < size (JArray arr)" by (induction arr) auto
    then show ?thesis by simp
  qed
qed simp

definition flatten_json_fields :: "json \<Rightarrow> string_map" where
  "flatten_json_fields v = flatten_recursive v []"

definition field_env_key :: "string \<Rightarrow> string" where
  "field_env_key key =
     ''SENDWORD_FIELD_'' @ map (\<lambda>c. if c = CHR ''.'' then CHR ''_'' else c) (map ascii_upper key)"

definition script_env :: "external \<Rightarrow> execution_context \<Rightarrow> string \<Rightarrow> string option" where
  "script_env X ctx =
     extend_env
       (case json_from_slice X (xc_payload_json ctx) of
          Inr v \<Rightarrow> map (\<lambda>(key, val). (field_env_key key, val)) (flatten_json_fields v)
        | Inl _ \<Rightarrow> [])
       (base_env X ctx)"

section \<open>Shell commands\<close>

definition result_of :: "execution_status \<Rightarrow> int option \<Rightarrow> string \<Rightarrow> execution_result" where
  "result_of status exit_code log_dir =
     \<lparr>xr_status = status, xr_exit_code = exit_code, xr_log_dir = log_dir\<rparr>"

text \<open>The result of waiting for the child with the timeout; an exit code of zero is success.\<close>

definition wait_result :: "process_outcome \<Rightarrow> execution_status \<times> int option" where
  "wait_result out =
     (case out of
        Exited code _ _ \<Rightarrow> (if code = Some 0 then Success else Failed, code)
      | TimeElapsed _ _ \<Rightarrow> (TimedOut, None)
      | _ \<Rightarrow> (Failed, None))"

definition stream_output :: "string \<Rightarrow> process_outcome \<Rightarrow> unit io" where
  "stream_output log_dir out =
     (let write = (\<lambda>o_text e_text. do {
            _ \<leftarrow> append_file (path_join log_dir ''stdout.log'') o_text;
            append_file (path_join log_dir ''stderr.log'') e_text })
      in case out of
           Exited _ a b \<Rightarrow> write a b
         | WaitFailed a b \<Rightarrow> write a b
         | TimeElapsed a b \<Rightarrow> write a b
         | SpawnFailed _ _ \<Rightarrow> return ())"

definition run_shell :: "external \<Rightarrow> execution_context \<Rightarrow> string \<Rightarrow> execution_result io" where
  "run_shell X ctx cmd_text = do {
     let log_dir_str = xc_logs_dir ctx @ ''/'' @ xc_execution_id ctx;
     prepared \<leftarrow> prepare_log_files (xc_logs_dir ctx) (xc_execution_id ctx) (xc_payload_json ctx);
     case prepared of
       None \<Rightarrow> return (result_of Failed None log_dir_str)
     | Some log_dir \<Rightarrow> do {
         marked \<leftarrow> mark_running X (xc_execution_id ctx);
         case marked of
           Inl e \<Rightarrow> return (result_of Failed None log_dir)
         | Inr _ \<Rightarrow> do {
             out \<leftarrow> start_process \<lparr>cm_program = ''sh'', cm_args = [''-c'', cmd_text],
                      cm_env = base_env X ctx, cm_cwd = xc_cwd ctx\<rparr>;
             case out of
               SpawnFailed nf e \<Rightarrow> do {
                 _ \<leftarrow> append_file (path_join log_dir ''stderr.log'')
                        (''failed to spawn command: '' @ e @ [CHR 0x0A]);
                 _ \<leftarrow> mark_completed X (xc_execution_id ctx) Failed None;
                 return (result_of Failed None log_dir) }
             | _ \<Rightarrow> do {
                 _ \<leftarrow> stream_output log_dir out;
                 let (status, exit_code) = wait_result out;
                 _ \<leftarrow> mark_completed X (xc_execution_id ctx) status exit_code;
                 return (result_of status exit_code log_dir) }
           }
       }
   }"

section \<open>Scripts\<close>

fun runtime_candidates :: "script_runtime \<Rightarrow> string list" where
  "runtime_candidates Direct = []"
| "runtime_candidates RunJavaScript = [''node'']"
| "runtime_candidates RunPython = [''python3'', ''python'']"

fun runtime_label :: "script_runtime \<Rightarrow> string" where
  "runtime_label Direct = ''script''"
| "runtime_label RunJavaScript = ''javascript''"
| "runtime_label RunPython = ''python''"

definition interpreter_script_arg :: "external \<Rightarrow> string \<Rightarrow> string" where
  "interpreter_script_arg X path =
     (if starts_with ''/'' path then path
      else if path_exists X path
      then (case path_canonicalize X path of
              Some p \<Rightarrow> p
            | None \<Rightarrow> (case current_dir X of Some cwd \<Rightarrow> path_join cwd path | None \<Rightarrow> path))
      else path)"

definition spawn_error_message :: "external \<Rightarrow> script_runtime \<Rightarrow> string \<Rightarrow> string option \<Rightarrow> string" where
  "spawn_error_message X runtime e cwd =
     (case cwd of
        Some d \<Rightarrow>
          if \<not> path_exists X d
          then ''failed to spawn '' @ runtime_label runtime @ '' runtime in cwd '' @ quoted d @ '': ''
               @ e @ [CHR 0x0A]
          else ''failed to spawn '' @ runtime_label runtime @ '' runtime: '' @ e @ [CHR 0x0A]
      | None \<Rightarrow> ''failed to spawn '' @ runtime_label runtime @ '' runtime: '' @ e @ [CHR 0x0A])"

definition prepare_command :: "external \<Rightarrow> execution_context \<Rightarrow> string \<Rightarrow> string list \<Rightarrow> command" where
  "prepare_command X ctx program args =
     \<lparr>cm_program = program, cm_args = args, cm_env = script_env X ctx, cm_cwd = xc_cwd ctx\<rparr>"

primrec try_candidates :: "external \<Rightarrow> execution_context \<Rightarrow> script_runtime \<Rightarrow> string \<Rightarrow> bool \<Rightarrow> string list
    \<Rightarrow> (string + process_outcome) io" where
  "try_candidates X ctx runtime script_arg cwd_exists [] =
     return (Inl (''failed to spawn '' @ runtime_label runtime @ '' runtime; tried: ''
       @ join '', '' (runtime_candidates runtime) @ [CHR 0x0A]))"
| "try_candidates X ctx runtime script_arg cwd_exists (candidate # rest) = do {
     out \<leftarrow> start_process (prepare_command X ctx candidate [script_arg]);
     case out of
       SpawnFailed nf e \<Rightarrow>
         if nf \<and> cwd_exists then try_candidates X ctx runtime script_arg cwd_exists rest
         else return (Inl (spawn_error_message X runtime e (xc_cwd ctx)))
     | _ \<Rightarrow> return (Inr out)
   }"

definition spawn_script :: "external \<Rightarrow> execution_context \<Rightarrow> string \<Rightarrow> script_runtime
    \<Rightarrow> (string + process_outcome) io" where
  "spawn_script X ctx path runtime =
     (if runtime = Direct
      then do {
        out \<leftarrow> start_process (prepare_command X ctx path []);
        return (case out of
            SpawnFailed nf e \<Rightarrow> Inl (''failed to spawn script: '' @ e @ [CHR 0x0A])
          | _ \<Rightarrow> Inr out)
      }
      else try_candidates X ctx runtime (interpreter_script_arg X path)
             (case xc_cwd ctx of Some cwd \<Rightarrow> path_exists X cwd | None \<Rightarrow> True)
             (runtime_candidates runtime))"

definition run_script :: "external \<Rightarrow> execution_context \<Rightarrow> string \<Rightarrow> script_runtime
    \<Rightarrow> execution_result io" where
  "run_script X ctx path runtime = do {
     let log_dir_str = xc_logs_dir ctx @ ''/'' @ xc_execution_id ctx;
     prepared \<leftarrow> prepare_log_files (xc_logs_dir ctx) (xc_execution_id ctx) (xc_payload_json ctx);
     case prepared of
       None \<Rightarrow> return (result_of Failed None log_dir_str)
     | Some log_dir \<Rightarrow> do {
         marked \<leftarrow> mark_running X (xc_execution_id ctx);
         case marked of
           Inl e \<Rightarrow> return (result_of Failed None log_dir)
         | Inr _ \<Rightarrow> do {
             child \<leftarrow> spawn_script X ctx path runtime;
             case child of
               Inl message \<Rightarrow> do {
                 _ \<leftarrow> append_file (path_join log_dir ''stderr.log'') message;
                 _ \<leftarrow> mark_completed X (xc_execution_id ctx) Failed None;
                 return (result_of Failed None log_dir) }
             | Inr out \<Rightarrow> do {
                 _ \<leftarrow> stream_output log_dir out;
                 let (status, exit_code) = wait_result out;
                 _ \<leftarrow> mark_completed X (xc_execution_id ctx) status exit_code;
                 return (result_of status exit_code log_dir) }
           }
       }
   }"

section \<open>HTTP requests\<close>

text \<open>\<open>resolve_env_refs\<close> reads a reference up to the closing brace, or to the end of the text when
  there is none.\<close>

function resolve_env_refs :: "external \<Rightarrow> string \<Rightarrow> string" where
  "resolve_env_refs X [] = []"
| "resolve_env_refs X (ch # rest) =
     (if ch = CHR ''$'' \<and> rest \<noteq> [] \<and> hd rest = CHR ''{''
      then (let var_name = takeWhile (\<lambda>c. c \<noteq> CHR ''}'') (tl rest)
            in (case env_var X var_name of Some v \<Rightarrow> v | None \<Rightarrow> [])
               @ resolve_env_refs X (drop (Suc (length var_name)) (tl rest)))
      else ch # resolve_env_refs X rest)"
  by pat_completeness auto
termination
  by (relation "measure (\<lambda>(X, s). length s)") auto

fun method_text :: "http_method \<Rightarrow> string" where
  "method_text Get = ''GET''"
| "method_text Post = ''POST''"
| "method_text Put = ''PUT''"
| "method_text Patch = ''PATCH''"
| "method_text Delete = ''DELETE''"

definition as_millis :: "duration \<Rightarrow> nat" where "as_millis d = d div 1000000"

definition response_meta :: "http_method \<Rightarrow> string \<Rightarrow> string \<Rightarrow> nat \<Rightarrow> (string \<times> string option) list
    \<Rightarrow> string" where
  "response_meta method url status_line elapsed hdrs =
     ''method='' @ method_text method @ '' url='' @ url @ '' status='' @ status_line
     @ '' elapsed='' @ show_nat elapsed @ ''ms'' @ [CHR 0x0A]
     @ concat (map (\<lambda>(name, value). ''response-header: '' @ name @ '': ''
         @ (case value of Some v \<Rightarrow> v | None \<Rightarrow> ''<non-utf8>'') @ [CHR 0x0A]) hdrs)"

definition handle_response :: "http_method \<Rightarrow> string \<Rightarrow> string \<Rightarrow> http_outcome
    \<Rightarrow> (execution_status \<times> int option) io" where
  "handle_response method url log_dir out =
     (case out of
        HttpFailed e \<Rightarrow> do {
          _ \<leftarrow> append_file (path_join log_dir ''stderr.log'') (''http request failed: '' @ e @ [CHR 0x0A]);
          return (Failed, None) }
      | HttpResponse status_code status_line elapsed hdrs body \<Rightarrow> do {
          _ \<leftarrow> append_file (path_join log_dir ''stderr.log'')
                 (response_meta method url status_line elapsed hdrs);
          _ \<leftarrow> (case body of
                  Some b \<Rightarrow> append_file (path_join log_dir ''stdout.log'') (take 4096 b)
                | None \<Rightarrow> return ());
          return (if 200 \<le> status_code \<and> status_code < 300 then Success else Failed,
                  Some (int status_code)) }
      | HttpElapsed \<Rightarrow> return (TimedOut, None))"

definition run_http :: "external \<Rightarrow> execution_context \<Rightarrow> execution_result io" where
  "run_http X ctx = do {
     let log_dir_str = xc_logs_dir ctx @ ''/'' @ xc_execution_id ctx;
     prepared \<leftarrow> prepare_log_files (xc_logs_dir ctx) (xc_execution_id ctx) (xc_payload_json ctx);
     case prepared of
       None \<Rightarrow> return (result_of Failed None log_dir_str)
     | Some log_dir \<Rightarrow> do {
         marked \<leftarrow> mark_running X (xc_execution_id ctx);
         case marked of
           Inl e \<Rightarrow> return (result_of Failed None log_dir)
         | Inr _ \<Rightarrow>
             (case xc_executor ctx of
                RHttp method url hdrs body follow_redirects \<Rightarrow> do {
                  out \<leftarrow> send_request \<lparr>rq_method = method, rq_url = url,
                           rq_headers = map (\<lambda>(key, value). (key, resolve_env_refs X value)) hdrs,
                           rq_body = body, rq_follow_redirects = follow_redirects\<rparr>;
                  if out = HttpElapsed
                  then do {
                    _ \<leftarrow> append_file (path_join log_dir ''stderr.log'')
                           (''method='' @ method_text method @ '' url='' @ url @ '' timeout=''
                            @ show_nat (as_millis (xc_timeout ctx)) @ ''ms'' @ [CHR 0x0A]);
                    _ \<leftarrow> mark_completed X (xc_execution_id ctx) TimedOut None;
                    return (result_of TimedOut None log_dir) }
                  else do {
                    (status, exit_code) \<leftarrow> handle_response method url log_dir out;
                    _ \<leftarrow> mark_completed X (xc_execution_id ctx) status exit_code;
                    return (result_of status exit_code log_dir) } }
              | _ \<Rightarrow> do {
                  _ \<leftarrow> mark_completed X (xc_execution_id ctx) Failed None;
                  return (result_of Failed None log_dir) })
       }
   }"

definition run_executor :: "external \<Rightarrow> execution_context \<Rightarrow> execution_result io" where
  "run_executor X ctx =
     (case xc_executor ctx of
        RShell cmd_text \<Rightarrow> run_shell X ctx cmd_text
      | RScript path runtime \<Rightarrow> run_script X ctx path runtime
      | RHttp _ _ _ _ _ \<Rightarrow> run_http X ctx)"

section \<open>What leaves the tables alone\<close>

definition same_tables :: "world \<Rightarrow> world \<Rightarrow> bool" where
  "same_tables w w' \<longleftrightarrow>
     w_execs w' = w_execs w \<and> w_attempts w' = w_attempts w \<and> w_counters w' = w_counters w
     \<and> w_locks w' = w_locks w \<and> w_queue w' = w_queue w \<and> w_config w' = w_config w
     \<and> w_fault w' = w_fault w \<and> w_io_fault w' = w_io_fault w \<and> w_tasks w' = w_tasks w \<and> w_sleeps w' = w_sleeps w
     \<and> w_uuids w' = w_uuids w \<and> w_next_uuid w \<le> w_next_uuid w'"

interpretation tables: world_relation same_tables
  by standard (auto simp: same_tables_def)

named_theorems tables_intros \<open>operations that leave the tables alone\<close>

lemmas [tables_intros] = tables.keeps_basic

lemma tables_modify [tables_intros]:
  "(\<And>w. same_tables w (f w)) \<Longrightarrow> state_io_rel same_tables (modify f)"
  by (simp add: state_io_rel_def)

lemma tables_primitives [tables_intros]:
  "state_io_rel same_tables io_step"
  "state_io_rel same_tables (start_process c)"
  "state_io_rel same_tables (send_request r)"
  by (simp_all add: state_io_rel_def same_tables_def)

lemma tables_files [tables_intros]:
  "state_io_rel same_tables (write_file path content)"
  "state_io_rel same_tables (open_append path)"
  "state_io_rel same_tables (append_file path content)"
  unfolding write_file_def open_append_def append_file_def
  by (intro tables_intros; simp add: same_tables_def split: option.splits)+

lemma tables_if_ok [tables_intros]:
  "state_io_rel same_tables act \<Longrightarrow> state_io_rel same_tables rest \<Longrightarrow>
     state_io_rel same_tables (if_ok act rest)"
  unfolding if_ok_def by (intro tables_intros)

lemma tables_prepare [tables_intros]: "state_io_rel same_tables (prepare_log_files d i p)"
  unfolding prepare_log_files_def by (intro tables_intros)

lemma tables_stream_output [tables_intros]: "state_io_rel same_tables (stream_output d out)"
  unfolding stream_output_def Let_def by (intro tables_intros)

lemma tables_try_candidates [tables_intros]:
  "state_io_rel same_tables (try_candidates X ctx rt arg cwd cs)"
proof (induction cs)
  case Nil
  show ?case unfolding try_candidates.simps by (rule tables.keeps_return)
next
  case (Cons c cs)
  show ?case unfolding try_candidates.simps
    by (intro tables_intros Cons)
qed

lemma tables_spawn_script [tables_intros]: "state_io_rel same_tables (spawn_script X ctx path rt)"
  unfolding spawn_script_def by (intro tables_intros)

lemma tables_handle_response [tables_intros]:
  "state_io_rel same_tables (handle_response method url d out)"
  unfolding handle_response_def by (intro tables_intros)

lemma tablesE:
  assumes "state_io_rel same_tables m"
  obtains a w' where "run_state m w = (a, w')" and "same_tables w w'"
  using assms unfolding state_io_rel_def by (metis prod.collapse)

lemma same_tables_history: "state_io_rel same_tables m \<Longrightarrow> state_io_rel history_kept m"
  unfolding state_io_rel_def same_tables_def by (blast intro: history_keptI)

lemmas [history_intros] = tables_files [THEN same_tables_history]
  tables_prepare [THEN same_tables_history] tables_stream_output [THEN same_tables_history]
  tables_spawn_script [THEN same_tables_history] tables_handle_response [THEN same_tables_history]

section \<open>What a run keeps\<close>

lemma wait_result_terminal: "fst (wait_result out) \<in> {Success, Failed, TimedOut}"
  by (auto simp: wait_result_def split: process_outcome.splits)

text \<open>A relation that does not look at files, processes and requests and is kept by the transitions of
  one execution is kept by a run of that execution.\<close>

locale execution_relation = world_relation R for R :: "world \<Rightarrow> world \<Rightarrow> bool" +
  fixes i :: string
  assumes rel_tables: "same_tables w w' \<Longrightarrow> R w w'"
    and keeps_running: "state_io_rel R (mark_running X i)"
    and keeps_completed: "st \<in> {Success, Failed, TimedOut} \<Longrightarrow> state_io_rel R (mark_completed X i st code)"
begin

lemma keeps_tables: "state_io_rel same_tables m \<Longrightarrow> state_io_rel R m"
  by (simp add: state_io_rel_def rel_tables)

lemmas keeps_files = tables_files [THEN keeps_tables] tables_prepare [THEN keeps_tables]
  tables_stream_output [THEN keeps_tables] tables_spawn_script [THEN keeps_tables]
  tables_handle_response [THEN keeps_tables] tables_primitives [THEN keeps_tables]

lemma keeps_wait:
  "state_io_rel R (case wait_result out of (st, code) \<Rightarrow>
     do { _ \<leftarrow> mark_completed X i st code; return (r st code) })"
  using wait_result_terminal [of out]
  by (cases "wait_result out") (simp add: keeps_bind keeps_completed keeps_return)

lemma keeps_respond:
  "state_io_rel R (do { (st, code) \<leftarrow> handle_response m u d out;
     _ \<leftarrow> mark_completed X i st code; return (r st code) })"
  unfolding handle_response_def
  by (cases out) (auto intro!: keeps_basic keeps_files keeps_completed)

lemma keeps_run_executor:
  assumes "xc_execution_id ctx = i"
  shows "state_io_rel R (run_executor X ctx)"
proof -
  note intros = keeps_basic keeps_files keeps_running keeps_completed keeps_wait keeps_respond
  have s: "state_io_rel R (run_shell X ctx c)" for c
    unfolding run_shell_def Let_def assms by (intro intros) simp
  have p: "state_io_rel R (run_script X ctx path rt)" for path rt
    unfolding run_script_def Let_def assms by (intro intros) simp
  have h: "state_io_rel R (run_http X ctx)"
    unfolding run_http_def Let_def assms by (intro intros) simp_all
  show ?thesis unfolding run_executor_def by (intro intros s p h)
qed

end

interpretation history_run: execution_relation history_kept i for i
proof
  show "same_tables w w' \<Longrightarrow> history_kept w w'" for w w'
    by (simp add: same_tables_def history_keptI)
qed (intro history_intros)+

lemma history_run_executor [history_intros]: "state_io_rel history_kept (run_executor X ctx)"
  by (rule history_run.keeps_run_executor [OF refl])

section \<open>The life cycle of one run\<close>

definition no_io_faults :: "world \<Rightarrow> bool" where
  "no_io_faults w \<longleftrightarrow> (\<forall>n. \<not> w_io_fault w n)"

text \<open>Only the row of one execution has changed, and the table is still in order.\<close>

definition row_only :: "string \<Rightarrow> world \<Rightarrow> world \<Rightarrow> bool" where
  "row_only i w w' \<longleftrightarrow>
     (\<forall>j. j \<noteq> i \<longrightarrow> find_exec j w' = find_exec j w)
     \<and> map_option ex_retry_count (find_exec i w') = map_option ex_retry_count (find_exec i w)
     \<and> exec_ids_distinct w' \<and> no_faults w' \<and> w_io_fault w' = w_io_fault w
     \<and> w_locks w' = w_locks w \<and> w_queue w' = w_queue w \<and> w_attempts w' = w_attempts w
     \<and> w_config w' = w_config w \<and> w_tasks w' = w_tasks w \<and> w_sleeps w' = w_sleeps w"

definition executed :: "string \<Rightarrow> world \<Rightarrow> execution_result \<Rightarrow> world \<Rightarrow> bool" where
  "executed i w r w' \<longleftrightarrow>
     row_only i w w' \<and> status_of i w' = Some (xr_status r)
     \<and> xr_status r \<in> {Success, Failed, TimedOut}
     \<and> map_option ex_exit_code (find_exec i w') = Some (xr_exit_code r)"

lemma row_only_trans: "row_only i u v \<Longrightarrow> row_only i v w \<Longrightarrow> row_only i u w"
  by (auto simp: row_only_def)

lemma same_tables_row:
  assumes "same_tables w w'"
  shows "find_exec j w' = find_exec j w" and "status_of j w' = status_of j w"
    and "exec_ids_distinct w \<Longrightarrow> no_faults w \<Longrightarrow> row_only i w w'"
  using assms
  by (auto simp: same_tables_def find_exec_def status_of_def row_only_def exec_ids_distinct_def
      no_faults_def)

lemma prepare_ok:
  assumes "no_io_faults w"
  obtains w1 where "run_state (prepare_log_files d i p) w = (Some (path_join d i), w1)"
    and "same_tables w w1"
proof -
  obtain a w1 where 1: "run_state (prepare_log_files d i p) w = (a, w1)" "same_tables w w1"
    by (rule tablesE [OF tables_prepare])
  moreover have "a = Some (path_join d i)"
    using 1(1) assms by (auto simp: prepare_log_files_def if_ok_def no_io_faults_def write_file_def
        open_append_def Let_def split: if_splits)
  ultimately show ?thesis using that by blast
qed

lemma running_ok:
  assumes "exec_ids_distinct w" and "no_faults w" and "status_of i w = Some Pending"
  obtains w1 where "run_state (mark_running X i) w = (Inr (), w1)"
    and "status_of i w1 = Some Running" and "row_only i w w1"
proof -
  let ?w1 = "snd (run_state (mark_running X i) w)"
  note g = guarded_update [OF assms(1) [unfolded exec_ids_distinct_def], where i = i and s = Pending]
  have 1: "run_state (mark_running X i) w = (Inr (), ?w1)"
    using assms by (auto simp: mark_running_def no_faults_def g(1) status_of_def find_exec_def)
  from running.success [OF assms(1) 1] have m: "moved Pending Running i w ?w1" .
  moreover have "row_only i w ?w1"
    using m running.ids_kept [OF assms(1) 1] assms(2)
    by (simp add: row_only_def moved_def)
       (auto simp: mark_running_def no_faults_def find_exec_def g(2) option.map_comp comp_def)
  ultimately show ?thesis using that [OF 1] by (simp add: moved_def)
qed

lemma completed_ok:
  assumes "exec_ids_distinct w" and "no_faults w" and "status_of i w = Some Running"
  obtains w1 where "run_state (mark_completed X i st code) w = (Inr (), w1)"
    and "status_of i w1 = Some st" and "row_only i w w1"
    and "map_option ex_exit_code (find_exec i w1) = Some code"
proof -
  let ?w1 = "snd (run_state (mark_completed X i st code) w)"
  note g = guarded_update [OF assms(1) [unfolded exec_ids_distinct_def], where i = i and s = Running]
  have 1: "run_state (mark_completed X i st code) w = (Inr (), ?w1)"
    using assms by (auto simp: mark_completed_def no_faults_def g(1) status_of_def find_exec_def)
  from completed.success [OF assms(1) 1] have m: "moved Running st i w ?w1" .
  moreover have "row_only i w ?w1"
    using m completed.ids_kept [OF assms(1) 1] assms(2)
    by (simp add: row_only_def moved_def)
       (auto simp: mark_completed_def no_faults_def find_exec_def g(2) option.map_comp comp_def)
  moreover have "map_option ex_exit_code (find_exec i ?w1) = Some code"
    using assms by (auto simp: mark_completed_def no_faults_def status_of_def find_exec_def g(2))
  ultimately show ?thesis using that [OF 1] by (simp add: moved_def)
qed

text \<open>The common end of all three executors: from a running row, steps that leave the tables alone,
  then \<open>mark_completed\<close>.\<close>

lemma finish:
  assumes "exec_ids_distinct w" and "no_faults w" and "status_of i w = Some Running"
    and "same_tables w w1" and "st \<in> {Success, Failed, TimedOut}"
  obtains w2 where "run_state (mark_completed X i st code) w1 = (Inr (), w2)"
    and "executed i w (result_of st code d) w2"
proof -
  note s = same_tables_row [OF assms(4)]
  have r: "row_only i w w1" using s(3) assms(1,2) by blast
  then have "exec_ids_distinct w1" "no_faults w1" by (simp_all add: row_only_def)
  then obtain w2 where w2: "run_state (mark_completed X i st code) w1 = (Inr (), w2)"
      "status_of i w2 = Some st" "row_only i w1 w2"
      "map_option ex_exit_code (find_exec i w2) = Some code"
    using assms(3) s(2) by (metis completed_ok)
  then show ?thesis
    using that assms(5) row_only_trans [OF r w2(3)] by (simp add: executed_def result_of_def)
qed

definition runnable :: "string \<Rightarrow> world \<Rightarrow> bool" where
  "runnable i w \<longleftrightarrow> exec_ids_distinct w \<and> no_faults w \<and> no_io_faults w \<and> status_of i w = Some Pending"

lemma preamble:
  assumes "runnable i w"
  obtains w1 w2 where "run_state (prepare_log_files d i p) w = (Some (path_join d i), w1)"
    and "run_state (mark_running X i) w1 = (Inr (), w2)"
    and "status_of i w2 = Some Running" and "row_only i w w2"
proof -
  from assms obtain w1 where 1: "run_state (prepare_log_files d i p) w = (Some (path_join d i), w1)"
      "same_tables w w1"
    unfolding runnable_def by (metis prepare_ok)
  note s = same_tables_row [OF 1(2)]
  have r1: "row_only i w w1" using s(3) assms by (simp add: runnable_def)
  then have "exec_ids_distinct w1" "no_faults w1" "status_of i w1 = Some Pending"
    using assms s(2) by (simp_all add: row_only_def runnable_def)
  then obtain w2 where "run_state (mark_running X i) w1 = (Inr (), w2)"
      "status_of i w2 = Some Running" "row_only i w1 w2"
    by (rule running_ok)
  with that [OF 1(1)] row_only_trans [OF r1] show ?thesis by blast
qed

lemma executed_from:
  assumes "row_only i w w2" and "executed i w2 r w'"
  shows "executed i w r w'"
  using assms row_only_trans by (auto simp: executed_def)

text \<open>\<open>m\<close>, run from a world where the row is running, ends the execution.\<close>

definition completes :: "string \<Rightarrow> world \<Rightarrow> execution_result io \<Rightarrow> bool" where
  "completes i w m \<longleftrightarrow>
     (\<forall>w2. row_only i w w2 \<longrightarrow> status_of i w2 = Some Running \<longrightarrow>
        executed i w (fst (run_state m w2)) (snd (run_state m w2)))"

lemma completes_end:
  assumes "st \<in> {Success, Failed, TimedOut}"
  shows "completes i w (do { _ \<leftarrow> mark_completed X i st code; return (result_of st code d) })"
  unfolding completes_def
proof (intro allI impI)
  fix w2 assume r: "row_only i w w2" and s: "status_of i w2 = Some Running"
  then have "exec_ids_distinct w2" "no_faults w2" by (simp_all add: row_only_def)
  then obtain w' where "run_state (mark_completed X i st code) w2 = (Inr (), w')"
      "executed i w2 (result_of st code d) w'"
    using finish [OF _ _ s tables.rel_refl assms] by blast
  then show "executed i w
      (fst (run_state (do { _ \<leftarrow> mark_completed X i st code; return (result_of st code d) }) w2))
      (snd (run_state (do { _ \<leftarrow> mark_completed X i st code; return (result_of st code d) }) w2))"
    using executed_from [OF r] by simp
qed

lemma completes_bind:
  assumes "state_io_rel same_tables m" and "\<And>a. completes i w (f a)"
  shows "completes i w (m \<bind> f)"
  unfolding completes_def
proof (intro allI impI)
  fix w2 assume r: "row_only i w w2" and s: "status_of i w2 = Some Running"
  obtain a w3 where m: "run_state m w2 = (a, w3)" "same_tables w2 w3"
    by (rule tablesE [OF assms(1)])
  note t = same_tables_row [OF m(2)]
  have "exec_ids_distinct w2" "no_faults w2" using r by (simp_all add: row_only_def)
  then have "row_only i w w3" by (rule row_only_trans [OF r t(3)])
  with assms(2) [of a] s t(2) show "executed i w (fst (run_state (m \<bind> f) w2)) (snd (run_state (m \<bind> f) w2))"
    by (simp add: completes_def m(1))
qed

lemma completes_wait:
  "completes i w (case wait_result out of (st, code) \<Rightarrow>
     do { _ \<leftarrow> mark_completed X i st code; return (result_of st code d) })"
  using wait_result_terminal [of out] by (cases "wait_result out") (simp add: completes_end)

text \<open>The start of an execution, shared by the three executors, and what it is worth.\<close>

lemma executed_start:
  assumes "runnable (xc_execution_id ctx) w"
    and "\<And>d. completes (xc_execution_id ctx) w (rest d)"
    and "run = do {
       prepared \<leftarrow> prepare_log_files (xc_logs_dir ctx) (xc_execution_id ctx) (xc_payload_json ctx);
       case prepared of
         None \<Rightarrow> return (result_of Failed None e1)
       | Some log_dir \<Rightarrow> do {
           marked \<leftarrow> mark_running X (xc_execution_id ctx);
           case marked of Inl e \<Rightarrow> return (result_of Failed None log_dir) | Inr _ \<Rightarrow> rest log_dir } }"
  shows "executed (xc_execution_id ctx) w (fst (run_state run w)) (snd (run_state run w))"
proof -
  obtain w1 w2 where p: "run_state (prepare_log_files (xc_logs_dir ctx) (xc_execution_id ctx)
        (xc_payload_json ctx)) w = (Some (path_join (xc_logs_dir ctx) (xc_execution_id ctx)), w1)"
      "run_state (mark_running X (xc_execution_id ctx)) w1 = (Inr (), w2)"
    and w2: "status_of (xc_execution_id ctx) w2 = Some Running" "row_only (xc_execution_id ctx) w w2"
    by (rule preamble [OF assms(1)])
  then show ?thesis using assms(2) by (simp add: assms(3) completes_def)
qed

lemma completes_process_outcome:
  "(\<And>a b. completes i w (f1 a b)) \<Longrightarrow> (\<And>a b c. completes i w (f2 a b c)) \<Longrightarrow>
     (\<And>a b. completes i w (f3 a b)) \<Longrightarrow> (\<And>a b. completes i w (f4 a b)) \<Longrightarrow>
     completes i w (case x of SpawnFailed a b \<Rightarrow> f1 a b | Exited a b c \<Rightarrow> f2 a b c
                             | WaitFailed a b \<Rightarrow> f3 a b | TimeElapsed a b \<Rightarrow> f4 a b)"
  by (cases x) auto

lemma completes_sum:
  "(\<And>e. completes i w (f e)) \<Longrightarrow> (\<And>a. completes i w (g a)) \<Longrightarrow>
     completes i w (case x of Inl e \<Rightarrow> f e | Inr a \<Rightarrow> g a)"
  by (cases x) auto

lemma completes_executor:
  "(\<And>a. completes i w (f1 a)) \<Longrightarrow> (\<And>a b. completes i w (f2 a b)) \<Longrightarrow>
     (\<And>a b c d e. completes i w (f3 a b c d e)) \<Longrightarrow>
     completes i w (case x of RShell a \<Rightarrow> f1 a | RScript a b \<Rightarrow> f2 a b
                             | RHttp a b c d e \<Rightarrow> f3 a b c d e)"
  by (cases x) auto

lemma completes_response:
  "completes i w (do { x \<leftarrow> handle_response method url d out;
     case x of (st, code) \<Rightarrow>
       do { _ \<leftarrow> mark_completed X i st code; return (result_of st code d') } })"
proof (cases out)
  case HttpElapsed
  then show ?thesis by (simp add: handle_response_def completes_end)
next
  case (HttpFailed e)
  then show ?thesis
    by (simp add: handle_response_def) (intro completes_bind tables_intros completes_end; simp)
next
  case (HttpResponse n t ms hs b)
  have st: "(if 200 \<le> n \<and> n < 300 then Success else Failed) \<in> {Success, Failed, TimedOut}" by simp
  show ?thesis unfolding HttpResponse handle_response_def http_outcome.case bind_assoc
      bind_left_identity prod.case
    by (intro completes_bind tables_intros completes_end st)
qed

lemma completes_if: "completes i w m \<Longrightarrow> completes i w n \<Longrightarrow> completes i w (if b then m else n)"
  by simp

lemmas completes_intros = completes_end completes_wait completes_response completes_process_outcome
  completes_sum completes_executor completes_if completes_bind

lemma run_shell_executed:
  assumes "runnable (xc_execution_id ctx) w"
  shows "executed (xc_execution_id ctx) w (fst (run_state (run_shell X ctx c) w))
           (snd (run_state (run_shell X ctx c) w))"
  by (rule executed_start [OF assms _ run_shell_def [unfolded Let_def]])
     (intro completes_intros tables_intros; simp)

lemma run_script_executed:
  assumes "runnable (xc_execution_id ctx) w"
  shows "executed (xc_execution_id ctx) w (fst (run_state (run_script X ctx path rt) w))
           (snd (run_state (run_script X ctx path rt) w))"
  by (rule executed_start [OF assms _ run_script_def [unfolded Let_def]])
     (intro completes_intros tables_intros; simp)

lemma run_http_executed:
  assumes "runnable (xc_execution_id ctx) w"
  shows "executed (xc_execution_id ctx) w (fst (run_state (run_http X ctx) w))
           (snd (run_state (run_http X ctx) w))"
  by (rule executed_start [OF assms _ run_http_def [unfolded Let_def]])
     (intro completes_intros tables_intros; simp)

lemma run_executor_executed:
  assumes "runnable (xc_execution_id ctx) w"
  shows "executed (xc_execution_id ctx) w (fst (run_state (run_executor X ctx) w))
           (snd (run_state (run_executor X ctx) w))"
  using run_shell_executed [OF assms] run_script_executed [OF assms] run_http_executed [OF assms]
  by (cases "xc_executor ctx") (simp_all add: run_executor_def)

text \<open>C19: One run of an execution takes it from pending to the terminal status that the run
  reports. For all three executors and every outcome of the process or request: if neither a
  statement nor a file operation fails, the row ends with the reported status, which is success,
  failed or timed out, and with the reported exit code; no other execution, no lock, no queue
  entry and no attempt changes.\<close>

theorem run_executor_lifecycle:
  assumes "runnable (xc_execution_id ctx) w" and "run_state (run_executor X ctx) w = (r, w')"
  shows "status_of (xc_execution_id ctx) w' = Some (xr_status r)
         \<and> xr_status r \<in> {Success, Failed, TimedOut}
         \<and> map_option ex_exit_code (find_exec (xc_execution_id ctx) w') = Some (xr_exit_code r)
         \<and> row_only (xc_execution_id ctx) w w'"
  using run_executor_executed [OF assms(1), of X] assms(2) by (simp add: executed_def)

definition sample_context :: "resolved_executor \<Rightarrow> execution_context" where
  "sample_context e = \<lparr>xc_execution_id = ''e1'', xc_hook_slug = ''deploy'', xc_executor = e,
     xc_env = [], xc_cwd = None, xc_timeout = 30000000000, xc_logs_dir = ''logs'',
     xc_payload_json = ''{}''\<rparr>"

definition runnable_world :: world where
  "runnable_world = sample_world\<lparr>w_execs := [sample_execution ''e1'' ''a'' Pending]\<rparr>"

lemma runnable_sample: "runnable (xc_execution_id (sample_context e)) runnable_world"
  by (simp add: runnable_def runnable_world_def exec_ids_distinct_def no_faults_def
      no_io_faults_def sample_world_def status_of_def find_exec_def sample_execution_def
      sample_context_def)

theorem run_executor_lifecycle_witness:
  "status_of ''e1'' (snd (run_state (run_executor sample_external (sample_context (RShell ''ls'')))
     runnable_world)) \<in> {Some Success, Some Failed, Some TimedOut}"
  using run_executor_lifecycle [OF runnable_sample prod.collapse [symmetric],
      where X = sample_external]
  by (auto simp: sample_context_def)

lemma prepare_fail:
  "w_io_fault w (w_ios w) \<Longrightarrow>
     run_state (prepare_log_files d i p) w = (None, w\<lparr>w_ios := Suc (w_ios w)\<rparr>)"
  by (simp add: prepare_log_files_def if_ok_def Let_def)

text \<open>An execution whose log directory cannot be created is reported as failed but stays
  pending. When the first file operation fails, the result is \<open>Failed\<close> without an exit code,
  no process is started and no request sent, and the table of executions is unchanged.\<close>

theorem log_failure_leaves_pending:
  assumes "w_io_fault w (w_ios w)" and "run_state (run_executor X ctx) w = (r, w')"
  shows "xr_status r = Failed \<and> xr_exit_code r = None \<and> w_execs w' = w_execs w
         \<and> w_commands w' = w_commands w \<and> w_requests w' = w_requests w"
  using assms
  by (cases "xc_executor ctx") (auto simp: run_executor_def run_shell_def run_script_def
      run_http_def prepare_fail result_of_def)

theorem log_failure_leaves_pending_witness:
  "status_of ''e1'' (snd (run_state (run_executor sample_external (sample_context (RShell ''ls'')))
     (runnable_world\<lparr>w_io_fault := (\<lambda>_. True)\<rparr>))) = Some Pending"
  using log_failure_leaves_pending [OF _ prod.collapse [symmetric],
      where w = "runnable_world\<lparr>w_io_fault := (\<lambda>_. True)\<rparr>" and X = sample_external
        and ctx = "sample_context (RShell ''ls'')"]
  by (simp add: status_of_def find_exec_def runnable_world_def sample_execution_def)

section \<open>The environment of a child process\<close>

lemma extend_env_lookup:
  "extend_env entries env k = (case map_of (rev entries) k of Some v \<Rightarrow> Some v | None \<Rightarrow> env k)"
  by (induction entries arbitrary: env)
     (auto simp: extend_env_def map_add_def split: option.splits)

lemma map_of_system_env:
  "map_of (rev (system_env_vars X)) k = (if k \<in> set inherit_vars then env_var X k else None)"
  by (auto simp: system_env_vars_def inherit_vars_def List.map_filter_simps split: option.splits)

lemma base_env_lookup:
  "base_env X ctx k =
     (if k = ''SENDWORD_PAYLOAD'' then Some (xc_payload_json ctx)
      else if k = ''SENDWORD_HOOK_SLUG'' then Some (xc_hook_slug ctx)
      else if k = ''SENDWORD_EXECUTION_ID'' then Some (xc_execution_id ctx)
      else case map_of (rev (xc_env ctx)) k of
             Some v \<Rightarrow> Some v
           | None \<Rightarrow> if k \<in> set inherit_vars then env_var X k else None)"
  by (simp add: base_env_def extend_env_lookup map_of_system_env split: option.split)

lemma field_keys: "k \<in> fst ` set (map (\<lambda>(key, val). (field_env_key key, val)) kvs) \<Longrightarrow>
    prefix ''SENDWORD_FIELD_'' k"
  by (auto simp: field_env_key_def)

lemma script_env_other:
  assumes "\<not> prefix ''SENDWORD_FIELD_'' k"
  shows "script_env X ctx k = base_env X ctx k"
proof (cases "json_from_slice X (xc_payload_json ctx)")
  case (Inr v)
  let ?kvs = "map (\<lambda>(key, val). (field_env_key key, val)) (flatten_json_fields v)"
  have "map_of (rev ?kvs) k = None"
    using field_keys [of k "flatten_json_fields v"] assms
    by (metis map_of_eq_None_iff set_rev)
  with Inr show ?thesis by (simp add: script_env_def extend_env_lookup)
qed (simp add: script_env_def extend_env_lookup)



section \<open>Environment references in HTTP headers\<close>

lemma resolve_env_refs_plain: "CHR ''$'' \<notin> set a \<Longrightarrow> resolve_env_refs X (a @ s) = a @ resolve_env_refs X s"
  by (induction a) auto

text \<open>A header value resolves reference by reference. Text before the first dollar sign is
  copied, a reference in braces becomes the value of the variable, or nothing when it is not
  set, and the rest is resolved in the same way; what a variable's value contains is not looked
  at again.\<close>

theorem resolve_env_refs_step:
  assumes "CHR ''$'' \<notin> set before" and "CHR ''}'' \<notin> set var"
  shows "resolve_env_refs X before = before
    \<and> resolve_env_refs X (before @ ''${'' @ var @ ''}'' @ after)
        = before @ (case env_var X var of Some v \<Rightarrow> v | None \<Rightarrow> []) @ resolve_env_refs X after"
proof -
  have "takeWhile (\<lambda>c. c \<noteq> CHR ''}'') (var @ ''}'' @ after) = var"
    using assms(2) by (induction var) auto
  then show ?thesis
    using resolve_env_refs_plain [OF assms(1), of X "[]"]
      resolve_env_refs_plain [OF assms(1), of X "''${'' @ var @ ''}'' @ after"]
    by (simp add: Let_def)
qed

theorem resolve_env_refs_step_witness:
  "resolve_env_refs sample_external ''Bearer ${TOKEN}'' = ''Bearer s3cret''"
  using resolve_env_refs_step [of "''Bearer ''" "''TOKEN''" sample_external "[]"]
  by (simp add: sample_external_def)

end
