(* ===== verification/Retry.thy ===== *)
theory Retry
  imports Executor
begin

text \<open>
  \<open>src/retry.rs\<close>: the delay before a retry and the loop that runs an execution again after a
  failure with an exit code. The loop counts its attempts; \<open>saturating_mul\<close> of durations stops
  at the largest duration.
\<close>

definition resolve_retry_config :: "hook_config \<Rightarrow> retry_config \<Rightarrow> effective_retry_config" where
  "resolve_retry_config hook global =
     (let retry = (case hk_retries hook of Some r \<Rightarrow> r | None \<Rightarrow> global)
      in \<lparr>er_count = rc_count retry, er_backoff = rc_backoff retry,
          er_initial_delay = rc_initial_delay retry, er_max_delay = rc_max_delay retry\<rparr>)"

definition calculate_backoff :: "backoff_strategy \<Rightarrow> nat \<Rightarrow> duration \<Rightarrow> duration \<Rightarrow> duration" where
  "calculate_backoff strategy attempt initial_delay max_delay =
     (let delay = (case strategy of
                     BackoffNone \<Rightarrow> 0
                   | BackoffLinear \<Rightarrow> saturating_mul initial_delay attempt
                   | BackoffExponential \<Rightarrow>
                       saturating_mul initial_delay
                         (unat (push_bit (min (attempt - 1) 31) (1 :: 32 word))))
      in min delay max_delay)"

definition append_retry_marker :: "string \<Rightarrow> string \<Rightarrow> nat \<Rightarrow> unit io" where
  "append_retry_marker logs_dir execution_id attempt = do {
     let marker = [CHR 0x0A] @ ''--- RETRY ATTEMPT '' @ show_nat attempt @ '' ---'' @ [CHR 0x0A];
     let log_dir = path_join logs_dir execution_id;
     _ \<leftarrow> append_file (path_join log_dir ''stdout.log'') marker;
     append_file (path_join log_dir ''stderr.log'') marker
   }"

definition reset_to_pending :: "string \<Rightarrow> unit db_result io" where
  "reset_to_pending eid =
     and_then (update_execs (\<lambda>e. ex_id e = eid)
        (\<lambda>e. e\<lparr>ex_status := Pending, ex_started_at := None, ex_completed_at := None,
               ex_exit_code := None\<rparr>))
       (\<lambda>n. return (if n = 0 then Inl (NotFound (''execution '' @ eid)) else Inr ()))"

definition should_retry :: "execution_result \<Rightarrow> bool" where
  "should_retry r \<longleftrightarrow> xr_status r = Failed \<and> xr_exit_code r \<noteq> None"

definition backoff_delay :: "effective_retry_config \<Rightarrow> nat \<Rightarrow> duration" where
  "backoff_delay rc attempt =
     calculate_backoff (er_backoff rc) attempt (er_initial_delay rc) (er_max_delay rc)"

text \<open>\<open>for attempt in 1..=count\<close>: \<open>n\<close> iterations are left, the next has the number \<open>attempt\<close>.\<close>

primrec retry_loop :: "nat \<Rightarrow> external \<Rightarrow> execution_context \<Rightarrow> effective_retry_config \<Rightarrow> nat
    \<Rightarrow> execution_result \<Rightarrow> execution_result io" where
  "retry_loop 0 X ctx rc attempt result = return result"
| "retry_loop (Suc n) X ctx rc attempt result =
     (if \<not> should_retry result then return result
      else do {
        let delay = backoff_delay rc attempt;
        _ \<leftarrow> (if delay \<noteq> 0 then sleep delay else return ());
        _ \<leftarrow> append_retry_marker (xc_logs_dir ctx) (xc_execution_id ctx) attempt;
        _ \<leftarrow> increment_retry_count (xc_execution_id ctx);
        reset \<leftarrow> reset_to_pending (xc_execution_id ctx);
        case reset of
          Inl e \<Rightarrow> return result
        | Inr _ \<Rightarrow> do {
            result' \<leftarrow> run_executor X ctx;
            retry_loop n X ctx rc (Suc attempt) result'
          }
      })"

definition run_with_retries :: "external \<Rightarrow> execution_context \<Rightarrow> effective_retry_config
    \<Rightarrow> execution_result io" where
  "run_with_retries X ctx rc = do {
     result \<leftarrow> run_executor X ctx;
     retry_loop (er_count rc) X ctx rc 1 result
   }"

section \<open>What the loop keeps\<close>

locale retry_relation = execution_relation +
  assumes keeps_increment: "state_io_rel R (increment_retry_count i)"
    and keeps_reset: "state_io_rel R (reset_to_pending i)"
    and rel_sleeps: "R w (w\<lparr>w_sleeps := ds\<rparr>)"
begin

lemma keeps_sleep: "state_io_rel R (sleep d)"
  by (simp add: state_io_rel_def rel_sleeps)

lemma keeps_retry_loop:
  assumes "xc_execution_id ctx = i"
  shows "state_io_rel R (retry_loop n X ctx rc attempt result)"
proof (induction n arbitrary: attempt result)
  case 0
  show ?case by (simp add: keeps_return)
next
  case (Suc n)
  show ?case
    unfolding retry_loop.simps Let_def append_retry_marker_def assms
    by (intro keeps_basic keeps_files keeps_sleep keeps_increment keeps_reset Suc
        keeps_run_executor [OF assms])
qed

lemma keeps_run_with_retries:
  "xc_execution_id ctx = i \<Longrightarrow> state_io_rel R (run_with_retries X ctx rc)"
  unfolding run_with_retries_def by (intro keeps_basic keeps_run_executor keeps_retry_loop)

end

interpretation history_retry: retry_relation history_kept i for i
  by unfold_locales
     (simp_all add: increment_retry_count_def reset_to_pending_def history_kept_def history_intros)

lemma history_run_with_retries [history_intros]:
  "state_io_rel history_kept (run_with_retries X ctx rc)"
  by (rule history_retry.keeps_run_with_retries [OF refl])

section \<open>The delay\<close>

lemma backoff_multiplier:
  "unat (push_bit (min k 31) (1 :: 32 word)) = 2 ^ min k 31"
proof -
  have "(2 :: nat) ^ min k 31 < 2 ^ 32"
    by (rule power_strict_increasing) auto
  moreover have "push_bit (min k 31) (1 :: 32 word) = word_of_nat (2 ^ min k 31)"
    by (simp add: push_bit_eq_mult)
  ultimately show ?thesis by (simp only: unsigned_of_nat) (simp add: take_bit_nat_eq_self)
qed

text \<open>C36: The backoff delay never exceeds the configured maximum and never shrinks from one attempt
  to the next. Without a strategy it is zero, linear it is the attempt's multiple of the initial
  delay, exponential it doubles with each attempt from the initial delay on, up to the
  thirty-second attempt; each capped by the maximum, with no overflow before the cap.\<close>

theorem calculate_backoff_spec:
  assumes "1 \<le> a" and "a \<le> b" and "mx \<le> duration_max"
  shows "calculate_backoff s a d mx \<le> calculate_backoff s b d mx
         \<and> calculate_backoff s b d mx \<le> mx
         \<and> calculate_backoff BackoffNone a d mx = 0
         \<and> calculate_backoff BackoffLinear a d mx = min (d * a) mx
         \<and> calculate_backoff BackoffExponential a d mx = min (d * 2 ^ min (a - 1) 31) mx"
proof -
  have cap: "min (min x duration_max) mx = min x mx" for x
    using assms(3) by (simp add: min.assoc min.absorb2)
  have none: "calculate_backoff BackoffNone k d mx = 0" for k by (simp add: calculate_backoff_def)
  have lin: "calculate_backoff BackoffLinear k d mx = min (d * k) mx" for k
    by (simp add: calculate_backoff_def saturating_mul_def cap)
  have ex: "calculate_backoff BackoffExponential k d mx = min (d * 2 ^ min (k - 1) 31) mx" for k
    by (simp only: calculate_backoff_def Let_def backoff_strategy.case saturating_mul_def
        backoff_multiplier cap)
  have "(2 :: nat) ^ min (a - 1) 31 \<le> 2 ^ min (b - 1) 31"
    using assms(2) by (intro power_increasing) auto
  then have "calculate_backoff s a d mx \<le> calculate_backoff s b d mx"
    using assms(2) by (cases s) (auto simp only: lin ex none intro!: min.mono mult_le_mono)
  moreover have "calculate_backoff s b d mx \<le> mx" by (simp add: calculate_backoff_def)
  ultimately show ?thesis by (simp only: lin ex none)
qed

theorem calculate_backoff_spec_witness:
  "calculate_backoff BackoffExponential 3 1000 60000 = 4000"
  using calculate_backoff_spec [of 3 4 60000 BackoffLinear 1000] by (simp add: duration_max_def)

section \<open>The loop\<close>

definition retries_of :: "string \<Rightarrow> world \<Rightarrow> nat option" where
  "retries_of i w = map_option ex_retry_count (find_exec i w)"

lemma find_exec_update:
  assumes "exec_ids_distinct w" and "\<And>e. ex_id (f e) = ex_id e"
  shows "find_row ex_id j (update_rows (\<lambda>e. ex_id e = i) f (w_execs w))
           = (if j = i then map_option f (find_exec i w) else find_exec j w)"
    and "length (filter (\<lambda>e. ex_id e = i) (w_execs w)) = (if find_exec i w = None then 0 else 1)"
proof -
  show "find_row ex_id j (update_rows (\<lambda>e. ex_id e = i) f (w_execs w))
           = (if j = i then map_option f (find_exec i w) else find_exec j w)"
    using find_row_SomeD [of ex_id j "w_execs w"]
    by (cases "find_row ex_id j (w_execs w)")
       (auto simp: find_exec_def find_row_update [where key = ex_id, OF assms(2)])
  show "length (filter (\<lambda>e. ex_id e = i) (w_execs w)) = (if find_exec i w = None then 0 else 1)"
    using filter_key_unique [of ex_id "w_execs w" i _ "\<lambda>_. True"]
      filter_key_none [of ex_id i "w_execs w" "\<lambda>_. True"] assms(1)
    by (auto simp: find_exec_def exec_ids_distinct_def)
qed

text \<open>What happens between two runs: the delay, the marker, the counter, the reset.\<close>

definition between :: "string \<Rightarrow> duration \<Rightarrow> world \<Rightarrow> world \<Rightarrow> bool" where
  "between i d w w' \<longleftrightarrow>
     w_sleeps w' = w_sleeps w @ (if d \<noteq> 0 then [d] else [])
     \<and> retries_of i w' = map_option Suc (retries_of i w) \<and> runnable i w'
     \<and> (\<forall>j. j \<noteq> i \<longrightarrow> find_exec j w' = find_exec j w)
     \<and> w_locks w' = w_locks w \<and> w_queue w' = w_queue w \<and> w_attempts w' = w_attempts w
     \<and> w_config w' = w_config w \<and> w_tasks w' = w_tasks w
     \<and> w_commands w' = w_commands w \<and> w_requests w' = w_requests w"

lemma marker_runs_nothing:
  "w_commands (snd (run_state (append_retry_marker dir i a) w)) = w_commands w
   \<and> w_requests (snd (run_state (append_retry_marker dir i a) w)) = w_requests w"
  by (simp add: append_retry_marker_def append_file_def io_step_def Let_def)

lemma between_runs:
  assumes "exec_ids_distinct w" and "no_faults w" and "no_io_faults w" and "find_exec i w \<noteq> None"
  obtains w' where "run_state (do {
        _ \<leftarrow> (if d \<noteq> 0 then sleep d else return ());
        _ \<leftarrow> append_retry_marker dir i a;
        _ \<leftarrow> increment_retry_count i;
        reset_to_pending i }) w = (Inr (), w')"
    and "between i d w w'"
proof -
  let ?w1 = "snd (run_state (if d \<noteq> 0 then sleep d else return ()) w)"
  obtain u w2 where m: "run_state (append_retry_marker dir i a) ?w1 = (u, w2)" "same_tables ?w1 w2"
    by (rule tablesE [of "append_retry_marker dir i a"])
       (unfold append_retry_marker_def Let_def, intro tables_intros)
  have w2: "w_execs w2 = w_execs w" "w_sleeps w2 = w_sleeps w @ (if d \<noteq> 0 then [d] else [])"
      "no_faults w2" "no_io_faults w2" "w_locks w2 = w_locks w" "w_queue w2 = w_queue w"
      "w_attempts w2 = w_attempts w" "w_config w2 = w_config w" "w_tasks w2 = w_tasks w"
    using m(2) assms(2,3) by (auto simp: same_tables_def no_faults_def no_io_faults_def)
  have quiet: "w_commands w2 = w_commands w" "w_requests w2 = w_requests w"
    using marker_runs_nothing [of dir i a ?w1] m(1) by simp_all
  note upd = find_exec_update [OF assms(1)]
  let ?w3 = "snd (run_state (increment_retry_count i) w2)"
  have nf: "\<not> w_fault w2 n" for n using w2(3) by blast
  have ids3: "exec_ids_distinct ?w3"
    using assms(1) by (simp add: increment_retry_count_def nf exec_ids_distinct_def w2 map_update_rows)
  have f3: "find_exec j ?w3 = (if j = i then map_option (\<lambda>e. e\<lparr>ex_retry_count := Suc (ex_retry_count e)\<rparr>)
      (find_exec i w) else find_exec j w)" for j
    by (simp add: increment_retry_count_def nf w2 upd find_exec_def [of _ "_\<lparr>w_stmts := _\<rparr>"]
        find_exec_def [of _ "_\<lparr>w_execs := _\<rparr>"])
  let ?w4 = "snd (run_state (reset_to_pending i) ?w3)"
  note upd3 = find_exec_update [OF ids3]
  have nf3: "\<not> w_fault ?w3 n" for n by (simp add: increment_retry_count_def nf)
  have r4: "run_state (reset_to_pending i) ?w3 = (Inr (), ?w4)"
    using assms(4) f3 [of i] by (simp add: reset_to_pending_def nf3 upd3(2))
  have ids4: "exec_ids_distinct ?w4"
    using ids3 by (simp add: reset_to_pending_def nf3 exec_ids_distinct_def map_update_rows)
  have f4: "find_exec j ?w4 = (if j = i then map_option (\<lambda>e. e\<lparr>ex_status := Pending,
      ex_started_at := None, ex_completed_at := None, ex_exit_code := None\<rparr>) (find_exec i ?w3)
      else find_exec j ?w3)" for j
    by (simp add: reset_to_pending_def nf3 find_exec_def [of _ "_\<lparr>w_execs := _\<rparr>"] upd3(1))
  have rest: "w_sleeps ?w4 = w_sleeps w2 \<and> no_faults ?w4 \<and> no_io_faults ?w4 \<and> w_locks ?w4 = w_locks w2
      \<and> w_queue ?w4 = w_queue w2 \<and> w_attempts ?w4 = w_attempts w2 \<and> w_config ?w4 = w_config w2
      \<and> w_tasks ?w4 = w_tasks w2 \<and> w_commands ?w4 = w_commands w2 \<and> w_requests ?w4 = w_requests w2"
    using w2(3,4) by (simp add: reset_to_pending_def increment_retry_count_def nf no_faults_def no_io_faults_def)
  have "between i d w ?w4"
    using assms(4) ids4 rest w2 quiet f3 f4
    by (auto simp: between_def retries_of_def runnable_def status_of_def option.map_comp comp_def)
  moreover have "run_state (do {
        _ \<leftarrow> (if d \<noteq> 0 then sleep d else return ());
        _ \<leftarrow> append_retry_marker dir i a;
        _ \<leftarrow> increment_retry_count i;
        reset_to_pending i }) w = (Inr (), ?w4)"
    using m(1) r4 by (auto split: prod.splits)
  ultimately show ?thesis using that by blast
qed

text \<open>The state of an execution after some runs: the last result is in its row.\<close>

definition ran :: "string \<Rightarrow> world \<Rightarrow> execution_result \<Rightarrow> bool" where
  "ran i w r \<longleftrightarrow>
     exec_ids_distinct w \<and> no_faults w \<and> no_io_faults w \<and> status_of i w = Some (xr_status r)
     \<and> map_option ex_exit_code (find_exec i w) = Some (xr_exit_code r)
     \<and> xr_status r \<in> {Success, Failed, TimedOut}"

lemma executed_ran:
  "executed i w r w' \<Longrightarrow> no_io_faults w \<Longrightarrow> ran i w' r \<and> retries_of i w' = retries_of i w
     \<and> w_sleeps w' = w_sleeps w"
  by (auto simp: executed_def row_only_def ran_def retries_of_def no_io_faults_def)

definition delays :: "effective_retry_config \<Rightarrow> nat \<Rightarrow> nat \<Rightarrow> duration list" where
  "delays rc a k = filter (\<lambda>d. d \<noteq> 0) (map (backoff_delay rc) [a..<a + k])"

lemma delays_Suc: "delays rc a (Suc k) = (if backoff_delay rc a \<noteq> 0 then [backoff_delay rc a] else [])
    @ delays rc (Suc a) k"
  by (simp add: delays_def upt_conv_Cons del: upt_Suc)

text \<open>The runs after a first one: each follows a result that is retried, after the delay of its
  attempt, and starts from the row as it was reset. The list holds their results.\<close>

fun reruns :: "external \<Rightarrow> execution_context \<Rightarrow> effective_retry_config \<Rightarrow> nat \<Rightarrow> execution_result
    \<Rightarrow> world \<Rightarrow> execution_result list \<Rightarrow> world \<Rightarrow> bool" where
  "reruns X ctx rc a r w [] w' \<longleftrightarrow> w' = w"
| "reruns X ctx rc a r w (x # xs) w' \<longleftrightarrow> should_retry r
     \<and> (\<exists>w1 w2. between (xc_execution_id ctx) (backoff_delay rc a) w w1
          \<and> run_state (run_executor X ctx) w1 = (x, w2) \<and> reruns X ctx rc (Suc a) x w2 xs w')"

lemma reruns_retried: "reruns X ctx rc a r w xs w' \<Longrightarrow> \<forall>x \<in> set (butlast (r # xs)). should_retry x"
  by (induction xs arbitrary: a r w) auto

lemma retry_loop_spec:
  assumes "ran (xc_execution_id ctx) w result"
    and "run_state (retry_loop n X ctx rc a result) w = (r, w')"
  shows "\<exists>rs. length rs \<le> n \<and> reruns X ctx rc a result w rs w' \<and> r = last (result # rs)
           \<and> (length rs = n \<or> \<not> should_retry r) \<and> w_sleeps w' = w_sleeps w @ delays rc a (length rs)
           \<and> retries_of (xc_execution_id ctx) w'
               = map_option (\<lambda>c. c + length rs) (retries_of (xc_execution_id ctx) w)
           \<and> ran (xc_execution_id ctx) w' r"
  using assms
proof (induction n arbitrary: a result w)
  case 0
  then show ?case by (simp add: delays_def option.map_ident)
next
  case (Suc n)
  let ?i = "xc_execution_id ctx" and ?d = "backoff_delay rc a"
  show ?case
  proof (cases "should_retry result")
    case False
    with Suc.prems show ?thesis by (intro exI [of _ "[]"]) (simp add: delays_def option.map_ident)
  next
    case True
    have pre: "exec_ids_distinct w" "no_faults w" "no_io_faults w" "find_exec ?i w \<noteq> None"
      using Suc.prems(1) by (auto simp: ran_def status_of_def)
    obtain w1 where b: "run_state (do {
        _ \<leftarrow> (if ?d \<noteq> 0 then sleep ?d else return ());
        _ \<leftarrow> append_retry_marker (xc_logs_dir ctx) ?i a;
        _ \<leftarrow> increment_retry_count ?i;
        reset_to_pending ?i }) w = (Inr (), w1)" and w1: "between ?i ?d w w1"
      by (rule between_runs [OF pre])
    obtain result' w2 where e: "run_state (run_executor X ctx) w1 = (result', w2)" by fastforce
    have r1: "runnable ?i w1" using w1 by (simp add: between_def)
    then have "executed ?i w1 result' w2" using run_executor_executed [of ctx w1 X] e by simp
    then have e2: "ran ?i w2 result'" "retries_of ?i w2 = retries_of ?i w1" "w_sleeps w2 = w_sleeps w1"
      using executed_ran r1 by (auto simp: runnable_def)
    have "run_state (retry_loop (Suc n) X ctx rc a result) w
        = run_state (retry_loop n X ctx rc (Suc a) result') w2"
      using b e True by (auto simp: Let_def split: prod.splits)
    with Suc.IH [OF e2(1), of "Suc a"] Suc.prems(2) obtain rs where rs: "length rs \<le> n"
        "reruns X ctx rc (Suc a) result' w2 rs w'" "r = last (result' # rs)"
        "length rs = n \<or> \<not> should_retry r" "w_sleeps w' = w_sleeps w2 @ delays rc (Suc a) (length rs)"
        "retries_of ?i w' = map_option (\<lambda>c. c + length rs) (retries_of ?i w2)" "ran ?i w' r" by auto
    from w1 e rs(2) True have "reruns X ctx rc a result w (result' # rs) w'" by auto
    with rs w1 e2 show ?thesis
      by (intro exI [of _ "result' # rs"]) (auto simp: delays_Suc between_def option.map_comp comp_def)
  qed
qed

text \<open>C4: An execution is retried at most \<open>count\<close> times and exactly while it fails with an exit code.
  With no failing statement or file operation, \<open>run_with_retries\<close> runs the executor once and then
  once more for each element of a list \<open>rs\<close> of at most \<open>count\<close> results, with nothing else started
  or sent in between. Every result but the last failed with an exit code; the last, which is
  returned, did not, unless \<open>count\<close> retries were made. The backoff delays of the attempts are slept
  in order (the zero ones skipped), the execution's retry counter grows by the number of retries,
  and the row shows the status and exit code of the last run.\<close>

theorem run_with_retries_spec:
  assumes "runnable (xc_execution_id ctx) w"
    and "run_state (run_with_retries X ctx rc) w = (r, w')"
  shows "\<exists>r0 w0 rs. run_state (run_executor X ctx) w = (r0, w0) \<and> reruns X ctx rc 1 r0 w0 rs w'
           \<and> length rs \<le> er_count rc \<and> r = last (r0 # rs)
           \<and> (\<forall>x \<in> set (butlast (r0 # rs)). should_retry x)
           \<and> (should_retry r \<longrightarrow> length rs = er_count rc)
           \<and> w_sleeps w' = w_sleeps w @ filter (\<lambda>d. d \<noteq> 0) (map (backoff_delay rc) [1..<length rs + 1])
           \<and> retries_of (xc_execution_id ctx) w'
               = map_option (\<lambda>c. c + length rs) (retries_of (xc_execution_id ctx) w)
           \<and> status_of (xc_execution_id ctx) w' = Some (xr_status r)
           \<and> map_option ex_exit_code (find_exec (xc_execution_id ctx) w') = Some (xr_exit_code r)"
proof -
  obtain r0 w0 where e: "run_state (run_executor X ctx) w = (r0, w0)" by fastforce
  then have "executed (xc_execution_id ctx) w r0 w0"
    using run_executor_executed [OF assms(1), of X] by simp
  then have 0: "ran (xc_execution_id ctx) w0 r0" "w_sleeps w0 = w_sleeps w"
      "retries_of (xc_execution_id ctx) w0 = retries_of (xc_execution_id ctx) w"
    using executed_ran assms(1) by (auto simp: runnable_def)
  have "run_state (retry_loop (er_count rc) X ctx rc 1 r0) w0 = (r, w')"
    using assms(2) e by (simp add: run_with_retries_def)
  from retry_loop_spec [OF 0(1) this] obtain rs where rs: "length rs \<le> er_count rc"
      "reruns X ctx rc 1 r0 w0 rs w'" "r = last (r0 # rs)" "length rs = er_count rc \<or> \<not> should_retry r"
      "w_sleeps w' = w_sleeps w0 @ delays rc 1 (length rs)"
      "retries_of (xc_execution_id ctx) w' = map_option (\<lambda>c. c + length rs) (retries_of (xc_execution_id ctx) w0)"
      "ran (xc_execution_id ctx) w' r" by blast
  with e 0(2,3) reruns_retried [OF rs(2)] show ?thesis
    by (intro exI [of _ r0] exI [of _ w0] exI [of _ rs]) (auto simp: delays_def ran_def)
qed

theorem run_with_retries_spec_witness:
  "\<exists>k \<le> 3. retries_of ''e1'' (snd (run_state (run_with_retries sample_external
      (sample_context (RShell ''ls'')) \<lparr>er_count = 3, er_backoff = BackoffLinear,
        er_initial_delay = 1000, er_max_delay = 5000\<rparr>) runnable_world)) = Some k"
proof -
  let ?rc = "\<lparr>er_count = 3, er_backoff = BackoffLinear, er_initial_delay = 1000, er_max_delay = 5000\<rparr>"
  have "retries_of ''e1'' runnable_world = Some 0"
    by (simp add: retries_of_def runnable_world_def sample_execution_def find_exec_def)
  with run_with_retries_spec [OF runnable_sample [of "RShell ''ls''"] prod.collapse [symmetric],
      where X = sample_external and rc = ?rc] show ?thesis
    by (fastforce simp: sample_context_def)
qed

end
