(* ===== verification/Notification.thy ===== *)
theory Notification
  imports Retry
begin

text \<open>\<open>src/notification.rs\<close>: the completion notification of an execution.\<close>

definition num_seconds :: "int \<Rightarrow> int" where
  "num_seconds ns = sgn ns * (\<bar>ns\<bar> div 1000000000)"

definition notification_duration :: "external \<Rightarrow> execution \<Rightarrow> string" where
  "notification_duration X e =
     (case (ex_started_at e, ex_completed_at e) of
        (Some started, Some completed) \<Rightarrow>
          (case (parse_rfc3339 X started, parse_rfc3339 X completed) of
             (Some s, Some c) \<Rightarrow> show_int (num_seconds (c - s)) @ ''s''
           | _ \<Rightarrow> ''unknown'')
      | _ \<Rightarrow> ''unknown'')"

definition notification_context :: "external \<Rightarrow> hook_config \<Rightarrow> execution_result \<Rightarrow> execution \<Rightarrow> json" where
  "notification_context X hook result e = JObject
     [(''duration'', JString (notification_duration X e)),
      (''execution_id'', JString (ex_id e)),
      (''exit_code'', JString (case xr_exit_code result of Some c \<Rightarrow> show_int c | None \<Rightarrow> [])),
      (''hook_name'', JString (hk_name hook)),
      (''hook_slug'', JString (hk_slug hook)),
      (''status'', JString (status_text (xr_status result))),
      (''trigger_source'', JString (ex_trigger_source e))]"

fun status_to_outcome :: "execution_status \<Rightarrow> notify_outcome option" where
  "status_to_outcome Success = Some NotifySuccess"
| "status_to_outcome Failed = Some NotifyFailure"
| "status_to_outcome TimedOut = Some NotifyTimeout"
| "status_to_outcome _ = None"

definition notification_request :: "external \<Rightarrow> notification_config \<Rightarrow> hook_config \<Rightarrow> execution_result
    \<Rightarrow> execution \<Rightarrow> http_request" where
  "notification_request X config hook result e =
     \<lparr>rq_method = Post, rq_url = nc_url config, rq_headers = nc_headers config,
      rq_body = Some (interpolate_command X (nc_body config) (notification_context X hook result e)),
      rq_follow_redirects = True\<rparr>"

definition send_notification :: "external \<Rightarrow> notification_config \<Rightarrow> hook_config \<Rightarrow> execution_result
    \<Rightarrow> execution \<Rightarrow> unit io" where
  "send_notification X config hook result e =
     (case status_to_outcome (xr_status result) of
        None \<Rightarrow> return ()
      | Some outcome \<Rightarrow>
          if outcome \<notin> set (nc_on config) then return ()
          else do { _ \<leftarrow> send_request (notification_request X config hook result e); return () })"

lemma tables_send_notification [tables_intros]:
  "state_io_rel same_tables (send_notification X config hook result e)"
  unfolding send_notification_def by (intro tables_intros)

lemmas [history_intros] = tables_send_notification [THEN same_tables_history]

text \<open>A notification is sent exactly for the outcomes it is configured for. A run that ended in
  success, failure or timeout sends one request to the configured URL when its outcome is listed
  and none otherwise, and the notification changes nothing in the database whatever the receiver
  answers.\<close>

theorem send_notification_spec:
  assumes "run_state (send_notification X config hook result e) w = (u, w')"
  shows "w_requests w' = w_requests w @
           (if \<exists>out. status_to_outcome (xr_status result) = Some out \<and> out \<in> set (nc_on config)
            then [notification_request X config hook result e] else [])
         \<and> same_tables w w'"
  using assms tables_send_notification [of X config hook result e]
  by (auto simp: send_notification_def state_io_rel_def same_tables_def split: option.splits if_splits)

definition sample_notification :: notification_config where
  "sample_notification = \<lparr>nc_url = ''http://n'', nc_on = [NotifyFailure], nc_headers = [],
     nc_body = ''status''\<rparr>"

theorem send_notification_spec_witness:
  "w_requests (snd (run_state (send_notification sample_external sample_notification sample_hook
     (result_of Success (Some 0) ''logs/e1'') (sample_execution ''e1'' ''a'' Success)) sample_world)) = []"
  using send_notification_spec [OF prod.collapse [symmetric], where X = sample_external
      and config = sample_notification and hook = sample_hook
      and result = "result_of Success (Some 0) ''logs/e1''"
      and e = "sample_execution ''e1'' ''a'' Success" and w = sample_world]
  by (simp add: sample_notification_def result_of_def sample_world_def)

end
