(* ===== verification/Barriers.thy ===== *)
theory Barriers
  imports Notification
begin

text \<open>
  \<open>src/barriers/mod.rs\<close>, \<open>concurrency.rs\<close> and \<open>approval.rs\<close>: whether a triggered execution goes
  ahead, is rejected or waits in the queue; what happens to the lock and the queue when an
  execution ends; and the recovery at start-up.
\<close>

datatype barrier_outcome =
    Proceed
  | BarrierReject trigger_attempt_status string
  | Defer string execution_status string

definition requires_approval :: "approval_config option \<Rightarrow> bool" where
  "requires_approval approval = (case approval of Some a \<Rightarrow> ac_required a | None \<Rightarrow> False)"

section \<open>Concurrency\<close>

definition enqueue_or_reject :: "external \<Rightarrow> string \<Rightarrow> string \<Rightarrow> concurrency_config \<Rightarrow> new_execution
    \<Rightarrow> barrier_outcome io" where
  "enqueue_or_reject X hook_slug exec_id config new_exec = do {
     counted \<leftarrow> count_waiting hook_slug;
     case counted of
       Inl e \<Rightarrow> return (BarrierReject ConcurrencyRejected ''internal error checking queue'')
     | Inr waiting \<Rightarrow>
         if waiting \<ge> cc_queue_depth config
         then return (BarrierReject ConcurrencyRejected
                (''queue full ('' @ show_nat waiting @ ''/'' @ show_nat (cc_queue_depth config) @ '')''))
         else do {
           created \<leftarrow> execution_create X new_exec;
           case created of
             Inl e \<Rightarrow> return (BarrierReject ConcurrencyRejected
                              ''internal error creating queued execution'')
           | Inr _ \<Rightarrow> do {
               enqueued \<leftarrow> enqueue X hook_slug exec_id;
               return (case enqueued of
                   Inl e \<Rightarrow> BarrierReject ConcurrencyRejected ''internal error enqueueing execution''
                 | Inr pos \<Rightarrow> Defer exec_id Pending (''queued at position '' @ show_nat pos)) } } }"

definition concurrency_evaluate :: "external \<Rightarrow> string \<Rightarrow> string \<Rightarrow> concurrency_config \<Rightarrow> new_execution
    \<Rightarrow> barrier_outcome io" where
  "concurrency_evaluate X hook_slug exec_id config new_exec = do {
     acquired \<leftarrow> try_acquire X hook_slug exec_id;
     case acquired of
       Inl e \<Rightarrow> return (BarrierReject ConcurrencyRejected ''internal error acquiring lock'')
     | Inr got \<Rightarrow>
         if got then return Proceed
         else (case cc_mode config of
                 Mutex \<Rightarrow> return (BarrierReject ConcurrencyRejected ''another execution is in progress'')
               | Queue \<Rightarrow> enqueue_or_reject X hook_slug exec_id config new_exec)
   }"

section \<open>Completion\<close>

definition on_execution_complete :: "external \<Rightarrow> string \<Rightarrow> concurrency_config option
    \<Rightarrow> approval_config option \<Rightarrow> unit io" where
  "on_execution_complete X hook_slug concurrency approval =
     (case concurrency of
        None \<Rightarrow> do { _ \<leftarrow> release hook_slug; return () }
      | Some config \<Rightarrow>
          if cc_mode config \<noteq> Queue then do { _ \<leftarrow> release hook_slug; return () }
          else do {
            peeked \<leftarrow> peek_next hook_slug;
            case (case peeked of Inr q \<Rightarrow> q | Inl e \<Rightarrow> None) of
              None \<Rightarrow> do { _ \<leftarrow> release hook_slug; return () }
            | Some queued \<Rightarrow> do {
                handed \<leftarrow> hand_off X hook_slug (qe_execution_id queued);
                case handed of
                  Inl e \<Rightarrow> return ()
                | Inr _ \<Rightarrow> do {
                    _ \<leftarrow> mark_ready (qe_id queued);
                    if requires_approval approval
                    then do { _ \<leftarrow> mark_pending_approval (qe_execution_id queued); return () }
                    else spawn_task (RunDequeued hook_slug (qe_execution_id queued) concurrency approval)
                  } } })"

definition find_hook :: "(hook_config \<Rightarrow> bool) \<Rightarrow> app_config \<Rightarrow> hook_config option" where
  "find_hook p config = List.find p (cf_hooks config)"

definition timeout_of :: "hook_config \<Rightarrow> app_config \<Rightarrow> duration" where
  "timeout_of hook config =
     (case hk_timeout hook of Some t \<Rightarrow> t | None \<Rightarrow> df_timeout (cf_defaults config))"

text \<open>The notification at the end of a task: sent when one is configured and the row can be read.\<close>

definition notify_completion :: "external \<Rightarrow> hook_config \<Rightarrow> string \<Rightarrow> execution_result \<Rightarrow> unit io" where
  "notify_completion X hook execution_id result =
     (case hk_notification hook of
        None \<Rightarrow> return ()
      | Some nc \<Rightarrow> do {
          fetched \<leftarrow> execution_get_by_id execution_id;
          case fetched of
            Inl e \<Rightarrow> return ()
          | Inr exec_record \<Rightarrow> send_notification X nc hook result exec_record })"

definition run_dequeued :: "external \<Rightarrow> string \<Rightarrow> string \<Rightarrow> concurrency_config option
    \<Rightarrow> approval_config option \<Rightarrow> unit io" where
  "run_dequeued X hook_slug execution_id concurrency approval = do {
     fetched \<leftarrow> execution_get_by_id execution_id;
     case fetched of
       Inl e \<Rightarrow> do { _ \<leftarrow> release hook_slug; return () }
     | Inr exec \<Rightarrow> do {
         app_config \<leftarrow> gets w_config;
         case find_hook (\<lambda>h. hk_slug h = hook_slug) app_config of
           None \<Rightarrow> do { _ \<leftarrow> release hook_slug; return () }
         | Some hook \<Rightarrow> do {
             let ctx = \<lparr>xc_execution_id = ex_id exec, xc_hook_slug = ex_hook_slug exec,
                        xc_executor = resolve_executor X (hk_executor hook) (ex_request_payload exec),
                        xc_env = hk_env hook, xc_cwd = hk_cwd hook,
                        xc_timeout = timeout_of hook app_config, xc_logs_dir = lg_dir (cf_logs app_config),
                        xc_payload_json = ex_request_payload exec\<rparr>;
             result \<leftarrow> run_with_retries X ctx
                        (resolve_retry_config hook (df_retries (cf_defaults app_config)));
             _ \<leftarrow> notify_completion X hook (ex_id exec) result;
             on_execution_complete X hook_slug concurrency approval } } }"

section \<open>Recovery\<close>

definition recover_barriers :: "external \<Rightarrow> unit io" where
  "recover_barriers X = do {
     now \<leftarrow> now_utc X;
     _ \<leftarrow> update_execs (\<lambda>e. ex_status e = Running)
            (\<lambda>e. e\<lparr>ex_status := Failed, ex_completed_at := Some now\<rparr>);
     _ \<leftarrow> sql (\<lambda>w. Inr ((), w\<lparr>w_locks := filter (\<lambda>l.
            \<not> list_ex (\<lambda>e. ex_id e = lk_execution_id l \<and> is_terminal (ex_status e)) (w_execs w))
            (w_locks w)\<rparr>));
     _ \<leftarrow> sql (\<lambda>w. Inr ((), w\<lparr>w_queue := update_rows
            (\<lambda>q. qr_status q = Waiting \<and> list_ex (\<lambda>e. ex_id e = qr_execution_id q
                   \<and> ex_status e \<in> {Rejected, Expired, Failed}) (w_execs w))
            (\<lambda>q. q\<lparr>qr_status := QueueExpired\<rparr>) (w_queue w)\<rparr>));
     return ()
   }"

section \<open>History\<close>

lemma history_barriers [history_intros]:
  "state_io_rel history_kept (concurrency_evaluate X slug i c new)"
  "state_io_rel history_kept (on_execution_complete X slug cc ac)"
  "state_io_rel history_kept (notify_completion X hook i r)"
  "state_io_rel history_kept (run_dequeued X slug i cc ac)"
  "state_io_rel history_kept (recover_barriers X)"
proof -
  show c: "state_io_rel history_kept (on_execution_complete X slug cc ac)" for slug
    unfolding on_execution_complete_def by (intro history_intros)
  show n: "state_io_rel history_kept (notify_completion X hook i r)" for hook i r
    unfolding notify_completion_def by (intro history_intros)
  show "state_io_rel history_kept (run_dequeued X slug i cc ac)"
    unfolding run_dequeued_def Let_def by (intro history_intros c n)
  have "state_io_rel history_kept (enqueue_or_reject X slug i c new)"
    unfolding enqueue_or_reject_def by (intro history_intros)
  then show "state_io_rel history_kept (concurrency_evaluate X slug i c new)"
    unfolding concurrency_evaluate_def
    by (intro history_intros) (auto split: concurrency_mode.splits simp: history.keeps_return)
  show "state_io_rel history_kept (recover_barriers X)"
    unfolding recover_barriers_def
    by (intro history_intros history.keeps_sql) (auto simp: history_kept_def intro!: queue_advances_update)
qed

section \<open>The decision at the concurrency barrier\<close>

text \<open>The world after \<open>create\<close> of a row with a fresh identifier.\<close>

lemma execution_create_world:
  assumes "no_faults w" and "ne_id new = Some i" and "i \<notin> ex_id ` set (w_execs w)"
    and "ne_retry_of new = None"
  shows "run_state (execution_create X new) w =
    (let row = new_row i (fmt_millis X (w_clock w (w_ticks w) div 1000000)) new
     in (Inr row, w\<lparr>w_ticks := Suc (w_ticks w), w_stmts := w_stmts w + 2, w_execs := w_execs w @ [row]\<rparr>))"
proof -
  have "find_row ex_id i (w_execs w) = None" using assms(3) by (simp add: find_row_None_iff)
  with assms show ?thesis
    by (simp add: execution_create_def insert_execution_def new_row_def no_faults_def Let_def
        find_exec_def find_row_append)
qed

lemma enqueue_result:
  assumes "queue_ok w" and "i \<in> ex_id ` set (w_execs w)"
  shows "fst (run_state (enqueue X slug i) w) = Inr (next_position slug (w_queue w))"
    and "w_locks (enqueued X slug i w) = w_locks w" and "w_tasks (enqueued X slug i w) = w_tasks w"
proof -
  have "find_row qr_id (w_uuids w (w_next_uuid w)) (w_queue w) = None"
    using fresh_queue_id [OF assms(1)] by (simp add: find_row_None_iff)
  then show "fst (run_state (enqueue X slug i) w) = Inr (next_position slug (w_queue w))"
    "w_locks (enqueued X slug i w) = w_locks w" "w_tasks (enqueued X slug i w) = w_tasks w"
    using assms fresh_queue_id [OF assms(1)]
    by (simp_all add: enqueued_def enqueue_def insert_queue_row_def queue_ok_def no_faults_def
        find_row_append)
qed

text \<open>The world after the barrier in its three cases: free, held with no place, held with a place.\<close>

lemma evaluate_free:
  assumes "no_faults w" and "holder_of slug w = None"
  shows "run_state (concurrency_evaluate X slug i c new) w =
    (Proceed, w\<lparr>w_ticks := Suc (w_ticks w), w_stmts := Suc (w_stmts w),
       w_locks := w_locks w @ [\<lparr>lk_hook_slug = slug, lk_execution_id = i,
         lk_acquired_at = fmt_millis X (w_clock w (w_ticks w) div 1000000)\<rparr>]\<rparr>)"
  using assms find_row_None_iff [of lk_hook_slug slug "w_locks w"]
  by (auto simp: concurrency_evaluate_def try_acquire_def holder_of_def no_faults_def)

lemma held_not_acquired:
  assumes "no_faults w" and "holder_of slug w = Some h"
  shows "run_state (try_acquire X slug i) w
    = (Inr False, w\<lparr>w_ticks := Suc (w_ticks w), w_stmts := Suc (w_stmts w)\<rparr>)"
proof -
  have "slug \<in> lk_hook_slug ` set (w_locks w)"
    using assms(2) by (auto simp: holder_of_def dest!: find_row_SomeD)
  with assms(1) show ?thesis by (auto simp: try_acquire_def no_faults_def)
qed

definition full_queue :: "string \<Rightarrow> concurrency_config \<Rightarrow> world \<Rightarrow> string" where
  "full_queue slug c w = ''queue full ('' @ show_nat (length (queue_of slug w)) @ ''/''
     @ show_nat (cc_queue_depth c) @ '')''"

lemma evaluate_busy:
  assumes "no_faults w" and "holder_of slug w = Some h"
    and "cc_mode c = Mutex \<or> length (queue_of slug w) \<ge> cc_queue_depth c"
  obtains n where "run_state (concurrency_evaluate X slug i c new) w =
    (BarrierReject ConcurrencyRejected
       (if cc_mode c = Mutex then ''another execution is in progress'' else full_queue slug c w),
     w\<lparr>w_ticks := Suc (w_ticks w), w_stmts := n\<rparr>)"
proof -
  have nf: "\<not> w_fault w n" for n using assms(1) by blast
  show ?thesis
    using assms(3) held_not_acquired [OF assms(1,2)] nf
    by (intro that [of "w_stmts w + (if cc_mode c = Mutex then 1 else 2)"])
       (cases "cc_mode c"; auto simp: concurrency_evaluate_def enqueue_or_reject_def
          count_waiting_def queue_of_def full_queue_def)
qed

lemma enqueue_or_reject_defers:
  assumes "queue_ok w" and "length (queue_of slug w) < cc_queue_depth c"
    and "ne_id new = Some i" and "i \<notin> ex_id ` set (w_execs w)" and "ne_retry_of new = None"
  obtains at n m where "run_state (enqueue_or_reject X slug i c new) w =
    (Defer i Pending (''queued at position '' @ show_nat (next_position slug (w_queue w))),
     enqueued X slug i (w\<lparr>w_ticks := n, w_stmts := m, w_execs := w_execs w @ [new_row i at new]\<rparr>))"
proof -
  have nf: "\<not> w_fault w n" for n using assms(1) by (auto simp: queue_ok_def)
  let ?at = "fmt_millis X (w_clock w (w_ticks w) div 1000000)"
  let ?w2 = "w\<lparr>w_ticks := Suc (w_ticks w), w_stmts := w_stmts w + 3,
                 w_execs := w_execs w @ [new_row i ?at new]\<rparr>"
  let ?w1 = "w\<lparr>w_stmts := Suc (w_stmts w)\<rparr>"
  have cr: "run_state (execution_create X new) ?w1 = (Inr (new_row i ?at new), ?w2)"
    by (subst execution_create_world [where i = i])
       (use assms nf in \<open>auto simp: no_faults_def Let_def\<close>)
  have ok2: "queue_ok ?w2" using assms(1) by (simp add: queue_ok_def no_faults_def)
  have i2: "i \<in> ex_id ` set (w_execs ?w2)" by (simp add: new_row_def)
  have "run_state (enqueue X slug i) ?w2
      = (Inr (next_position slug (w_queue w)), enqueued X slug i ?w2)"
    using enqueue_result(1) [OF ok2 i2, of X slug] by (simp add: enqueued_def prod_eq_iff)
  with assms(2) nf cr show ?thesis
    by (intro that [where n = "Suc (w_ticks w)" and m = "w_stmts w + 3" and at = ?at])
       (simp add: enqueue_or_reject_def count_waiting_def queue_of_def)
qed

lemma evaluate_defers:
  assumes "queue_ok w" and "holder_of slug w = Some h"
    and "cc_mode c = Queue" and "length (queue_of slug w) < cc_queue_depth c"
    and "ne_id new = Some i" and "i \<notin> ex_id ` set (w_execs w)" and "ne_retry_of new = None"
  obtains at n m where "run_state (concurrency_evaluate X slug i c new) w =
    (Defer i Pending (''queued at position '' @ show_nat (next_position slug (w_queue w))),
     enqueued X slug i (w\<lparr>w_ticks := n, w_stmts := m, w_execs := w_execs w @ [new_row i at new]\<rparr>))"
proof -
  have faults: "no_faults w" using assms(1) by (simp add: queue_ok_def)
  let ?w1 = "w\<lparr>w_ticks := Suc (w_ticks w), w_stmts := Suc (w_stmts w)\<rparr>"
  have "queue_ok ?w1" "length (queue_of slug ?w1) < cc_queue_depth c" "i \<notin> ex_id ` set (w_execs ?w1)"
    using assms(1,4,6) by (simp_all add: queue_ok_def no_faults_def queue_of_def)
  note defers = enqueue_or_reject_defers [OF this(1,2) assms(5) this(3) assms(7), of X]
  show ?thesis
  proof (rule defers)
    fix at n m
    assume "run_state (enqueue_or_reject X slug i c new) ?w1 =
      (Defer i Pending (''queued at position '' @ show_nat (next_position slug (w_queue ?w1))),
       enqueued X slug i (?w1\<lparr>w_ticks := n, w_stmts := m, w_execs := w_execs ?w1 @ [new_row i at new]\<rparr>))"
    with held_not_acquired [OF faults assms(2)] assms(3) show ?thesis
      by (intro that [where n = n and m = m and at = at]) (simp add: concurrency_evaluate_def)
  qed
qed

text \<open>C20: The concurrency barrier, for an execution with a fresh identifier and no failing statement.
  When the hook's lock is free the execution takes it and goes ahead, and no row is written yet.
  When it is held, a mutex turns the execution away (it does not wait, as the documentation says)
  and leaves executions, lock and queue alone;
  so does a full queue, naming its length and depth. A queue with a free place creates the pending
  row and appends the execution as the last of the hook's queue. The lock's holder never changes
  while it is held.\<close>

theorem concurrency_evaluate_spec:
  assumes "queue_ok w" and "locks_ok w" and "ne_id new = Some i" and "i \<notin> ex_id ` set (w_execs w)"
    and "ne_retry_of new = None"
    and "run_state (concurrency_evaluate X slug i c new) w = (out, w')"
  shows "if holder_of slug w = None
         then out = Proceed \<and> holder_of slug w' = Some i \<and> w_execs w' = w_execs w
              \<and> w_queue w' = w_queue w
         else holder_of slug w' = holder_of slug w
              \<and> (if cc_mode c = Mutex
                 then out = BarrierReject ConcurrencyRejected ''another execution is in progress''
                      \<and> w_execs w' = w_execs w \<and> w_queue w' = w_queue w
                 else if length (queue_of slug w) \<ge> cc_queue_depth c
                 then out = BarrierReject ConcurrencyRejected
                        (''queue full ('' @ show_nat (length (queue_of slug w)) @ ''/''
                         @ show_nat (cc_queue_depth c) @ '')'')
                      \<and> w_execs w' = w_execs w \<and> w_queue w' = w_queue w
                 else out = Defer i Pending
                        (''queued at position '' @ show_nat (next_position slug (w_queue w)))
                      \<and> queue_of slug w' = queue_of slug w @ [i]
                      \<and> (\<exists>at. w_execs w' = w_execs w @ [new_row i at new]))"
proof (cases "holder_of slug w")
  case None
  with evaluate_free [of w slug X i c new] assms show ?thesis
    by (auto simp: queue_ok_def holder_of_def find_row_append)
next
  case (Some h)
  have nf: "no_faults w" using assms(1) by (simp add: queue_ok_def)
  show ?thesis
  proof (cases "cc_mode c = Mutex \<or> length (queue_of slug w) \<ge> cc_queue_depth c")
    case True
    from evaluate_busy [OF nf Some this, of X i new] obtain n where
      "run_state (concurrency_evaluate X slug i c new) w = (BarrierReject ConcurrencyRejected
         (if cc_mode c = Mutex then ''another execution is in progress'' else full_queue slug c w),
       w\<lparr>w_ticks := Suc (w_ticks w), w_stmts := n\<rparr>)" .
    with True Some assms(6) show ?thesis by (auto simp: holder_of_def full_queue_def)
  next
    case False
    then have q: "cc_mode c = Queue" "length (queue_of slug w) < cc_queue_depth c"
      by (cases "cc_mode c"; simp)+
    from evaluate_defers [OF assms(1) Some q assms(3-5), of X] obtain at n m where d:
      "run_state (concurrency_evaluate X slug i c new) w =
        (Defer i Pending (''queued at position '' @ show_nat (next_position slug (w_queue w))),
         enqueued X slug i (w\<lparr>w_ticks := n, w_stmts := m, w_execs := w_execs w @ [new_row i at new]\<rparr>))" .
    let ?w2 = "w\<lparr>w_ticks := n, w_stmts := m, w_execs := w_execs w @ [new_row i at new]\<rparr>"
    have ok: "queue_ok ?w2" "i \<in> ex_id ` set (w_execs ?w2)"
      using assms(1) by (simp_all add: queue_ok_def no_faults_def new_row_def)
    have "queue_of slug (enqueued X slug i ?w2) = queue_of slug w @ [i]"
      using enqueued_world(1) [OF ok, of X slug] by (simp add: queue_of_def waiting_rows_def)
    with d q Some assms(6) enqueued_world(2) [OF ok, of X slug] enqueue_result(2) [OF ok, of X slug]
    show ?thesis by (auto simp: holder_of_def)
  qed
qed

section \<open>What completion does\<close>

lemma waiting_rows_ready_other:
  assumes "distinct (map qr_id rows)" and "q \<in> set (waiting_rows slug rows)" and "s \<noteq> slug"
  shows "filter (\<lambda>r. qr_id r \<noteq> qr_id q) (waiting_rows s rows) = waiting_rows s rows"
  using assms by (simp only: filter_id_conv) (auto simp: waiting_rows_def distinct_map dest: inj_onD)

lemma waiting_rows_ready_head:
  assumes "distinct (map qr_id rows)" and "waiting_rows slug rows = q # qs"
  shows "filter (\<lambda>r. qr_id r \<noteq> qr_id q) (waiting_rows slug rows) = qs"
proof -
  have "distinct (map qr_id (q # qs))"
    using assms distinct_map_filter unfolding waiting_rows_def by metis
  then show ?thesis using assms(2) by (auto simp: filter_id_conv) (metis image_eqI)
qed

text \<open>The hand-over in one step: the lock goes to the head of the queue, whose entry is ready.\<close>

definition handed_over :: "string \<Rightarrow> string \<Rightarrow> world \<Rightarrow> world \<Rightarrow> bool" where
  "handed_over slug x w w' \<longleftrightarrow>
     holder_of slug w' = Some x \<and> queue_of slug w = x # queue_of slug w'
     \<and> (\<forall>s. s \<noteq> slug \<longrightarrow> holder_of s w' = holder_of s w \<and> queue_of s w' = queue_of s w)
     \<and> w_execs w' = w_execs w \<and> w_tasks w' = w_tasks w \<and> w_config w' = w_config w
     \<and> w_io_fault w' = w_io_fault w \<and> queue_ok w' \<and> locks_ok w'"

lemma hand_over:
  assumes "queue_ok w" and "locks_ok w" and "waiting_rows slug (w_queue w) = q # qs"
    and "holder_of slug w = Some i"
  shows "handed_over slug (qr_execution_id q) w
           (snd (run_state (do { _ \<leftarrow> hand_off X slug (qr_execution_id q); mark_ready (qr_id q) }) w))"
proof -
  let ?w1 = "snd (run_state (hand_off X slug (qr_execution_id q)) w)"
  let ?w2 = "snd (run_state (mark_ready (qr_id q)) ?w1)"
  have nf: "\<not> w_fault w n" for n using assms(1) by (auto simp: queue_ok_def)
  note t = execution_locks.transfer [OF assms(2), where k = slug and h = "qr_execution_id q" and X = X]
  have locks: "w_locks ?w2 = w_locks ?w1" by (simp add: mark_ready_def hand_off_def nf)
  have queue: "w_queue ?w2 = update_rows (\<lambda>r. qr_id r = qr_id q \<and> qr_status r = Waiting)
      (\<lambda>r. r\<lparr>qr_status := Ready\<rparr>) (w_queue w)"
    by (simp add: mark_ready_def hand_off_def nf)
  have rest: "w_execs ?w2 = w_execs w" "w_tasks ?w2 = w_tasks w" "w_config ?w2 = w_config w"
      "w_io_fault ?w2 = w_io_fault w" "no_faults ?w2"
    by (simp_all add: mark_ready_def hand_off_def nf no_faults_def)
  have dist: "distinct (map qr_id (w_queue w))" using assms(1) by (simp add: queue_ok_def)
  have "queue_ok ?w2"
    using queue_ok_status [OF assms(1), where n = 0 and p = "\<lambda>r. qr_id r = qr_id q \<and> qr_status r = Waiting"
        and st = Ready]
    by (simp add: queue_ok_def no_faults_def mark_ready_def hand_off_def nf)
  moreover have "locks_ok ?w2" using t rest(5) by (simp add: locks_ok_def locks)
  moreover have "queue_of slug ?w2 = map qr_execution_id qs"
    using waiting_rows_ready_head [OF dist assms(3)] by (simp add: queue_of_def queue waiting_rows_ready)
  moreover have "queue_of s ?w2 = queue_of s w" if "s \<noteq> slug" for s
    using waiting_rows_ready_other [OF dist _ that, of q] assms(3)
    by (simp add: queue_of_def queue waiting_rows_ready)
  moreover have "holder_of s ?w2 = holder_of s ?w1" for s by (simp add: holder_of_def locks)
  moreover have "run_state (do { _ \<leftarrow> hand_off X slug (qr_execution_id q); mark_ready (qr_id q) }) w
      = run_state (mark_ready (qr_id q)) ?w1"
    by (simp split: prod.splits)
  ultimately show ?thesis
    using t assms(3,4) rest by (simp add: handed_over_def queue_of_def)
qed

lemma completion_hands_over:
  assumes "queue_ok w" and "locks_ok w" and "holder_of slug w = Some i" and "cc_mode c = Queue"
    and "queue_of slug w = x # xs"
  obtains w1 where "handed_over slug x w w1"
    and "run_state (on_execution_complete X slug (Some c) ac) w
           = run_state (if requires_approval ac
                        then do { _ \<leftarrow> mark_pending_approval x; return () }
                        else spawn_task (RunDequeued slug x (Some c) ac)) w1"
proof -
  obtain q qs where q: "waiting_rows slug (w_queue w) = q # qs" "x = qr_execution_id q"
    using assms(5) by (auto simp: queue_of_def)
  let ?w0 = "w\<lparr>w_stmts := Suc (w_stmts w)\<rparr>"
  have ok: "queue_ok ?w0" "locks_ok ?w0" "holder_of slug ?w0 = Some i"
    using assms(1-3) by (simp_all add: locks_ok_def no_faults_def holder_of_def)
  have nf: "\<not> w_fault w n" for n using assms(1) by (auto simp: queue_ok_def)
  let ?w1 = "snd (run_state (do { _ \<leftarrow> hand_off X slug x; mark_ready (qr_id q) }) ?w0)"
  have "handed_over slug x ?w0 ?w1" using hand_over [OF ok(1,2) _ ok(3)] q by simp
  then have "handed_over slug x w ?w1" by (simp add: handed_over_def holder_of_def queue_of_def)
  moreover have "run_state (on_execution_complete X slug (Some c) ac) w
           = run_state (if requires_approval ac
                        then do { _ \<leftarrow> mark_pending_approval x; return () }
                        else spawn_task (RunDequeued slug x (Some c) ac)) ?w1"
    using q waiting_sorted [OF assms(1), of slug] assms(4) nf
    by (simp add: on_execution_complete_def peek_next_def hand_off_def mark_ready_def)
  ultimately show ?thesis using that by blast
qed

lemma completion_releases:
  assumes "queue_ok w" and "locks_ok w" and "cc_mode c = Queue \<Longrightarrow> queue_of slug w = []"
    and "run_state (on_execution_complete X slug (Some c) ac) w = (u, w')"
  shows "holder_of slug w' = None \<and> w_execs w' = w_execs w \<and> w_queue w' = w_queue w
         \<and> w_tasks w' = w_tasks w \<and> (\<forall>s. s \<noteq> slug \<longrightarrow> holder_of s w' = holder_of s w)"
proof -
  have nf: "\<not> w_fault w n" for n using assms(1) by (auto simp: queue_ok_def)
  have "waiting_rows slug (w_queue w) = []" if "cc_mode c = Queue"
    using assms(3) [OF that] by (simp add: queue_of_def)
  then show ?thesis
    using assms(2,4) nf
    by (cases "cc_mode c")
       (auto simp: on_execution_complete_def peek_next_def release_def holder_of_def
         find_row_None_iff find_row_filter_other)
qed

lemma mark_pending_approval_moves:
  assumes "exec_ids_distinct w" and "status_of x w = Some Pending" and "no_faults w"
  shows "moved Pending PendingApproval x w (snd (run_state (mark_pending_approval x) w))"
proof -
  let ?d = "run_state (mark_pending_approval x) w"
  have nf: "\<not> w_fault w n" for n using assms(3) by blast
  have "fst ?d = Inr ()"
    using guarded_update(1) [OF assms(1) [unfolded exec_ids_distinct_def], where i = x and s = Pending
        and f = "\<lambda>e. e"] nf assms(2)
    by (simp add: mark_pending_approval_def status_of_def find_exec_def)
  then show ?thesis using deferred.success [OF assms(1)] by (metis prod.collapse)
qed

text \<open>C21: The lock is never lost when an execution completes, and the queue moves on. For a hook in
  queue mode whose queue is not empty, the lock goes to the first execution of the queue without
  ever being free, that execution leaves the queue, and it either waits for its approval or is
  handed to a task; otherwise the lock is free. No other hook's lock or queue changes.\<close>

theorem on_execution_complete_spec:
  assumes "queue_ok w" and "locks_ok w" and "holder_of slug w = Some i"
    and "run_state (on_execution_complete X slug (Some c) ac) w = (u, w')"
  shows "(case (if cc_mode c = Queue then queue_of slug w else []) of
            [] \<Rightarrow> holder_of slug w' = None \<and> w_tasks w' = w_tasks w \<and> w_execs w' = w_execs w
          | x # xs \<Rightarrow> holder_of slug w' = Some x \<and> queue_of slug w' = xs
              \<and> (if requires_approval ac
                 then w_tasks w' = w_tasks w
                      \<and> (exec_ids_distinct w \<and> status_of x w = Some Pending
                         \<longrightarrow> moved Pending PendingApproval x w w')
                 else w_tasks w' = w_tasks w @ [RunDequeued slug x (Some c) ac]
                      \<and> w_execs w' = w_execs w))
         \<and> (\<forall>s. s \<noteq> slug \<longrightarrow> holder_of s w' = holder_of s w \<and> queue_of s w' = queue_of s w)"
proof (cases "if cc_mode c = Queue then queue_of slug w else []")
  case Nil
  then have "cc_mode c = Queue \<Longrightarrow> queue_of slug w = []" by simp
  from completion_releases [OF assms(1,2) this assms(4)] Nil show ?thesis
    by (simp add: queue_of_def)
next
  case (Cons x xs)
  then have q: "cc_mode c = Queue" "queue_of slug w = x # xs" by (simp_all split: if_splits)
  then obtain w1 where h: "handed_over slug x w w1" and r:
      "run_state (on_execution_complete X slug (Some c) ac) w
         = run_state (if requires_approval ac
                      then do { _ \<leftarrow> mark_pending_approval x; return () }
                      else spawn_task (RunDequeued slug x (Some c) ac)) w1"
    using completion_hands_over [OF assms(1-3)] by blast
  have nf: "\<not> w_fault w1 n" for n using h by (auto simp: handed_over_def queue_ok_def)
  show ?thesis
  proof (cases "requires_approval ac")
    case False
    then have "w' = w1\<lparr>w_tasks := w_tasks w1 @ [RunDequeued slug x (Some c) ac]\<rparr>"
      using r assms(4) by simp
    with h False q show ?thesis by (simp add: handed_over_def holder_of_def queue_of_def)
  next
    case True
    have w': "w' = snd (run_state (mark_pending_approval x) w1)" using r assms(4) True by (auto split: prod.splits)
    have "moved Pending PendingApproval x w w'"
      if "exec_ids_distinct w" "status_of x w = Some Pending"
      using mark_pending_approval_moves [of w1 x] that h
      by (simp add: w' moved_def handed_over_def exec_ids_distinct_def status_of_def find_exec_def queue_ok_def)
    moreover have "w_locks w' = w_locks w1" "w_queue w' = w_queue w1" "w_tasks w' = w_tasks w1"
      using nf by (simp_all add: w' mark_pending_approval_def)
    ultimately show ?thesis
      using h True q by (simp add: handed_over_def holder_of_def queue_of_def)
  qed
qed

section \<open>Concrete worlds\<close>

text \<open>Execution \<open>e1\<close> holds the lock; in the second world \<open>e2\<close> waits for it.\<close>

definition held_world :: world where
  "held_world = two_world\<lparr>w_locks := [\<lparr>lk_hook_slug = ''deploy'', lk_execution_id = ''e1'',
     lk_acquired_at = ''t''\<rparr>], w_next_uuid := 1\<rparr>"

definition waiting_world :: world where
  "waiting_world = held_world\<lparr>w_queue := [\<lparr>qr_id = ''u'', qr_hook_slug = ''deploy'',
     qr_execution_id = ''e2'', qr_position = 1, qr_queued_at = ''t'', qr_status = Waiting\<rparr>]\<rparr>"

definition sample_new :: "string \<Rightarrow> new_execution" where
  "sample_new i = \<lparr>ne_id = Some i, ne_hook_slug = ''deploy'', ne_log_path = ''logs/'' @ i,
     ne_trigger_source = ''1.2.3.4'', ne_request_payload = ''{}'', ne_retry_of = None,
     ne_status = None\<rparr>"

lemma held_world_ok:
  "queue_ok held_world" "locks_ok held_world" "holder_of ''deploy'' held_world = Some ''e1''"
  "queue_of slug held_world = []"
  by (auto simp: held_world_def two_world_def sample_world_def queue_ok_def locks_ok_def
      no_faults_def holder_of_def queue_of_def waiting_rows_def inj_def)

lemma waiting_world_ok:
  "queue_ok waiting_world" "locks_ok waiting_world"
  "holder_of ''deploy'' waiting_world = Some ''e1''" "queue_of ''deploy'' waiting_world = [''e2'']"
  by (auto simp: waiting_world_def held_world_def two_world_def sample_world_def queue_ok_def locks_ok_def
      no_faults_def holder_of_def queue_of_def waiting_rows_def inj_def)

theorem concurrency_evaluate_spec_witness:
  "queue_of ''deploy'' (snd (run_state (concurrency_evaluate sample_external ''deploy'' ''n''
     \<lparr>cc_mode = Queue, cc_queue_depth = 2\<rparr> (sample_new ''n'')) held_world)) = [''n'']"
proof -
  have "''n'' \<notin> ex_id ` set (w_execs held_world)"
    by (simp add: held_world_def two_world_def sample_execution_def)
  from concurrency_evaluate_spec [OF held_world_ok(1,2) _ this _ prod.collapse [symmetric],
      where new = "sample_new ''n''" and c = "\<lparr>cc_mode = Queue, cc_queue_depth = 2\<rparr>"
        and X = sample_external and slug = "''deploy''"]
  show ?thesis by (simp add: held_world_ok sample_new_def)
qed

theorem on_execution_complete_spec_witness:
  "holder_of ''deploy'' (snd (run_state (on_execution_complete sample_external ''deploy''
     (Some \<lparr>cc_mode = Queue, cc_queue_depth = 2\<rparr>) None) waiting_world)) = Some ''e2''"
  using on_execution_complete_spec [OF waiting_world_ok(1,2,3) prod.collapse [symmetric],
      where c = "\<lparr>cc_mode = Queue, cc_queue_depth = 2\<rparr>" and ac = None and X = sample_external]
  by (simp add: waiting_world_ok)

section \<open>What recovery does\<close>

text \<open>The world after recovery, written out: the three statements one after the other.\<close>

lemma recover_world:
  assumes "no_faults w"
  obtains now where "w_execs (snd (run_state (recover_barriers X) w))
      = update_rows (\<lambda>e. ex_status e = Running)
          (\<lambda>e. e\<lparr>ex_status := Failed, ex_completed_at := Some now\<rparr>) (w_execs w)"
    and "w_locks (snd (run_state (recover_barriers X) w))
      = filter (\<lambda>l. \<not> list_ex (\<lambda>e. ex_id e = lk_execution_id l \<and> is_terminal (ex_status e))
          (w_execs (snd (run_state (recover_barriers X) w)))) (w_locks w)"
    and "w_queue (snd (run_state (recover_barriers X) w))
      = update_rows (\<lambda>q. qr_status q = Waiting \<and> list_ex (\<lambda>e. ex_id e = qr_execution_id q
            \<and> ex_status e \<in> {Rejected, Expired, Failed}) (w_execs (snd (run_state (recover_barriers X) w))))
          (\<lambda>q. q\<lparr>qr_status := QueueExpired\<rparr>) (w_queue w)"
    and "w_tasks (snd (run_state (recover_barriers X) w)) = w_tasks w"
proof -
  have nf: "\<not> w_fault w n" for n using assms by blast
  show ?thesis by (rule that) (simp_all add: recover_barriers_def nf)
qed

lemma list_all2_update_rows:
  "list_all2 (\<lambda>r r'. r' = (if p r then f r else r)) rows (update_rows p f rows)"
  by (induction rows) (simp_all add: update_rows_def)

text \<open>C40: What recovery at start-up changes, row by row. A row that was running becomes failed, with a time
  of completion and nothing else changed; every other row stays as it is, so nothing is running
  afterwards. A lock
  stays exactly when its execution has not ended. A waiting entry of the queue expires when its
  execution was rejected, expired or failed, and every other entry stays as it is. No task is
  started: overdue approvals stay undecided, entries that are ready are not resumed and approved
  executions are not started.\<close>

theorem recover_barriers_spec:
  assumes "no_faults w" and "run_state (recover_barriers X) w = (u, w')"
  shows "list_all2 (\<lambda>e e'. if ex_status e = Running
              then e' = e\<lparr>ex_status := Failed, ex_completed_at := ex_completed_at e'\<rparr> \<and> ex_completed_at e' \<noteq> None
              else e' = e) (w_execs w) (w_execs w')
         \<and> Running \<notin> ex_status ` set (w_execs w')
         \<and> w_locks w' = filter (\<lambda>l. \<forall>e \<in> set (w_execs w'). ex_id e = lk_execution_id l
              \<longrightarrow> \<not> is_terminal (ex_status e)) (w_locks w)
         \<and> list_all2 (\<lambda>q q'. q' = (if qr_status q = Waiting \<and> (\<exists>e \<in> set (w_execs w').
                ex_id e = qr_execution_id q \<and> ex_status e \<in> {Rejected, Expired, Failed})
              then q\<lparr>qr_status := QueueExpired\<rparr> else q)) (w_queue w) (w_queue w')
         \<and> w_tasks w' = w_tasks w"
proof -
  from assms(2) have w': "w' = snd (run_state (recover_barriers X) w)" by simp
  obtain now where r: "w_execs w' = update_rows (\<lambda>e. ex_status e = Running)
          (\<lambda>e. e\<lparr>ex_status := Failed, ex_completed_at := Some now\<rparr>) (w_execs w)"
      "w_locks w' = filter (\<lambda>l. \<not> list_ex (\<lambda>e. ex_id e = lk_execution_id l \<and> is_terminal (ex_status e))
          (w_execs w')) (w_locks w)"
      "w_queue w' = update_rows (\<lambda>q. qr_status q = Waiting \<and> list_ex (\<lambda>e. ex_id e = qr_execution_id q
            \<and> ex_status e \<in> {Rejected, Expired, Failed}) (w_execs w'))
          (\<lambda>q. q\<lparr>qr_status := QueueExpired\<rparr>) (w_queue w)"
      "w_tasks w' = w_tasks w"
    unfolding w' by (rule recover_world [OF assms(1)])
  have "list_all2 (\<lambda>e e'. if ex_status e = Running
      then e' = e\<lparr>ex_status := Failed, ex_completed_at := ex_completed_at e'\<rparr> \<and> ex_completed_at e' \<noteq> None
              else e' = e) (w_execs w) (w_execs w')"
    unfolding r(1) by (rule list_all2_mono [OF list_all2_update_rows]) auto
  moreover have "Running \<notin> ex_status ` set (w_execs w')" by (auto simp: r(1) set_update_rows)
  moreover have "w_locks w' = filter (\<lambda>l. \<forall>e \<in> set (w_execs w'). ex_id e = lk_execution_id l
      \<longrightarrow> \<not> is_terminal (ex_status e)) (w_locks w)"
    unfolding r(2) by (rule filter_cong) (auto simp: list_ex_iff)
  moreover have "list_all2 (\<lambda>q q'. q' = (if qr_status q = Waiting \<and> (\<exists>e \<in> set (w_execs w').
        ex_id e = qr_execution_id q \<and> ex_status e \<in> {Rejected, Expired, Failed})
      then q\<lparr>qr_status := QueueExpired\<rparr> else q)) (w_queue w) (w_queue w')"
    unfolding r(3) by (rule list_all2_mono [OF list_all2_update_rows]) (simp add: list_ex_iff)
  ultimately show ?thesis by (simp add: r(4))
qed

text \<open>Recovery does not restart what waits for nothing. An execution that was pending with its
  hook's lock when the server stopped still holds the lock afterwards, no task will run it, and
  the entries of pending executions behind it keep waiting.\<close>

theorem recover_keeps_pending_lock:
  assumes "no_faults w" and "exec_ids_distinct w" and "holder_of slug w = Some i"
    and "status_of i w = Some Pending" and "\<forall>j \<in> set (queue_of slug w). status_of j w = Some Pending"
    and "run_state (recover_barriers X) w = (u, w')"
  shows "holder_of slug w' = Some i \<and> w_tasks w' = w_tasks w \<and> queue_of slug w' = queue_of slug w
         \<and> status_of i w' = Some Pending"
proof -
  from assms(6) have w': "w' = snd (run_state (recover_barriers X) w)" by simp
  obtain now where r: "w_execs w' = update_rows (\<lambda>e. ex_status e = Running)
          (\<lambda>e. e\<lparr>ex_status := Failed, ex_completed_at := Some now\<rparr>) (w_execs w)"
      "w_locks w' = filter (\<lambda>l. \<not> list_ex (\<lambda>e. ex_id e = lk_execution_id l \<and> is_terminal (ex_status e))
          (w_execs w')) (w_locks w)"
      "w_queue w' = update_rows (\<lambda>q. qr_status q = Waiting \<and> list_ex (\<lambda>e. ex_id e = qr_execution_id q
            \<and> ex_status e \<in> {Rejected, Expired, Failed}) (w_execs w'))
          (\<lambda>q. q\<lparr>qr_status := QueueExpired\<rparr>) (w_queue w)" "w_tasks w' = w_tasks w"
    unfolding w' by (rule recover_world [OF assms(1)])
  have find: "find_exec j w' = map_option (\<lambda>e. if ex_status e = Running
        then e\<lparr>ex_status := Failed, ex_completed_at := Some now\<rparr> else e) (find_exec j w)" for j
    by (simp add: find_exec_def r(1) find_row_update [where key = ex_id])
  have ids: "distinct (map ex_id (w_execs w'))"
    using assms(2) by (simp add: r(1) map_update_rows exec_ids_distinct_def)
  have pending: "ex_status e = Pending"
    if "status_of j w = Some Pending" "e \<in> set (w_execs w')" "ex_id e = j" for j e
  proof -
    have "find_exec j w' = Some e" using that(2,3) by (simp add: find_exec_def find_row_Some_iff [OF ids])
    with find [of j] that(1) show ?thesis by (auto simp: status_of_def split: if_splits)
  qed
  have keep: "find_row lk_hook_slug slug (filter p rows) = Some l"
    if "find_row lk_hook_slug slug rows = Some l" "p l" for p l rows
    using that by (induction rows) (auto split: if_splits)
  obtain l where l: "find_row lk_hook_slug slug (w_locks w) = Some l" "lk_execution_id l = i"
    using assms(3) by (auto simp: holder_of_def)
  have "\<not> list_ex (\<lambda>e. ex_id e = lk_execution_id l \<and> is_terminal (ex_status e)) (w_execs w')"
    using pending [OF assms(4)] l(2) by (auto simp: list_ex_iff is_terminal_def)
  then have "holder_of slug w' = Some i" using keep [OF l(1)] l(2) by (simp add: holder_of_def r(2))
  moreover have "queue_of slug w' = queue_of slug w"
  proof -
    have same: "waiting_rows slug (update_rows (\<lambda>q. qr_status q = Waiting \<and> P q)
        (\<lambda>q. q\<lparr>qr_status := QueueExpired\<rparr>) rows) = waiting_rows slug rows"
      if "\<forall>q \<in> set (waiting_rows slug rows). \<not> P q" for P rows
      using that by (induction rows) (auto simp: waiting_rows_def)
    have "\<not> list_ex (\<lambda>e. ex_id e = qr_execution_id q \<and> ex_status e \<in> {Rejected, Expired, Failed}) (w_execs w')"
      if "q \<in> set (waiting_rows slug (w_queue w))" for q
    proof -
      have "status_of (qr_execution_id q) w = Some Pending"
        using assms(5) that by (simp add: queue_of_def)
      then show ?thesis using pending by (auto simp: list_ex_iff)
    qed
    then show ?thesis unfolding queue_of_def r(3) by (subst same) auto
  qed
  moreover have "status_of i w' = Some Pending"
    using find [of i] assms(4) by (cases "find_exec i w") (simp_all add: status_of_def)
  ultimately show ?thesis by (simp add: r(4))
qed

definition stopped_world :: world where
  "stopped_world = waiting_world\<lparr>w_execs := [sample_execution ''e1'' ''2026-01-01'' Pending,
     sample_execution ''e2'' ''2026-02-01'' Pending, sample_execution ''e3'' ''2026-03-01'' Running]\<rparr>"

lemma stopped_world_ok:
  "no_faults stopped_world" "exec_ids_distinct stopped_world"
  "holder_of ''deploy'' stopped_world = Some ''e1''" "queue_of ''deploy'' stopped_world = [''e2'']"
  "status_of ''e1'' stopped_world = Some Pending" "status_of ''e2'' stopped_world = Some Pending"
  by (simp_all add: stopped_world_def waiting_world_def held_world_def two_world_def sample_world_def
      no_faults_def exec_ids_distinct_def holder_of_def queue_of_def waiting_rows_def status_of_def
      find_exec_def sample_execution_def)

theorem recover_barriers_spec_witness:
  "Running \<notin> ex_status ` set (w_execs (snd (run_state (recover_barriers sample_external) stopped_world)))"
  using recover_barriers_spec [OF stopped_world_ok(1) prod.collapse [symmetric]] by simp

theorem recover_keeps_pending_lock_witness:
  "holder_of ''deploy'' (snd (run_state (recover_barriers sample_external) stopped_world)) = Some ''e1''"
  using recover_keeps_pending_lock [OF stopped_world_ok(1-3,5) _ prod.collapse [symmetric]]
  by (simp add: stopped_world_ok)

end
