(* ===== verification/Trigger_Hook.thy ===== *)
theory Trigger_Hook
  imports Barriers Webhook_Auth Attempt_Model
begin

text \<open>
  \<open>trigger_hook\<close> of \<open>src/routes/hooks.rs\<close>, the handler behind \<open>POST /hook/{slug}\<close>. The handler is
  one long function of stages; each stage is a definition here that either ends the request with
  a response or goes on with a value, and \<open>trigger_hook\<close> is their composition in the source's
  order. A handler's result is \<open>Inl\<close> for \<open>Err(response)\<close> and \<open>Inr\<close> for \<open>Ok(response)\<close>; a stage
  that ends the request returns such a result on its left.
\<close>

datatype response =
    Status nat
  | JsonResponse nat json
  | RedirectTo string

type_synonym http_result = "response + response"
type_synonym 'a stage = "(http_result + 'a) io"

definition extract_source_ip :: "headers \<Rightarrow> string \<Rightarrow> string" where
  "extract_source_ip hs peer =
     (case hs ''x-forwarded-for'' of
        Some (Some val) \<Rightarrow>
          (case split_on (CHR '','') val of
             first # _ \<Rightarrow> if trim first \<noteq> [] then trim first else peer
           | [] \<Rightarrow> peer)
      | _ \<Rightarrow> peer)"

text \<open>\<open>let _ = trigger_attempt::insert(...)\<close>: the attempt is logged and the outcome ignored.\<close>

definition log_attempt :: "external \<Rightarrow> string \<Rightarrow> string \<Rightarrow> trigger_attempt_status \<Rightarrow> string
    \<Rightarrow> string option \<Rightarrow> unit io" where
  "log_attempt X hook_slug source_ip status reason execution_id = do {
     _ \<leftarrow> attempt_insert X \<lparr>nt_hook_slug = hook_slug, nt_source_ip = source_ip, nt_status = status,
            nt_reason = reason, nt_execution_id = execution_id\<rparr>;
     return () }"

definition log_rejection :: "external \<Rightarrow> string \<Rightarrow> string \<Rightarrow> trigger_attempt_status \<Rightarrow> string
    \<Rightarrow> unit io" where
  "log_rejection X hook_slug source_ip status reason =
     log_attempt X hook_slug source_ip status reason None"

definition hook_rate_limit_as_trigger :: "rate_limit_config option \<Rightarrow> trigger_rate_limit option" where
  "hook_rate_limit_as_trigger cfg =
     (case cfg of
        None \<Rightarrow> None
      | Some c \<Rightarrow>
          if rl_max_per_minute c = 0 then None
          else Some \<lparr>tr_max_requests = rl_max_per_minute c, tr_window = from_secs 60\<rparr>)"

definition format_payload_validation_errors :: "field_validation_error list \<Rightarrow> string" where
  "format_payload_validation_errors errors = join ''; '' (map fe_message errors)"

definition json_errors :: "field_validation_error list \<Rightarrow> json" where
  "json_errors errors = JArray (map (\<lambda>e. JObject
     [(''field'', JString (fe_field e)), (''message'', JString (fe_message e))]) errors)"

section \<open>Authentication and payload\<close>

definition authenticate :: "external \<Rightarrow> hook_config \<Rightarrow> string \<Rightarrow> string \<Rightarrow> headers \<Rightarrow> string
    \<Rightarrow> unit stage" where
  "authenticate X hook slug source_ip hs body =
     (case verify X (hk_auth hook) hs body of
        AuthOk \<Rightarrow> return (Inr ())
      | AuthDenied reason \<Rightarrow> do {
          _ \<leftarrow> log_attempt X slug source_ip AuthFailed reason None;
          return (Inl (Inl (Status 401))) })"

definition validated_payload :: "external \<Rightarrow> payload_schema \<Rightarrow> string \<Rightarrow> string \<Rightarrow> json
    \<Rightarrow> string stage" where
  "validated_payload X schema slug source_ip payload_value =
     (case validate schema payload_value of
        Inl errors \<Rightarrow> do {
          _ \<leftarrow> log_attempt X slug source_ip ValidationFailed
                 (''payload validation failed: '' @ format_payload_validation_errors errors) None;
          return (Inl (Inl (JsonResponse 422 (JObject
            [(''details'', json_errors errors), (''error'', JString ''payload validation failed'')])))) }
      | Inr _ \<Rightarrow> return (Inr (json_to_string X payload_value)))"

definition read_payload :: "external \<Rightarrow> hook_config \<Rightarrow> string \<Rightarrow> string \<Rightarrow> string \<Rightarrow> string stage" where
  "read_payload X hook slug source_ip body =
     (case hk_payload hook of
        Some schema \<Rightarrow>
          if body = [] then validated_payload X schema slug source_ip (JObject [])
          else (case json_from_slice X body of
                  Inr v \<Rightarrow> validated_payload X schema slug source_ip v
                | Inl e \<Rightarrow> do {
                    _ \<leftarrow> log_attempt X slug source_ip ValidationFailed (''invalid JSON: '' @ e) None;
                    return (Inl (Inl (JsonResponse 400 (JObject
                      [(''error'', JString ''invalid JSON''), (''message'', JString e)])))) })
      | None \<Rightarrow> return (Inr (
          if body = [] then ''{}''
          else case json_from_slice X body of
                 Inr v \<Rightarrow> json_to_string X v
               | Inl _ \<Rightarrow> utf8_lossy X body)))"

section \<open>Rules and rate limits\<close>

definition rejection_body :: "trigger_attempt_status \<Rightarrow> string \<Rightarrow> json" where
  "rejection_body status reason = JObject
     [(''reason'', JString reason), (''status'', JString (attempt_status_text status))]"

text \<open>One rule of the \<open>let\<close> chains: a rejection is logged and answered, with 200 for the rules and
  429 for the rate limits.\<close>

definition on_reject :: "external \<Rightarrow> string \<Rightarrow> string \<Rightarrow> (json \<Rightarrow> http_result) \<Rightarrow> eval_outcome
    \<Rightarrow> unit stage" where
  "on_reject X slug source_ip respond outcome =
     (case outcome of
        Allow \<Rightarrow> return (Inr ())
      | EvalReject status reason \<Rightarrow> do {
          _ \<leftarrow> log_rejection X slug source_ip status reason;
          return (Inl (respond (rejection_body status reason))) })"

definition ok_json :: "json \<Rightarrow> http_result" where "ok_json v = Inr (JsonResponse 200 v)"
definition too_many :: "json \<Rightarrow> http_result" where "too_many v = Inl (JsonResponse 429 v)"

definition parsed_payload :: "external \<Rightarrow> string \<Rightarrow> json" where
  "parsed_payload X payload_str =
     (case json_from_slice X payload_str of Inr v \<Rightarrow> v | Inl _ \<Rightarrow> JObject [])"

definition check_rules :: "external \<Rightarrow> hook_config \<Rightarrow> string \<Rightarrow> string \<Rightarrow> string \<Rightarrow> unit stage" where
  "check_rules X hook slug source_ip payload_str =
     (case hk_trigger_rules hook of
        None \<Rightarrow> return (Inr ())
      | Some rules \<Rightarrow>
          and_then (case ru_payload_filters rules of
              Some filters \<Rightarrow>
                if filters = [] then return (Inr ())
                else on_reject X slug source_ip ok_json
                       (filters_evaluate X filters (parsed_payload X payload_str))
            | None \<Rightarrow> return (Inr ())) (\<lambda>_.
          and_then (case ru_time_windows rules of
              Some windows \<Rightarrow>
                if windows = [] then return (Inr ())
                else do { outcome \<leftarrow> windows_evaluate X windows;
                          on_reject X slug source_ip ok_json outcome }
            | None \<Rightarrow> return (Inr ())) (\<lambda>_.
          and_then (case ru_cooldown rules of
              Some cd \<Rightarrow> do { outcome \<leftarrow> cooldown_evaluate X slug cd;
                            on_reject X slug source_ip ok_json outcome }
            | None \<Rightarrow> return (Inr ())) (\<lambda>_.
          (case ru_rate_limit rules of
              Some rl \<Rightarrow> do { outcome \<leftarrow> rate_limit_evaluate X slug rl;
                            on_reject X slug source_ip too_many outcome }
            | None \<Rightarrow> return (Inr ()))))))"

definition has_trigger_rl :: "hook_config \<Rightarrow> bool" where
  "has_trigger_rl hook \<longleftrightarrow> Option.bind (hk_trigger_rules hook) ru_rate_limit \<noteq> None"

definition check_hook_rate_limit :: "external \<Rightarrow> hook_config \<Rightarrow> string \<Rightarrow> string \<Rightarrow> unit stage" where
  "check_hook_rate_limit X hook slug source_ip =
     (if has_trigger_rl hook then return (Inr ())
      else case hook_rate_limit_as_trigger (hk_rate_limit hook) of
             Some rl \<Rightarrow> do { outcome \<leftarrow> rate_limit_evaluate X slug rl;
                           on_reject X slug source_ip too_many outcome }
           | None \<Rightarrow> return (Inr ()))"

section \<open>Barriers and the start\<close>

definition trigger_execution :: "string \<Rightarrow> string \<Rightarrow> string \<Rightarrow> string \<Rightarrow> string
    \<Rightarrow> execution_status option \<Rightarrow> new_execution" where
  "trigger_execution exec_id slug log_path source_ip payload_str status =
     \<lparr>ne_id = Some exec_id, ne_hook_slug = slug, ne_log_path = log_path,
      ne_trigger_source = source_ip, ne_request_payload = payload_str, ne_retry_of = None,
      ne_status = status\<rparr>"

definition pass_concurrency :: "external \<Rightarrow> hook_config \<Rightarrow> string \<Rightarrow> string \<Rightarrow> string \<Rightarrow> new_execution
    \<Rightarrow> unit stage" where
  "pass_concurrency X hook slug source_ip exec_id new_exec =
     (case hk_concurrency hook of
        None \<Rightarrow> return (Inr ())
      | Some concurrency \<Rightarrow> do {
          outcome \<leftarrow> concurrency_evaluate X slug exec_id concurrency new_exec;
          case outcome of
            Proceed \<Rightarrow> return (Inr ())
          | BarrierReject status reason \<Rightarrow> do {
              _ \<leftarrow> log_attempt X slug source_ip status reason None;
              return (Inl (Inr (JsonResponse 503 (rejection_body status reason)))) }
          | Defer execution_id status reason \<Rightarrow> do {
              _ \<leftarrow> log_attempt X slug source_ip Fired reason (Some execution_id);
              return (Inl (ok_json (JObject
                [(''execution_id'', JString execution_id), (''reason'', JString reason),
                 (''status'', JString ''queued'')]))) } })"

definition pass_approval :: "external \<Rightarrow> hook_config \<Rightarrow> string \<Rightarrow> string \<Rightarrow> string \<Rightarrow> string \<Rightarrow> string
    \<Rightarrow> unit stage" where
  "pass_approval X hook slug source_ip exec_id log_path payload_str =
     (if requires_approval (hk_approval hook)
      then do {
        created \<leftarrow> execution_create X
          (trigger_execution exec_id slug log_path source_ip payload_str (Some PendingApproval));
        case created of
          Inl _ \<Rightarrow> return (Inl (Inl (Status 500)))
        | Inr exec \<Rightarrow> do {
            _ \<leftarrow> log_attempt X slug source_ip AttemptPendingApproval ''pending approval''
                   (Some (ex_id exec));
            return (Inl (ok_json (JObject
              [(''execution_id'', JString (ex_id exec)), (''status'', JString ''pending_approval'')]))) }
      }
      else return (Inr ()))"

definition trigger_context :: "external \<Rightarrow> app_config \<Rightarrow> hook_config \<Rightarrow> string \<Rightarrow> string \<Rightarrow> string
    \<Rightarrow> execution_context" where
  "trigger_context X config hook execution_id hook_slug payload_json =
     \<lparr>xc_execution_id = execution_id, xc_hook_slug = hook_slug,
      xc_executor = resolve_executor X (hk_executor hook) payload_json,
      xc_env = hk_env hook, xc_cwd = hk_cwd hook, xc_timeout = timeout_of hook config,
      xc_logs_dir = lg_dir (cf_logs config), xc_payload_json = payload_json\<rparr>"

definition fire :: "external \<Rightarrow> app_config \<Rightarrow> hook_config \<Rightarrow> string \<Rightarrow> string \<Rightarrow> new_execution \<Rightarrow> string
    \<Rightarrow> http_result io" where
  "fire X config hook slug source_ip new_exec payload_str = do {
     created \<leftarrow> execution_create X new_exec;
     case created of
       Inl _ \<Rightarrow> return (Inl (Status 500))
     | Inr exec \<Rightarrow> do {
         _ \<leftarrow> log_attempt X slug source_ip Fired ''ok'' (Some (ex_id exec));
         _ \<leftarrow> spawn_task (RunTriggered (trigger_context X config hook (ex_id exec) slug payload_str)
                (resolve_retry_config hook (df_retries (cf_defaults config))) hook);
         return (ok_json (JObject [(''execution_id'', JString (ex_id exec))])) }
   }"

text \<open>The body of the spawned task.\<close>

definition run_triggered :: "external \<Rightarrow> execution_context \<Rightarrow> effective_retry_config \<Rightarrow> hook_config
    \<Rightarrow> unit io" where
  "run_triggered X ctx rc hook = do {
     result \<leftarrow> run_with_retries X ctx rc;
     _ \<leftarrow> notify_completion X hook (xc_execution_id ctx) result;
     if hk_concurrency hook \<noteq> None
     then on_execution_complete X (xc_hook_slug ctx) (hk_concurrency hook) (hk_approval hook)
     else return ()
   }"

section \<open>The handler\<close>

text \<open>From a stage to the handler's result.\<close>

definition finish_with :: "'a stage \<Rightarrow> ('a \<Rightarrow> http_result io) \<Rightarrow> http_result io" where
  "finish_with m f = do { r \<leftarrow> m; case r of Inl out \<Rightarrow> return out | Inr a \<Rightarrow> f a }"

definition admit :: "external \<Rightarrow> hook_config \<Rightarrow> string \<Rightarrow> string \<Rightarrow> headers \<Rightarrow> string \<Rightarrow> string stage" where
  "admit X hook slug source_ip hs body =
     and_then (authenticate X hook slug source_ip hs body) (\<lambda>_.
     and_then (read_payload X hook slug source_ip body) (\<lambda>payload_str.
     and_then (check_rules X hook slug source_ip payload_str) (\<lambda>_.
     and_then (check_hook_rate_limit X hook slug source_ip) (\<lambda>_.
     return (Inr payload_str)))))"

definition start_execution :: "external \<Rightarrow> app_config \<Rightarrow> hook_config \<Rightarrow> string \<Rightarrow> string \<Rightarrow> string
    \<Rightarrow> http_result io" where
  "start_execution X config hook slug source_ip payload_str = do {
     exec_id \<leftarrow> new_id;
     let log_path = lg_dir (cf_logs config) @ ''/'' @ exec_id;
     let new_exec = trigger_execution exec_id slug log_path source_ip payload_str None;
     finish_with (pass_concurrency X hook slug source_ip exec_id new_exec) (\<lambda>_.
       finish_with (pass_approval X hook slug source_ip exec_id log_path payload_str) (\<lambda>_.
         fire X config hook slug source_ip new_exec payload_str))
   }"

definition trigger_hook :: "external \<Rightarrow> string \<Rightarrow> string \<Rightarrow> headers \<Rightarrow> string \<Rightarrow> http_result io" where
  "trigger_hook X peer slug hs body = do {
     config \<leftarrow> gets w_config;
     case find_hook (\<lambda>h. hk_slug h = slug \<and> hk_enabled h) config of
       None \<Rightarrow> return (Inl (Status 404))
     | Some hook \<Rightarrow>
         finish_with (admit X hook slug (extract_source_ip hs peer) hs body) (\<lambda>payload_str.
           start_execution X config hook slug (extract_source_ip hs peer) payload_str)
   }"

section \<open>History\<close>

lemma history_log_attempt [history_intros]:
  "state_io_rel history_kept (log_attempt X slug ip st reason i)"
  "state_io_rel history_kept (log_rejection X slug ip st reason)"
  unfolding log_rejection_def log_attempt_def by (intro history_intros)+

lemma history_stages [history_intros]:
  "state_io_rel history_kept (authenticate X hook slug ip hs body)"
  "state_io_rel history_kept (read_payload X hook slug ip body)"
  "state_io_rel history_kept (check_rules X hook slug ip payload)"
  "state_io_rel history_kept (check_hook_rate_limit X hook slug ip)"
  "state_io_rel history_kept (pass_concurrency X hook slug ip i new)"
  "state_io_rel history_kept (pass_approval X hook slug ip i log_path payload)"
  "state_io_rel history_kept (fire X config hook slug ip new payload)"
proof -
  have r: "state_io_rel history_kept (on_reject X slug ip respond out)" for respond out
    unfolding on_reject_def by (cases out) (simp_all add: history_intros)
  have v: "state_io_rel history_kept (validated_payload X schema slug ip v)" for schema v
    unfolding validated_payload_def by (intro history_intros)
  show "state_io_rel history_kept (authenticate X hook slug ip hs body)"
    unfolding authenticate_def
    by (cases "verify X (hk_auth hook) hs body") (simp_all add: history_intros)
  show "state_io_rel history_kept (read_payload X hook slug ip body)"
    unfolding read_payload_def by (intro history_intros v)
  show "state_io_rel history_kept (check_rules X hook slug ip payload)"
    unfolding check_rules_def by (intro history_intros r)
  show "state_io_rel history_kept (check_hook_rate_limit X hook slug ip)"
    unfolding check_hook_rate_limit_def by (intro history_intros r)
  have o: "state_io_rel history_kept (case out of Proceed \<Rightarrow> a | BarrierReject st rs \<Rightarrow> b st rs
      | Defer e st rs \<Rightarrow> c e st rs)"
    if "state_io_rel history_kept a" "\<And>st rs. state_io_rel history_kept (b st rs)"
       "\<And>e st rs. state_io_rel history_kept (c e st rs)" for out a b c
    using that by (cases out) auto
  show "state_io_rel history_kept (pass_concurrency X hook slug ip i new)"
    unfolding pass_concurrency_def by (intro history_intros o)
  show "state_io_rel history_kept (pass_approval X hook slug ip i log_path payload)"
    unfolding pass_approval_def by (intro history_intros)
  show "state_io_rel history_kept (fire X config hook slug ip new payload)"
    unfolding fire_def by (intro history_intros)
qed

lemma history_finish_with [history_intros]:
  "state_io_rel history_kept m \<Longrightarrow> (\<And>a. state_io_rel history_kept (f a)) \<Longrightarrow>
     state_io_rel history_kept (finish_with m f)"
  unfolding finish_with_def by (intro history_intros)

lemma history_run_triggered [history_intros]: "state_io_rel history_kept (run_triggered X ctx rc hook)"
  unfolding run_triggered_def by (intro history_intros)

text \<open>No request rewrites the past. Whatever statements fail, whatever the request contains and
  however it ends, every execution keeps its identity, origin and payload and every logged
  attempt stays as it is; a request only adds rows.\<close>

theorem trigger_hook_keeps_history:
  "history_kept w (snd (run_state (trigger_hook X peer slug hs body) w))"
proof -
  have "state_io_rel history_kept (trigger_hook X peer slug hs body)"
    unfolding trigger_hook_def admit_def start_execution_def Let_def by (intro history_intros)
  then show ?thesis by (simp add: state_io_rel_def)
qed

end
