(* ===== verification/Trigger_Audit.thy ===== *)
theory Trigger_Audit
  imports Trigger_Hook
begin

text \<open>
  What a request to \<open>trigger_hook\<close> leaves behind. A database is \<open>consistent\<close> when identifiers
  are unique and come from the stream of UUIDs, locks and queue are in order, and no statement
  fails; a stage of the handler is correct when from every consistent world it either goes on with
  the tables unchanged, or ends the request with exactly one logged attempt. The rule for
  \<open>and_then\<close> composes the stages.
\<close>

definition used :: "world \<Rightarrow> string set" where
  "used w = w_uuids w ` {..<w_next_uuid w}"

definition consistent :: "world \<Rightarrow> bool" where
  "consistent w \<longleftrightarrow>
     queue_ok w \<and> locks_ok w \<and> exec_ids_distinct w
     \<and> ex_id ` set (w_execs w) \<subseteq> used w \<and> ta_id ` set (w_attempts w) \<subseteq> used w"

text \<open>The codes a logged attempt is answered with.\<close>

fun answer_codes :: "trigger_attempt_status \<Rightarrow> nat list" where
  "answer_codes AuthFailed = [401]"
| "answer_codes ValidationFailed = [400, 422]"
| "answer_codes RateLimited = [429]"
| "answer_codes ConcurrencyRejected = [503]"
| "answer_codes _ = [200]"

fun response_code :: "response \<Rightarrow> nat" where
  "response_code (Status n) = n"
| "response_code (JsonResponse n _) = n"
| "response_code (RedirectTo _) = 303"

definition result_code :: "http_result \<Rightarrow> nat" where
  "result_code out = (case out of Inl r \<Rightarrow> response_code r | Inr r \<Rightarrow> response_code r)"

definition same_core :: "world \<Rightarrow> world \<Rightarrow> bool" where
  "same_core w w' \<longleftrightarrow>
     w_execs w' = w_execs w \<and> w_locks w' = w_locks w \<and> w_queue w' = w_queue w
     \<and> w_tasks w' = w_tasks w \<and> w_config w' = w_config w"

definition quiet :: "world \<Rightarrow> world \<Rightarrow> bool" where
  "quiet w w' \<longleftrightarrow> same_core w w' \<and> w_attempts w' = w_attempts w \<and> consistent w'"

definition turned_away :: "string \<Rightarrow> string \<Rightarrow> world \<Rightarrow> http_result \<Rightarrow> world \<Rightarrow> bool" where
  "turned_away slug ip w out w' \<longleftrightarrow>
     (\<exists>a. w_attempts w' = w_attempts w @ [a] \<and> ta_hook_slug a = slug \<and> ta_source_ip a = ip
        \<and> ta_execution_id a = None \<and> ta_status a \<notin> {Fired, AttemptPendingApproval}
        \<and> result_code out \<in> set (answer_codes (ta_status a)))
     \<and> same_core w w' \<and> consistent w'"

definition stage_ok :: "string \<Rightarrow> string \<Rightarrow> 'a stage \<Rightarrow> bool" where
  "stage_ok slug ip m \<longleftrightarrow>
     (\<forall>w. consistent w \<longrightarrow>
        (case run_state m w of (Inl out, w') \<Rightarrow> turned_away slug ip w out w' | (Inr _, w') \<Rightarrow> quiet w w'))"

section \<open>Composing stages\<close>

lemma same_core_trans: "same_core u v \<Longrightarrow> same_core v w \<Longrightarrow> same_core u w"
  by (simp add: same_core_def)

lemma stage_after:
  assumes "quiet w w1"
    and "case rw of (Inl out, w') \<Rightarrow> turned_away slug ip w1 out w' | (Inr _, w') \<Rightarrow> quiet w1 w'"
  shows "case rw of (Inl out, w') \<Rightarrow> turned_away slug ip w out w' | (Inr _, w') \<Rightarrow> quiet w w'"
proof (cases rw)
  case (Pair r w')
  with assms show ?thesis
    by (cases r) (auto simp: quiet_def turned_away_def intro: same_core_trans)
qed

lemma stage_then:
  assumes "stage_ok slug ip m" and "\<And>a. stage_ok slug ip (f a)"
  shows "stage_ok slug ip (and_then m f)"
  unfolding stage_ok_def
proof (intro allI impI)
  fix w assume "consistent w"
  with assms(1) have m: "case run_state m w of (Inl out, w') \<Rightarrow> turned_away slug ip w out w'
      | (Inr _, w') \<Rightarrow> quiet w w'"
    by (simp add: stage_ok_def)
  obtain r w1 where 1: "run_state m w = (r, w1)" by fastforce
  show "case run_state (and_then m f) w of (Inl out, w') \<Rightarrow> turned_away slug ip w out w'
      | (Inr _, w') \<Rightarrow> quiet w w'"
  proof (cases r)
    case (Inl out)
    with m 1 show ?thesis by simp
  next
    case (Inr a)
    with m 1 have q: "quiet w w1" by simp
    then have "consistent w1" by (simp add: quiet_def)
    with assms(2) [of a] have f: "case run_state (f a) w1 of
        (Inl out, w') \<Rightarrow> turned_away slug ip w1 out w' | (Inr _, w') \<Rightarrow> quiet w1 w'"
      by (simp add: stage_ok_def)
    with stage_after [OF q f] 1 Inr show ?thesis by simp
  qed
qed

lemma stage_pass: "stage_ok slug ip (return (Inr a))"
  by (simp add: stage_ok_def quiet_def same_core_def)

lemma fresh_uuid: "consistent w \<Longrightarrow> w_uuids w (w_next_uuid w) \<notin> used w"
  by (auto simp: consistent_def queue_ok_def used_def inj_def)

lemma log_attempt_world:
  assumes "consistent w" and "set_option i \<subseteq> ex_id ` set (w_execs w)"
    and "run_state (log_attempt X slug ip st reason i) w = (u, w')"
  shows "\<exists>a. w_attempts w' = w_attempts w @ [a] \<and> ta_hook_slug a = slug \<and> ta_source_ip a = ip
      \<and> ta_status a = st \<and> ta_reason a = reason \<and> ta_execution_id a = i"
    and "same_core w w'" and "consistent w'"
proof -
  let ?new = "\<lparr>nt_hook_slug = slug, nt_source_ip = ip, nt_status = st, nt_reason = reason,
               nt_execution_id = i\<rparr>"
  have "w_uuids w (w_next_uuid w) \<notin> ta_id ` set (w_attempts w)"
    using fresh_uuid [OF assms(1)] assms(1) by (auto simp: consistent_def)
  then have acc: "attempt_acceptable ?new w" using assms(2) by (simp add: attempt_acceptable_def)
  have nf: "\<not> w_fault w n" for n using assms(1) by (auto simp: consistent_def queue_ok_def)
  have w': "w' = snd (run_state (attempt_insert X ?new) w)"
    using assms(3) by (auto simp: log_attempt_def split: prod.splits)
  note world = attempt_insert_world [of X ?new w, folded w', unfolded Let_def]
  show "\<exists>a. w_attempts w' = w_attempts w @ [a] \<and> ta_hook_slug a = slug \<and> ta_source_ip a = ip
      \<and> ta_status a = st \<and> ta_reason a = reason \<and> ta_execution_id a = i"
    using nf acc by (simp add: world attempt_row_def)
  show "same_core w w'" by (simp add: world same_core_def)
  have "used w \<subseteq> used w'" "w_uuids w (w_next_uuid w) \<in> used w'"
    by (auto simp: world used_def)
  then show "consistent w'"
    using assms(1) nf acc
    by (auto simp: consistent_def world queue_ok_def locks_ok_def no_faults_def exec_ids_distinct_def
        attempt_row_def lessThan_Suc used_def)
qed

lemma stage_reject:
  assumes "st \<notin> {Fired, AttemptPendingApproval}" and "result_code out \<in> set (answer_codes st)"
  shows "stage_ok slug ip (do { _ \<leftarrow> log_attempt X slug ip st reason None; return (Inl out) })"
  unfolding stage_ok_def
proof (intro allI impI)
  fix w assume c: "consistent w"
  have 1: "run_state (log_attempt X slug ip st reason None) w
      = ((), snd (run_state (log_attempt X slug ip st reason None) w))"
    by (simp add: prod_eq_iff)
  from log_attempt_world [OF c _ this] assms
  show "case run_state (do { _ \<leftarrow> log_attempt X slug ip st reason None; return (Inl out) }) w of
      (Inl out, w') \<Rightarrow> turned_away slug ip w out w' | (Inr _, w') \<Rightarrow> quiet w w'"
    by (auto simp: turned_away_def split: prod.splits)
qed

section \<open>The stages that admit a request\<close>

lemma consistent_cong [simp]:
  "consistent (w\<lparr>w_stmts := n\<rparr>) = consistent w"
  "consistent (w\<lparr>w_ticks := n\<rparr>) = consistent w"
  "consistent (w\<lparr>w_counters := cs\<rparr>) = consistent w"
  by (simp_all add: consistent_def queue_ok_def locks_ok_def no_faults_def exec_ids_distinct_def
      used_def)

definition rule_ok :: "trigger_attempt_status \<Rightarrow> eval_outcome io \<Rightarrow> bool" where
  "rule_ok st m \<longleftrightarrow>
     (\<forall>w. consistent w \<longrightarrow> quiet w (snd (run_state m w))
          \<and> (\<forall>s reason. fst (run_state m w) = EvalReject s reason \<longrightarrow> s = st))"

lemma stage_rule:
  assumes "rule_ok st m" and "st \<notin> {Fired, AttemptPendingApproval}"
    and "\<And>v. result_code (respond v) \<in> set (answer_codes st)"
  shows "stage_ok slug ip (do { outcome \<leftarrow> m; on_reject X slug ip respond outcome })"
  unfolding stage_ok_def
proof (intro allI impI)
  fix w assume "consistent w"
  let ?o = "fst (run_state m w)" and ?w1 = "snd (run_state m w)"
  have q: "quiet w ?w1" and st: "\<And>s reason. ?o = EvalReject s reason \<Longrightarrow> s = st"
    using assms(1) \<open>consistent w\<close> by (auto simp: rule_ok_def)
  then have "consistent ?w1" by (simp add: quiet_def)
  show "case run_state (do { outcome \<leftarrow> m; on_reject X slug ip respond outcome }) w of
      (Inl out, w') \<Rightarrow> turned_away slug ip w out w' | (Inr _, w') \<Rightarrow> quiet w w'"
  proof (cases ?o)
    case Allow
    with q show ?thesis by (auto simp: on_reject_def split: prod.splits)
  next
    case (EvalReject s reason)
    have "stage_ok slug ip (on_reject X slug ip respond ?o)"
      using stage_reject [OF assms(2,3)] st [OF EvalReject]
      by (simp add: EvalReject on_reject_def log_rejection_def)
    then have "case run_state (on_reject X slug ip respond ?o) ?w1 of
        (Inl out, w') \<Rightarrow> turned_away slug ip ?w1 out w' | (Inr _, w') \<Rightarrow> quiet ?w1 w'"
      using \<open>consistent ?w1\<close> by (simp add: stage_ok_def)
    then have "case run_state (on_reject X slug ip respond ?o) ?w1 of
        (Inl out, w') \<Rightarrow> turned_away slug ip w out w' | (Inr _, w') \<Rightarrow> quiet w w'"
      by (rule stage_after [OF q])
    then show ?thesis by (simp add: case_prod_unfold)
  qed
qed

lemma rules_ok:
  "rule_ok Filtered (return (filters_evaluate X fs v))"
  "rule_ok ScheduleSkipped (windows_evaluate X ws)"
  "rule_ok CooldownSkipped (cooldown_evaluate X slug cd)"
  "rule_ok RateLimited (rate_limit_evaluate X slug rl)"
proof -
  have "filters_evaluate X fs v = EvalReject s reason \<Longrightarrow> s = Filtered" for s reason
    by (induction fs) (auto split: option.splits)
  then show "rule_ok Filtered (return (filters_evaluate X fs v))"
    by (simp add: rule_ok_def quiet_def same_core_def)
  show "rule_ok ScheduleSkipped (windows_evaluate X ws)"
    by (auto simp: rule_ok_def quiet_def same_core_def windows_evaluate_def windows_evaluate_at_def
        split: if_splits)
  show "rule_ok CooldownSkipped (cooldown_evaluate X slug cd)"
    by (auto simp: rule_ok_def quiet_def same_core_def cooldown_evaluate_def cooldown_evaluate_at_def
        get_latest_started_by_hook_def Let_def split: option.splits sum.splits if_splits)
  show "rule_ok RateLimited (rate_limit_evaluate X slug rl)"
    by (auto simp: rule_ok_def quiet_def same_core_def rate_limit_evaluate_def
        rate_limit_evaluate_at_def ensure_counter_def increment_counter_def Let_def
        split: sum.splits if_splits)
qed

lemma stage_ok_authenticate: "stage_ok slug ip (authenticate X hook slug ip hs body)"
  unfolding authenticate_def
  by (cases "verify X (hk_auth hook) hs body")
     (auto intro!: stage_pass stage_reject simp: result_code_def)

lemma stage_ok_read_payload: "stage_ok slug ip (read_payload X hook slug ip body)"
proof -
  have "stage_ok slug ip (validated_payload X schema slug ip v)" for schema v
    unfolding validated_payload_def
    by (cases "validate schema v") (auto intro!: stage_pass stage_reject simp: result_code_def)
  then show ?thesis
    unfolding read_payload_def
    by (auto intro!: stage_pass stage_reject simp: result_code_def split: option.splits sum.splits)
qed

lemma stage_ok_on_filters:
  "stage_ok slug ip (on_reject X slug ip ok_json (filters_evaluate X fs v))"
proof -
  have "stage_ok slug ip (do { outcome \<leftarrow> return (filters_evaluate X fs v);
      on_reject X slug ip ok_json outcome })"
    by (rule stage_rule [OF rules_ok(1)]) (simp_all add: ok_json_def result_code_def)
  then show ?thesis by simp
qed

lemma stage_ok_check_rules: "stage_ok slug ip (check_rules X hook slug ip payload)"
  unfolding check_rules_def
  by (auto intro!: stage_then stage_pass stage_ok_on_filters stage_rule [OF rules_ok(2)]
      stage_rule [OF rules_ok(3)] stage_rule [OF rules_ok(4)]
      simp: ok_json_def too_many_def result_code_def split: option.splits)

lemma stage_ok_check_hook_rate_limit: "stage_ok slug ip (check_hook_rate_limit X hook slug ip)"
  unfolding check_hook_rate_limit_def
  by (auto intro!: stage_pass stage_rule [OF rules_ok(4)] simp: too_many_def result_code_def
      split: option.splits)

lemma stage_ok_admit: "stage_ok slug ip (admit X hook slug ip hs body)"
  unfolding admit_def
  by (intro stage_then stage_pass stage_ok_authenticate stage_ok_read_payload stage_ok_check_rules
      stage_ok_check_hook_rate_limit)

section \<open>The start of an execution\<close>

lemma used_cong [simp]:
  "used (w\<lparr>w_stmts := n\<rparr>) = used w" "used (w\<lparr>w_ticks := n\<rparr>) = used w"
  "used (w\<lparr>w_execs := es\<rparr>) = used w" "used (w\<lparr>w_locks := ls\<rparr>) = used w"
  by (simp_all add: used_def)

lemma consistent_next_uuid: "consistent w \<Longrightarrow> consistent (w\<lparr>w_next_uuid := Suc (w_next_uuid w)\<rparr>)"
  by (auto simp: consistent_def queue_ok_def locks_ok_def no_faults_def exec_ids_distinct_def used_def
      lessThan_Suc)

lemma consistent_create:
  assumes "consistent w" and "ex_id e \<in> used w" and "ex_id e \<notin> ex_id ` set (w_execs w)"
  shows "consistent (w\<lparr>w_ticks := n, w_stmts := m, w_execs := w_execs w @ [e]\<rparr>)"
  using assms
  by (auto simp: consistent_def queue_ok_def locks_ok_def no_faults_def exec_ids_distinct_def)

lemma consistent_lock:
  assumes "consistent w" and "holder_of (lk_hook_slug l) w = None"
  shows "consistent (w\<lparr>w_ticks := n, w_stmts := m, w_locks := w_locks w @ [l]\<rparr>)"
  using assms
  by (auto simp: consistent_def queue_ok_def locks_ok_def no_faults_def exec_ids_distinct_def
      holder_of_def find_row_None_iff)

lemma enqueued_rest:
  assumes "queue_ok w" and "i \<in> ex_id ` set (w_execs w)"
  shows "w_attempts (enqueued X slug i w) = w_attempts w" and "w_tasks (enqueued X slug i w) = w_tasks w"
    and "w_config (enqueued X slug i w) = w_config w"
  using assms fresh_queue_id [OF assms(1)]
  by (simp_all add: enqueued_def enqueue_def insert_queue_row_def queue_ok_def no_faults_def
      find_row_append split: option.splits)

lemma consistent_enqueued:
  assumes "consistent w" and "i \<in> ex_id ` set (w_execs w)"
  shows "consistent (enqueued X slug i w)"
proof -
  have q: "queue_ok w" using assms(1) by (simp add: consistent_def)
  note e = enqueued_world [OF q assms(2), of X slug] enqueued_rest [OF q assms(2), of X slug]
    enqueue_result [OF q assms(2), of X slug]
  have "used w \<subseteq> used (enqueued X slug i w)" by (auto simp: used_def e)
  then show ?thesis
    using assms(1) queue_ok_enqueued [OF q assms(2), of X slug]
    by (auto simp: consistent_def locks_ok_def exec_ids_distinct_def e no_faults_def)
qed

text \<open>What the handler leaves: one attempt that says how the request was answered, and either
  nothing else, or the row of the execution it refers to, which is pending with a task or a place
  in the queue, or waits for its approval.\<close>

definition logged :: "string \<Rightarrow> string \<Rightarrow> world \<Rightarrow> http_result \<Rightarrow> trigger_attempt \<Rightarrow> world \<Rightarrow> bool" where
  "logged slug ip w out a w' \<longleftrightarrow>
     w_attempts w' = w_attempts w @ [a] \<and> ta_hook_slug a = slug \<and> ta_source_ip a = ip
     \<and> result_code out \<in> set (answer_codes (ta_status a)) \<and> consistent w'"

definition refused :: "world \<Rightarrow> trigger_attempt \<Rightarrow> world \<Rightarrow> bool" where
  "refused w a w' \<longleftrightarrow>
     ta_status a \<notin> {Fired, AttemptPendingApproval} \<and> ta_execution_id a = None
     \<and> w_execs w' = w_execs w \<and> w_tasks w' = w_tasks w \<and> w_queue w' = w_queue w
     \<and> w_locks w' = w_locks w"

definition accepted :: "external \<Rightarrow> hook_config \<Rightarrow> string \<Rightarrow> string \<Rightarrow> world \<Rightarrow> trigger_attempt
    \<Rightarrow> world \<Rightarrow> bool" where
  "accepted X hook slug ip w a w' \<longleftrightarrow>
     (\<exists>e. w_execs w' = w_execs w @ [e] \<and> ta_execution_id a = Some (ex_id e)
        \<and> ex_hook_slug e = slug \<and> ex_trigger_source e = ip
        \<and> (if ta_status a = AttemptPendingApproval
           then ex_status e = PendingApproval \<and> w_tasks w' = w_tasks w
           else ta_status a = Fired \<and> ex_status e = Pending
                \<and> (if ta_reason a = ''ok''
                   then w_tasks w' = w_tasks w @ [RunTriggered
                          (trigger_context X (w_config w) hook (ex_id e) slug (ex_request_payload e))
                          (resolve_retry_config hook (df_retries (cf_defaults (w_config w)))) hook]
                   else w_tasks w' = w_tasks w
                        \<and> queue_of slug w' = queue_of slug w @ [ex_id e])))"

definition audited :: "external \<Rightarrow> hook_config \<Rightarrow> string \<Rightarrow> string \<Rightarrow> world \<Rightarrow> http_result \<Rightarrow> world \<Rightarrow> bool" where
  "audited X hook slug ip w out w' \<longleftrightarrow>
     (\<exists>a. logged slug ip w out a w' \<and> (refused w a w' \<or> accepted X hook slug ip w a w'))"

lemma turned_away_audited: "turned_away slug ip w out w' \<Longrightarrow> audited X hook slug ip w out w'"
  by (auto simp: turned_away_def audited_def logged_def refused_def same_core_def)

lemma accepted_cong:
  "w_execs w1 = w_execs w \<Longrightarrow> w_tasks w1 = w_tasks w \<Longrightarrow> w_config w1 = w_config w
     \<Longrightarrow> w_queue w1 = w_queue w
     \<Longrightarrow> accepted X hook slug ip w1 a w' = accepted X hook slug ip w a w'"
  by (simp add: accepted_def queue_of_def)

lemma refused_cong: "same_core w w1 \<Longrightarrow> refused w1 a w' = refused w a w'"
  by (simp add: refused_def same_core_def)

lemma logged_cong: "w_attempts w1 = w_attempts w \<Longrightarrow> logged slug ip w1 out a w' = logged slug ip w out a w'"
  by (simp add: logged_def)

lemma audited_cong:
  assumes "same_core w w1" and "w_attempts w1 = w_attempts w"
  shows "audited X hook slug ip w1 out w' = audited X hook slug ip w out w'"
  using refused_cong [OF assms(1)] logged_cong [OF assms(2)] accepted_cong [of w1 w] assms(1)
  by (simp add: audited_def same_core_def)

text \<open>Creating the row of an execution and logging it.\<close>

lemma create_then_log:
  assumes "consistent w" and "ne_id new = Some i" and "i \<in> used w" and "i \<notin> ex_id ` set (w_execs w)"
    and "ne_retry_of new = None"
  obtains at w1 w2 a where "run_state (execution_create X new) w = (Inr (new_row i at new), w1)"
    and "run_state (log_attempt X slug ip st reason (Some i)) w1 = ((), w2)"
    and "consistent w2" and "w_execs w2 = w_execs w @ [new_row i at new]"
    and "w_tasks w2 = w_tasks w" and "w_attempts w2 = w_attempts w @ [a]"
    and "ta_hook_slug a = slug" and "ta_source_ip a = ip" and "ta_status a = st"
    and "ta_reason a = reason" and "ta_execution_id a = Some i"
proof -
  have nf: "no_faults w" using assms(1) by (simp add: consistent_def queue_ok_def)
  let ?at = "fmt_millis X (w_clock w (w_ticks w) div 1000000)"
  let ?w1 = "w\<lparr>w_ticks := Suc (w_ticks w), w_stmts := w_stmts w + 2,
                w_execs := w_execs w @ [new_row i ?at new]\<rparr>"
  let ?w2 = "snd (run_state (log_attempt X slug ip st reason (Some i)) ?w1)"
  have c: "run_state (execution_create X new) w = (Inr (new_row i ?at new), ?w1)"
    by (simp add: execution_create_world [OF nf assms(2,4,5)] Let_def)
  have "consistent ?w1" by (rule consistent_create) (use assms in \<open>simp_all add: new_row_def\<close>)
  moreover have "set_option (Some i) \<subseteq> ex_id ` set (w_execs ?w1)" by (simp add: new_row_def)
  moreover have l: "run_state (log_attempt X slug ip st reason (Some i)) ?w1 = ((), ?w2)"
    by (simp add: prod_eq_iff)
  ultimately show ?thesis
    using log_attempt_world [of ?w1 "Some i" X slug ip st reason "()" ?w2]
    by (auto simp: same_core_def intro!: that [OF c l])
qed


text \<open>The last two stages accept the execution.\<close>

lemma approval_or_fire_accepts:
  assumes "consistent w" and "i \<in> used w" and "i \<notin> ex_id ` set (w_execs w)"
    and "run_state (finish_with (pass_approval X hook slug ip i log_path payload) (\<lambda>_.
           fire X (w_config w) hook slug ip (trigger_execution i slug log_path ip payload None) payload)) w
         = (out, w')"
  shows "\<exists>a. logged slug ip w out a w' \<and> accepted X hook slug ip w a w'"
proof (cases "requires_approval (hk_approval hook)")
  case True
  let ?new = "trigger_execution i slug log_path ip payload (Some PendingApproval)"
  have new: "ne_id ?new = Some i" "ne_retry_of ?new = None" by (simp_all add: trigger_execution_def)
  obtain at w1 w2 a where c: "run_state (execution_create X ?new) w = (Inr (new_row i at ?new), w1)"
      "run_state (log_attempt X slug ip AttemptPendingApproval ''pending approval'' (Some i)) w1 = ((), w2)"
      "consistent w2" "w_execs w2 = w_execs w @ [new_row i at ?new]"
      "w_tasks w2 = w_tasks w" "w_attempts w2 = w_attempts w @ [a]"
      "ta_hook_slug a = slug" "ta_source_ip a = ip" "ta_status a = AttemptPendingApproval"
      "ta_reason a = ''pending approval''" "ta_execution_id a = Some i"
    by (rule create_then_log [OF assms(1) new(1) assms(2,3) new(2), where X = X and slug = slug
        and ip = ip and st = AttemptPendingApproval and reason = "''pending approval''"])
  have id: "ex_id (new_row i at ?new) = i" by (simp add: new_row_def)
  have out: "out = ok_json (JObject [(''execution_id'', JString i), (''status'', JString ''pending_approval'')])"
      "w' = w2"
    using c(1,2) True assms(4) by (simp_all add: finish_with_def pass_approval_def id)
  have "logged slug ip w out a w'"
    using c by (simp add: logged_def out ok_json_def result_code_def)
  moreover have "accepted X hook slug ip w a w'"
    unfolding accepted_def using c out id
    by (intro exI [of _ "new_row i at ?new"]) (simp add: new_row_def trigger_execution_def)
  ultimately show ?thesis by blast
next
  case False
  let ?new = "trigger_execution i slug log_path ip payload None"
  have new: "ne_id ?new = Some i" "ne_retry_of ?new = None" by (simp_all add: trigger_execution_def)
  obtain at w1 w2 a where c: "run_state (execution_create X ?new) w = (Inr (new_row i at ?new), w1)"
      "run_state (log_attempt X slug ip Fired ''ok'' (Some i)) w1 = ((), w2)"
      "consistent w2" "w_execs w2 = w_execs w @ [new_row i at ?new]"
      "w_tasks w2 = w_tasks w" "w_attempts w2 = w_attempts w @ [a]"
      "ta_hook_slug a = slug" "ta_source_ip a = ip" "ta_status a = Fired"
      "ta_reason a = ''ok''" "ta_execution_id a = Some i"
    by (rule create_then_log [OF assms(1) new(1) assms(2,3) new(2), where X = X and slug = slug
        and ip = ip and st = Fired and reason = "''ok''"])
  let ?e = "new_row i at ?new"
  have id: "ex_id ?e = i" by (simp add: new_row_def)
  let ?task = "RunTriggered (trigger_context X (w_config w) hook i slug payload)
                 (resolve_retry_config hook (df_retries (cf_defaults (w_config w)))) hook"
  have out: "out = ok_json (JObject [(''execution_id'', JString i)])"
      "w' = w2\<lparr>w_tasks := w_tasks w @ [?task]\<rparr>"
    using c(1,2,5) False assms(4) by (auto simp: finish_with_def pass_approval_def fire_def id)
  have "consistent w'"
    using c(3) by (simp add: out consistent_def queue_ok_def locks_ok_def no_faults_def
        exec_ids_distinct_def used_def)
  then have "logged slug ip w out a w'"
    using c by (simp add: logged_def out ok_json_def result_code_def)
  moreover have "accepted X hook slug ip w a w'"
    unfolding accepted_def using c out id
    by (intro exI [of _ ?e]) (simp add: new_row_def trigger_execution_def)
  ultimately show ?thesis by blast
qed

text \<open>The barrier turns the execution away, or puts it into the queue.\<close>

lemma busy_refused:
  assumes "consistent w" and "holder_of slug w = Some h"
    and "cc_mode c = Mutex \<or> length (queue_of slug w) \<ge> cc_queue_depth c"
    and "hk_concurrency hook = Some c"
    and "run_state (finish_with (pass_concurrency X hook slug ip i new) rest) w = (out, w')"
  shows "audited X hook slug ip w out w'"
proof -
  have nf: "no_faults w" using assms(1) by (simp add: consistent_def queue_ok_def)
  obtain reason n where r: "run_state (concurrency_evaluate X slug i c new) w =
      (BarrierReject ConcurrencyRejected reason, w\<lparr>w_ticks := Suc (w_ticks w), w_stmts := n\<rparr>)"
    using evaluate_busy [OF nf assms(2,3)] by metis
  let ?w1 = "w\<lparr>w_ticks := Suc (w_ticks w), w_stmts := n\<rparr>"
  have c1: "consistent ?w1" using assms(1) by simp
  have "run_state (log_attempt X slug ip ConcurrencyRejected reason None) ?w1
      = ((), w')" and out: "out = Inr (JsonResponse 503 (rejection_body ConcurrencyRejected reason))"
    using assms(4,5) r by (auto simp: finish_with_def pass_concurrency_def split: prod.splits)
  from log_attempt_world [OF c1 _ this(1)] show ?thesis
    by (intro turned_away_audited) (auto simp: turned_away_def same_core_def out result_code_def)
qed

lemma deferred_accepted:
  assumes "consistent w" and "holder_of slug w = Some h"
    and "cc_mode c = Queue" and "length (queue_of slug w) < cc_queue_depth c"
    and "hk_concurrency hook = Some c"
    and "i \<in> used w" and "i \<notin> ex_id ` set (w_execs w)"
    and "run_state (finish_with (pass_concurrency X hook slug ip i
           (trigger_execution i slug log_path ip payload None)) rest) w = (out, w')"
  shows "audited X hook slug ip w out w'"
proof -
  let ?new = "trigger_execution i slug log_path ip payload None"
  let ?reason = "''queued at position '' @ show_nat (next_position slug (w_queue w))"
  have new: "ne_id ?new = Some i" "ne_retry_of ?new = None" by (simp_all add: trigger_execution_def)
  have q: "queue_ok w" using assms(1) by (simp add: consistent_def)
  obtain at n m where r: "run_state (concurrency_evaluate X slug i c ?new) w = (Defer i Pending ?reason,
      enqueued X slug i (w\<lparr>w_ticks := n, w_stmts := m, w_execs := w_execs w @ [new_row i at ?new]\<rparr>))"
    by (rule evaluate_defers [OF q assms(2-4) new(1) assms(7) new(2)])
  let ?e = "new_row i at ?new"
  let ?w1 = "w\<lparr>w_ticks := n, w_stmts := m, w_execs := w_execs w @ [?e]\<rparr>"
  let ?w2 = "enqueued X slug i ?w1"
  have id: "ex_id ?e = i" by (simp add: new_row_def)
  have "consistent ?w1" by (rule consistent_create [OF assms(1)]) (use assms(6,7) id in simp_all)
  then have c1: "consistent ?w1" "queue_ok ?w1" "i \<in> ex_id ` set (w_execs ?w1)"
    by (simp_all add: consistent_def id)
  have c2: "consistent ?w2" by (rule consistent_enqueued [OF c1(1,3)])
  note e2 = enqueued_world [OF c1(2,3), of X slug] enqueued_rest [OF c1(2,3), of X slug]
  have l: "run_state (log_attempt X slug ip Fired ?reason (Some i)) ?w2 = ((), w')"
    and out: "out = ok_json (JObject [(''execution_id'', JString i), (''reason'', JString ?reason),
      (''status'', JString ''queued'')])"
    using assms(5,8) r by (auto simp: finish_with_def pass_concurrency_def split: prod.splits)
  have "set_option (Some i) \<subseteq> ex_id ` set (w_execs ?w2)" by (simp add: e2 id)
  note a = log_attempt_world [OF c2 this l]
  obtain a where a': "w_attempts w' = w_attempts w @ [a]" "ta_hook_slug a = slug"
      "ta_source_ip a = ip" "ta_status a = Fired" "ta_reason a = ?reason" "ta_execution_id a = Some i"
    using a(1) e2 by auto
  have "logged slug ip w out a w'"
    using a' a(3) by (simp add: logged_def out ok_json_def result_code_def)
  moreover have "accepted X hook slug ip w a w'"
    unfolding accepted_def using a' a(2) e2 id
    by (intro exI [of _ ?e])
       (simp add: same_core_def queue_of_def waiting_rows_def new_row_def trigger_execution_def)
  ultimately show ?thesis by (auto simp: audited_def)
qed

lemma free_accepted:
  assumes "consistent w" and "hk_concurrency hook = None \<or> holder_of slug w = None"
    and "i \<in> used w" and "i \<notin> ex_id ` set (w_execs w)"
    and "run_state (finish_with (pass_concurrency X hook slug ip i
           (trigger_execution i slug log_path ip payload None)) (\<lambda>_.
           finish_with (pass_approval X hook slug ip i log_path payload) (\<lambda>_.
             fire X (w_config w) hook slug ip (trigger_execution i slug log_path ip payload None) payload))) w
         = (out, w')"
  shows "audited X hook slug ip w out w'"
proof -
  let ?new = "trigger_execution i slug log_path ip payload None"
  let ?w1 = "snd (run_state (pass_concurrency X hook slug ip i ?new) w)"
  have nf: "no_faults w" using assms(1) by (simp add: consistent_def queue_ok_def)
  have pass: "run_state (pass_concurrency X hook slug ip i ?new) w = (Inr (), ?w1)
      \<and> consistent ?w1 \<and> used ?w1 = used w \<and> w_execs ?w1 = w_execs w \<and> w_tasks ?w1 = w_tasks w
      \<and> w_config ?w1 = w_config w \<and> w_queue ?w1 = w_queue w \<and> w_attempts ?w1 = w_attempts w"
  proof (cases "hk_concurrency hook")
    case None
    with assms(1) show ?thesis by (simp add: pass_concurrency_def)
  next
    case (Some c)
    with assms(2) have free: "holder_of slug w = None" by simp
    show ?thesis
      using consistent_lock [OF assms(1)] Some free evaluate_free [OF nf free, of X i c ?new]
      by (simp add: pass_concurrency_def)
  qed
  then obtain w1 where w1: "run_state (pass_concurrency X hook slug ip i ?new) w = (Inr (), w1)"
      "consistent w1" "used w1 = used w" "w_execs w1 = w_execs w" "w_tasks w1 = w_tasks w"
      "w_config w1 = w_config w" "w_queue w1 = w_queue w" "w_attempts w1 = w_attempts w"
    by blast
  have "run_state (finish_with (pass_approval X hook slug ip i log_path payload) (\<lambda>_.
             fire X (w_config w1) hook slug ip ?new payload)) w1 = (out, w')"
    using assms(5) by (simp add: finish_with_def [of "pass_concurrency X hook slug ip i ?new"] w1)
  from approval_or_fire_accepts [OF w1(2) _ _ this] w1 assms(3,4)
  obtain a where "logged slug ip w1 out a w'" "accepted X hook slug ip w1 a w'" by auto
  then show ?thesis
    using logged_cong [of w1 w] accepted_cong [of w1 w] w1 by (auto simp: audited_def)
qed

lemma start_execution_audited:
  assumes "consistent w" and "run_state (start_execution X (w_config w) hook slug ip payload) w = (out, w')"
  shows "audited X hook slug ip w out w'"
proof -
  let ?i = "w_uuids w (w_next_uuid w)" and ?w0 = "w\<lparr>w_next_uuid := Suc (w_next_uuid w)\<rparr>"
  let ?path = "lg_dir (cf_logs (w_config w)) @ ''/'' @ ?i"
  let ?new = "trigger_execution ?i slug ?path ip payload None"
  let ?rest = "\<lambda>_. finish_with (pass_approval X hook slug ip ?i ?path payload) (\<lambda>_.
        fire X (w_config w) hook slug ip ?new payload)"
  have w0: "consistent ?w0" by (rule consistent_next_uuid [OF assms(1)])
  have i: "?i \<in> used ?w0" "?i \<notin> ex_id ` set (w_execs ?w0)"
    using fresh_uuid [OF assms(1)] assms(1) by (auto simp: used_def consistent_def)
  have run: "run_state (finish_with (pass_concurrency X hook slug ip ?i ?new) ?rest) ?w0 = (out, w')"
    using assms(2) by (simp add: start_execution_def Let_def)
  have "audited X hook slug ip ?w0 out w'"
  proof (cases "hk_concurrency hook = None \<or> holder_of slug ?w0 = None")
    case True
    show ?thesis by (rule free_accepted [OF w0 True i]) (use run in simp)
  next
    case False
    then obtain c h where c: "hk_concurrency hook = Some c" and h: "holder_of slug ?w0 = Some h"
      by (cases "hk_concurrency hook"; cases "holder_of slug ?w0"; simp)
    show ?thesis
    proof (cases "cc_mode c = Mutex \<or> length (queue_of slug ?w0) \<ge> cc_queue_depth c")
      case True
      show ?thesis by (rule busy_refused [OF w0 h True c run])
    next
      case False
      then have "cc_mode c = Queue" "length (queue_of slug ?w0) < cc_queue_depth c"
        by (cases "cc_mode c"; simp)+
      from deferred_accepted [OF w0 h this c i run] show ?thesis .
    qed
  qed
  moreover have "same_core w ?w0" "w_attempts ?w0 = w_attempts w" by (simp_all add: same_core_def)
  ultimately show ?thesis using audited_cong [of w ?w0] by simp
qed

section \<open>Properties\<close>

lemma trigger_hook_audits:
  assumes "consistent w" and "find_hook (\<lambda>h. hk_slug h = slug \<and> hk_enabled h) (w_config w) = Some hook"
    and "run_state (trigger_hook X peer slug hs body) w = (out, w')"
  shows "audited X hook slug (extract_source_ip hs peer) w out w'"
proof -
  let ?ip = "extract_source_ip hs peer"
  obtain r w1 where 1: "run_state (admit X hook slug ?ip hs body) w = (r, w1)" by fastforce
  have ok: "case run_state (admit X hook slug ?ip hs body) w of
      (Inl out, w') \<Rightarrow> turned_away slug ?ip w out w' | (Inr _, w') \<Rightarrow> quiet w w'"
    using stage_ok_admit assms(1) by (simp add: stage_ok_def)
  show ?thesis
  proof (cases r)
    case (Inl out1)
    with 1 ok assms(2,3) show ?thesis
      by (intro turned_away_audited) (simp add: trigger_hook_def finish_with_def)
  next
    case (Inr payload)
    with 1 ok have q: "quiet w w1" by simp
    then have "w_config w1 = w_config w" by (simp add: quiet_def same_core_def)
    then have "run_state (start_execution X (w_config w1) hook slug ?ip payload) w1 = (out, w')"
      using 1 Inr assms(2,3) by (simp add: trigger_hook_def finish_with_def)
    from start_execution_audited [OF _ this] q show ?thesis
      using audited_cong [of w w1] by (simp add: quiet_def)
  qed
qed

text \<open>C2: Every request to an enabled hook is accounted for. From a consistent database the handler
  adds exactly one attempt, with the hook, the client's address and a status that agrees with the
  code of the answer; an execution that is queued or waits for its approval is answered with 200
  like one that is started, where the design document has 202. If the attempt is a refusal, no execution, task, lock or queue entry exists
  that was not there before. If it is not, it refers to exactly one new execution of the hook,
  which either has its task, or is the last in the hook's queue, or waits for its approval. The
  database is consistent again.\<close>

theorem trigger_hook_audited:
  assumes "consistent w" and "find_hook (\<lambda>h. hk_slug h = slug \<and> hk_enabled h) (w_config w) = Some hook"
    and "run_state (trigger_hook X peer slug hs body) w = (out, w')"
  shows "\<exists>a. logged slug (extract_source_ip hs peer) w out a w'
           \<and> (refused w a w' \<or> accepted X hook slug (extract_source_ip hs peer) w a w')"
  using trigger_hook_audits [OF assms] by (simp add: audited_def)

text \<open>C18: A request that names no enabled hook, or is not authenticated, has no effect on executions.
  Without an enabled hook of that slug the answer is 404 and the world is untouched. When
  \<open>verify\<close> denies the request the answer is 401, and whatever statements fail no execution, task,
  lock, queue entry or rate-limit counter changes.\<close>

theorem trigger_hook_guards:
  assumes "run_state (trigger_hook X peer slug hs body) w = (out, w')"
  shows "case find_hook (\<lambda>h. hk_slug h = slug \<and> hk_enabled h) (w_config w) of
           None \<Rightarrow> out = Inl (Status 404) \<and> w' = w
         | Some hook \<Rightarrow> verify X (hk_auth hook) hs body \<noteq> AuthOk \<longrightarrow>
             out = Inl (Status 401) \<and> same_core w w' \<and> w_counters w' = w_counters w"
proof (cases "find_hook (\<lambda>h. hk_slug h = slug \<and> hk_enabled h) (w_config w)")
  case None
  with assms show ?thesis by (simp add: trigger_hook_def)
next
  case (Some hook)
  show ?thesis
  proof (cases "verify X (hk_auth hook) hs body")
    case AuthOk
    with Some show ?thesis by simp
  next
    case (AuthDenied reason)
    have "out = Inl (Status 401)" "w' = snd (run_state (log_attempt X slug (extract_source_ip hs peer)
        AuthFailed reason None) w)"
      using Some AuthDenied assms
      by (auto simp: trigger_hook_def finish_with_def admit_def authenticate_def split: prod.splits)
    with Some show ?thesis
      by (simp add: log_attempt_def attempt_insert_world Let_def same_core_def case_prod_unfold)
  qed
qed

text \<open>Requests to the sample configuration, whose hook \<open>q\<close> asks for the token \<open>tok\<close>.\<close>

definition bearer :: "string \<Rightarrow> headers" where
  "bearer token = (\<lambda>name. if name = ''authorization'' then Some (Some (''Bearer '' @ token)) else None)"

lemma consistent_sample: "consistent sample_world"
  by (auto simp: consistent_def queue_ok_def locks_ok_def exec_ids_distinct_def used_def
      no_faults_def sample_world_def inj_def)

lemma sample_hooks:
  "find_hook (\<lambda>h. hk_slug h = ''q'' \<and> hk_enabled h) (w_config sample_world) = Some sample_queue_hook"
  "find_hook (\<lambda>h. hk_slug h = ''gone'' \<and> hk_enabled h) (w_config sample_world) = None"
  by (simp_all add: find_hook_def sample_world_def sample_config_def sample_hook_def
      sample_queue_hook_def)

theorem trigger_hook_audited_witness:
  "\<exists>a. w_attempts (snd (run_state (trigger_hook sample_external ''10.0.0.1'' ''q'' (bearer ''tok'') [])
           sample_world)) = [a] \<and> ta_hook_slug a = ''q'' \<and> ta_source_ip a = ''10.0.0.1''"
proof -
  have ip: "extract_source_ip (bearer ''tok'') ''10.0.0.1'' = ''10.0.0.1''"
    by (simp add: extract_source_ip_def bearer_def)
  show ?thesis
    using trigger_hook_audited [OF consistent_sample sample_hooks(1) prod.collapse [symmetric],
        where X = sample_external and peer = "''10.0.0.1''" and hs = "bearer ''tok''" and body = "[]"]
    by (auto simp: ip logged_def sample_world_def)
qed

theorem trigger_hook_guards_witness:
  "fst (run_state (trigger_hook sample_external ''10.0.0.1'' ''gone'' (bearer ''tok'') []) sample_world)
     = Inl (Status 404)"
  using trigger_hook_guards [OF prod.collapse [symmetric], where X = sample_external
      and peer = "''10.0.0.1''" and slug = "''gone''" and hs = "bearer ''tok''" and body = "[]"
      and w = sample_world]
  by (simp add: sample_hooks)

end
