(* ===== verification/Execution_Routes.thy ===== *)
theory Execution_Routes
  imports Trigger_Audit
begin

text \<open>
  The handlers of \<open>src/routes/executions.rs\<close> that change executions: replay, approval and
  rejection, with the bodies of the tasks they spawn; and the duration shown on the detail page.
  \<open>src/error.rs\<close> gives the error type of the handlers that answer with \<open>AppError\<close>.
\<close>

datatype app_error = AppNotFound string | AppInternal

fun app_error_response :: "app_error \<Rightarrow> nat \<times> string" where
  "app_error_response (AppNotFound resource) = (404, resource @ '' not found'')"
| "app_error_response AppInternal = (500, ''internal server error'')"

section \<open>The duration of an execution\<close>

definition show_padded3 :: "nat \<Rightarrow> string" where
  "show_padded3 n = replicate (3 - length (show_nat n)) (CHR ''0'') @ show_nat n"

text \<open>Durations are nanoseconds; \<open>num_seconds\<close> and \<open>num_milliseconds\<close> round towards zero.\<close>

definition num_milliseconds :: "int \<Rightarrow> int" where
  "num_milliseconds ns = sgn ns * (\<bar>ns\<bar> div 1000000)"

definition compute_duration :: "external \<Rightarrow> string option \<Rightarrow> string option \<Rightarrow> string option" where
  "compute_duration X started_at completed_at =
     (case (started_at, completed_at) of
        (Some started, Some completed) \<Rightarrow>
          (case (parse_rfc3339 X started, parse_rfc3339 X completed) of
             (Some start, Some end_) \<Rightarrow>
               (let dur = end_ - start; secs = num_seconds dur
                in if secs < 0 then None
                   else if secs < 60
                   then Some (show_int secs @ ''.'' @ show_padded3 (nat (num_milliseconds dur mod 1000)) @ ''s'')
                   else if secs < 3600
                   then Some (show_int (secs div 60) @ ''m '' @ show_int (secs mod 60) @ ''s'')
                   else Some (show_int (secs div 3600) @ ''h '' @ show_int (secs mod 3600 div 60) @ ''m''))
           | _ \<Rightarrow> None)
      | _ \<Rightarrow> None)"

section \<open>Replay\<close>

definition replay_new :: "string \<Rightarrow> string \<Rightarrow> execution \<Rightarrow> new_execution" where
  "replay_new exec_id log_path original =
     \<lparr>ne_id = Some exec_id, ne_hook_slug = ex_hook_slug original, ne_log_path = log_path,
      ne_trigger_source = ex_trigger_source original,
      ne_request_payload = ex_request_payload original, ne_retry_of = Some (ex_id original),
      ne_status = None\<rparr>"

definition replay_execution :: "external \<Rightarrow> string \<Rightarrow> (app_error + json) io" where
  "replay_execution X eid = do {
     config \<leftarrow> gets w_config;
     fetched \<leftarrow> execution_get_by_id eid;
     case fetched of
       Inl _ \<Rightarrow> return (Inl (AppNotFound ''execution''))
     | Inr original \<Rightarrow>
         (case find_hook (\<lambda>h. hk_slug h = ex_hook_slug original) config of
            None \<Rightarrow> return (Inl (AppNotFound ''hook''))
          | Some hook \<Rightarrow> do {
              exec_id \<leftarrow> new_id;
              let log_path = lg_dir (cf_logs config) @ ''/'' @ exec_id;
              created \<leftarrow> execution_create X (replay_new exec_id log_path original);
              case created of
                Inl _ \<Rightarrow> return (Inl AppInternal)
              | Inr exec \<Rightarrow> do {
                  _ \<leftarrow> spawn_task (RunReplay
                         (trigger_context X config hook (ex_id exec) (ex_hook_slug original)
                            (ex_request_payload original))
                         (resolve_retry_config hook (df_retries (cf_defaults config))) hook);
                  return (Inr (JObject [(''execution_id'', JString (ex_id exec))])) } })
   }"

definition run_replay :: "external \<Rightarrow> execution_context \<Rightarrow> effective_retry_config \<Rightarrow> hook_config
    \<Rightarrow> unit io" where
  "run_replay X ctx rc hook = do {
     result \<leftarrow> run_with_retries X ctx rc;
     notify_completion X hook (xc_execution_id ctx) result
   }"

section \<open>Approval and rejection\<close>

definition decision_error :: "db_error \<Rightarrow> response" where
  "decision_error e =
     (case e of Conflict _ \<Rightarrow> Status 409 | NotFound _ \<Rightarrow> Status 404 | _ \<Rightarrow> Status 500)"

definition approved_to_pending :: "string \<Rightarrow> nat db_result io" where
  "approved_to_pending eid =
     update_execs (\<lambda>e. ex_id e = eid \<and> ex_status e = Approved) (\<lambda>e. e\<lparr>ex_status := Pending\<rparr>)"

definition approve_execution :: "external \<Rightarrow> string \<Rightarrow> string \<Rightarrow> http_result io" where
  "approve_execution X user_email eid = do {
     approved \<leftarrow> mark_approved X eid user_email;
     case approved of
       Inl e \<Rightarrow> return (Inl (decision_error e))
     | Inr exec \<Rightarrow> do {
         config \<leftarrow> gets w_config;
         _ \<leftarrow> (case find_hook (\<lambda>h. hk_slug h = ex_hook_slug exec) config of
                 None \<Rightarrow> return ()
               | Some hook \<Rightarrow> do {
                   _ \<leftarrow> approved_to_pending (ex_id exec);
                   spawn_task (RunApproved
                     (trigger_context X config hook (ex_id exec) (ex_hook_slug exec)
                        (ex_request_payload exec))
                     (resolve_retry_config hook (df_retries (cf_defaults config))) hook) });
         return (Inr (RedirectTo (''/executions/'' @ eid))) }
   }"

text \<open>The body of the task: that of a triggered execution, with the hook of the execution's row.\<close>

definition run_approved :: "external \<Rightarrow> execution_context \<Rightarrow> effective_retry_config \<Rightarrow> hook_config
    \<Rightarrow> unit io" where
  "run_approved X ctx rc hook = do {
     result \<leftarrow> run_with_retries X ctx rc;
     _ \<leftarrow> notify_completion X hook (xc_execution_id ctx) result;
     if hk_concurrency hook \<noteq> None
     then on_execution_complete X (xc_hook_slug ctx) (hk_concurrency hook) (hk_approval hook)
     else return ()
   }"

text \<open>\<open>on_execution_complete\<close> when the execution holds its hook's lock: the common end of a rejection
  and of an expiry.\<close>

definition complete_if_holder :: "external \<Rightarrow> string \<Rightarrow> hook_config \<Rightarrow> string \<Rightarrow> unit io" where
  "complete_if_holder X slug hook eid = do {
     holder \<leftarrow> get_holder slug;
     if holder = Inr (Some eid)
     then on_execution_complete X slug (hk_concurrency hook) (hk_approval hook)
     else return ()
   }"

definition reject_execution :: "external \<Rightarrow> string \<Rightarrow> string \<Rightarrow> http_result io" where
  "reject_execution X user_email eid = do {
     rejected \<leftarrow> mark_rejected X eid user_email;
     case rejected of
       Inl e \<Rightarrow> return (Inl (decision_error e))
     | Inr exec \<Rightarrow> do {
         _ \<leftarrow> expire_for_execution (ex_id exec);
         config \<leftarrow> gets w_config;
         _ \<leftarrow> (case find_hook (\<lambda>h. hk_slug h = ex_hook_slug exec) config of
                 None \<Rightarrow> return ()
               | Some hook \<Rightarrow> complete_if_holder X (ex_hook_slug exec) hook eid);
         return (Inr (RedirectTo (''/executions/'' @ eid))) }
   }"

section \<open>History\<close>

lemma history_decisions [history_intros]:
  "state_io_rel history_kept (replay_execution X i)"
  "state_io_rel history_kept (approve_execution X who i)"
  "state_io_rel history_kept (reject_execution X who i)"
  "state_io_rel history_kept (complete_if_holder X slug hook i)"
  "state_io_rel history_kept (run_replay X ctx rc hook)"
  "state_io_rel history_kept (run_approved X ctx rc hook)"
proof -
  show c: "state_io_rel history_kept (complete_if_holder X slug hook i)" for slug hook i
    unfolding complete_if_holder_def by (intro history_intros)
  have p: "state_io_rel history_kept (approved_to_pending i)" for i
    unfolding approved_to_pending_def by (intro history_intros) simp
  show "state_io_rel history_kept (replay_execution X i)"
    unfolding replay_execution_def Let_def by (intro history_intros)
  show "state_io_rel history_kept (approve_execution X who i)"
    unfolding approve_execution_def by (intro history_intros p)
  show "state_io_rel history_kept (reject_execution X who i)"
    unfolding reject_execution_def by (intro history_intros c)
  show "state_io_rel history_kept (run_replay X ctx rc hook)"
    unfolding run_replay_def by (intro history_intros)
  show "state_io_rel history_kept (run_approved X ctx rc hook)"
    unfolding run_approved_def by (intro history_intros)
qed

section \<open>What the handlers do\<close>

text \<open>A decision finds the execution waiting, or is refused and changes nothing.\<close>

lemma decision_run:
  assumes "no_faults w" and "exec_ids_distinct w"
    and f: "\<And>n e. ex_id (f n e) = ex_id e"
    and op: "\<And>w. run_state op w = run_state (do { n \<leftarrow> now_utc X; and_then (require_affected
        (update_execs (\<lambda>e. ex_id e = i \<and> ex_status e = PendingApproval) (f n)) msg)
        (\<lambda>_. execution_get_by_id i) }) w"
  shows "status_of i w \<noteq> Some PendingApproval \<Longrightarrow>
      fst (run_state op w) = Inl (Conflict msg) \<and> w_execs (snd (run_state op w)) = w_execs w
      \<and> w_tasks (snd (run_state op w)) = w_tasks w"
    and "find_exec i w = Some e \<Longrightarrow> ex_status e = PendingApproval \<Longrightarrow>
      \<exists>n. run_state op w = (Inr (f n e), w\<lparr>w_ticks := Suc (w_ticks w), w_stmts := w_stmts w + 2,
        w_execs := update_rows (\<lambda>e. ex_id e = i \<and> ex_status e = PendingApproval) (f n) (w_execs w)\<rparr>)"
proof -
  have nf: "\<not> w_fault w n" for n using assms(1) by blast
  note g = guarded_update [OF assms(2) [unfolded exec_ids_distinct_def] f, where i = i and s = PendingApproval]
  let ?n = "fmt_millis X (w_clock w (w_ticks w) div 1000000)"
  show "fst (run_state op w) = Inl (Conflict msg) \<and> w_execs (snd (run_state op w)) = w_execs w
      \<and> w_tasks (snd (run_state op w)) = w_tasks w" if "status_of i w \<noteq> Some PendingApproval"
  proof -
    have "update_rows (\<lambda>e. ex_id e = i \<and> ex_status e = PendingApproval) (f ?n) (w_execs w) = w_execs w"
      using that by (intro update_rows_none)
        (auto simp: status_of_def find_exec_def find_row_Some_iff [OF assms(2) [unfolded exec_ids_distinct_def]])
    moreover have "\<not> (\<exists>z. find_row ex_id i (w_execs w) = Some z \<and> ex_status z = PendingApproval)"
      using that by (auto simp: status_of_def find_exec_def)
    ultimately show ?thesis using nf g(1) by (simp add: op del: not_ex not_all)
  qed
  show "\<exists>n. run_state op w = (Inr (f n e), w\<lparr>w_ticks := Suc (w_ticks w), w_stmts := w_stmts w + 2,
        w_execs := update_rows (\<lambda>e. ex_id e = i \<and> ex_status e = PendingApproval) (f n) (w_execs w)\<rparr>)"
    if "find_exec i w = Some e" "ex_status e = PendingApproval"
    using that nf g by (intro exI [of _ ?n]) (simp add: op find_exec_def)
qed

text \<open>The world an approval of the execution \<open>e\<close> leaves behind when no statement fails.\<close>

definition approved_world :: "external \<Rightarrow> string \<Rightarrow> string \<Rightarrow> string \<Rightarrow> execution \<Rightarrow> world \<Rightarrow> world" where
  "approved_world X who i at e w =
     (let w1 = w\<lparr>w_ticks := Suc (w_ticks w), w_stmts := w_stmts w + 2,
                w_execs := update_rows (\<lambda>e. ex_id e = i \<and> ex_status e = PendingApproval)
                  (\<lambda>e. e\<lparr>ex_status := Approved, ex_approved_at := Some at,
                         ex_approved_by := Some who\<rparr>) (w_execs w)\<rparr>
      in case find_hook (\<lambda>h. hk_slug h = ex_hook_slug e) (w_config w) of
           None \<Rightarrow> w1
         | Some hook \<Rightarrow> (snd (run_state (approved_to_pending i) w1))\<lparr>w_tasks := w_tasks w @
             [RunApproved (trigger_context X (w_config w) hook i (ex_hook_slug e) (ex_request_payload e))
                (resolve_retry_config hook (df_retries (cf_defaults (w_config w)))) hook]\<rparr>)"

lemma approve_found:
  assumes "no_faults w" and "exec_ids_distinct w" and "find_exec i w = Some e"
    and "ex_status e = PendingApproval"
  obtains at where "run_state (approve_execution X who i) w =
    (Inr (RedirectTo (''/executions/'' @ i)), approved_world X who i at e w)"
proof -
  let ?f = "\<lambda>n e. e\<lparr>ex_status := Approved, ex_approved_at := Some n, ex_approved_by := Some who\<rparr>"
  have id: "ex_id e = i" using assms(3) by (auto simp: find_exec_def dest: find_row_SomeD)
  obtain n where "run_state (mark_approved X i who) w = (Inr (?f n e), w\<lparr>w_ticks := Suc (w_ticks w),
      w_stmts := w_stmts w + 2,
      w_execs := update_rows (\<lambda>e. ex_id e = i \<and> ex_status e = PendingApproval) (?f n) (w_execs w)\<rparr>)"
    using decision_run(2) [OF assms(1,2), of ?f "mark_approved X i who" X i
        "''execution '' @ i @ '' is not in pending_approval status''" e] assms(3,4)
    by (auto simp: mark_approved_def)
  with assms(1) id that [of n] show ?thesis
    by (auto simp: approve_execution_def approved_world_def approved_to_pending_def no_faults_def Let_def
        split: option.splits)
qed

text \<open>C31: An approval starts an execution that waits for it, once. Without failures the execution's
  row goes from waiting to approved, with the user and time, and on to pending when its hook is
  still configured, in which case exactly one task is spawned, for this execution, with the hook's
  present configuration and the stored payload; the hook's lock is not asked for, and the answer
  is a redirect to the execution's page, where the design document has 200. An execution that
  does not wait for approval is refused with 409, and nothing changes.\<close>

theorem approve_execution_spec:
  assumes "no_faults w" and "exec_ids_distinct w"
    and "run_state (approve_execution X who i) w = (out, w')"
  shows "case find_exec i w of
           None \<Rightarrow> out = Inl (Status 409) \<and> w_execs w' = w_execs w \<and> w_tasks w' = w_tasks w
         | Some e \<Rightarrow>
             if ex_status e \<noteq> PendingApproval
             then out = Inl (Status 409) \<and> w_execs w' = w_execs w \<and> w_tasks w' = w_tasks w
             else out = Inr (RedirectTo (''/executions/'' @ i))
                  \<and> (\<forall>j. j \<noteq> i \<longrightarrow> find_exec j w' = find_exec j w)
                  \<and> map_option ex_approved_by (find_exec i w') = Some (Some who)
                  \<and> w_locks w' = w_locks w \<and> w_queue w' = w_queue w
                  \<and> (case find_hook (\<lambda>h. hk_slug h = ex_hook_slug e) (w_config w) of
                       None \<Rightarrow> status_of i w' = Some Approved \<and> w_tasks w' = w_tasks w
                     | Some hook \<Rightarrow> status_of i w' = Some Pending
                         \<and> w_tasks w' = w_tasks w @ [RunApproved
                             (trigger_context X (w_config w) hook i (ex_hook_slug e) (ex_request_payload e))
                             (resolve_retry_config hook (df_retries (cf_defaults (w_config w)))) hook])"
proof (cases "status_of i w = Some PendingApproval")
  case False
  let ?f = "\<lambda>n e. e\<lparr>ex_status := Approved, ex_approved_at := Some n, ex_approved_by := Some who\<rparr>"
  let ?op = "mark_approved X i who" and ?msg = "''execution '' @ i @ '' is not in pending_approval status''"
  have "fst (run_state ?op w) = Inl (Conflict ?msg) \<and> w_execs (snd (run_state ?op w)) = w_execs w
      \<and> w_tasks (snd (run_state ?op w)) = w_tasks w"
    using decision_run(1) [OF assms(1,2), of ?f ?op X i ?msg] False by (simp add: mark_approved_def)
  then have "out = Inl (Status 409) \<and> w_execs w' = w_execs w \<and> w_tasks w' = w_tasks w"
    using assms(3) by (cases "run_state ?op w") (auto simp: approve_execution_def decision_error_def)
  with False show ?thesis by (simp add: status_of_def split: option.splits)
next
  case True
  then obtain e where e: "find_exec i w = Some e" "ex_status e = PendingApproval"
    by (auto simp: status_of_def)
  obtain at where r: "run_state (approve_execution X who i) w =
    (Inr (RedirectTo (''/executions/'' @ i)), approved_world X who i at e w)"
    by (rule approve_found [OF assms(1,2) e])
  let ?f = "\<lambda>e. e\<lparr>ex_status := Approved, ex_approved_at := Some at, ex_approved_by := Some who\<rparr>"
  let ?rows = "update_rows (\<lambda>e. ex_id e = i \<and> ex_status e = PendingApproval) ?f (w_execs w)"
  have ids: "distinct (map ex_id (w_execs w))" using assms(2) by (simp add: exec_ids_distinct_def)
  have f: "ex_id (?f e) = ex_id e" for e by simp
  have find1: "find_row ex_id j ?rows = (if j = i then Some (?f e) else find_exec j w)" for j
    using guarded_update(2) [OF ids f, where i = i and s = PendingApproval and j = j] e
    by (simp add: find_exec_def)
  have ids1: "distinct (map ex_id ?rows)" using ids by (simp add: map_update_rows)
  have find2: "find_row ex_id j (update_rows (\<lambda>e. ex_id e = i \<and> ex_status e = Approved)
      (\<lambda>e. e\<lparr>ex_status := Pending\<rparr>) ?rows)
      = (if j = i then Some ((?f e)\<lparr>ex_status := Pending\<rparr>) else find_exec j w)" for j
    using guarded_update(2) [OF ids1, of "\<lambda>e. e\<lparr>ex_status := Pending\<rparr>" j i Approved] find1
    by simp
  have nf: "\<not> w_fault w n" for n using assms(1) by blast
  show ?thesis
    using assms(3) e nf
    by (auto simp: r Let_def approved_world_def approved_to_pending_def status_of_def find_exec_def [of _ "_\<lparr>w_execs := _\<rparr>"]
        find_exec_def [of _ "_\<lparr>w_tasks := _\<rparr>"] find1 find2 split: option.splits)
qed

text \<open>A hook with an approval, and an execution waiting for it.\<close>

definition undecided_world :: world where
  "undecided_world = sample_world\<lparr>
     w_config := default_app_config\<lparr>cf_hooks := [sample_hook\<lparr>hk_slug := ''deploy'',
       hk_approval := Some \<lparr>ac_required = True, ac_timeout = None\<rparr>\<rparr>]\<rparr>,
     w_execs := [sample_execution ''e1'' ''a'' PendingApproval]\<rparr>"

theorem approve_execution_spec_witness:
  "status_of ''e1'' undecided_world = Some PendingApproval
   \<and> (\<exists>w'. run_state (approve_execution sample_external ''ops'' ''e1'') undecided_world
            = (Inr (RedirectTo ''/executions/e1''), w')
        \<and> status_of ''e1'' w' = Some Pending \<and> length (w_tasks w') = 1)"
proof
  show s: "status_of ''e1'' undecided_world = Some PendingApproval"
    by (simp add: undecided_world_def sample_execution_def status_of_def find_exec_def)
  obtain out w' where run: "run_state (approve_execution sample_external ''ops'' ''e1'') undecided_world
      = (out, w')" by fastforce
  have "no_faults undecided_world" "exec_ids_distinct undecided_world"
    by (simp_all add: no_faults_def exec_ids_distinct_def undecided_world_def sample_world_def)
  from approve_execution_spec [OF this run] show "\<exists>w'. run_state (approve_execution sample_external
      ''ops'' ''e1'') undecided_world = (Inr (RedirectTo ''/executions/e1''), w')
        \<and> status_of ''e1'' w' = Some Pending \<and> length (w_tasks w') = 1"
    using run
    by (simp add: undecided_world_def sample_world_def sample_execution_def status_of_def find_exec_def
        find_hook_def find_row_def)
qed

end
