(* ===== verification/Tasks.thy ===== *)
theory Tasks
  imports Execution_Routes
begin

text \<open>
  \<open>src/tasks.rs\<close>: the bodies of the background sweeps, which expire approvals that have waited
  too long and delete old rate-limit counters. The timers that start them are not modelled.
\<close>

definition rate_limit_counter_ttl_hours :: int where "rate_limit_counter_ttl_hours = 48"

text \<open>\<open>now\<close> less a duration, in whole seconds since the epoch, as \<open>format\<close> shows it.\<close>

definition cutoff_text :: "external \<Rightarrow> nat \<Rightarrow> duration \<Rightarrow> string" where
  "cutoff_text X now timeout =
     fmt_secs X ((int now - (case chrono_from_std timeout of Some d \<Rightarrow> d | None \<Rightarrow> 0)) div 1000000000)"

definition overdue_approvals :: "string \<Rightarrow> string \<Rightarrow> string list db_result io" where
  "overdue_approvals slug cutoff = query (\<lambda>w.
     map ex_id (filter (\<lambda>e. ex_hook_slug e = slug \<and> ex_status e = PendingApproval
                          \<and> ex_triggered_at e < cutoff) (w_execs w)))"

definition expire_one :: "external \<Rightarrow> hook_config \<Rightarrow> string \<Rightarrow> unit io" where
  "expire_one X hook eid = do {
     marked \<leftarrow> mark_expired X eid;
     case marked of
       Inl _ \<Rightarrow> return ()
     | Inr _ \<Rightarrow> do {
         _ \<leftarrow> expire_for_execution eid;
         complete_if_holder X (hk_slug hook) hook eid }
   }"

primrec expire_rows :: "external \<Rightarrow> hook_config \<Rightarrow> string list \<Rightarrow> unit io" where
  "expire_rows X hook [] = return ()"
| "expire_rows X hook (eid # eids) = do { _ \<leftarrow> expire_one X hook eid; expire_rows X hook eids }"

definition expire_hook :: "external \<Rightarrow> nat \<Rightarrow> hook_config \<Rightarrow> unit io" where
  "expire_hook X now hook =
     (case Option.bind (hk_approval hook) ac_timeout of
        None \<Rightarrow> return ()
      | Some timeout \<Rightarrow> do {
          rows \<leftarrow> overdue_approvals (hk_slug hook) (cutoff_text X now timeout);
          case rows of Inl _ \<Rightarrow> return () | Inr eids \<Rightarrow> expire_rows X hook eids })"

primrec expire_hooks :: "external \<Rightarrow> nat \<Rightarrow> hook_config list \<Rightarrow> unit io" where
  "expire_hooks X now [] = return ()"
| "expire_hooks X now (hook # hooks) = do { _ \<leftarrow> expire_hook X now hook; expire_hooks X now hooks }"

definition expire_pending_approvals :: "external \<Rightarrow> unit io" where
  "expire_pending_approvals X = do {
     cfg \<leftarrow> gets w_config;
     now \<leftarrow> clock_now;
     expire_hooks X now (cf_hooks cfg)
   }"

definition sweep_counters :: "external \<Rightarrow> unit io" where
  "sweep_counters X = do {
     now \<leftarrow> clock_now;
     let cutoff = fmt_secs X (int now div 1000000000 - rate_limit_counter_ttl_hours * 3600);
     _ \<leftarrow> sql (\<lambda>w. Inr (length (filter (\<lambda>c. ct_window_start c < cutoff) (w_counters w)),
            w\<lparr>w_counters := filter (\<lambda>c. \<not> ct_window_start c < cutoff) (w_counters w)\<rparr>));
     return ()
   }"

lemma history_sweeps [history_intros]:
  "state_io_rel history_kept (expire_one X hook i)"
  "state_io_rel history_kept (expire_pending_approvals X)"
  "state_io_rel history_kept (sweep_counters X)"
proof -
  show o: "state_io_rel history_kept (expire_one X hook i)" for hook i
    unfolding expire_one_def by (intro history_intros)
  have r: "state_io_rel history_kept (expire_rows X hook eids)" for hook eids
    by (induction eids) (simp_all add: history_intros o)
  have h: "state_io_rel history_kept (expire_hook X now hook)" for now hook
    unfolding expire_hook_def overdue_approvals_def by (intro history_intros r)
  have "state_io_rel history_kept (expire_hooks X now hooks)" for now hooks
    by (induction hooks) (simp_all add: history_intros h)
  then show "state_io_rel history_kept (expire_pending_approvals X)"
    unfolding expire_pending_approvals_def by (intro history_intros)
  show "state_io_rel history_kept (sweep_counters X)"
    unfolding sweep_counters_def Let_def
    by (intro history_intros history.keeps_sql; auto simp: history_kept_def)
qed

section \<open>Counters of the current window\<close>

lemma window_start_bounds:
  "window_start_secs config now \<le> now div 1000000000"
  "tr_window config \<le> from_secs n \<Longrightarrow> 1 \<le> n \<Longrightarrow> now div 1000000000 \<le> window_start_secs config now + n"
proof -
  show "window_start_secs config now \<le> now div 1000000000" by (simp add: window_start_secs_def Let_def)
  show "now div 1000000000 \<le> window_start_secs config now + n" if "tr_window config \<le> from_secs n" "1 \<le> n"
  proof -
    let ?w = "max (as_secs (tr_window config)) 1"
    have "as_secs (tr_window config) \<le> as_secs (from_secs n)"
      using that(1) by (simp add: as_secs_def div_le_mono)
    then have "?w \<le> n" using that(2) by (simp add: as_secs_def from_secs_def nanos_per_sec_def)
    moreover have "now div 1000000000 < now div 1000000000 div ?w * ?w + ?w"
      by (metis add.commute dividend_less_div_times less_max_iff_disj mult.commute zero_less_one)
    ultimately show ?thesis unfolding window_start_secs_def Let_def by linarith
  qed
qed

text \<open>The counter sweep spares what the rate limit still needs. When formatted times sort like
  the times themselves, the sweep keeps the counter of the current window of every rate limit
  whose window is at most 48 hours long, with its count, and it removes every counter whose
  window started earlier than 48 hours ago. (Formatted times have a fixed width up to the end of
  the year 9999.)\<close>

theorem sweep_counters_spec:
  assumes "no_faults w" and "now = w_clock w (w_ticks w)"
    and "\<And>a b. 0 \<le> a \<Longrightarrow> a < 253402300800 \<Longrightarrow> 0 \<le> b \<Longrightarrow> b < 253402300800
           \<Longrightarrow> fmt_secs X a < fmt_secs X b \<longleftrightarrow> a < b"
    and "48 * 3600 \<le> now div 1000000000" and "now div 1000000000 < 253402300800" and "0 \<le> start"
    and "run_state (sweep_counters X) w = (u, w')"
  shows "(tr_window config \<le> from_secs (48 * 3600) \<longrightarrow>
            counter_value slug (fmt_secs X (int (window_start_secs config now))) w'
              = counter_value slug (fmt_secs X (int (window_start_secs config now))) w)
         \<and> (start < int (now div 1000000000) - 48 * 3600 \<longrightarrow>
            (slug, fmt_secs X start) \<notin> counter_key ` set (w_counters w'))"
proof -
  let ?cut = "int (now div 1000000000) - 48 * 3600"
  have nf: "\<not> w_fault w n" for n using assms(1) by blast
  have w': "w_counters w' = filter (\<lambda>c. \<not> ct_window_start c < fmt_secs X ?cut) (w_counters w)"
    using assms(2,7) nf
    by (auto simp: sweep_counters_def Let_def rate_limit_counter_ttl_hours_def zdiv_int)
  have find: "find_row counter_key (slug, s) (filter (\<lambda>c. \<not> ct_window_start c < fmt_secs X ?cut) cs)
      = find_row counter_key (slug, s) cs" if "\<not> s < fmt_secs X ?cut" for s cs
    using that by (induction cs) (auto simp: counter_key_def)
  have order: "fmt_secs X (int a) < fmt_secs X ?cut \<longleftrightarrow> int a < ?cut" if "a \<le> now div 1000000000" for a
    using that assms(4,5) by (intro assms(3)) linarith+
  let ?s = "window_start_secs config now"
  have "counter_value slug (fmt_secs X (int ?s)) w' = counter_value slug (fmt_secs X (int ?s)) w"
    if "tr_window config \<le> from_secs (48 * 3600)"
  proof -
    have "\<not> fmt_secs X (int ?s) < fmt_secs X ?cut"
      using window_start_bounds(2) [OF that, of now] order [OF window_start_bounds(1), of config] by linarith
    from find [OF this] show ?thesis by (simp only: counter_value_def w')
  qed
  moreover have "(slug, fmt_secs X start) \<notin> counter_key ` set (w_counters w')" if "start < ?cut"
  proof -
    have "fmt_secs X start < fmt_secs X ?cut" using that assms(6) order [of "nat start"] by simp
    then show ?thesis by (auto simp: w' counter_key_def)
  qed
  ultimately show ?thesis by blast
qed

text \<open>The sample's unary time stamps sort like times; a clock that shows the third day.\<close>

lemma sample_fmt_secs: "0 \<le> a \<Longrightarrow> 0 \<le> b \<Longrightarrow>
    fmt_secs sample_external a < fmt_secs sample_external b \<longleftrightarrow> a < b"
proof -
  have less: "replicate m CHR ''a'' < replicate n CHR ''a'' \<longleftrightarrow> m < n" for m n
  proof (induction m arbitrary: n)
    case 0
    show ?case by (cases n) simp_all
  next
    case (Suc m)
    show ?case by (cases n) (simp_all add: Suc)
  qed
  show "0 \<le> a \<Longrightarrow> 0 \<le> b \<Longrightarrow>
    fmt_secs sample_external a < fmt_secs sample_external b \<longleftrightarrow> a < b"
    by (auto simp: sample_external_def less)
qed

definition third_day_world :: world where
  "third_day_world = sample_world\<lparr>w_clock := \<lambda>n. 200000 * 1000000000,
     w_counters := [\<lparr>ct_hook_slug = ''deploy'', ct_window_start = fmt_secs sample_external 10, ct_count = 3\<rparr>]\<rparr>"

theorem sweep_counters_spec_witness:
  "(''deploy'', fmt_secs sample_external 10)
     \<notin> counter_key ` set (w_counters (snd (run_state (sweep_counters sample_external) third_day_world)))"
proof -
  have "no_faults third_day_world" by (simp add: third_day_world_def no_faults_def sample_world_def)
  moreover have "w_clock third_day_world (w_ticks third_day_world) = 200000 * 1000000000"
    by (simp add: third_day_world_def)
  ultimately show ?thesis
    using sweep_counters_spec [of third_day_world "200000 * 1000000000" sample_external 10 "()"
        "snd (run_state (sweep_counters sample_external) third_day_world)" _ "''deploy''"]
    by (simp add: sample_fmt_secs prod_eq_iff)
qed

end
