(* ===== verification/Exclusion.thy ===== *)
theory Exclusion
  imports Server
begin

text \<open>
  Concurrency control at the level of the server: every step keeps the world \<open>orderly\<close>, so at
  most one task per hook has the right to run. The proof needs no assumption on failures: every
  statement of every handler may fail. A relation \<open>calm\<close> covers everything that neither takes
  nor gives the right to run; what is left are the lock, the queue and the approvals.
\<close>

section \<open>Operations that leave the turn alone\<close>

definition row_keys :: "world \<Rightarrow> (string \<times> string) list" where
  "row_keys w = map (\<lambda>e. (ex_id e, ex_hook_slug e)) (w_execs w)"

definition calm :: "world \<Rightarrow> world \<Rightarrow> bool" where
  "calm w w' \<longleftrightarrow>
     w_locks w' = w_locks w \<and> w_tasks w' = w_tasks w \<and> w_queue w' = w_queue w
     \<and> w_config w' = w_config w \<and> row_keys w' = row_keys w
     \<and> (\<forall>slug. undecided slug w' \<subseteq> undecided slug w)"

lemma undecided_cong: "w_execs w' = w_execs w \<Longrightarrow> undecided slug w' = undecided slug w"
  by (simp add: undecided_def)

lemma row_keys_cong: "w_execs w' = w_execs w \<Longrightarrow> row_keys w' = row_keys w"
  by (simp add: row_keys_def)

interpretation calm: world_relation calm
proof
  show "calm u w" if "calm u v" "calm v w" for u v w
    using that by (simp add: calm_def) (blast intro: subset_trans)
qed (auto simp: calm_def undecided_def row_keys_def)

named_theorems calm_intros \<open>operations that leave the turn alone\<close>

lemmas [calm_intros] = calm.keeps_basic

lemma calmI:
  assumes "w_locks w' = w_locks w" and "w_tasks w' = w_tasks w" and "w_queue w' = w_queue w"
    and "w_config w' = w_config w" and "w_execs w' = w_execs w"
  shows "calm w w'"
  using assms by (simp add: calm_def undecided_def row_keys_def)

lemma same_tables_calm: "state_io_rel same_tables m \<Longrightarrow> state_io_rel calm m"
  by (simp add: state_io_rel_def same_tables_def calmI)

lemmas [calm_intros] = tables_files [THEN same_tables_calm]
  tables_prepare [THEN same_tables_calm] tables_stream_output [THEN same_tables_calm]
  tables_spawn_script [THEN same_tables_calm] tables_handle_response [THEN same_tables_calm]
  tables_send_notification [THEN same_tables_calm] tables_primitives [THEN same_tables_calm]

lemma calm_modify [calm_intros]: "(\<And>w. calm w (f w)) \<Longrightarrow> state_io_rel calm (modify f)"
  by (simp add: state_io_rel_def)

lemma undecided_update:
  assumes "\<And>e. ex_id (f e) = ex_id e" and "\<And>e. ex_hook_slug (f e) = ex_hook_slug e"
    and "\<And>e. p e \<Longrightarrow> ex_status (f e) = PendingApproval \<Longrightarrow> ex_status e = PendingApproval"
  shows "undecided slug (w\<lparr>w_execs := update_rows p f (w_execs w)\<rparr>) \<subseteq> undecided slug w"
  using assms by (force simp: undecided_def set_update_rows)

lemma row_keys_update:
  assumes "\<And>e. ex_id (f e) = ex_id e" and "\<And>e. ex_hook_slug (f e) = ex_hook_slug e"
  shows "row_keys (w\<lparr>w_execs := update_rows p f (w_execs w)\<rparr>) = row_keys w"
  using map_update_rows [of "\<lambda>e. (ex_id e, ex_hook_slug e)" f p] assms by (simp add: row_keys_def)

lemma calm_update_execs [calm_intros]:
  assumes "\<And>e. ex_id (f e) = ex_id e" and "\<And>e. ex_hook_slug (f e) = ex_hook_slug e"
    and "\<And>e. p e \<Longrightarrow> ex_status (f e) = PendingApproval \<Longrightarrow> ex_status e = PendingApproval"
  shows "state_io_rel calm (update_execs p f)"
proof -
  have "undecided slug (w\<lparr>w_stmts := n, w_execs := update_rows p f (w_execs w)\<rparr>) \<subseteq> undecided slug w"
    for slug w n
    using undecided_update [OF assms, where slug = slug and w = w] by (simp add: undecided_def)
  moreover have "row_keys (w\<lparr>w_stmts := n, w_execs := update_rows p f (w_execs w)\<rparr>) = row_keys w" for w n
    using row_keys_update [OF assms(1,2), where w = w and p = p] by (simp add: row_keys_def)
  ultimately show ?thesis
    by (simp add: state_io_rel_def calm_def) (simp add: undecided_def row_keys_def)
qed

lemma calm_require_affected [calm_intros]:
  "state_io_rel calm m \<Longrightarrow> state_io_rel calm (require_affected m msg)"
  unfolding require_affected_def by (intro calm_intros)

lemma calm_update_attempts [calm_intros]:
  "state_io_rel calm (attempt_insert X new)"
  by (simp add: state_io_rel_def attempt_insert_world Let_def calmI)

lemma calm_sleep [calm_intros]: "state_io_rel calm (sleep d)"
  by (simp add: state_io_rel_def calmI)

lemma calm_get_by_id [calm_intros]: "state_io_rel calm (execution_get_by_id i)"
  unfolding execution_get_by_id_def by (intro calm_intros)

lemma calm_attempts [calm_intros]:
  "state_io_rel calm (log_attempt X slug ip st reason i)"
  "state_io_rel calm (log_rejection X slug ip st reason)"
  unfolding log_rejection_def log_attempt_def by (intro calm_intros)+

lemma calm_transitions [calm_intros]:
  "state_io_rel calm (mark_running X i)"
  "state_io_rel calm (increment_retry_count i)"
  "state_io_rel calm (reset_to_pending i)"
  "st \<noteq> PendingApproval \<Longrightarrow> state_io_rel calm (mark_completed X i st code)"
  "state_io_rel calm (mark_approved X i who)"
  "state_io_rel calm (mark_rejected X i who)"
  "state_io_rel calm (mark_expired X i)"
  "state_io_rel calm (approved_to_pending i)"
  unfolding mark_running_def increment_retry_count_def reset_to_pending_def mark_completed_def
    mark_approved_def mark_rejected_def mark_expired_def approved_to_pending_def
  by (intro calm_intros; simp)+

interpretation calm_run: retry_relation calm i for i
proof
  show "same_tables w w' \<Longrightarrow> calm w w'" for w w' by (simp add: same_tables_def calmI)
  show "state_io_rel calm (mark_completed X i st code)" if "st \<in> {Success, Failed, TimedOut}" for X st code
    using that by (intro calm_transitions) auto
  show "calm w (w\<lparr>w_sleeps := ds\<rparr>)" for w ds by (simp add: calmI)
qed (intro calm_transitions)+

lemma calm_run [calm_intros]:
  "state_io_rel calm (run_with_retries X ctx rc)"
  "state_io_rel calm (notify_completion X hook i r)"
  "state_io_rel calm (run_replay X ctx rc hook)"
proof -
  show r: "state_io_rel calm (run_with_retries X ctx rc)"
    by (rule calm_run.keeps_run_with_retries [OF refl])
  show n: "state_io_rel calm (notify_completion X hook i r)" for i r
    unfolding notify_completion_def by (intro calm_intros)
  show "state_io_rel calm (run_replay X ctx rc hook)"
    unfolding run_replay_def by (intro calm_intros r n)
qed

lemma calm_queries [calm_intros]:
  "state_io_rel calm (peek_next slug)"
  "state_io_rel calm (count_waiting slug)"
  "state_io_rel calm (get_holder slug)"
  unfolding peek_next_def count_waiting_def get_holder_def by (intro calm_intros)+

lemma calm_admit [calm_intros]: "state_io_rel calm (admit X hook slug ip hs body)"
proof -
  have r: "state_io_rel calm (on_reject X slug ip respond out)" for respond out
    unfolding on_reject_def by (cases out) (simp_all add: calm_intros)
  have v: "state_io_rel calm (validated_payload X schema slug ip v)" for schema v
    unfolding validated_payload_def by (intro calm_intros)
  have a: "state_io_rel calm (authenticate X hook slug ip hs body)"
    unfolding authenticate_def
    by (cases "verify X (hk_auth hook) hs body") (simp_all add: calm_intros)
  have p: "state_io_rel calm (read_payload X hook slug ip body)"
    unfolding read_payload_def by (intro calm_intros v)
  have e: "state_io_rel calm (windows_evaluate X ws)" "state_io_rel calm (cooldown_evaluate X slug cd)"
      "state_io_rel calm (rate_limit_evaluate X slug rl)" for ws cd rl
    unfolding windows_evaluate_def cooldown_evaluate_def cooldown_evaluate_at_def
      get_latest_started_by_hook_def rate_limit_evaluate_def rate_limit_evaluate_at_def Let_def
      ensure_counter_def increment_counter_def
    by (intro calm_intros calm.keeps_sql; auto simp: calmI split: if_splits)+
  have c: "state_io_rel calm (check_rules X hook slug ip payload)" for payload
    unfolding check_rules_def by (intro calm_intros r e)
  have l: "state_io_rel calm (check_hook_rate_limit X hook slug ip)"
    unfolding check_hook_rate_limit_def by (intro calm_intros r e)
  show ?thesis unfolding admit_def by (intro calm_intros a p c l)
qed

section \<open>Orderly worlds\<close>

lemma calm_state: "state_io_rel calm m \<Longrightarrow> run_state m w = (a, w') \<Longrightarrow> calm w w'"
  by (auto simp: state_io_rel_def) (metis snd_conv)

lemma exec_ids_row_keys: "exec_ids_distinct w \<longleftrightarrow> distinct (map fst (row_keys w))"
  by (simp add: exec_ids_distinct_def row_keys_def comp_def)

lemma queue_refers_row_keys:
  "queue_refers w \<longleftrightarrow> (\<forall>q \<in> set (w_queue w). (qr_execution_id q, qr_hook_slug q) \<in> set (row_keys w))"
  by (simp add: queue_refers_def row_keys_def image_iff) metis

lemma turn_mono:
  assumes "turn s w" and "w_config w' = w_config w" and "claims s w' = claims s w"
    and "holder_of s w' = holder_of s w" and "undecided s w' \<subseteq> undecided s w"
  shows "turn s w'"
proof -
  have "controlled s w' = controlled s w" by (simp add: controlled_def assms(2))
  with assms(1,3-5) show ?thesis unfolding turn_def by auto
qed

text \<open>A change that concerns one hook.\<close>

lemma orderly_frame:
  assumes "orderly w" and "w_config w' = w_config w" and "row_keys w' = row_keys w" and "queue_refers w'"
    and "\<And>s. s \<noteq> slug \<Longrightarrow> claims s w' = claims s w \<and> undecided s w' \<subseteq> undecided s w
           \<and> holder_of s w' = holder_of s w"
    and "turn slug w'"
  shows "orderly w'"
proof -
  have "turn s w'" for s
  proof (cases "s = slug")
    case False
    have "turn s w" using assms(1) by (simp add: orderly_def)
    then show ?thesis by (rule turn_mono) (use assms(2) assms(5) [OF False] in auto)
  qed (use assms(6) in simp)
  then show ?thesis
    using assms(1-4) by (simp add: orderly_def exec_ids_row_keys)
qed

lemma orderly_calm:
  assumes "orderly w" and "calm w w'"
  shows "orderly w'"
proof -
  have c: "w_config w' = w_config w" "row_keys w' = row_keys w" "w_queue w' = w_queue w"
      "w_tasks w' = w_tasks w" "w_locks w' = w_locks w" "undecided s w' \<subseteq> undecided s w" for s
    using assms(2) by (simp_all add: calm_def)
  have "turn [] w" using assms(1) by (simp add: orderly_def)
  then have t: "turn [] w'" by (rule turn_mono) (simp_all add: c holder_of_def)
  have "queue_refers w'" using assms(1) c by (simp add: orderly_def queue_refers_row_keys)
  from orderly_frame [OF assms(1) c(1,2) this _ t] c(4-6) show ?thesis
    by (simp add: holder_of_def)
qed

text \<open>The turn of a hook can be passed on: nobody claims it, nothing is undecided, and the lock is
  held.\<close>

definition vacant :: "string \<Rightarrow> world \<Rightarrow> bool" where
  "vacant slug w \<longleftrightarrow>
     controlled slug w \<and> claims slug w = [] \<and> undecided slug w = {} \<and> holder_of slug w \<noteq> None"

lemma vacant_calm: "vacant slug w \<Longrightarrow> calm w w' \<Longrightarrow> vacant slug w'"
  by (auto simp: vacant_def calm_def holder_of_def controlled_def)

lemma release_orderly:
  assumes "orderly w" and "claims slug w = []" and "controlled slug w \<Longrightarrow> undecided slug w = {}"
  shows "orderly (snd (run_state (release slug) w))"
proof (cases "w_fault w (w_stmts w)")
  case True
  then show ?thesis
    using orderly_calm [OF assms(1) calmI [of "w\<lparr>w_stmts := Suc (w_stmts w)\<rparr>" w]]
    by (simp add: release_def)
next
  case False
  let ?w' = "w\<lparr>w_stmts := Suc (w_stmts w),
               w_locks := filter (\<lambda>l. lk_hook_slug l \<noteq> slug) (w_locks w)\<rparr>"
  have "orderly ?w'"
  proof (rule orderly_frame [OF assms(1), where slug = slug])
    show "turn slug ?w'"
      using assms(2,3) by (auto simp: turn_def undecided_def controlled_def)
    show "queue_refers ?w'" using assms(1) by (simp add: orderly_def queue_refers_def)
  qed (auto simp: row_keys_def undecided_def holder_of_def find_row_filter_other)
  then show ?thesis by (simp add: release_def False)
qed

section \<open>Passing the turn\<close>

lemma turn_vacant: "claims slug w = [] \<Longrightarrow> undecided slug w = {} \<Longrightarrow> turn slug w"
  by (simp add: turn_def)

text \<open>The turn is passed to \<open>x\<close>: vacant, and \<open>x\<close>, an execution of the hook, holds the lock.\<close>

definition passed_to :: "string \<Rightarrow> string \<Rightarrow> world \<Rightarrow> bool" where
  "passed_to slug x w \<longleftrightarrow>
     orderly w \<and> controlled slug w \<and> claims slug w = [] \<and> undecided slug w = {}
     \<and> holder_of slug w = Some x
     \<and> (x, slug) \<in> set (row_keys w)"

lemma passed_calm: "passed_to slug x w \<Longrightarrow> calm w w' \<Longrightarrow> passed_to slug x w'"
  using orderly_calm [of w w'] by (auto simp: passed_to_def calm_def holder_of_def controlled_def)

lemma hand_off_passes:
  assumes "orderly w" and "vacant slug w" and "(x, slug) \<in> set (row_keys w)"
    and "run_state (hand_off X slug x) w = (r, w')"
  shows "orderly w'" and "r = Inr u \<Longrightarrow> passed_to slug x w'"
proof -
  let ?at = "fmt_millis X (w_clock w (w_ticks w) div 1000000)"
  let ?w1 = "w\<lparr>w_ticks := Suc (w_ticks w), w_stmts := Suc (w_stmts w),
      w_locks := update_rows (\<lambda>l. lk_hook_slug l = slug)
        (\<lambda>l. l\<lparr>lk_execution_id := x, lk_acquired_at := ?at\<rparr>) (w_locks w)\<rparr>"
  have holder: "holder_of s ?w1 = (if s = slug then Some x else holder_of s w)" for s
  proof -
    obtain l where "find_row lk_hook_slug slug (w_locks w) = Some l" "lk_hook_slug l = slug"
      using assms(2) by (auto simp: vacant_def holder_of_def dest: find_row_SomeD)
    moreover have "find_row lk_hook_slug s (w_locks w) = Some l' \<Longrightarrow> lk_hook_slug l' = s" for l'
      by (auto dest: find_row_SomeD)
    ultimately show ?thesis
      by (auto simp: holder_of_def find_row_update [where key = lk_hook_slug] option.map_comp
          intro!: option.map_cong0 split: option.splits)
  qed
  have u: "undecided s ?w1 = undecided s w" for s by (simp add: undecided_def)
  have "orderly ?w1"
  proof (rule orderly_frame [OF assms(1), where slug = slug])
    show "turn slug ?w1" by (rule turn_vacant) (use assms(2) u in \<open>simp_all add: vacant_def\<close>)
    show "queue_refers ?w1" using assms(1) by (simp add: orderly_def queue_refers_def)
  qed (use u holder in \<open>simp_all add: row_keys_def\<close>)
  moreover have "passed_to slug x ?w1"
    using \<open>orderly ?w1\<close> holder u assms(2,3)
    by (simp add: passed_to_def vacant_def row_keys_def controlled_def)
  moreover have "orderly (w\<lparr>w_ticks := Suc (w_ticks w), w_stmts := Suc (w_stmts w)\<rparr>)"
    by (rule orderly_calm [OF assms(1)]) (simp add: calmI)
  ultimately show "orderly w'" "r = Inr u \<Longrightarrow> passed_to slug x w'"
    using assms(4) by (auto simp: hand_off_def split: if_splits)
qed

lemma queue_update_passes:
  assumes "passed_to slug x w" and "\<And>q. qr_execution_id (f q) = qr_execution_id q"
    and "\<And>q. qr_hook_slug (f q) = qr_hook_slug q"
  shows "passed_to slug x (snd (run_state (update_queue p f) w))"
proof -
  let ?w1 = "snd (run_state (update_queue p f) w)"
  have same: "w_config ?w1 = w_config w" "w_execs ?w1 = w_execs w" "w_tasks ?w1 = w_tasks w"
      "w_locks ?w1 = w_locks w"
    by simp_all
  have w: "orderly w" using assms(1) by (simp add: passed_to_def)
  have "queue_refers ?w1"
    using w assms(2,3) by (auto simp: orderly_def queue_refers_def set_update_rows)
  then have "orderly ?w1"
    by (intro orderly_frame [OF w, where slug = slug] turn_vacant)
       (use assms(1) same in \<open>simp_all add: passed_to_def row_keys_def undecided_def holder_of_def
          del: run_update_queue\<close>)
  then show ?thesis
    using assms(1) same by (simp add: passed_to_def row_keys_def undecided_def holder_of_def
        controlled_def del: run_update_queue)
qed

lemma mark_ready_passes:
  "passed_to slug x w \<Longrightarrow> passed_to slug x (snd (run_state (mark_ready k) w))"
  using queue_update_passes [of slug x w "\<lambda>q. q\<lparr>qr_status := Ready\<rparr>"
      "\<lambda>q. qr_id q = k \<and> qr_status q = Waiting"]
  by (simp add: mark_ready_def split: prod.splits sum.splits if_splits)

lemma spawn_passes:
  assumes "passed_to slug x w" and "lock_claim t = Some (slug, x)"
  shows "orderly (snd (run_state (spawn_task t) w))"
proof -
  let ?w1 = "w\<lparr>w_tasks := w_tasks w @ [t]\<rparr>"
  have w: "orderly w" using assms(1) by (simp add: passed_to_def)
  have "turn slug ?w1"
    using assms by (simp add: turn_def passed_to_def holder_of_def undecided_def controlled_def)
  moreover have "queue_refers ?w1" using w by (simp add: orderly_def queue_refers_def)
  ultimately have "orderly ?w1"
    by (intro orderly_frame [OF w, where slug = slug])
       (use assms(2) in \<open>simp_all add: row_keys_def undecided_def holder_of_def\<close>)
  then show ?thesis by simp
qed

lemma row_keys_unique:
  "exec_ids_distinct w \<Longrightarrow> (i, s) \<in> set (row_keys w) \<Longrightarrow> (i, t) \<in> set (row_keys w) \<Longrightarrow> s = t"
  by (auto simp: exec_ids_row_keys eq_key_imp_eq_value)

lemma defer_passes:
  assumes "passed_to slug x w"
  shows "orderly (snd (run_state (mark_pending_approval x) w))"
proof -
  let ?p = "\<lambda>e. ex_id e = x \<and> ex_status e = Pending" and ?f = "\<lambda>e. e\<lparr>ex_status := PendingApproval\<rparr>"
  let ?w1 = "w\<lparr>w_stmts := Suc (w_stmts w), w_execs := update_rows ?p ?f (w_execs w)\<rparr>"
  have w: "orderly w" using assms by (simp add: passed_to_def)
  have keys: "row_keys ?w1 = row_keys w"
    using row_keys_update [where f = ?f and w = w and p = ?p] by (simp add: row_keys_def)
  have slug: "s = slug" if "e \<in> set (w_execs w)" "ex_id e = x" "ex_hook_slug e = s" for e s
  proof (rule row_keys_unique)
    show "(x, s) \<in> set (row_keys w)" using that by (force simp: row_keys_def)
  qed (use assms in \<open>simp_all add: passed_to_def orderly_def\<close>)
  have "undecided s ?w1 \<subseteq> undecided s w" if "s \<noteq> slug" for s
    using slug that by (auto simp: undecided_def set_update_rows split: if_splits)
  moreover have "undecided slug ?w1 \<subseteq> {x}"
    using assms by (auto simp: passed_to_def undecided_def set_update_rows split: if_splits)
  then have "turn slug ?w1" using assms by (auto simp: turn_def passed_to_def holder_of_def controlled_def)
  moreover have "queue_refers ?w1"
    using w keys by (simp add: orderly_def queue_refers_row_keys)
  ultimately have "orderly ?w1"
    by (intro orderly_frame [OF w, where slug = slug]) (use keys in \<open>simp_all add: holder_of_def\<close>)
  moreover have "orderly (w\<lparr>w_stmts := Suc (w_stmts w)\<rparr>)"
    by (rule orderly_calm [OF w]) (simp add: calmI)
  ultimately show ?thesis by (simp add: mark_pending_approval_def)
qed

lemma peeked_row:
  assumes "run_state (peek_next slug) w = (Inr (Some q), w1)"
  shows "\<exists>r \<in> set (w_queue w). qr_hook_slug r = slug \<and> qr_execution_id r = qe_execution_id q"
proof -
  have "\<exists>r rest. sort_key qr_position (waiting_rows slug (w_queue w)) = r # rest
      \<and> qr_execution_id r = qe_execution_id q"
    using assms by (auto simp: peek_next_def split: list.splits if_splits)
  then obtain r rest where r: "sort_key qr_position (waiting_rows slug (w_queue w)) = r # rest"
      "qr_execution_id r = qe_execution_id q"
    by blast
  then have "r \<in> set (waiting_rows slug (w_queue w))" by (metis list.set_intros(1) set_sort)
  with r(2) show ?thesis by (auto simp: waiting_rows_def)
qed

lemma peeked_key:
  assumes "orderly w" and "run_state (peek_next slug) w = (Inr (Some q), w1)"
  shows "(qe_execution_id q, slug) \<in> set (row_keys w)"
proof -
  obtain r where r: "r \<in> set (w_queue w)" "qr_hook_slug r = slug" "qr_execution_id r = qe_execution_id q"
    using peeked_row [OF assms(2)] by blast
  have "queue_refers w" using assms(1) by (simp add: orderly_def)
  with r(1) have "(qr_execution_id r, qr_hook_slug r) \<in> set (row_keys w)"
    by (simp add: queue_refers_row_keys)
  with r(2,3) show ?thesis by simp
qed

lemma release_ignored:
  "snd (run_state (do { _ \<leftarrow> release slug; return () }) w) = snd (run_state (release slug) w)"
  by (simp split: prod.splits)

lemma completion_orderly:
  assumes "orderly w" and "vacant slug w"
  shows "orderly (snd (run_state (on_execution_complete X slug cc ac) w))"
proof -
  have rel: "orderly (snd (run_state (do { _ \<leftarrow> release slug; return () }) w'))"
    if "orderly w'" "vacant slug w'" for w'
    using release_orderly [OF that(1)] that(2) by (simp only: release_ignored vacant_def)
  obtain p w1 where p: "run_state (peek_next slug) w = (p, w1)" by fastforce
  note c1 = calm_state [OF calm_queries(1) p]
  have w1: "orderly w1" "vacant slug w1"
    using orderly_calm [OF assms(1) c1] vacant_calm [OF assms(2) c1] by auto
  show ?thesis
  proof (cases "\<exists>c q. cc = Some c \<and> cc_mode c = Queue \<and> p = Inr (Some q)")
    case False
    have "snd (run_state (on_execution_complete X slug cc ac) w)
        \<in> {snd (run_state (do { _ \<leftarrow> release slug; return () }) w),
           snd (run_state (do { _ \<leftarrow> release slug; return () }) w1)}"
      using False p unfolding on_execution_complete_def
      by (cases cc; cases p) (auto split: option.splits)
    then show ?thesis using rel assms w1 by auto
  next
    case True
    then obtain c q where q: "cc = Some c" "cc_mode c = Queue" "p = Inr (Some q)" by blast
    let ?x = "qe_execution_id q"
    have key: "(?x, slug) \<in> set (row_keys w1)"
      using peeked_key [OF assms(1)] p q(3) c1 by (simp add: calm_def)
    obtain r w2 where h: "run_state (hand_off X slug ?x) w1 = (r, w2)" by fastforce
    note hand = hand_off_passes [OF w1 key h]
    show ?thesis
    proof (cases r)
      case (Inl e)
      with hand(1) p q h show ?thesis by (simp add: on_execution_complete_def)
    next
      case (Inr u)
      let ?w3 = "snd (run_state (mark_ready (qe_id q)) w2)"
      have w3: "passed_to slug ?x ?w3" by (rule mark_ready_passes [OF hand(2) [OF Inr]])
      have run: "snd (run_state (on_execution_complete X slug cc ac) w) =
          (if requires_approval ac then snd (run_state (mark_pending_approval ?x) ?w3)
           else snd (run_state (spawn_task (RunDequeued slug ?x cc ac)) ?w3))"
        using p q h Inr by (simp add: on_execution_complete_def split: prod.splits)
      show ?thesis
        using defer_passes [OF w3] spawn_passes [OF w3, of "RunDequeued slug ?x cc ac"]
        by (simp only: run lock_claim.simps) simp
    qed
  qed
qed

section \<open>The steps\<close>

text \<open>Running a task: taken off the list, it leaves its hook vacant.\<close>

lemma without_task_orderly:
  assumes "orderly w" and "k < length (w_tasks w)"
  shows "orderly (without_task k w)"
    and "lock_claim (w_tasks w ! k) = Some (slug, i) \<Longrightarrow> vacant slug (without_task k w)"
proof -
  let ?t = "w_tasks w ! k" and ?w1 = "without_task k w"
  have split: "w_tasks w = take k (w_tasks w) @ [?t] @ drop (Suc k) (w_tasks w)"
    using assms(2) by (simp add: id_take_nth_drop)
  have claims: "claims s w = claims_in s (take k (w_tasks w)) @ claims_in s [?t]
      @ claims_in s (drop (Suc k) (w_tasks w))" for s
    by (metis split claims_in_simps(2))
  have claims1: "claims s ?w1 = claims_in s (take k (w_tasks w)) @ claims_in s (drop (Suc k) (w_tasks w))" for s
    by (simp add: without_task_def)
  have same: "row_keys ?w1 = row_keys w" "undecided s ?w1 = undecided s w"
      "holder_of s ?w1 = holder_of s w" "controlled s ?w1 = controlled s w"
      "queue_refers ?w1 = queue_refers w" "w_config ?w1 = w_config w" for s
    by (simp_all add: without_task_def row_keys_def undecided_def holder_of_def controlled_def
        queue_refers_def)
  have turns: "turn s w" for s using assms(1) by (simp add: orderly_def)
  have "turn s ?w1" for s
    using turns [of s] claims [of s] claims1 [of s] same
    by (auto simp: turn_def append_eq_Cons_conv)
  then show "orderly ?w1" using assms(1) same by (simp add: orderly_def exec_ids_row_keys)
  show "vacant slug ?w1" if "lock_claim ?t = Some (slug, i)"
    using turns [of slug] claims [of slug] claims1 [of slug] same that
    by (auto simp: turn_def vacant_def append_eq_Cons_conv)
qed

lemma run_locked_orderly:
  assumes "orderly w" and "vacant slug w"
  shows "orderly (snd (run_state (do { result \<leftarrow> run_with_retries X ctx rc;
           _ \<leftarrow> notify_completion X hook i result;
           on_execution_complete X slug cc ac }) w))"
proof -
  let ?m = "do { result \<leftarrow> run_with_retries X ctx rc; notify_completion X hook i result }"
  have m: "state_io_rel calm ?m" by (intro calm_intros)
  let ?w1 = "snd (run_state ?m w)"
  have 1: "run_state ?m w = ((), ?w1)" by (simp only: prod_eq_iff) simp
  have "orderly ?w1" "vacant slug ?w1"
    using orderly_calm [OF assms(1) calm_state [OF m 1]] vacant_calm [OF assms(2) calm_state [OF m 1]]
    by auto
  then have "orderly (snd (run_state (on_execution_complete X slug cc ac) ?w1))"
    by (rule completion_orderly)
  moreover have "run_state (do { result \<leftarrow> run_with_retries X ctx rc;
           _ \<leftarrow> notify_completion X hook i result;
           on_execution_complete X slug cc ac }) w
      = run_state (on_execution_complete X slug cc ac) ?w1"
    by (simp add: case_prod_unfold)
  ultimately show ?thesis by simp
qed

lemma run_free_orderly:
  assumes "orderly w" and "state_io_rel calm m"
  shows "orderly (snd (run_state m w))"
  using assms orderly_calm by (auto simp: state_io_rel_def)

lemma run_dequeued_orderly:
  assumes "orderly w" and "vacant slug w"
  shows "orderly (snd (run_state (run_dequeued X slug i cc ac) w))"
proof -
  let ?w1 = "w\<lparr>w_stmts := Suc (w_stmts w)\<rparr>"
  have c: "calm w ?w1" by (simp add: calmI)
  have w1: "orderly ?w1" "vacant slug ?w1"
    using orderly_calm [OF assms(1) c] vacant_calm [OF assms(2) c] by auto
  have rel: "orderly (snd (run_state (do { _ \<leftarrow> release slug; return () }) ?w1))"
    using release_orderly [OF w1(1)] w1(2) by (simp only: release_ignored vacant_def)
  show ?thesis
  proof (cases "fst (run_state (execution_get_by_id i) w)")
    case (Inl e)
    with rel show ?thesis by (simp add: run_dequeued_def)
  next
    case (Inr exec)
    show ?thesis
    proof (cases "find_hook (\<lambda>h. hk_slug h = slug) (w_config w)")
      case None
      with rel Inr show ?thesis by (simp add: run_dequeued_def)
    next
      case (Some hook)
      with Inr run_locked_orderly [OF w1] show ?thesis
        by (simp add: run_dequeued_def Let_def)
    qed
  qed
qed

lemma task_orderly:
  assumes "orderly w" and "k < length (w_tasks w)"
  shows "orderly (snd (run_state (run_task X (w_tasks w ! k)) (without_task k w)))"
proof -
  note w1 = without_task_orderly [OF assms]
  have started: "orderly (snd (run_state (do { result \<leftarrow> run_with_retries X ctx rc;
      _ \<leftarrow> notify_completion X hook (xc_execution_id ctx) result;
      if hk_concurrency hook \<noteq> None
      then on_execution_complete X (xc_hook_slug ctx) (hk_concurrency hook) (hk_approval hook)
      else return () }) (without_task k w)))"
    if "lock_claim (w_tasks w ! k) = (if hk_concurrency hook \<noteq> None
          then Some (xc_hook_slug ctx, xc_execution_id ctx) else None)" for ctx rc hook
  proof (cases "hk_concurrency hook")
    case None
    have "state_io_rel calm (do { result \<leftarrow> run_with_retries X ctx rc;
      _ \<leftarrow> notify_completion X hook (xc_execution_id ctx) result; return () })"
      by (intro calm_intros)
    from run_free_orderly [OF w1(1) this] None show ?thesis by simp
  next
    case (Some c)
    with that have "vacant (xc_hook_slug ctx) (without_task k w)" by (intro w1(2)) simp
    from run_locked_orderly [OF w1(1) this] Some show ?thesis by simp
  qed
  show ?thesis
  proof (cases "w_tasks w ! k")
    case (RunTriggered ctx rc hook)
    with started [of hook ctx rc] show ?thesis by (simp add: run_triggered_def)
  next
    case (RunReplay ctx rc hook)
    with run_free_orderly [OF w1(1) calm_run(3)] show ?thesis by simp
  next
    case (RunApproved ctx rc hook)
    with started [of hook ctx rc] show ?thesis by (simp add: run_approved_def)
  next
    case (RunDequeued slug i cc ac)
    with run_dequeued_orderly [OF w1(1) w1(2)] show ?thesis by simp
  qed
qed

text \<open>Rows that are added: the new row may only be undecided when it is the hook's turn.\<close>

lemma create_cases:
  assumes "run_state (execution_create X new) w = (r, w')"
  shows "(calm w w' \<and> isl r)
    \<or> (\<exists>i at. w_execs w' = w_execs w @ [new_row i at new] \<and> (\<forall>j. ne_id new = Some j \<longrightarrow> i = j)
         \<and> i \<notin> ex_id ` set (w_execs w) \<and> w_locks w' = w_locks w \<and> w_tasks w' = w_tasks w
         \<and> w_queue w' = w_queue w \<and> w_config w' = w_config w
         \<and> (r = Inr (new_row i at new) \<or> isl r))"
proof -
  obtain i w1 where 1: "run_state (case ne_id new of Some i \<Rightarrow> return i | None \<Rightarrow> new_id) w = (i, w1)"
      "calm w w1" "\<forall>j. ne_id new = Some j \<longrightarrow> i = j" "w_execs w1 = w_execs w" "w_fault w1 = w_fault w"
  proof (cases "ne_id new")
    case None
    then show ?thesis
      by (intro that [of "w_uuids w (w_next_uuid w)" "w\<lparr>w_next_uuid := Suc (w_next_uuid w)\<rparr>"])
         (simp_all add: calmI)
  next
    case (Some j)
    then show ?thesis by (intro that [of j w]) (simp_all add: calm.rel_refl)
  qed
  let ?at = "fmt_millis X (w_clock w1 (w_ticks w1) div 1000000)"
  have same: "w_locks w1 = w_locks w" "w_tasks w1 = w_tasks w" "w_queue w1 = w_queue w"
      "w_config w1 = w_config w"
    using 1(2) by (simp_all add: calm_def)
  let ?row = "new_row i ?at new"
  have id: "ex_id ?row = i" by (simp add: new_row_def)
  show ?thesis
  proof (cases "w_fault w1 (w_stmts w1) \<or> i \<in> ex_id ` set (w_execs w)
      \<or> \<not> set_option (ex_retry_of ?row) \<subseteq> ex_id ` set (w_execs w)")
    case True
    have "calm w (w1\<lparr>w_ticks := n, w_stmts := m\<rparr>)" for n m
      using 1(4) same by (simp add: calmI)
    with True assms 1(1,4) show ?thesis
      by (auto simp: execution_create_def insert_execution_def id split: if_splits)
  next
    case False
    then have "find_row ex_id i (w_execs w) = None" by (simp add: find_row_None_iff)
    with False assms 1(1,3,4) same show ?thesis
      by (intro disjI2 exI [of _ i] exI [of _ ?at])
         (auto simp: execution_create_def insert_execution_def id find_exec_def find_row_append
           split: if_splits)
  qed
qed

lemma create_orderly:
  assumes "orderly w" and "run_state (execution_create X new) w = (r, w')"
    and "ne_status new = Some PendingApproval \<Longrightarrow> ne_id new \<noteq> None \<and> claims (ne_hook_slug new) w = []
        \<and> (controlled (ne_hook_slug new) w \<longrightarrow> undecided (ne_hook_slug new) w = {}
             \<and> holder_of (ne_hook_slug new) w = ne_id new)"
  shows "orderly w'"
proof -
  from create_cases [OF assms(2)] consider
      "calm w w'"
    | i at where "w_execs w' = w_execs w @ [new_row i at new]" "\<forall>j. ne_id new = Some j \<longrightarrow> i = j"
        "i \<notin> ex_id ` set (w_execs w)" "w_locks w' = w_locks w" "w_tasks w' = w_tasks w"
        "w_queue w' = w_queue w" "w_config w' = w_config w"
    by blast
  then show ?thesis
  proof cases
    case 1
    with assms(1) orderly_calm show ?thesis by blast
  next
    case (2 i at)
    let ?slug = "ne_hook_slug new" and ?e = "new_row i at new"
    have e: "ex_id ?e = i" "ex_hook_slug ?e = ?slug"
        "ex_status ?e = PendingApproval \<longleftrightarrow> ne_status new = Some PendingApproval"
      by (auto simp: new_row_def split: option.splits)
    have u: "undecided s w' = undecided s w
        \<union> (if s = ?slug \<and> ne_status new = Some PendingApproval then {i} else {})" for s
    proof -
      have "{x \<in> set (w_execs w'). ex_hook_slug x = s \<and> ex_status x = PendingApproval}
          = {x \<in> set (w_execs w). ex_hook_slug x = s \<and> ex_status x = PendingApproval}
            \<union> (if s = ?slug \<and> ne_status new = Some PendingApproval then {?e} else {})"
        using e by (auto simp: 2(1))
      then show ?thesis using e(1) by (simp add: undecided_def)
    qed
    have h: "holder_of s w' = holder_of s w" "controlled s w' = controlled s w" for s
      by (simp_all add: holder_of_def controlled_def 2)
    have "turn s w'" for s
    proof (cases "s = ?slug \<and> ne_status new = Some PendingApproval")
      case True
      then show ?thesis
        using assms(3) 2(2) by (auto simp: turn_def u h 2(5))
    next
      case False
      have "turn s w" using assms(1) by (simp add: orderly_def)
      then show ?thesis by (rule turn_mono) (use False in \<open>auto simp: u h 2\<close>)
    qed
    moreover have "exec_ids_distinct w'"
      using assms(1) 2(3) e by (simp add: orderly_def exec_ids_distinct_def 2(1))
    moreover have "queue_refers w'"
      using assms(1) unfolding orderly_def queue_refers_def 2(1,6) by auto
    ultimately show ?thesis using assms(1) by (simp add: orderly_def 2(7))
  qed
qed

text \<open>The barrier of a request.\<close>

lemma insert_queue_orderly:
  assumes "orderly w" and "(i, slug) \<in> set (row_keys w)"
    and "run_state (insert_queue_row k slug i t) w = (r, w')"
  shows "orderly w'"
proof -
  have c: "orderly (w\<lparr>w_stmts := Suc (w_stmts w)\<rparr>)"
    by (rule orderly_calm [OF assms(1)]) (simp add: calmI)
  let ?row = "\<lparr>qr_id = k, qr_hook_slug = slug, qr_execution_id = i,
    qr_position = next_position slug (w_queue w), qr_queued_at = t, qr_status = Waiting\<rparr>"
  let ?w1 = "w\<lparr>w_stmts := Suc (w_stmts w), w_queue := w_queue w @ [?row]\<rparr>"
  have "orderly ?w1"
  proof (rule orderly_frame [OF assms(1), where slug = slug])
    show "queue_refers ?w1"
      using assms(1,2) by (auto simp: orderly_def queue_refers_row_keys row_keys_def)
    have "turn slug w" using assms(1) by (simp add: orderly_def)
    then show "turn slug ?w1"
      by (rule turn_mono) (simp_all add: holder_of_def undecided_def)
  qed (simp_all add: row_keys_def undecided_def holder_of_def)
  with c assms(3) show ?thesis by (auto simp: insert_queue_row_def split: if_splits)
qed

lemma enqueue_orderly:
  assumes "orderly w" and "(i, slug) \<in> set (row_keys w)" and "run_state (enqueue X slug i) w = (r, w')"
  shows "orderly w'"
proof -
  let ?w1 = "w\<lparr>w_next_uuid := Suc (w_next_uuid w), w_ticks := Suc (w_ticks w)\<rparr>"
  have "orderly ?w1" by (rule orderly_calm [OF assms(1)]) (simp add: calmI)
  moreover have "(i, slug) \<in> set (row_keys ?w1)" using assms(2) by (simp add: row_keys_def)
  moreover obtain r1 w2 where 2: "run_state (insert_queue_row (w_uuids w (w_next_uuid w)) slug i
      (fmt_millis X (w_clock w (w_ticks w) div 1000000))) ?w1 = (r1, w2)"
    by fastforce
  ultimately have "orderly w2" by (rule insert_queue_orderly)
  then have "orderly (w2\<lparr>w_stmts := Suc (w_stmts w2)\<rparr>)"
    by (rule orderly_calm) (simp add: calmI)
  with \<open>orderly w2\<close> 2 assms(3) show ?thesis
    by (auto simp: enqueue_def split: sum.splits if_splits option.splits)
qed

lemma acquire_cases:
  assumes "run_state (try_acquire X slug i) w = (r, w')"
  shows "(calm w w' \<and> r \<noteq> Inr True)
    \<or> (r = Inr True \<and> holder_of slug w = None \<and> holder_of slug w' = Some i
       \<and> (\<forall>s. s \<noteq> slug \<longrightarrow> holder_of s w' = holder_of s w)
       \<and> w_execs w' = w_execs w \<and> w_tasks w' = w_tasks w \<and> w_queue w' = w_queue w
       \<and> w_config w' = w_config w)"
  using assms find_row_None_iff [of lk_hook_slug slug "w_locks w"]
  by (auto simp: try_acquire_def holder_of_def find_row_append calmI split: if_splits option.splits)

lemma acquire_orderly:
  assumes "orderly w" and "controlled slug w" and "run_state (try_acquire X slug i) w = (r, w')"
  shows "orderly w'"
    and "r = Inr True \<Longrightarrow> controlled slug w' \<and> claims slug w' = [] \<and> undecided slug w' = {}
           \<and> holder_of slug w' = Some i"
proof -
  have t: "turn slug w" using assms(1) by (simp add: orderly_def)
  from acquire_cases [OF assms(3)] have "orderly w' \<and> (r = Inr True \<longrightarrow>
      controlled slug w' \<and> claims slug w' = [] \<and> undecided slug w' = {} \<and> holder_of slug w' = Some i)"
  proof (elim disjE conjE)
    assume "calm w w'" "r \<noteq> Inr True"
    with assms(1) orderly_calm show ?thesis by blast
  next
    assume a: "r = Inr True" "holder_of slug w = None" "holder_of slug w' = Some i"
      "\<forall>s. s \<noteq> slug \<longrightarrow> holder_of s w' = holder_of s w" "w_execs w' = w_execs w"
      "w_tasks w' = w_tasks w" "w_queue w' = w_queue w" "w_config w' = w_config w"
    have u: "undecided s w' = undecided s w" for s by (simp add: undecided_def a)
    have free: "claims slug w' = []" "undecided slug w' = {}"
      using t a(2) assms(2) by (auto simp: turn_def u a(6))
    have "orderly w'"
    proof (rule orderly_frame [OF assms(1) a(8), where slug = slug])
      show "queue_refers w'" using assms(1) a(5,7) by (simp add: orderly_def queue_refers_def)
    qed (use a u free in \<open>simp_all add: row_keys_def turn_vacant\<close>)
    moreover have "controlled slug w'" using assms(2) by (simp add: controlled_def a(8))
    ultimately show ?thesis using a(3) free by simp
  qed
  then show "orderly w'" "r = Inr True \<Longrightarrow> controlled slug w' \<and> claims slug w' = []
      \<and> undecided slug w' = {} \<and> holder_of slug w' = Some i"
    by blast+
qed

lemma enqueue_or_reject_orderly:
  assumes "orderly w" and "ne_hook_slug new = slug" and "ne_id new = Some i" and "ne_status new = None"
    and "run_state (enqueue_or_reject X slug i c new) w = (out, w')"
  shows "orderly w' \<and> out \<noteq> Proceed"
proof -
  let ?w1 = "w\<lparr>w_stmts := Suc (w_stmts w)\<rparr>"
  have w1: "orderly ?w1" by (rule orderly_calm [OF assms(1)]) (simp add: calmI)
  obtain r2 w2 where 2: "run_state (execution_create X new) ?w1 = (r2, w2)" by fastforce
  have w2: "orderly w2" by (rule create_orderly [OF w1 2]) (simp add: assms(4))
  have key: "(i, slug) \<in> set (row_keys w2)" if "r2 = Inr e" for e
    using create_cases [OF 2] that assms(2,3)
    by (auto simp: row_keys_def new_row_def)
  obtain r3 w3 where 3: "run_state (enqueue X slug i) w2 = (r3, w3)" by fastforce
  have w3: "orderly w3" if "r2 = Inr e" for e by (rule enqueue_orderly [OF w2 key [OF that] 3])
  show ?thesis
    using assms(5) w1 w2 w3 2 3
    by (auto simp: enqueue_or_reject_def count_waiting_def split: if_splits sum.splits)
qed

lemma evaluate_orderly:
  assumes "orderly w" and "controlled slug w"
    and "ne_hook_slug new = slug" and "ne_id new = Some i" and "ne_status new = None"
    and "run_state (concurrency_evaluate X slug i c new) w = (out, w')"
  shows "orderly w'"
    and "out = Proceed \<Longrightarrow> controlled slug w' \<and> claims slug w' = [] \<and> undecided slug w' = {}
           \<and> holder_of slug w' = Some i"
proof -
  obtain r w1 where 1: "run_state (try_acquire X slug i) w = (r, w1)" by fastforce
  note a = acquire_orderly [OF assms(1,2) 1]
  obtain out2 w2 where 2: "run_state (enqueue_or_reject X slug i c new) w1 = (out2, w2)" by fastforce
  note e = enqueue_or_reject_orderly [OF a(1) assms(3-5) 2]
  show "orderly w'" "out = Proceed \<Longrightarrow> controlled slug w' \<and> claims slug w' = [] \<and> undecided slug w' = {}
           \<and> holder_of slug w' = Some i"
    using assms(6) 1 2 a e
    by (auto simp: concurrency_evaluate_def split: sum.splits if_splits concurrency_mode.splits)
qed

definition ready :: "string \<Rightarrow> string \<Rightarrow> world \<Rightarrow> bool" where
  "ready slug i w \<longleftrightarrow> controlled slug w \<and> claims slug w = [] \<and> undecided slug w = {}
     \<and> holder_of slug w = Some i"

lemma create_passes:
  assumes "orderly w" and "ready slug i w"
    and "ne_hook_slug new = slug" and "ne_id new = Some i" and "ne_status new = None"
    and "run_state (execution_create X new) w = (Inr e, w')"
  shows "passed_to slug i w'"
proof -
  have "orderly w'" by (rule create_orderly [OF assms(1,6)]) (simp add: assms(5))
  moreover from create_cases [OF assms(6)] obtain at where
      "w_execs w' = w_execs w @ [new_row i at new]" "w_locks w' = w_locks w" "w_tasks w' = w_tasks w"
      "w_config w' = w_config w"
    using assms(4) by auto
  ultimately show ?thesis
    using assms(2,3,5)
    by (auto simp: ready_def passed_to_def controlled_def holder_of_def undecided_def row_keys_def
        new_row_def)
qed

lemma controlled_hook:
  assumes "orderly w" and "h \<in> set (cf_hooks (w_config w))"
  shows "controlled (hk_slug h) w \<longleftrightarrow> hk_concurrency h \<noteq> None"
  using assms by (auto simp: controlled_def orderly_def distinct_map dest: inj_onD)

lemma spawn_unclaimed:
  assumes "orderly w" and "lock_claim t = None"
  shows "orderly (snd (run_state (spawn_task t) w))"
proof -
  have "turn [] w" using assms(1) by (simp add: orderly_def)
  then have "turn [] (w\<lparr>w_tasks := w_tasks w @ [t]\<rparr>)"
    by (rule turn_mono) (simp_all add: assms(2) holder_of_def undecided_def)
  then have "orderly (w\<lparr>w_tasks := w_tasks w @ [t]\<rparr>)"
    using assms
    by (intro orderly_frame [OF assms(1), where slug = "[]"])
       (simp_all add: row_keys_def undecided_def holder_of_def orderly_def queue_refers_def)
  then show ?thesis by simp
qed

lemma fire_orderly:
  assumes "orderly w" and "ne_hook_slug new = slug" and "ne_id new = Some i" and "ne_status new = None"
    and "hk_concurrency hook \<noteq> None \<Longrightarrow> ready slug i w"
    and "run_state (fire X config hook slug ip new payload) w = (out, w')"
  shows "orderly w'"
proof -
  obtain r w1 where 1: "run_state (execution_create X new) w = (r, w1)" by fastforce
  have w1: "orderly w1" by (rule create_orderly [OF assms(1) 1]) (simp add: assms(4))
  show ?thesis
  proof (cases r)
    case (Inl e)
    with w1 1 assms(6) show ?thesis by (simp add: fire_def)
  next
    case (Inr e)
    have id: "ex_id e = i" using create_cases [OF 1] Inr assms(3) by (auto simp: new_row_def)
    let ?w2 = "snd (run_state (log_attempt X slug ip Fired ''ok'' (Some (ex_id e))) w1)"
    let ?t = "RunTriggered (trigger_context X config hook (ex_id e) slug payload)
                (resolve_retry_config hook (df_retries (cf_defaults config))) hook"
    have c: "calm w1 ?w2" using calm_attempts(1) by (simp add: state_io_rel_def)
    have w': "w' = snd (run_state (spawn_task ?t) ?w2)"
      using 1 Inr assms(6) by (simp add: fire_def case_prod_unfold)
    show ?thesis
    proof (cases "hk_concurrency hook")
      case None
      then show ?thesis unfolding w'
        by (intro spawn_unclaimed orderly_calm [OF w1 c]) simp
    next
      case (Some cc)
      have "passed_to slug i ?w2"
        using create_passes [OF assms(1) _ assms(2-4) 1 [unfolded Inr]] assms(5) Some passed_calm c
        by simp
      then show ?thesis unfolding w'
        by (rule spawn_passes) (simp add: Some id trigger_context_def)
    qed
  qed
qed

lemma log_attempt_orderly: "orderly w \<Longrightarrow> orderly (snd (run_state (log_attempt X slug ip st reason j) w))"
  using orderly_calm calm_attempts(1) by (simp add: state_io_rel_def)

text \<open>Passing the concurrency control: with it, the execution has its turn; without it, nothing happened.\<close>

lemma pass_concurrency_orderly:
  assumes "orderly w" and "hook \<in> set (cf_hooks (w_config w))" and "hk_slug hook = slug"
    and "run_state (pass_concurrency X hook slug ip i new) w = (r, w')"
    and "ne_hook_slug new = slug" and "ne_id new = Some i" and "ne_status new = None"
  shows "orderly w' \<and> (r = Inr () \<longrightarrow> (hk_concurrency hook \<noteq> None \<longrightarrow> ready slug i w')
      \<and> (hk_concurrency hook = None \<longrightarrow> w' = w))"
proof (cases "hk_concurrency hook")
  case None
  with assms(1,4) show ?thesis by (simp add: pass_concurrency_def)
next
  case (Some cc)
  then have "controlled slug w" using controlled_hook [OF assms(1,2)] assms(3) by simp
  obtain o1 w2 where 2: "run_state (concurrency_evaluate X slug i cc new) w = (o1, w2)" by fastforce
  have w2: "orderly w2" "o1 = Proceed \<Longrightarrow> ready slug i w2"
    using evaluate_orderly [OF assms(1) \<open>controlled slug w\<close> assms(5-7) 2] by (simp_all add: ready_def)
  with assms(4) 2 Some log_attempt_orderly [OF w2(1)] show ?thesis
    by (cases o1) (auto simp: pass_concurrency_def case_prod_unfold)
qed

lemma pass_approval_orderly:
  assumes "orderly w" and "controlled slug w \<Longrightarrow> ready slug i w"
    and "run_state (pass_approval X hook slug ip i path payload) w = (r, w')"
  shows "orderly w' \<and> (r = Inr () \<longrightarrow> w' = w)"
proof (cases "requires_approval (hk_approval hook)")
  case False
  with assms(1,3) show ?thesis by (simp add: pass_approval_def)
next
  case True
  obtain r3 w3 where 3: "run_state (execution_create X
      (trigger_execution i slug path ip payload (Some PendingApproval))) w = (r3, w3)" by fastforce
  have "turn slug w" using assms(1) by (simp add: orderly_def)
  then have "orderly w3"
    using assms(2)
    by (intro create_orderly [OF assms(1) 3]) (auto simp: trigger_execution_def ready_def turn_def)
  with assms(3) 3 True log_attempt_orderly [of w3] show ?thesis
    by (cases r3) (auto simp: pass_approval_def case_prod_unfold)
qed

lemma start_execution_orderly:
  assumes "orderly w" and "hook \<in> set (cf_hooks (w_config w))" and "hk_slug hook = slug"
    and "run_state (start_execution X (w_config w) hook slug ip payload) w = (out, w')"
  shows "orderly w'"
proof -
  let ?i = "w_uuids w (w_next_uuid w)" and ?w0 = "w\<lparr>w_next_uuid := Suc (w_next_uuid w)\<rparr>"
  let ?path = "lg_dir (cf_logs (w_config w)) @ ''/'' @ ?i"
  let ?new = "trigger_execution ?i slug ?path ip payload None"
  have w0: "orderly ?w0" by (rule orderly_calm [OF assms(1)]) (simp add: calmI)
  have hook0: "hook \<in> set (cf_hooks (w_config ?w0))" using assms(2) by simp
  note ctl = controlled_hook [OF w0 hook0, unfolded assms(3)]
  obtain r1 w1 where 1: "run_state (pass_concurrency X hook slug ip ?i ?new) ?w0 = (r1, w1)" by fastforce
  have passed: "orderly w1 \<and> (r1 = Inr () \<longrightarrow> (hk_concurrency hook \<noteq> None \<longrightarrow> ready slug ?i w1)
      \<and> (hk_concurrency hook = None \<longrightarrow> w1 = ?w0))"
    by (rule pass_concurrency_orderly [OF w0 hook0 assms(3) 1]) (simp_all add: trigger_execution_def)
  then have w1: "orderly w1" by simp
  show ?thesis
  proof (cases r1)
    case (Inl e)
    with 1 w1 assms(4) show ?thesis by (simp add: start_execution_def finish_with_def Let_def)
  next
    case (Inr u)
    with passed have go: "(hk_concurrency hook \<noteq> None \<longrightarrow> ready slug ?i w1)
        \<and> (hk_concurrency hook = None \<longrightarrow> w1 = ?w0)" by simp
    obtain r2 w2 where 2: "run_state (pass_approval X hook slug ip ?i ?path payload) w1 = (r2, w2)" by fastforce
    have "controlled slug w1 \<Longrightarrow> ready slug ?i w1" using go ctl by (cases "hk_concurrency hook") auto
    note w2 = pass_approval_orderly [OF w1 this 2]
    show ?thesis
    proof (cases r2)
      case (Inl e)
      with 1 2 Inr w2 assms(4) show ?thesis by (simp add: start_execution_def finish_with_def Let_def)
    next
      case (Inr u2)
      have "run_state (fire X (w_config w) hook slug ip ?new payload) w1 = (out, w')"
        using 1 2 \<open>r1 = Inr u\<close> Inr w2 assms(4)
        by (simp add: start_execution_def finish_with_def Let_def)
      from fire_orderly [OF w1 _ _ _ _ this] go show ?thesis by (simp add: trigger_execution_def)
    qed
  qed
qed

lemma find_hook_SomeD: "find_hook p config = Some h \<Longrightarrow> h \<in> set (cf_hooks config) \<and> p h"
  by (auto simp: find_hook_def find_Some_iff)

lemma trigger_orderly:
  assumes "orderly w"
  shows "orderly (snd (run_state (trigger_hook X peer slug hs body) w))"
proof (cases "find_hook (\<lambda>h. hk_slug h = slug \<and> hk_enabled h) (w_config w)")
  case None
  with assms show ?thesis by (simp add: trigger_hook_def)
next
  case (Some hook)
  note h = find_hook_SomeD [OF Some]
  let ?ip = "extract_source_ip hs peer"
  obtain r w1 where 1: "run_state (admit X hook slug ?ip hs body) w = (r, w1)" by fastforce
  have c: "calm w w1" by (rule calm_state [OF calm_admit 1])
  have w1: "orderly w1" by (rule orderly_calm [OF assms c])
  have cfg: "w_config w1 = w_config w" using c by (simp add: calm_def)
  show ?thesis
  proof (cases r)
    case (Inl out)
    with 1 Some w1 show ?thesis by (simp add: trigger_hook_def finish_with_def)
  next
    case (Inr payload)
    have "orderly (snd (run_state (start_execution X (w_config w1) hook slug ?ip payload) w1))"
      by (rule start_execution_orderly [OF w1 _ _ prod.collapse [symmetric]]) (use h cfg in auto)
    with 1 Some Inr cfg show ?thesis by (simp add: trigger_hook_def finish_with_def)
  qed
qed

section \<open>Decisions and sweeps\<close>

lemma undecided_turn:
  assumes "orderly w" and "i \<in> undecided slug w"
  shows "claims slug w = []" and "controlled slug w \<Longrightarrow> undecided slug w = {i} \<and> holder_of slug w = Some i"
proof -
  have "turn slug w" using assms(1) by (simp add: orderly_def)
  with assms(2) have t: "claims slug w = []"
      "controlled slug w \<Longrightarrow> j \<in> undecided slug w \<Longrightarrow> holder_of slug w = Some j" for j
    by (auto simp: turn_def)
  show "claims slug w = []" by (rule t(1))
  show "undecided slug w = {i} \<and> holder_of slug w = Some i" if "controlled slug w"
  proof -
    have "holder_of slug w = Some i" by (rule t(2) [OF that assms(2)])
    then have "j \<in> undecided slug w \<Longrightarrow> j = i" for j using t(2) [OF that, of j] by simp
    then show ?thesis using assms(2) \<open>holder_of slug w = Some i\<close> by blast
  qed
qed

text \<open>An execution that was undecided and is not any more leaves its hook ready for itself.\<close>

lemma decided_ready:
  assumes "orderly w" and "i \<in> undecided slug w" and "calm w w1" and "i \<notin> undecided slug w1"
  shows "claims slug w1 = []" and "controlled slug w1 \<Longrightarrow> passed_to slug i w1"
proof -
  have c: "w_tasks w1 = w_tasks w" "w_config w1 = w_config w" "w_locks w1 = w_locks w"
      "row_keys w1 = row_keys w" "undecided slug w1 \<subseteq> undecided slug w"
    using assms(3) by (simp_all add: calm_def)
  note u = undecided_turn [OF assms(1,2)]
  show "claims slug w1 = []" using u(1) by (simp add: c)
  have key: "(i, slug) \<in> set (row_keys w1)"
    using assms(2) unfolding c(4) by (auto simp: row_keys_def undecided_def)
  show "passed_to slug i w1" if ctl: "controlled slug w1"
  proof -
    have "controlled slug w" using ctl by (simp add: controlled_def c)
    with u(2) c(5) assms(4) have "undecided slug w1 = {}" "holder_of slug w = Some i" by auto
    then show ?thesis
      using ctl u(1) key orderly_calm [OF assms(1,3)]
      by (simp add: passed_to_def c holder_of_def)
  qed
qed

lemma moved_decided:
  assumes "exec_ids_distinct w" and "moved PendingApproval t i w w1" and "t \<noteq> PendingApproval"
    and "find_exec i w1 = Some e" and "row_keys w1 = row_keys w"
  shows "i \<in> undecided (ex_hook_slug e) w" and "i \<notin> undecided (ex_hook_slug e) w1"
proof -
  obtain e0 where e0: "find_exec i w = Some e0" "ex_status e0 = PendingApproval"
    using assms(2) by (auto simp: moved_def status_of_def)
  then have "e0 \<in> set (w_execs w)" "ex_id e0 = i" by (auto simp: find_exec_def dest: find_row_SomeD)
  moreover have e: "e \<in> set (w_execs w1)" "ex_id e = i"
    using assms(4) by (auto simp: find_exec_def dest: find_row_SomeD)
  moreover have "ex_hook_slug e0 = ex_hook_slug e"
  proof (rule row_keys_unique [OF assms(1)])
    show "(i, ex_hook_slug e0) \<in> set (row_keys w)"
      using \<open>e0 \<in> set (w_execs w)\<close> \<open>ex_id e0 = i\<close> by (force simp: row_keys_def)
    show "(i, ex_hook_slug e) \<in> set (row_keys w)"
      using e unfolding assms(5) [symmetric] by (force simp: row_keys_def)
  qed
  ultimately show "i \<in> undecided (ex_hook_slug e) w" using e0(2) by (force simp: undecided_def)
  have ids: "distinct (map ex_id (w_execs w1))"
    using assms(1,2) by (simp add: moved_def exec_ids_distinct_def)
  have "ex_status x = t" if "x \<in> set (w_execs w1)" "ex_id x = i" for x
  proof -
    have "find_exec i w1 = Some x" using that ids by (simp add: find_exec_def find_row_Some_iff)
    then show ?thesis using assms(2) by (simp add: moved_def status_of_def)
  qed
  then show "i \<notin> undecided (ex_hook_slug e) w1" using assms(3) by (auto simp: undecided_def)
qed

lemma complete_if_holder_orderly:
  assumes "orderly w" and "hook \<in> set (cf_hooks (w_config w))"
    and "claims (hk_slug hook) w = []"
    and "controlled (hk_slug hook) w \<Longrightarrow> undecided (hk_slug hook) w = {}"
  shows "orderly (snd (run_state (complete_if_holder X (hk_slug hook) hook i) w))"
proof -
  let ?slug = "hk_slug hook" and ?w1 = "w\<lparr>w_stmts := Suc (w_stmts w)\<rparr>"
  have c: "calm w ?w1" by (simp add: calmI)
  have w1: "orderly ?w1" by (rule orderly_calm [OF assms(1) c])
  have u1: "undecided ?slug ?w1 = undecided ?slug w" "controlled ?slug ?w1 = controlled ?slug w"
    by (simp_all add: undecided_def controlled_def)
  have run: "orderly (snd (run_state (on_execution_complete X ?slug (hk_concurrency hook) ac) ?w1))"
    if "holder_of ?slug w = Some i" for ac
  proof (cases "hk_concurrency hook")
    case None
    have "\<not> controlled ?slug ?w1" using controlled_hook [OF assms(1,2)] None u1 by simp
    then have "orderly (snd (run_state (release ?slug) ?w1))"
      by (intro release_orderly [OF w1]) (simp_all add: assms(3))
    then show ?thesis unfolding on_execution_complete_def None
      by (simp only: option.case release_ignored)
  next
    case (Some cc)
    have "vacant ?slug ?w1"
      using assms(3,4) controlled_hook [OF assms(1,2)] Some u1 that
      by (auto simp: vacant_def holder_of_def)
    from completion_orderly [OF w1 this] show ?thesis .
  qed
  show ?thesis
    using run w1 by (simp add: complete_if_holder_def)
qed

lemma approve_orderly:
  assumes "orderly w"
  shows "orderly (snd (run_state (approve_execution X who i) w))"
proof -
  obtain r w1 where 1: "run_state (mark_approved X i who) w = (r, w1)" by fastforce
  have c: "calm w w1" by (rule calm_state [OF calm_transitions(5) 1])
  have w1: "orderly w1" by (rule orderly_calm [OF assms c])
  show ?thesis
  proof (cases r)
    case (Inl e)
    with 1 w1 show ?thesis by (simp add: approve_execution_def)
  next
    case (Inr e)
    have ids: "exec_ids_distinct w" using assms by (simp add: orderly_def)
    have m: "moved PendingApproval Approved i w w1"
      using approved.success [OF ids] 1 Inr by blast
    have e: "find_exec i w1 = Some e"
      using 1 Inr by (auto simp: mark_approved_def find_exec_def split: if_splits option.splits)
    have id: "ex_id e = i" using e by (auto simp: find_exec_def dest: find_row_SomeD)
    have keys: "row_keys w1 = row_keys w" using c by (simp add: calm_def)
    note d = decided_ready [OF assms moved_decided(1) [OF ids m _ e keys] c
        moved_decided(2) [OF ids m _ e keys]]
    show ?thesis
    proof (cases "find_hook (\<lambda>h. hk_slug h = ex_hook_slug e) (w_config w1)")
      case None
      with 1 Inr w1 show ?thesis by (simp add: approve_execution_def)
    next
      case (Some hook)
      note h = find_hook_SomeD [OF Some]
      let ?w2 = "snd (run_state (approved_to_pending i) w1)"
      let ?t = "RunApproved (trigger_context X (w_config w1) hook (ex_id e) (ex_hook_slug e)
          (ex_request_payload e)) (resolve_retry_config hook (df_retries (cf_defaults (w_config w1)))) hook"
      have c2: "calm w1 ?w2" using calm_transitions(8) by (simp add: state_io_rel_def)
      have run: "snd (run_state (approve_execution X who i) w) = snd (run_state (spawn_task ?t) ?w2)"
        using 1 Inr Some id by (simp add: approve_execution_def case_prod_unfold)
      show ?thesis
      proof (cases "hk_concurrency hook")
        case None
        then show ?thesis unfolding run by (intro spawn_unclaimed orderly_calm [OF w1 c2]) simp
      next
        case (Some cc)
        then have "controlled (ex_hook_slug e) w1" using controlled_hook [OF w1 conjunct1 [OF h]] h by simp
        then have "passed_to (ex_hook_slug e) i ?w2" using d(2) passed_calm c2 by simp
        then show ?thesis unfolding run
          by (rule spawn_passes) (simp add: Some id trigger_context_def)
      qed
    qed
  qed
qed

lemma calm_expire_for: "w_queue w' = update_rows p (\<lambda>q. q\<lparr>qr_status := st\<rparr>) (w_queue w) \<Longrightarrow>
    row_keys w' = row_keys w \<Longrightarrow> queue_refers w \<Longrightarrow> queue_refers w'"
  by (auto simp: queue_refers_row_keys set_update_rows)

lemma expire_entry:
  assumes "orderly w"
  shows "orderly (snd (run_state (expire_for_execution i) w))"
    and "w_config (snd (run_state (expire_for_execution i) w)) = w_config w"
    and "w_tasks (snd (run_state (expire_for_execution i) w)) = w_tasks w"
    and "undecided s (snd (run_state (expire_for_execution i) w)) = undecided s w"
    and "controlled s (snd (run_state (expire_for_execution i) w)) = controlled s w"
proof -
  let ?w1 = "snd (run_state (expire_for_execution i) w)"
  have same: "w_config ?w1 = w_config w" "w_tasks ?w1 = w_tasks w" "w_locks ?w1 = w_locks w"
      "w_execs ?w1 = w_execs w"
    by (simp_all add: expire_for_execution_def)
  then have keys: "row_keys ?w1 = row_keys w" "undecided s ?w1 = undecided s w" for s
    by (simp_all add: row_keys_def undecided_def)
  have "queue_refers ?w1"
    using assms keys(1)
    by (auto simp: orderly_def queue_refers_row_keys expire_for_execution_def set_update_rows row_keys_def)
  moreover have "turn [] ?w1"
    by (rule turn_mono [of "[]" w]) (use assms in \<open>simp_all add: orderly_def same keys holder_of_def\<close>)
  ultimately show "orderly ?w1"
    by (intro orderly_frame [OF assms, where slug = "[]"]) (simp_all add: same keys holder_of_def)
  show "w_config ?w1 = w_config w" "w_tasks ?w1 = w_tasks w" by (simp_all add: same)
  show "undecided s ?w1 = undecided s w" by (rule keys(2))
  show "controlled s ?w1 = controlled s w" by (simp add: controlled_def same)
qed

lemma reject_orderly:
  assumes "orderly w"
  shows "orderly (snd (run_state (reject_execution X who i) w))"
proof -
  obtain r w1 where 1: "run_state (mark_rejected X i who) w = (r, w1)" by fastforce
  have c: "calm w w1" by (rule calm_state [OF calm_transitions(6) 1])
  have w1: "orderly w1" by (rule orderly_calm [OF assms c])
  show ?thesis
  proof (cases r)
    case (Inl e)
    with 1 w1 show ?thesis by (simp add: reject_execution_def)
  next
    case (Inr e)
    have ids: "exec_ids_distinct w" using assms by (simp add: orderly_def)
    have m: "moved PendingApproval Rejected i w w1"
      using rejected.success [OF ids] 1 Inr by blast
    have e: "find_exec i w1 = Some e"
      using 1 Inr by (auto simp: mark_rejected_def find_exec_def split: if_splits option.splits)
    have keys: "row_keys w1 = row_keys w" using c by (simp add: calm_def)
    note d = decided_ready [OF assms moved_decided(1) [OF ids m _ e keys] c
        moved_decided(2) [OF ids m _ e keys]]
    let ?w2 = "snd (run_state (expire_for_execution (ex_id e)) w1)"
    note w2 = expire_entry [OF w1, where i = "ex_id e"]
    show ?thesis
    proof (cases "find_hook (\<lambda>h. hk_slug h = ex_hook_slug e) (w_config ?w2)")
      case None
      with 1 Inr w2(1) show ?thesis by (simp add: reject_execution_def case_prod_unfold)
    next
      case (Some hook)
      note h = find_hook_SomeD [OF Some]
      have "orderly (snd (run_state (complete_if_holder X (hk_slug hook) hook i) ?w2))"
      proof (rule complete_if_holder_orderly [OF w2(1) conjunct1 [OF h]])
        show "claims (hk_slug hook) ?w2 = []" using d(1) h by (simp add: w2(3))
        show "undecided (hk_slug hook) ?w2 = {}" if "controlled (hk_slug hook) ?w2"
          using d(2) h that by (simp add: w2(4,5) passed_to_def)
      qed
      with 1 Inr Some h show ?thesis by (simp add: reject_execution_def case_prod_unfold)
    qed
  qed
qed

text \<open>The sweep reads the configuration once; nothing it does changes it.\<close>

definition config_kept :: "world \<Rightarrow> world \<Rightarrow> bool" where
  "config_kept w w' \<longleftrightarrow> w_config w' = w_config w"

interpretation config: world_relation config_kept
  by standard (simp_all add: config_kept_def)

lemma config_kept_updates:
  "state_io_rel config_kept (update_execs p f)" "state_io_rel config_kept (update_queue p' f')"
  "state_io_rel config_kept (spawn_task t)"
  by (simp_all add: state_io_rel_def config_kept_def)

lemma config_kept_completion: "state_io_rel config_kept (on_execution_complete X slug cc ac)"
proof -
  have l: "state_io_rel config_kept (release slug)" "state_io_rel config_kept (hand_off X slug i)" for slug i
    by (auto simp: state_io_rel_def config_kept_def release_def hand_off_def)
  show ?thesis
    unfolding on_execution_complete_def peek_next_def mark_ready_def mark_pending_approval_def
      require_affected_def
    by (intro config.keeps_basic config_kept_updates l)
qed

lemma config_expire_one: "state_io_rel config_kept (expire_one X hook i)"
  unfolding expire_one_def mark_expired_def expire_for_execution_def complete_if_holder_def
    get_holder_def
  by (intro config.keeps_basic config_kept_updates config_kept_completion)

lemma mark_expired_decides:
  assumes "exec_ids_distinct w" and "run_state (mark_expired X i) w = (Inr u, w1)"
  shows "i \<notin> undecided slug w1"
proof -
  have w1: "w_execs w1 = update_rows (\<lambda>e. ex_id e = i \<and> ex_status e = PendingApproval)
      (\<lambda>e. e\<lparr>ex_status := Expired,
             ex_completed_at := Some (fmt_millis X (w_clock w (w_ticks w) div 1000000))\<rparr>) (w_execs w)"
    using arg_cong [OF assms(2), of fst] arg_cong [OF assms(2), of "\<lambda>p. w_execs (snd p)"]
    by (cases "w_fault w (w_stmts w)") (simp_all add: mark_expired_def)
  have "ex_status e \<noteq> PendingApproval" if "e \<in> set (w_execs w1)" "ex_id e = i" for e
  proof -
    let ?at = "Some (fmt_millis X (w_clock w (w_ticks w) div 1000000))"
    from that(1) obtain x where x: "e = (if ex_id x = i \<and> ex_status x = PendingApproval
        then x\<lparr>ex_status := Expired, ex_completed_at := ?at\<rparr> else x)"
      unfolding w1 set_update_rows by blast
    show ?thesis
      using that(2) by (cases "ex_id x = i \<and> ex_status x = PendingApproval") (simp_all add: x)
  qed
  then show ?thesis by (auto simp: undecided_def)
qed

lemma expire_one_orderly:
  assumes "orderly w" and "hook \<in> set (cf_hooks (w_config w))"
    and "controlled (hk_slug hook) w \<Longrightarrow> i \<in> undecided (hk_slug hook) w"
  shows "orderly (snd (run_state (expire_one X hook i) w))"
proof -
  let ?slug = "hk_slug hook"
  obtain r w1 where 1: "run_state (mark_expired X i) w = (r, w1)" by fastforce
  have c: "calm w w1" by (rule calm_state [OF calm_transitions(7) 1])
  have w1: "orderly w1" by (rule orderly_calm [OF assms(1) c])
  have same: "w_config w1 = w_config w" "claims ?slug w1 = claims ?slug w"
      "controlled ?slug w1 = controlled ?slug w"
    using c by (simp_all add: calm_def controlled_def)
  show ?thesis
  proof (cases r)
    case (Inl e)
    with 1 w1 show ?thesis by (simp add: expire_one_def)
  next
    case (Inr u)
    have ids: "exec_ids_distinct w" using assms(1) by (simp add: orderly_def)
    let ?w2 = "snd (run_state (expire_for_execution i) w1)"
    note w2 = expire_entry [OF w1, where i = i]
    have "orderly (snd (run_state (complete_if_holder X ?slug hook i) ?w2))"
    proof (rule complete_if_holder_orderly [OF w2(1)])
      show "hook \<in> set (cf_hooks (w_config ?w2))" using assms(2) by (simp add: w2(2) same)
      show "claims ?slug ?w2 = []"
      proof (cases "controlled ?slug w")
        case True
        from undecided_turn(1) [OF assms(1) assms(3) [OF this]] show ?thesis by (simp add: w2(3) same)
      next
        case False
        have "turn ?slug w" using assms(1) by (simp add: orderly_def)
        with False show ?thesis by (auto simp: turn_def w2(3) same)
      qed
      show "undecided ?slug ?w2 = {}" if "controlled ?slug ?w2"
      proof -
        have "controlled ?slug w" using that by (simp add: w2(5) same)
        then show ?thesis
          using decided_ready(2) [OF assms(1) assms(3) c mark_expired_decides [OF ids]] 1 Inr
          by (simp add: w2(4) same passed_to_def)
      qed
    qed
    with 1 Inr show ?thesis by (simp add: expire_one_def case_prod_unfold)
  qed
qed

lemma expire_rows_orderly:
  assumes "orderly w" and "hook \<in> set (cf_hooks (w_config w))" and "distinct eids"
    and "controlled (hk_slug hook) w \<Longrightarrow> set eids \<subseteq> undecided (hk_slug hook) w"
  shows "orderly (snd (run_state (expire_rows X hook eids) w))
         \<and> w_config (snd (run_state (expire_rows X hook eids) w)) = w_config w"
  using assms
proof (induction eids arbitrary: w)
  case (Cons i eids)
  let ?w1 = "snd (run_state (expire_one X hook i) w)"
  have cfg: "w_config ?w1 = w_config w"
    using config_expire_one by (simp add: state_io_rel_def config_kept_def)
  have w1: "orderly ?w1"
    by (rule expire_one_orderly [OF Cons.prems(1,2)]) (use Cons.prems(4) in auto)
  have "controlled (hk_slug hook) w \<Longrightarrow> eids = []"
    using undecided_turn(2) [OF Cons.prems(1), of _ "hk_slug hook"] Cons.prems(3,4)
    by (cases eids) auto
  moreover have "controlled (hk_slug hook) ?w1 = controlled (hk_slug hook) w"
    by (simp add: controlled_def cfg)
  ultimately have "orderly (snd (run_state (expire_rows X hook eids) ?w1))
         \<and> w_config (snd (run_state (expire_rows X hook eids) ?w1)) = w_config ?w1"
    using Cons.prems(2,3) by (intro Cons.IH [OF w1]) (auto simp: cfg)
  with cfg show ?case by (simp add: case_prod_unfold)
qed simp

lemma expire_hooks_orderly:
  assumes "orderly w" and "set hooks \<subseteq> set (cf_hooks (w_config w))"
  shows "orderly (snd (run_state (expire_hooks X now hooks) w))"
  using assms
proof (induction hooks arbitrary: w)
  case (Cons hook hooks)
  have "orderly (snd (run_state (expire_hook X now hook) w))
      \<and> w_config (snd (run_state (expire_hook X now hook) w)) = w_config w"
  proof (cases "Option.bind (hk_approval hook) ac_timeout")
    case None
    with Cons.prems(1) show ?thesis by (simp add: expire_hook_def)
  next
    case (Some timeout)
    let ?w1 = "w\<lparr>w_stmts := Suc (w_stmts w)\<rparr>"
    have w1: "orderly ?w1" by (rule orderly_calm [OF Cons.prems(1)]) (simp add: calmI)
    let ?rows = "map ex_id (filter (\<lambda>e. ex_hook_slug e = hk_slug hook \<and> ex_status e = PendingApproval
                          \<and> ex_triggered_at e < cutoff_text X now timeout) (w_execs w))"
    have "distinct ?rows"
      using Cons.prems(1) by (simp add: orderly_def exec_ids_distinct_def distinct_map_filter)
    moreover have "set ?rows \<subseteq> undecided (hk_slug hook) ?w1" by (auto simp: undecided_def)
    moreover have "hook \<in> set (cf_hooks (w_config ?w1))" using Cons.prems(2) by simp
    ultimately have "orderly (snd (run_state (expire_rows X hook ?rows) ?w1))
         \<and> w_config (snd (run_state (expire_rows X hook ?rows) ?w1)) = w_config ?w1"
      by (intro expire_rows_orderly [OF w1]) simp_all
    with Some w1 show ?thesis by (simp add: expire_hook_def overdue_approvals_def)
  qed
  with Cons.IH [of "snd (run_state (expire_hook X now hook) w)"] Cons.prems(2) show ?case
    by (simp add: case_prod_unfold)
qed simp

lemma sweep_orderly:
  assumes "orderly w"
  shows "orderly (snd (run_state (expire_pending_approvals X) w))"
proof -
  have "orderly (w\<lparr>w_ticks := Suc (w_ticks w)\<rparr>)"
    by (rule orderly_calm [OF assms]) (simp add: calmI)
  then show ?thesis
    using expire_hooks_orderly [of "w\<lparr>w_ticks := Suc (w_ticks w)\<rparr>" "cf_hooks (w_config w)" X
        "w_clock w (w_ticks w)"]
    by (simp add: expire_pending_approvals_def)
qed

lemma calm_sweep_counters: "state_io_rel calm (sweep_counters X)"
  unfolding sweep_counters_def Let_def
  by (intro calm_intros calm.keeps_sql; auto simp: calmI)

lemma replay_orderly:
  assumes "orderly w"
  shows "orderly (snd (run_state (replay_execution X i) w))"
proof -
  let ?w1 = "w\<lparr>w_stmts := Suc (w_stmts w)\<rparr>"
  have w1: "orderly ?w1" by (rule orderly_calm [OF assms]) (simp add: calmI)
  show ?thesis
  proof (cases "fst (run_state (execution_get_by_id i) w)")
    case (Inl e)
    with w1 show ?thesis by (simp add: replay_execution_def)
  next
    case (Inr original)
    let ?w2 = "?w1\<lparr>w_next_uuid := Suc (w_next_uuid w)\<rparr>"
    have w2: "orderly ?w2" by (rule orderly_calm [OF w1]) (simp add: calmI)
    let ?id = "w_uuids w (w_next_uuid w)"
    let ?new = "replay_new ?id (lg_dir (cf_logs (w_config w)) @ ''/'' @ ?id) original"
    obtain r w3 where 3: "run_state (execution_create X ?new) ?w2 = (r, w3)" by fastforce
    have w3: "orderly w3" by (rule create_orderly [OF w2 3]) (simp add: replay_new_def)
    show ?thesis
    proof (cases "find_hook (\<lambda>h. hk_slug h = ex_hook_slug original) (w_config w)")
      case None
      with Inr w1 show ?thesis by (simp add: replay_execution_def)
    next
      case (Some hook)
      have "orderly (snd (run_state (spawn_task (RunReplay ctx rc hook)) w3))" for ctx rc
        by (rule spawn_unclaimed [OF w3]) simp
      with Inr Some 3 w3 show ?thesis
        by (cases r) (simp_all add: replay_execution_def Let_def)
    qed
  qed
qed

section \<open>Restarts\<close>

lemma find_row_filter: "find_row key k rows = Some r \<Longrightarrow> q r \<Longrightarrow> find_row key k (filter q rows) = Some r"
  by (induction rows) (auto simp: find_row_def split: if_splits)

text \<open>Without tasks nobody claims a turn; what is undecided keeps its lock.\<close>

lemma orderly_idle:
  assumes "orderly w" and "w_config w' = w_config w" and "row_keys w' = row_keys w" and "queue_refers w'"
    and "w_tasks w' = []" and "\<And>s. undecided s w' \<subseteq> undecided s w"
    and "\<And>s i. i \<in> undecided s w' \<Longrightarrow> holder_of s w = Some i \<Longrightarrow> holder_of s w' = Some i"
  shows "orderly w'"
proof -
  have "turn s w'" for s
  proof -
    have "turn s w" using assms(1) by (simp add: orderly_def)
    moreover have "controlled s w' = controlled s w" by (simp add: controlled_def assms(2))
    ultimately show ?thesis using assms(5) assms(6) [of s] assms(7) [where s = s] by (auto simp: turn_def)
  qed
  then show ?thesis using assms(1-4) by (simp add: orderly_def exec_ids_row_keys)
qed

lemma recovered:
  assumes "w' = snd (run_state (recover_barriers X) w)"
  obtains now p where "w_execs w' \<in> {w_execs w,
        update_rows (\<lambda>e. ex_status e = Running) (\<lambda>e. e\<lparr>ex_status := Failed, ex_completed_at := now\<rparr>) (w_execs w)}"
    and "w_locks w' \<in> {w_locks w,
        filter (\<lambda>l. \<not> list_ex (\<lambda>e. ex_id e = lk_execution_id l \<and> is_terminal (ex_status e))
          (w_execs w')) (w_locks w)}"
    and "w_queue w' \<in> {w_queue w,
        update_rows p (\<lambda>q. q\<lparr>qr_status := QueueExpired\<rparr>) (w_queue w)}"
    and "w_config w' = w_config w"
    and "w_tasks w' = w_tasks w"
proof -
  have "w_execs w' \<in> {w_execs w, update_rows (\<lambda>e. ex_status e = Running)
        (\<lambda>e. e\<lparr>ex_status := Failed, ex_completed_at :=
           Some (fmt_millis X (w_clock w (w_ticks w) div 1000000))\<rparr>) (w_execs w)}"
    and "w_locks w' \<in> {w_locks w, filter (\<lambda>l. \<not> list_ex (\<lambda>e. ex_id e = lk_execution_id l
          \<and> is_terminal (ex_status e)) (w_execs w')) (w_locks w)}"
    and "w_queue w' \<in> {w_queue w, update_rows (\<lambda>q. qr_status q = Waiting
            \<and> list_ex (\<lambda>e. ex_id e = qr_execution_id q \<and> ex_status e \<in> {Rejected, Expired, Failed})
                (w_execs w')) (\<lambda>q. q\<lparr>qr_status := QueueExpired\<rparr>) (w_queue w)}"
    and "w_config w' = w_config w" and "w_tasks w' = w_tasks w"
    by (simp_all add: assms recover_barriers_def)
  then show ?thesis by (rule that)
qed

lemma restart_orderly:
  assumes "orderly w"
  shows "orderly (snd (run_state (recover_barriers X) (w\<lparr>w_tasks := []\<rparr>)))"
proof -
  define w' where "w' = snd (run_state (recover_barriers X) (w\<lparr>w_tasks := []\<rparr>))"
  obtain now p where r: "w_execs w' \<in> {w_execs w,
        update_rows (\<lambda>e. ex_status e = Running) (\<lambda>e. e\<lparr>ex_status := Failed, ex_completed_at := now\<rparr>) (w_execs w)}"
      "w_locks w' \<in> {w_locks w, filter (\<lambda>l. \<not> list_ex (\<lambda>e. ex_id e = lk_execution_id l
          \<and> is_terminal (ex_status e)) (w_execs w')) (w_locks w)}"
      "w_queue w' \<in> {w_queue w, update_rows p (\<lambda>q. q\<lparr>qr_status := QueueExpired\<rparr>) (w_queue w)}"
      "w_config w' = w_config w" "w_tasks w' = []"
    by (rule recovered [OF w'_def], rule that) simp_all
  have keys: "row_keys w' = row_keys w"
    using r(1) row_keys_update [of "\<lambda>e. e\<lparr>ex_status := Failed, ex_completed_at := now\<rparr>" "\<lambda>e. ex_status e = Running" w]
    by (auto simp: row_keys_def)
  have undecided: "undecided s w' \<subseteq> undecided s w" for s
    using r(1) by (auto simp: undecided_def set_update_rows)
  have ids: "exec_ids_distinct w'"
    using assms keys by (simp add: orderly_def exec_ids_row_keys)
  have "holder_of s w' = Some i" if i: "i \<in> undecided s w'" "holder_of s w = Some i" for s i
  proof -
    have inj: "inj_on ex_id (set (w_execs w'))" using ids by (simp add: exec_ids_distinct_def distinct_map)
    obtain e where e: "e \<in> set (w_execs w')" "ex_id e = i" "ex_status e = PendingApproval"
      using i(1) by (auto simp: undecided_def)
    have "\<not> is_terminal (ex_status e')" if "e' \<in> set (w_execs w')" "ex_id e' = i" for e'
      using inj_onD [OF inj _ that(1) e(1)] that(2) e by (simp add: is_terminal_def)
    then have none: "\<not> list_ex (\<lambda>e. ex_id e = i \<and> is_terminal (ex_status e)) (w_execs w')"
      unfolding list_ex_iff by blast
    obtain l where l: "find_row lk_hook_slug s (w_locks w) = Some l" "lk_execution_id l = i"
      using i(2) by (auto simp: holder_of_def)
    have "find_row lk_hook_slug s (filter (\<lambda>l. \<not> list_ex (\<lambda>e. ex_id e = lk_execution_id l
        \<and> is_terminal (ex_status e)) (w_execs w')) (w_locks w)) = Some l"
      by (rule find_row_filter [OF l(1)]) (simp only: l(2) none not_False_eq_True)
    then have "find_row lk_hook_slug s (w_locks w') = Some l"
      using r(2) l(1) by auto
    then show ?thesis by (simp add: holder_of_def l(2))
  qed
  moreover have "queue_refers w'"
    using assms r(3) keys by (auto simp: orderly_def queue_refers_row_keys set_update_rows)
  ultimately have "orderly w'" by (intro orderly_idle [OF assms r(4) keys _ r(5) undecided])
  then show ?thesis by (simp only: w'_def)
qed

section \<open>Reloads\<close>

lemma reload_orderly:
  assumes "orderly w" and "distinct (map hk_slug (cf_hooks config))"
    and "\<And>slug. controlled slug (w\<lparr>w_config := config\<rparr>) = controlled slug w
       \<or> claims slug w = [] \<and> undecided slug w = {}"
  shows "orderly (w\<lparr>w_config := config\<rparr>)"
proof -
  have same: "undecided s (w\<lparr>w_config := config\<rparr>) = undecided s w" for s by (simp add: undecided_def)
  have "turn s (w\<lparr>w_config := config\<rparr>)" for s
  proof -
    have "turn s w" using assms(1) by (simp add: orderly_def)
    with assms(3) [of s] show ?thesis unfolding turn_def same by (auto simp: holder_of_def)
  qed
  then show ?thesis
    using assms(1,2) by (simp add: orderly_def exec_ids_distinct_def queue_refers_def)
qed

section \<open>Mutual exclusion\<close>

lemma step_orderly:
  assumes "settled_step X w w'" and "orderly w"
  shows "orderly w'"
proof -
  have "server_step X w w'" using assms(1) by (simp add: settled_step_def)
  then show ?thesis
  proof cases
    case (Reload v config)
    have c: "calm w v" using Reload(2) by (simp add: same_tables_def calmI)
    have "distinct (map hk_slug (cf_hooks config))" using Reload(3) by (simp add: validate_config_wf)
    moreover have "controlled slug w' = controlled slug v \<or> claims slug v = [] \<and> undecided slug v = {}" for slug
    proof -
      have "controlled slug w' = controlled slug w \<or> claims slug w = [] \<and> undecided slug w = {}"
        using assms(1) nothing_runs_claims by (auto simp: settled_step_def)
      then show ?thesis using Reload(2) by (simp add: same_tables_def controlled_def undecided_def)
    qed
    ultimately show ?thesis
      using reload_orderly [OF orderly_calm [OF assms(2) c]] Reload(1) by simp
  next
    case Elsewhere
    then show ?thesis by (intro orderly_calm [OF assms(2)]) (simp add: same_tables_def calmI)
  qed (use assms(2) in \<open>simp_all add: trigger_orderly task_orderly replay_orderly approve_orderly
      reject_orderly sweep_orderly run_free_orderly calm_sweep_counters restart_orderly\<close>)
qed

lemma steps_orderly:
  assumes "(settled_step X)\<^sup>*\<^sup>* w w'" and "orderly w"
  shows "orderly w'"
  using assms by (induction rule: rtranclp_induct) (blast intro: step_orderly)+

section \<open>A sweep that is overtaken\<close>

text \<open>The theorem above runs every sweep as a whole. \<open>expire_pending_approvals\<close> is not atomic: it
  first selects the overdue executions and then expires them one by one, and \<open>mark_expired\<close> does
  not say whether it found the execution still undecided. When an approval comes in between, the
  lock is given away although the approved execution is about to run.\<close>

lemma approve_spawns:
  assumes "exec_ids_distinct w" and "distinct (map hk_slug (cf_hooks (w_config w)))" and "no_faults w"
    and "hook \<in> set (cf_hooks (w_config w))" and "i \<in> undecided (hk_slug hook) w"
  obtains ctx rc where "xc_hook_slug ctx = hk_slug hook" and "xc_execution_id ctx = i"
    and "w_tasks (snd (run_state (approve_execution X who i) w)) = w_tasks w @ [RunApproved ctx rc hook]"
    and "w_locks (snd (run_state (approve_execution X who i) w)) = w_locks w"
    and "w_config (snd (run_state (approve_execution X who i) w)) = w_config w"
    and "exec_ids_distinct (snd (run_state (approve_execution X who i) w))"
    and "no_faults (snd (run_state (approve_execution X who i) w))"
    and "\<forall>s. undecided s w - {i} \<subseteq> undecided s (snd (run_state (approve_execution X who i) w))"
proof -
  let ?slug = "hk_slug hook" and ?w' = "snd (run_state (approve_execution X who i) w)"
  have nf: "\<not> w_fault w n" for n using assms(3) by blast
  have ids: "distinct (map ex_id (w_execs w))" using assms(1) by (simp add: exec_ids_distinct_def)
  obtain e where e: "e \<in> set (w_execs w)" "ex_id e = i" "ex_hook_slug e = ?slug" "ex_status e = PendingApproval"
    using assms(5) by (auto simp: undecided_def)
  then have find: "find_row ex_id i (w_execs w) = Some e" by (simp add: find_row_Some_iff [OF ids])
  have hook: "find_hook (\<lambda>h. hk_slug h = ?slug) (w_config w) = Some hook"
    using assms(2,4) unfolding find_hook_def by (metis find_row_Some_iff find_row_def)
  define at where "at = fmt_millis X (w_clock w (w_ticks w) div 1000000)"
  let ?f = "\<lambda>e. e\<lparr>ex_status := Approved, ex_approved_at := Some at, ex_approved_by := Some who\<rparr>"
  let ?rows = "update_rows (\<lambda>e. ex_id e = i \<and> ex_status e = PendingApproval) ?f (w_execs w)"
  have f: "ex_id (?f e) = ex_id e" for e by simp
  note g = guarded_update [OF ids, of ?f, OF f]
  have marked: "run_state (mark_approved X i who) w
      = (Inr (?f e), w\<lparr>w_ticks := Suc (w_ticks w), w_stmts := w_stmts w + 2, w_execs := ?rows\<rparr>)"
    using g(1) [where i = i and s = PendingApproval] g(2) [where i = i and s = PendingApproval and j = i]
      find e(4) nf
    by (simp add: mark_approved_def find_exec_def at_def)
  let ?h = "\<lambda>e. e\<lparr>ex_status := Pending\<rparr>" and ?p = "\<lambda>e. ex_id e = i \<and> ex_status e = Approved"
  have run: "?w' = w\<lparr>w_ticks := Suc (w_ticks w), w_stmts := w_stmts w + 3, w_execs := update_rows ?p ?h ?rows,
      w_tasks := w_tasks w @ [RunApproved (trigger_context X (w_config w) hook i ?slug (ex_request_payload e))
        (resolve_retry_config hook (df_retries (cf_defaults (w_config w)))) hook]\<rparr>"
    using marked e hook nf by (simp add: approve_execution_def approved_to_pending_def)
  show ?thesis
  proof (rule that [of "trigger_context X (w_config w) hook i ?slug (ex_request_payload e)"])
    show "exec_ids_distinct ?w'"
      using ids by (simp add: run exec_ids_distinct_def map_update_rows [where g = ex_id])
    show "\<forall>s. undecided s w - {i} \<subseteq> undecided s ?w'"
      by (force simp: run undecided_def set_update_rows image_image)
  qed (simp_all add: run trigger_context_def assms(3) [unfolded no_faults_def] no_faults_def)
qed

lemma approve_claims:
  assumes "orderly w" and "no_faults w" and "hook \<in> set (cf_hooks (w_config w))"
    and "hk_concurrency hook = Some c" and "i \<in> undecided (hk_slug hook) w"
  shows "claims (hk_slug hook) (snd (run_state (approve_execution X who i) w)) = [i]"
    and "holder_of (hk_slug hook) (snd (run_state (approve_execution X who i) w)) = Some i"
    and "no_faults (snd (run_state (approve_execution X who i) w))"
proof -
  have ids: "exec_ids_distinct w" "distinct (map hk_slug (cf_hooks (w_config w)))"
    using assms(1) by (simp_all add: orderly_def)
  have ctl: "controlled (hk_slug hook) w" using controlled_hook [OF assms(1,3)] assms(4) by simp
  note u = undecided_turn [OF assms(1,5)]
  obtain ctx rc where "xc_hook_slug ctx = hk_slug hook" "xc_execution_id ctx = i"
    "w_tasks (snd (run_state (approve_execution X who i) w)) = w_tasks w @ [RunApproved ctx rc hook]"
    "w_locks (snd (run_state (approve_execution X who i) w)) = w_locks w"
    "no_faults (snd (run_state (approve_execution X who i) w))"
    by (rule approve_spawns [OF ids assms(2,3,5)], rule that)
  with u(1) u(2) [OF ctl] assms(4)
  show "claims (hk_slug hook) (snd (run_state (approve_execution X who i) w)) = [i]"
    and "holder_of (hk_slug hook) (snd (run_state (approve_execution X who i) w)) = Some i"
    and "no_faults (snd (run_state (approve_execution X who i) w))"
    by (simp_all add: holder_of_def)
qed

text \<open>An approval that overtakes the sweep breaks the exclusion. When the sweep has selected an
  execution of a mutex hook and the execution is approved before the sweep comes to it, then
  afterwards a task with the right to run the execution exists, the hook's lock is free, and the
  next request acquires it.\<close>

theorem expiry_overtaken:
  assumes "orderly w" and "no_faults w" and "hook \<in> set (cf_hooks (w_config w))"
    and "hk_concurrency hook = Some c" and "cc_mode c = Mutex" and "i \<in> undecided (hk_slug hook) w"
    and "run_state (approve_execution X who i) w = (out, w1)"
    and "run_state (expire_one X hook i) w1 = (u, w2)"
  shows "claims (hk_slug hook) w2 = [i] \<and> holder_of (hk_slug hook) w2 = None
         \<and> fst (run_state (try_acquire X (hk_slug hook) j) w2) = Inr True"
proof -
  have w1: "claims (hk_slug hook) w1 = [i]" "holder_of (hk_slug hook) w1 = Some i" "no_faults w1"
    using approve_claims [OF assms(1-4,6), of X who] assms(7) by simp_all
  have nf: "\<not> w_fault w1 n" for n using w1(3) by blast
  have h: "find_row lk_hook_slug s (filter (\<lambda>l. lk_hook_slug l \<noteq> s) ls) = None" for s ls
    by (auto simp: find_row_None_iff)
  have "w2 = snd (run_state (expire_one X hook i) w1)" using assms(8) by simp
  then show ?thesis
    using w1 assms(4,5) nf
    by (auto simp: expire_one_def mark_expired_def expire_for_execution_def complete_if_holder_def
        on_execution_complete_def release_def try_acquire_def holder_of_def h)
qed

text \<open>A hook with a mutex and an approval, and an execution waiting for it.\<close>

definition approval_world :: world where
  "approval_world = sample_world\<lparr>
     w_config := default_app_config\<lparr>cf_hooks := [sample_hook\<lparr>hk_slug := ''deploy'',
       hk_concurrency := Some \<lparr>cc_mode = Mutex, cc_queue_depth = 0\<rparr>,
       hk_approval := Some \<lparr>ac_required = True, ac_timeout = Some 1000\<rparr>\<rparr>]\<rparr>,
     w_execs := [sample_execution ''e1'' ''a'' PendingApproval],
     w_locks := [\<lparr>lk_hook_slug = ''deploy'', lk_execution_id = ''e1'', lk_acquired_at = ''a''\<rparr>]\<rparr>"

lemma approval_world_orderly: "orderly approval_world" "no_faults approval_world"
  by (auto simp: orderly_def exec_ids_distinct_def queue_refers_def turn_def undecided_def holder_of_def
      no_faults_def approval_world_def sample_world_def sample_execution_def)

theorem expiry_overtaken_witness:
  "\<exists>hook. hook \<in> set (cf_hooks (w_config approval_world)) \<and> holder_of ''deploy''
     (snd (run_state (expire_one sample_external hook ''e1'')
        (snd (run_state (approve_execution sample_external ''ada'' ''e1'') approval_world)))) = None"
proof -
  let ?hook = "hd (cf_hooks (w_config approval_world))"
  have "?hook \<in> set (cf_hooks (w_config approval_world))"
      "hk_concurrency ?hook = Some \<lparr>cc_mode = Mutex, cc_queue_depth = 0\<rparr>"
      "''e1'' \<in> undecided (hk_slug ?hook) approval_world" "hk_slug ?hook = ''deploy''"
    by (auto simp: approval_world_def undecided_def sample_execution_def image_iff)
  with expiry_overtaken [OF approval_world_orderly this(1,2) _ this(3) prod.collapse [symmetric]
      prod.collapse [symmetric], of sample_external "''ada''" "''e2''"]
  show ?thesis by auto
qed

end
