(* ===== verification/Progress.thy ===== *)
theory Progress
  imports Exclusion
begin

text \<open>
  The queue makes progress: when nothing fails, the tasks that completion spawns run the waiting
  executions one after the other until the queue is empty and the lock is free. A relation
  \<open>steady\<close> says that a run touches the row of its own execution only.
\<close>

definition steady :: "string \<Rightarrow> world \<Rightarrow> world \<Rightarrow> bool" where
  "steady i w w' \<longleftrightarrow>
     (\<forall>j. j \<noteq> i \<longrightarrow> find_exec j w' = find_exec j w) \<and> map ex_id (w_execs w') = map ex_id (w_execs w)
     \<and> w_locks w' = w_locks w \<and> w_queue w' = w_queue w \<and> w_tasks w' = w_tasks w
     \<and> w_config w' = w_config w \<and> w_fault w' = w_fault w \<and> w_io_fault w' = w_io_fault w
     \<and> w_uuids w' = w_uuids w \<and> w_next_uuid w \<le> w_next_uuid w'"

interpretation steady: world_relation "steady i" for i
  by standard (auto simp: steady_def find_exec_def)

lemma steady_update_own:
  assumes "\<And>e. ex_id (f e) = ex_id e" and "\<And>e. p e \<Longrightarrow> ex_id e = i"
  shows "state_io_rel (steady i) (update_execs p f)"
proof -
  have "find_row ex_id j (update_rows p f rows) = find_row ex_id j rows" if "j \<noteq> i" for j rows
    using assms(2) that by (induction rows) (auto simp: assms(1))
  then show ?thesis
    by (simp add: state_io_rel_def steady_def find_exec_def map_update_rows [where g = ex_id, OF assms(1)])
qed

lemma same_tables_steady: "same_tables w w' \<Longrightarrow> steady i w w'"
  by (simp add: same_tables_def steady_def find_exec_def)

interpretation steady_run: retry_relation "steady i" i for i
proof
  note intros = steady.keeps_basic steady_update_own
  show "same_tables w w' \<Longrightarrow> steady i w w'" for w w' by (rule same_tables_steady)
  show "state_io_rel (steady i) (mark_running X i)" for X
    unfolding mark_running_def require_affected_def by (intro intros) simp_all
  show "state_io_rel (steady i) (mark_completed X i st code)" for X st code
    unfolding mark_completed_def require_affected_def by (intro intros) simp_all
  show "state_io_rel (steady i) (increment_retry_count i)"
    unfolding increment_retry_count_def by (intro intros) simp_all
  show "state_io_rel (steady i) (reset_to_pending i)"
    unfolding reset_to_pending_def by (intro intros) simp_all
  show "steady i w (w\<lparr>w_sleeps := ds\<rparr>)" for w ds by (simp add: steady_def find_exec_def)
qed

text \<open>A whole run of an execution that is pending, with its notification.\<close>

lemma run_and_notify:
  assumes "runnable i w" and "xc_execution_id ctx = i"
  shows "case run_state (do { result \<leftarrow> run_with_retries X ctx rc; notify_completion X hook i result }) w of
    (_, w') \<Rightarrow> steady i w w' \<and> (\<exists>st. status_of i w' = Some st \<and> is_terminal st)"
proof -
  obtain r w1 where 1: "run_state (run_with_retries X ctx rc) w = (r, w1)" by fastforce
  have s1: "steady i w w1"
    using steady_run.keeps_run_with_retries [OF assms(2)] 1 by (auto simp: state_io_rel_def) (metis snd_conv)
  obtain r0 w0 where 0: "run_state (run_executor X ctx) w = (r0, w0)" by fastforce
  have "executed i w r0 w0"
    using run_executor_executed [of ctx w X] assms 0 by simp
  then have "ran i w0 r0" using executed_ran assms(1) by (auto simp: runnable_def)
  moreover have "run_state (retry_loop (er_count rc) X ctx rc 1 r0) w0 = (r, w1)"
    using 1 0 by (simp add: run_with_retries_def)
  ultimately have "ran i w1 r" using retry_loop_spec [of ctx w0 r0] assms(2) by blast
  then have t: "\<exists>st. status_of i w1 = Some st \<and> is_terminal st"
    by (auto simp: ran_def is_terminal_def)
  have "state_io_rel same_tables (notify_completion X hook i r)"
    unfolding notify_completion_def execution_get_by_id_def by (intro tables_intros)
  then obtain w2 where 2: "run_state (notify_completion X hook i r) w1 = ((), w2)" "same_tables w1 w2"
    by (rule tablesE) simp
  have "status_of i w2 = status_of i w1" using 2(2) by (simp add: same_tables_row)
  then show ?thesis
    using 1 2 t steady.rel_trans [OF s1 same_tables_steady [OF 2(2)]] by simp
qed

section \<open>One turn\<close>

definition in_turn :: "string \<Rightarrow> string \<Rightarrow> string list \<Rightarrow> world \<Rightarrow> bool" where
  "in_turn slug i js w \<longleftrightarrow>
     queue_ok w \<and> locks_ok w \<and> exec_ids_distinct w \<and> no_io_faults w
     \<and> holder_of slug w = Some i \<and> queue_of slug w = js \<and> distinct (i # js)
     \<and> (\<forall>j \<in> set (i # js). status_of j w = Some Pending)"

definition ended :: "string \<Rightarrow> world \<Rightarrow> bool" where
  "ended i w \<longleftrightarrow> (\<exists>st. status_of i w = Some st \<and> is_terminal st)"

lemma status_of_execs: "w_execs w' = w_execs w \<Longrightarrow> status_of j w' = status_of j w"
  by (simp add: status_of_def find_exec_def)

lemma turn_taken:
  assumes "in_turn slug i js w" and "find_hook (\<lambda>h. hk_slug h = slug) (w_config w) = Some hook"
  obtains w1 where "run_state (run_dequeued X slug i cc ac) w
        = run_state (on_execution_complete X slug cc ac) w1"
    and "steady i w w1" and "ended i w1"
proof -
  let ?w0 = "w\<lparr>w_stmts := Suc (w_stmts w)\<rparr>"
  have s0: "steady i w ?w0" by (simp add: steady_def find_exec_def)
  have nf: "\<not> w_fault w n" for n using assms(1) by (auto simp: in_turn_def queue_ok_def)
  obtain e where e: "find_exec i w = Some e" "ex_id e = i"
    using assms(1) by (auto simp: in_turn_def status_of_def find_exec_def dest: find_row_SomeD)
  have run0: "runnable i ?w0"
    using assms(1) by (simp add: in_turn_def runnable_def queue_ok_def no_faults_def no_io_faults_def
        exec_ids_distinct_def status_of_def)
  let ?ctx = "\<lparr>xc_execution_id = i, xc_hook_slug = ex_hook_slug e,
      xc_executor = resolve_executor X (hk_executor hook) (ex_request_payload e),
      xc_env = hk_env hook, xc_cwd = hk_cwd hook, xc_timeout = timeout_of hook (w_config w),
      xc_logs_dir = lg_dir (cf_logs (w_config w)), xc_payload_json = ex_request_payload e\<rparr>"
  let ?rc = "resolve_retry_config hook (df_retries (cf_defaults (w_config w)))"
  let ?m = "do { result \<leftarrow> run_with_retries X ?ctx ?rc; notify_completion X hook i result }"
  let ?w1 = "snd (run_state ?m ?w0)"
  have 1: "steady i ?w0 ?w1" "ended i ?w1"
    using run_and_notify [OF run0, of ?ctx X ?rc hook] by (auto simp: ended_def case_prod_unfold)
  moreover have "run_state (run_dequeued X slug i cc ac) w
        = run_state (on_execution_complete X slug cc ac) ?w1"
    using assms(2) e nf by (simp add: run_dequeued_def Let_def case_prod_unfold)
  ultimately show ?thesis using that steady.rel_trans [OF s0] by blast
qed

lemma steady_in_order:
  assumes "in_turn slug i js w" and "steady i w w1"
  shows "queue_ok w1" and "locks_ok w1" and "exec_ids_distinct w1" and "no_io_faults w1"
    and "holder_of slug w1 = Some i" and "queue_of slug w1 = js"
    and "\<And>j. j \<in> set js \<Longrightarrow> status_of j w1 = Some Pending"
    and "w_tasks w1 = w_tasks w" and "w_config w1 = w_config w"
    and "\<And>j. j \<noteq> i \<Longrightarrow> status_of j w1 = status_of j w"
proof -
  note s = assms(2) [unfolded steady_def]
  have w: "queue_ok w" "locks_ok w" "exec_ids_distinct w" "no_io_faults w" "holder_of slug w = Some i"
      "queue_of slug w = js" "distinct (i # js)" "\<forall>j \<in> set (i # js). status_of j w = Some Pending"
    using assms(1) by (simp_all add: in_turn_def)
  have "w_uuids w ` {..<w_next_uuid w} \<subseteq> w_uuids w ` {..<w_next_uuid w1}" using s by auto
  with w(1) s show "queue_ok w1" by (auto simp: queue_ok_def no_faults_def)
  show "locks_ok w1" "exec_ids_distinct w1" "no_io_faults w1" "holder_of slug w1 = Some i"
    "queue_of slug w1 = js" "w_tasks w1 = w_tasks w" "w_config w1 = w_config w"
    using w s by (simp_all add: locks_ok_def no_faults_def exec_ids_distinct_def no_io_faults_def
        holder_of_def queue_of_def)
  show st: "j \<noteq> i \<Longrightarrow> status_of j w1 = status_of j w" for j using s by (simp add: status_of_def)
  show "j \<in> set js \<Longrightarrow> status_of j w1 = Some Pending" for j using st [of j] w(7,8) by auto
qed

text \<open>The next task, if there is one.\<close>

definition run_next :: "external \<Rightarrow> world \<Rightarrow> world" where
  "run_next X w =
     (case w_tasks w of [] \<Rightarrow> w
      | t # ts \<Rightarrow> snd (run_state (run_task X t) (w\<lparr>w_tasks := ts\<rparr>)))"

lemma run_next_step: "w_tasks w \<noteq> [] \<Longrightarrow> server_step X w (run_next X w)"
  using Task [of 0 w X] by (cases "w_tasks w") (simp_all add: run_next_def without_task_def)

lemma in_turn_tasks: "in_turn slug i js (w\<lparr>w_tasks := ts\<rparr>) = in_turn slug i js w"
  by (simp add: in_turn_def queue_ok_def locks_ok_def no_faults_def no_io_faults_def
      exec_ids_distinct_def holder_of_def queue_of_def status_of_def find_exec_def)

lemma turn_moves_on:
  assumes "in_turn slug i js w" and "w_tasks w = [RunDequeued slug i (Some c) ac]"
    and "cc_mode c = Queue" and "\<not> requires_approval ac"
    and "find_hook (\<lambda>h. hk_slug h = slug) (w_config w) = Some hook"
  shows "ended i (run_next X w) \<and> w_config (run_next X w) = w_config w
         \<and> (\<forall>j. j \<noteq> i \<longrightarrow> status_of j (run_next X w) = status_of j w)
         \<and> (case js of
              [] \<Rightarrow> w_tasks (run_next X w) = [] \<and> holder_of slug (run_next X w) = None
                    \<and> queue_of slug (run_next X w) = []
            | x # xs \<Rightarrow> in_turn slug x xs (run_next X w)
                    \<and> w_tasks (run_next X w) = [RunDequeued slug x (Some c) ac])"
proof -
  let ?w0 = "w\<lparr>w_tasks := []\<rparr>"
  have t0: "in_turn slug i js ?w0" using assms(1) by (simp add: in_turn_tasks)
  have h0: "find_hook (\<lambda>h. hk_slug h = slug) (w_config ?w0) = Some hook" using assms(5) by simp
  obtain w1 where w1: "run_state (run_dequeued X slug i (Some c) ac) ?w0
        = run_state (on_execution_complete X slug (Some c) ac) w1" "steady i ?w0 w1" "ended i w1"
    by (rule turn_taken [OF t0 h0])
  note s = steady_in_order [OF t0 w1(2)]
  have other: "status_of j w1 = status_of j w" if "j \<noteq> i" for j
    using s(10) [OF that] by (simp add: status_of_def find_exec_def)
  let ?w2 = "snd (run_state (on_execution_complete X slug (Some c) ac) w1)"
  have next_is: "run_next X w = ?w2" using assms(2) w1(1) by (simp add: run_next_def)
  show ?thesis
  proof (cases js)
    case Nil
    have "holder_of slug ?w2 = None \<and> w_execs ?w2 = w_execs w1 \<and> w_queue ?w2 = w_queue w1
        \<and> w_tasks ?w2 = w_tasks w1"
      using completion_releases [OF s(1,2) _ prod.collapse [symmetric], of c slug X ac] s(6) Nil by simp
    moreover have "w_config ?w2 = w_config w1"
      using config_kept_completion by (simp add: state_io_rel_def config_kept_def)
    ultimately show ?thesis
      using w1(3) s(6,8,9) other Nil status_of_execs [of ?w2 w1]
      by (simp add: next_is ended_def queue_of_def)
  next
    case (Cons x xs)
    obtain w2 where h: "handed_over slug x w1 w2"
      and r: "run_state (on_execution_complete X slug (Some c) ac) w1
           = run_state (spawn_task (RunDequeued slug x (Some c) ac)) w2"
      using completion_hands_over [OF s(1,2,5) assms(3), of x xs X ac] s(6) Cons assms(4) by auto
    have w2: "?w2 = w2\<lparr>w_tasks := [RunDequeued slug x (Some c) ac]\<rparr>"
      using r h s(8) by (simp add: handed_over_def)
    have "status_of j w2 = status_of j w1" for j
      using h by (intro status_of_execs) (simp add: handed_over_def)
    then have st: "status_of j ?w2 = status_of j w1" for j
      by (simp add: w2 status_of_def find_exec_def)
    have "in_turn slug x xs w2"
      using h s(3,4,6,7) t0 Cons \<open>\<And>j. status_of j w2 = status_of j w1\<close>
      by (auto simp: handed_over_def in_turn_def no_io_faults_def exec_ids_distinct_def)
    then show ?thesis
      using w1(3) s(9) h other st Cons
      by (simp add: next_is w2 in_turn_tasks ended_def handed_over_def)
  qed
qed

text \<open>After \<open>n\<close> tasks the first \<open>n\<close> of the executions have ended and the others have not been touched.\<close>

definition ended_in_order :: "external \<Rightarrow> string list \<Rightarrow> world \<Rightarrow> bool" where
  "ended_in_order X is w \<longleftrightarrow>
     (\<forall>n \<le> length is. \<forall>m < length is.
        (m < n \<longrightarrow> ended (is ! m) ((run_next X ^^ n) w))
        \<and> (n \<le> m \<longrightarrow> status_of (is ! m) ((run_next X ^^ n) w) = Some Pending))"

lemma ended_status: "status_of j w' = status_of j w \<Longrightarrow> ended j w' = ended j w"
  by (simp add: ended_def)

lemma queue_runs_in_order:
  assumes "in_turn slug i js w" and "w_tasks w = [RunDequeued slug i (Some c) ac]"
    and "cc_mode c = Queue" and "\<not> requires_approval ac"
    and "find_hook (\<lambda>h. hk_slug h = slug) (w_config w) = Some hook"
  shows "(\<forall>n \<le> Suc (length js). \<forall>m < Suc (length js).
            (m < n \<longrightarrow> ended ((i # js) ! m) ((run_next X ^^ n) w))
            \<and> (n \<le> m \<longrightarrow> status_of ((i # js) ! m) ((run_next X ^^ n) w) = Some Pending))
       \<and> (\<forall>n j. j \<notin> set (i # js) \<longrightarrow> n \<le> Suc (length js) \<longrightarrow> status_of j ((run_next X ^^ n) w) = status_of j w)
       \<and> w_tasks ((run_next X ^^ Suc (length js)) w) = []
       \<and> holder_of slug ((run_next X ^^ Suc (length js)) w) = None
       \<and> queue_of slug ((run_next X ^^ Suc (length js)) w) = []"
  using assms(1,2,5)
proof (induction js arbitrary: i w)
  case Nil
  from turn_moves_on [OF Nil(1,2) assms(3,4) Nil(3), of X] Nil(1) show ?case
    by (auto simp: le_Suc_eq in_turn_def)
next
  case (Cons x xs)
  let ?w1 = "run_next X w"
  note m = turn_moves_on [OF Cons.prems(1,2) assms(3,4) Cons.prems(3), of X]
  have 1: "in_turn slug x xs ?w1" "w_tasks ?w1 = [RunDequeued slug x (Some c) ac]"
      "find_hook (\<lambda>h. hk_slug h = slug) (w_config ?w1) = Some hook"
    using m Cons.prems(3) by simp_all
  note ih = Cons.IH [OF 1]
  have w: "distinct (i # x # xs)" "\<forall>j \<in> set (i # x # xs). status_of j w = Some Pending"
    using Cons.prems(1) by (simp_all add: in_turn_def)
  have later: "(run_next X ^^ Suc n) w = (run_next X ^^ n) ?w1" for n by (simp add: funpow_swap1)
  have first: "ended i ((run_next X ^^ n) ?w1)" if "n \<le> Suc (length xs)" for n
    using ih that w(1) m ended_status [of i "(run_next X ^^ n) ?w1" ?w1] by simp
  have "(m < n \<longrightarrow> ended ((i # x # xs) ! m) ((run_next X ^^ n) w))
      \<and> (n \<le> m \<longrightarrow> status_of ((i # x # xs) ! m) ((run_next X ^^ n) w) = Some Pending)"
    if "n \<le> Suc (length (x # xs))" "m < Suc (length (x # xs))" for n m
  proof (cases n)
    case 0
    have "(i # x # xs) ! m \<in> set (i # x # xs)" using that(2) by (intro nth_mem) simp
    with w(2) have "status_of ((i # x # xs) ! m) w = Some Pending" by blast
    with 0 show ?thesis by simp
  next
    case (Suc k)
    show ?thesis
    proof (cases m)
      case 0
      with first [of k] that(1) Suc later [of k] show ?thesis by simp
    next
      case (Suc l)
      from ih that Suc \<open>n = Suc k\<close> have "(l < k \<longrightarrow> ended ((x # xs) ! l) ((run_next X ^^ k) ?w1))
          \<and> (k \<le> l \<longrightarrow> status_of ((x # xs) ! l) ((run_next X ^^ k) ?w1) = Some Pending)" by simp
      with Suc \<open>n = Suc k\<close> later [of k] show ?thesis by simp
    qed
  qed
  moreover have "status_of j ((run_next X ^^ n) w) = status_of j w"
    if "j \<notin> set (i # x # xs)" "n \<le> Suc (length (x # xs))" for n j
    using ih m that by (cases n) (simp_all add: later del: funpow.simps)
  ultimately show ?case using ih by (simp add: later del: funpow.simps)
qed

text \<open>C5: A queue drains, in order. In queue mode without approval, when no statement, file operation or
  row lookup fails: with the first execution's task spawned and any number of pending executions
  waiting behind it, running the spawned tasks one after the other takes exactly one task per
  execution, in the order of the queue: after \<open>n\<close> tasks the first \<open>n\<close> executions have ended and all
  behind them are still pending. At the end no task is left, the queue is empty, the lock is free,
  and every one of the executions has ended.\<close>

theorem queue_drains:
  assumes "in_turn slug i js w" and "w_tasks w = [RunDequeued slug i (Some c) ac]"
    and "cc_mode c = Queue" and "\<not> requires_approval ac"
    and "find_hook (\<lambda>h. hk_slug h = slug) (w_config w) \<noteq> None"
    and "w' = (run_next X ^^ Suc (length js)) w"
  shows "ended_in_order X (i # js) w
         \<and> w_tasks w' = [] \<and> holder_of slug w' = None \<and> queue_of slug w' = []
         \<and> (\<forall>j \<in> set (i # js). ended j w')"
proof -
  obtain hook where "find_hook (\<lambda>h. hk_slug h = slug) (w_config w) = Some hook" using assms(5) by blast
  note run = queue_runs_in_order [OF assms(1-4) this, of X]
  then have order: "ended_in_order X (i # js) w" by (simp add: ended_in_order_def)
  then have "ended ((i # js) ! m) w'" if "m < Suc (length js)" for m
    using that unfolding ended_in_order_def assms(6) by (metis length_Cons order_refl)
  then have "\<forall>j \<in> set (i # js). ended j w'" by (metis in_set_conv_nth length_Cons)
  with order run show ?thesis by (simp add: assms(6))
qed

text \<open>Two executions, the second waiting.\<close>

definition draining_world :: world where
  "draining_world = waiting_world\<lparr>
     w_config := default_app_config\<lparr>cf_hooks := [sample_hook\<lparr>hk_slug := ''deploy'',
       hk_concurrency := Some \<lparr>cc_mode = Queue, cc_queue_depth = 2\<rparr>\<rparr>]\<rparr>,
     w_execs := [sample_execution ''e1'' ''a'' Pending, sample_execution ''e2'' ''b'' Pending],
     w_tasks := [RunDequeued ''deploy'' ''e1'' (Some \<lparr>cc_mode = Queue, cc_queue_depth = 2\<rparr>) None]\<rparr>"

lemma draining_world_ok: "in_turn ''deploy'' ''e1'' [''e2''] draining_world"
  using waiting_world_ok
  by (simp add: in_turn_def draining_world_def queue_ok_def locks_ok_def no_faults_def no_io_faults_def
      exec_ids_distinct_def holder_of_def queue_of_def status_of_def find_exec_def sample_execution_def
      waiting_world_def held_world_def two_world_def sample_world_def)

theorem queue_drains_witness:
  "holder_of ''deploy'' ((run_next sample_external ^^ 2) draining_world) = None
   \<and> ended ''e2'' ((run_next sample_external ^^ 2) draining_world)"
proof -
  have "w_tasks draining_world
      = [RunDequeued ''deploy'' ''e1'' (Some \<lparr>cc_mode = Queue, cc_queue_depth = 2\<rparr>) None]"
      "find_hook (\<lambda>h. hk_slug h = ''deploy'') (w_config draining_world) \<noteq> None"
    by (simp_all add: draining_world_def find_hook_def)
  from queue_drains [OF draining_world_ok this(1) _ _ this(2) refl, of sample_external] show ?thesis
    by (simp add: requires_approval_def numeral_2_eq_2)
qed

end
