(* ===== verification/Masking.thy ===== *)
theory Masking
  imports Config
begin

text \<open>
  \<open>src/masking.rs\<close> and the streaming masker of \<open>src/routes/executions.rs\<close>: hiding secret values
  in log output.

  Texts are lists of characters. Where the streaming code takes a byte index it always stands
  at a character boundary, so the model counts characters; the two counts agree on ASCII text
  and the cuts are the same on every text. A compiled regular expression is represented by its
  pattern; \<open>regex_replace_all\<close> of the \<open>external\<close> record does what \<open>Regex::replace_all\<close> does.
\<close>

definition mask_text :: string where "mask_text = ''***''"

section \<open>The configuration and the masking of a whole text\<close>

fun compile_loop :: "external \<Rightarrow> nat \<Rightarrow> string list \<Rightarrow> string list \<Rightarrow> string list
    \<Rightarrow> string list \<times> string list" where
  "compile_loop X i [] compiled errors = (compiled, errors)"
| "compile_loop X i (pattern # ps) compiled errors =
     (if regex_ok X pattern then compile_loop X (Suc i) ps (compiled @ [pattern]) errors
      else compile_loop X (Suc i) ps compiled
             (errors @ [''masking.patterns['' @ show_nat i @ ''] '' @ quoted pattern
                       @ '': '' @ regex_error_text X pattern]))"

definition compile :: "external \<Rightarrow> masking_config \<Rightarrow> string list + masking_config" where
  "compile X m =
     (case compile_loop X 0 (mk_patterns m) [] [] of (compiled, errors) \<Rightarrow>
        if errors = [] then Inr (m\<lparr>mk_compiled_patterns := compiled\<rparr>) else Inl errors)"

definition resolve_var :: "external \<Rightarrow> string_map \<Rightarrow> string \<Rightarrow> string option" where
  "resolve_var X hook_env name =
     (case map_of hook_env name of Some v \<Rightarrow> Some v | None \<Rightarrow> env_var X name)"

definition mask_env_var :: "external \<Rightarrow> string_map \<Rightarrow> string \<Rightarrow> string \<Rightarrow> string" where
  "mask_env_var X hook_env result var_name =
     (case resolve_var X hook_env var_name of
        Some val \<Rightarrow> (if val \<noteq> [] then str_replace val mask_text result else result)
      | None \<Rightarrow> result)"

definition mask_secrets :: "external \<Rightarrow> string \<Rightarrow> masking_config \<Rightarrow> string_map \<Rightarrow> string" where
  "mask_secrets X text config hook_env =
     (if mk_env_vars config = [] \<and> mk_compiled_patterns config = [] then text
      else let result = foldl (mask_env_var X hook_env) text (mk_env_vars config)
           in foldl (\<lambda>r re. regex_replace_all X re mask_text r) result (mk_compiled_patterns config))"

section \<open>Escaping for the page\<close>

definition html_escape_char :: "char \<Rightarrow> string" where
  "html_escape_char c =
     (if c = CHR ''&'' then ''&amp;''
      else if c = CHR ''<'' then ''&lt;''
      else if c = CHR ''>'' then ''&gt;''
      else if c = CHR 0x22 then ''&quot;''
      else [c])"

fun html_escape :: "string \<Rightarrow> string" where
  "html_escape [] = []"
| "html_escape (c # cs) = html_escape_char c @ html_escape cs"

definition mask_and_escape :: "external \<Rightarrow> string \<Rightarrow> masking_config \<Rightarrow> string_map \<Rightarrow> string" where
  "mask_and_escape X text masking hook_env =
     (if mk_env_vars masking = [] \<and> mk_compiled_patterns masking = [] then html_escape text
      else html_escape (mask_secrets X text masking hook_env))"

section \<open>The streaming masker\<close>

definition mask_values :: "string list \<Rightarrow> string \<Rightarrow> string" where
  "mask_values secret_values text = foldl (\<lambda>masked v. str_replace v mask_text masked) text secret_values"

definition mask_resolved_env_values_and_escape :: "string \<Rightarrow> string list \<Rightarrow> string" where
  "mask_resolved_env_values_and_escape text secret_values =
     (if secret_values = [] then html_escape text
      else html_escape (mask_values secret_values text))"

definition stream_mask_tail_chars :: "string list \<Rightarrow> nat" where
  "stream_mask_tail_chars secret_values =
     (case secret_values of [] \<Rightarrow> 0 | _ \<Rightarrow> Max (set (map length secret_values)))"

definition stream_mask_secret_values :: "external \<Rightarrow> masking_config \<Rightarrow> string_map \<Rightarrow> string list" where
  "stream_mask_secret_values X masking hook_env =
     filter (\<lambda>v. v \<noteq> []) (List.map_filter (resolve_var X hook_env) (mk_env_vars masking))"

record log_stream_masker =
  lm_secret_values :: "string list"
  lm_buffer :: string
  lm_tail_chars :: nat

definition masker_new :: "external \<Rightarrow> masking_config \<Rightarrow> string_map \<Rightarrow> log_stream_masker" where
  "masker_new X masking hook_env =
     (let secret_values = stream_mask_secret_values X masking hook_env
      in \<lparr>lm_secret_values = secret_values, lm_buffer = [],
          lm_tail_chars = stream_mask_tail_chars secret_values\<rparr>)"

text \<open>\<open>emit_prefix_len\<close> walks back from the end of the text and stops at the character that
  makes the retained tail \<open>tail_chars\<close> long: at index \<open>length text - tail_chars\<close>, or at 0
  when the text is shorter.\<close>

fun emit_walk :: "nat \<Rightarrow> nat \<Rightarrow> nat \<Rightarrow> nat" where
  "emit_walk tail_chars retained 0 = 0"
| "emit_walk tail_chars retained (Suc i) =
     (if Suc retained = tail_chars then i else emit_walk tail_chars (Suc retained) i)"

definition emit_prefix_len :: "string \<Rightarrow> nat \<Rightarrow> nat" where
  "emit_prefix_len text tail_chars =
     (if tail_chars = 0 then length text else emit_walk tail_chars 0 (length text))"

definition proper_prefixes :: "string \<Rightarrow> string list" where
  "proper_prefixes secret = map (\<lambda>k. take k secret) [1..<length secret]"

definition adjust_emit_len :: "string \<Rightarrow> nat \<Rightarrow> string list \<Rightarrow> nat" where
  "adjust_emit_len text emit_len secret_values =
     (let emitted = take emit_len text
      in foldl (\<lambda>adjusted secret.
           foldl (\<lambda>adjusted p. if ends_with p emitted then min adjusted (emit_len - length p)
                               else adjusted) adjusted (proper_prefixes secret))
         emit_len secret_values)"

lemma foldl_min_le:
  "foldl (\<lambda>a p. if P p then min a (f p) else a) (x :: nat) ps \<le> x"
proof (induction ps arbitrary: x)
  case (Cons p ps)
  show ?case
    using Cons.IH [of "if P p then min x (f p) else x"] by (simp split: if_splits)
qed simp

lemma adjust_foldl_le:
  "foldl (\<lambda>a s. foldl (\<lambda>a p. if P p then min a (f p) else a) a (g s)) (x :: nat) ss \<le> x"
proof (induction ss arbitrary: x)
  case (Cons s ss)
  show ?case
    unfolding foldl_Cons by (rule order_trans [OF Cons.IH foldl_min_le])
qed simp

lemma adjust_emit_len_le: "adjust_emit_len t n secrets \<le> n"
  by (simp add: adjust_emit_len_def adjust_foldl_le)

function safe_emit_loop :: "string \<Rightarrow> string list \<Rightarrow> nat \<Rightarrow> nat" where
  "safe_emit_loop text secret_values emit_len =
     (if emit_len = 0 then 0
      else let adjusted = adjust_emit_len text emit_len secret_values
           in if adjusted = emit_len then emit_len
              else safe_emit_loop text secret_values adjusted)"
  by pat_completeness auto
termination
  using adjust_emit_len_le
  by (relation "measure (\<lambda>(text, secrets, n). n)") (auto simp: le_neq_implies_less)

declare safe_emit_loop.simps [simp del]

definition safe_emit_prefix_len :: "string \<Rightarrow> nat \<Rightarrow> string list \<Rightarrow> nat" where
  "safe_emit_prefix_len text tail_chars secret_values =
     safe_emit_loop text secret_values (emit_prefix_len text tail_chars)"

definition non_empty :: "string \<Rightarrow> string option" where
  "non_empty s = (if s = [] then None else Some s)"

definition masker_push :: "log_stream_masker \<Rightarrow> string \<Rightarrow> string option \<times> log_stream_masker" where
  "masker_push m text =
     (let buffer = lm_buffer m @ text;
          emit_len = safe_emit_prefix_len buffer (lm_tail_chars m) (lm_secret_values m)
      in if emit_len = 0 then (None, m\<lparr>lm_buffer := buffer\<rparr>)
         else (non_empty (mask_resolved_env_values_and_escape (take emit_len buffer)
                            (lm_secret_values m)),
               m\<lparr>lm_buffer := drop emit_len buffer\<rparr>))"

definition masker_flush :: "log_stream_masker \<Rightarrow> string option \<times> log_stream_masker" where
  "masker_flush m =
     (if lm_buffer m = [] then (None, m)
      else (non_empty (mask_resolved_env_values_and_escape (lm_buffer m) (lm_secret_values m)),
            m\<lparr>lm_buffer := []\<rparr>))"

text \<open>What the stream sends for a sequence of chunks read from the log file: the pushes, then
  the flush when the execution has ended.\<close>

fun masker_run :: "log_stream_masker \<Rightarrow> string list \<Rightarrow> string list" where
  "masker_run m [] = (case fst (masker_flush m) of Some d \<Rightarrow> [d] | None \<Rightarrow> [])"
| "masker_run m (text # texts) =
     (case masker_push m text of (out, m') \<Rightarrow>
        (case out of Some d \<Rightarrow> [d] | None \<Rightarrow> []) @ masker_run m' texts)"

section \<open>Replacing by the mask\<close>

text \<open>A text without the character of the mask. A secret that contains an asterisk can be
  produced by masking itself, so the guarantees below are about secrets without one.\<close>

abbreviation star_free :: "string \<Rightarrow> bool" where "star_free u \<equiv> CHR ''*'' \<notin> set u"

lemma star_free_prefix: "star_free v \<Longrightarrow> prefix u v \<Longrightarrow> star_free u"
  by (meson set_mono_prefix subsetD)

lemma star_free_sublist: "star_free v \<Longrightarrow> sublist u v \<Longrightarrow> star_free u"
  by (meson set_mono_sublist subsetD)

lemma mask_not_star_free [simp]: "\<not> star_free mask_text"
  by (simp add: mask_text_def)

lemma mask_split: "mask_text = CHR ''*'' # ''**''"
  by (simp add: mask_text_def)

lemma sublist_mask_append:
  assumes "star_free u" and "u \<noteq> []" and "sublist u (mask_text @ r)"
  shows "sublist u r"
  using assms by (auto simp: mask_text_def sublist_Cons_right prefix_Cons)

lemma suffix_mask_append:
  assumes "star_free u" and "suffix u (mask_text @ r)"
  shows "suffix u r"
  using assms by (auto simp: mask_text_def suffix_Cons)

lemma replace_match:
  "pat \<noteq> [] \<Longrightarrow> strip_prefix pat (c # cs) = Some rest \<Longrightarrow>
     str_replace pat rep (c # cs) = rep @ str_replace pat rep rest"
  by simp

lemma replace_no_match:
  "pat \<noteq> [] \<Longrightarrow> strip_prefix pat (c # cs) = None \<Longrightarrow>
     str_replace pat rep (c # cs) = c # str_replace pat rep cs"
  by simp

lemma replace_cases [consumes 1, case_names Nil Match Step]:
  assumes "pat \<noteq> []"
    and "P []"
    and "\<And>rest. P rest \<Longrightarrow> P (pat @ rest)"
    and "\<And>c cs. strip_prefix pat (c # cs) = None \<Longrightarrow> P cs \<Longrightarrow> P (c # cs)"
  shows "P t"
proof (induction "length t" arbitrary: t rule: less_induct)
  case less
  show ?case
  proof (cases t)
    case (Cons c cs)
    show ?thesis
    proof (cases "strip_prefix pat (c # cs)")
      case None
      with less Cons assms(4) show ?thesis by simp
    next
      case (Some rest)
      then have "t = pat @ rest" using Cons by (simp add: strip_prefix_Some_iff)
      with less assms(1,3) show ?thesis by simp
    qed
  qed (simp add: assms(2))
qed

lemma replace_append_match:
  assumes "pat \<noteq> []"
  shows "str_replace pat rep (pat @ rest) = rep @ str_replace pat rep rest"
proof -
  obtain c cs where c: "pat @ rest = c # cs" using assms by (cases "pat @ rest") auto
  then have "strip_prefix pat (c # cs) = Some rest" by (metis strip_prefix_append)
  from replace_match [OF assms this] show ?thesis unfolding c .
qed

lemma replace_star_free_prefix:
  assumes "pat \<noteq> []" and "star_free u" and "prefix u (str_replace pat mask_text t)"
  shows "prefix u t"
  using assms
proof (induction t arbitrary: u rule: replace_cases)
  case (Match rest)
  from Match.prems(2) have "prefix u (CHR ''*'' # ''**'' @ str_replace pat mask_text rest)"
    unfolding replace_append_match [OF assms(1)] by (simp add: mask_split)
  with Match.prems(1) have "u = []" by (cases u) auto
  then show ?case by simp
next
  case (Step c cs)
  from Step.prems(2) have "prefix u (c # str_replace pat mask_text cs)"
    unfolding replace_no_match [OF assms(1) Step.hyps(1)] .
  with Step show ?case by (cases u) auto
qed (use assms(1) in simp)

lemma replace_star_free_id:
  assumes "pat \<noteq> []" and "star_free (str_replace pat mask_text t)"
  shows "str_replace pat mask_text t = t"
  using assms
proof (induction t rule: replace_cases)
  case (Match rest)
  then have False unfolding replace_append_match [OF assms(1)] by simp
  then show ?case ..
next
  case (Step c cs)
  then show ?case unfolding replace_no_match [OF assms(1) Step.hyps(1)] by simp
qed simp

lemma replace_star_free_suffix:
  assumes "pat \<noteq> []" and "star_free u" and "suffix u (str_replace pat mask_text t)"
  shows "suffix u t"
  using assms
proof (induction t rule: replace_cases)
  case (Match rest)
  then have "suffix u rest"
    unfolding replace_append_match [OF assms(1)] by (blast dest: suffix_mask_append)
  then show ?case by (rule suffix_appendI)
next
  case (Step c cs)
  then consider "u = str_replace pat mask_text (c # cs)" | "suffix u (str_replace pat mask_text cs)"
    unfolding replace_no_match [OF assms(1) Step.hyps(1)] suffix_Cons by blast
  then show ?case
  proof cases
    case 1
    with Step.prems(1) have "u = c # cs"
      using replace_star_free_id [OF assms(1)] by blast
    then show ?thesis by simp
  next
    case 2
    with Step show ?thesis by (simp add: suffix_Cons)
  qed
qed (use assms(1) in simp)

lemma replace_star_free_sublist:
  assumes "pat \<noteq> []" and "star_free u" and "u \<noteq> []" and "sublist u (str_replace pat mask_text t)"
  shows "sublist u t"
  using assms
proof (induction t rule: replace_cases)
  case (Match rest)
  then have "sublist u rest"
    unfolding replace_append_match [OF assms(1)] by (blast dest: sublist_mask_append)
  then show ?case by (simp add: sublist_append)
next
  case (Step c cs)
  then consider "prefix u (str_replace pat mask_text (c # cs))" | "sublist u (str_replace pat mask_text cs)"
    unfolding replace_no_match [OF assms(1) Step.hyps(1)] sublist_Cons_right by blast
  then show ?case
  proof cases
    case 1
    from replace_star_free_prefix [OF assms(1,2) this]
    show ?thesis by (rule prefix_imp_sublist)
  next
    case 2
    with Step show ?thesis by (simp add: sublist_Cons_right)
  qed
qed (use assms(1) in simp)

lemma replace_removes:
  assumes "pat \<noteq> []" and "star_free pat"
  shows "\<not> sublist pat (str_replace pat mask_text t)"
  using assms(1)
proof (induction t rule: replace_cases)
  case Nil
  then show ?case using assms by simp
next
  case (Match rest)
  then show ?case
    unfolding replace_append_match [OF assms(1)] using assms by (blast dest: sublist_mask_append)
next
  case (Step c cs)
  have "\<not> prefix pat (str_replace pat mask_text (c # cs))"
    using replace_star_free_prefix [OF assms] Step.hyps(1) by (auto simp: strip_prefix_None_iff)
  with Step.IH show ?case
    unfolding replace_no_match [OF assms(1) Step.hyps(1)] sublist_Cons_right by blast
qed

section \<open>Masking a list of secrets\<close>

lemma mask_values_simps [simp]:
  "mask_values [] t = t"
  "mask_values (v # vs) t = mask_values vs (str_replace v mask_text t)"
  by (simp_all add: mask_values_def)

lemma mask_values_suffix:
  assumes "[] \<notin> set vs" and "star_free u" and "suffix u (mask_values vs t)"
  shows "suffix u t"
  using assms
proof (induction vs arbitrary: t)
  case (Cons v vs)
  then have "suffix u (str_replace v mask_text t)" "v \<noteq> []" by auto
  with Cons.prems(2) show ?case using replace_star_free_suffix by blast
qed simp

lemma mask_values_sublist:
  assumes "[] \<notin> set vs" and "star_free u" and "u \<noteq> []" and "sublist u (mask_values vs t)"
  shows "sublist u t"
  using assms
proof (induction vs arbitrary: t)
  case (Cons v vs)
  then have "sublist u (str_replace v mask_text t)" "v \<noteq> []" by auto
  with Cons.prems(2,3) show ?case using replace_star_free_sublist by blast
qed simp

lemma mask_values_removes:
  assumes "[] \<notin> set vs" and "v \<in> set vs" and "star_free v"
  shows "\<not> sublist v (mask_values vs t)"
  using assms
proof (induction vs arbitrary: t)
  case (Cons w ws)
  show ?case
  proof (cases "v \<in> set ws")
    case False
    with Cons.prems have v: "v = w" "v \<noteq> []" by auto
    with Cons.prems have "\<not> sublist v (str_replace w mask_text t)"
      by (simp add: replace_removes)
    with Cons.prems v show ?thesis
      using mask_values_sublist [of ws v "str_replace w mask_text t"] by auto
  qed (use Cons in simp)
qed simp

lemma mask_env_vars_values:
  "foldl (mask_env_var X hook_env) t names
     = mask_values (filter (\<lambda>v. v \<noteq> []) (List.map_filter (resolve_var X hook_env) names)) t"
  by (induction names arbitrary: t)
     (auto simp: List.map_filter_simps mask_env_var_def split: option.splits)

lemma mask_secrets_no_value:
  assumes "mk_compiled_patterns config = []" and "name \<in> set (mk_env_vars config)"
    and "resolve_var X hook_env name = Some v" and "v \<noteq> []" and "star_free v"
  shows "\<not> sublist v (mask_secrets X text config hook_env)"
proof -
  let ?vs = "filter (\<lambda>v. v \<noteq> []) (List.map_filter (resolve_var X hook_env) (mk_env_vars config))"
  have "v \<in> set ?vs" using assms by (force simp: List.map_filter_def)
  then have "\<not> sublist v (mask_values ?vs text)"
    using assms(5) by (intro mask_values_removes) auto
  moreover have "mk_env_vars config \<noteq> []" using assms(2) by auto
  ultimately show ?thesis
    using assms(1) by (simp add: mask_secrets_def mask_env_vars_values Let_def)
qed

text \<open>With no regular expressions configured, the masked text contains no configured secret:
  the value of every masked environment variable (looked up in the hook's environment first,
  then in the process environment) is gone from the text, unless it is empty or contains the
  mask character itself.\<close>

theorem mask_secrets_removes:
  assumes "mk_compiled_patterns config = []" and "name \<in> set (mk_env_vars config)"
    and "resolve_var X hook_env name = Some v" and "v \<noteq> []" and "star_free v"
  shows "\<not> sublist v (mask_secrets X text config hook_env)"
  using assms by (rule mask_secrets_no_value)

theorem mask_secrets_removes_witness:
  "\<not> sublist ''s3cret'' (mask_secrets sample_external ''t=s3cret;'' (cf_masking sample_config) [])"
proof (rule mask_secrets_removes [where name = "''TOKEN''"])
  show "resolve_var sample_external [] ''TOKEN'' = Some ''s3cret''"
    by (simp add: resolve_var_def sample_external_def)
qed (simp_all add: sample_config_def)

section \<open>Streaming\<close>

text \<open>A cut is safe for the secrets when the text before it does not end with a proper,
  non-empty prefix of a secret.\<close>

definition safe_cut :: "string list \<Rightarrow> string \<Rightarrow> bool" where
  "safe_cut secrets c \<longleftrightarrow>
     (\<forall>s \<in> set secrets. \<forall>k. 1 \<le> k \<longrightarrow> k < length s \<longrightarrow> \<not> suffix (take k s) c)"

lemma foldl_min_fixed:
  assumes "foldl (\<lambda>a p. if P p then min a (f p) else a) (x :: nat) ps = x" and "p \<in> set ps" and "P p"
  shows "x \<le> f p"
  using assms
proof (induction ps arbitrary: x)
  case (Cons q qs)
  let ?y = "if P q then min x (f q) else x"
  have "foldl (\<lambda>a p. if P p then min a (f p) else a) ?y qs \<le> ?y" by (rule foldl_min_le)
  moreover have "foldl (\<lambda>a p. if P p then min a (f p) else a) ?y qs = x" using Cons.prems(1) by simp
  ultimately have y: "?y = x" by (auto split: if_splits)
  with Cons show ?case by (cases "p = q") (auto split: if_splits)
qed simp

lemma adjust_foldl_fixed:
  assumes "foldl (\<lambda>a s. foldl (\<lambda>a p. if P p then min a (f p) else a) a (g s)) (x :: nat) ss = x"
    and "s \<in> set ss"
  shows "foldl (\<lambda>a p. if P p then min a (f p) else a) x (g s) = x"
  using assms
proof (induction ss)
  case (Cons r rs)
  let ?y = "foldl (\<lambda>a p. if P p then min a (f p) else a) x (g r)"
  have "x \<le> ?y" using Cons.prems(1) adjust_foldl_le [of P f g ?y rs] by simp
  then have "?y = x" using foldl_min_le [of P f x "g r"] by simp
  with Cons show ?case by (cases "s = r") auto
qed simp

lemma adjust_emit_len_fixed:
  assumes "adjust_emit_len t n secrets = n" and "s \<in> set secrets"
    and "p \<in> set (proper_prefixes s)" and "ends_with p (take n t)"
  shows "n \<le> n - length p"
proof -
  have "foldl (\<lambda>a p. if ends_with p (take n t) then min a (n - length p) else a) n
      (proper_prefixes s) = n"
    using assms(1,2) unfolding adjust_emit_len_def Let_def by (rule adjust_foldl_fixed)
  from foldl_min_fixed [OF this assms(3,4)] show ?thesis .
qed

lemma safe_emit_loop_fixed:
  "safe_emit_loop t secrets n \<noteq> 0 \<Longrightarrow>
     adjust_emit_len t (safe_emit_loop t secrets n) secrets = safe_emit_loop t secrets n"
proof (induction t secrets n rule: safe_emit_loop.induct)
  case (1 t secrets n)
  show ?case
  proof (cases "n = 0 \<or> adjust_emit_len t n secrets = n")
    case True
    with "1.prems" show ?thesis by (auto simp: safe_emit_loop.simps [of t secrets n])
  next
    case False
    then have "safe_emit_loop t secrets n = safe_emit_loop t secrets (adjust_emit_len t n secrets)"
      by (simp add: safe_emit_loop.simps [of t secrets n] Let_def)
    with "1.IH" "1.prems" False show ?thesis by simp
  qed
qed

lemma safe_emit_safe_cut:
  assumes "safe_emit_prefix_len text tail secrets = n" and "n \<noteq> 0"
  shows "safe_cut secrets (take n text)"
proof -
  have fixed: "adjust_emit_len text n secrets = n"
    using assms safe_emit_loop_fixed by (auto simp: safe_emit_prefix_len_def)
  show ?thesis
    unfolding safe_cut_def
  proof (intro ballI allI impI notI)
    fix s k
    assume s: "s \<in> set secrets" and k: "1 \<le> k" "k < length s" and "suffix (take k s) (take n text)"
    then have "n \<le> n - length (take k s)"
      using adjust_emit_len_fixed [OF fixed s, of "take k s"]
      by (simp add: ends_with_iff proper_prefixes_def)
    with k assms(2) show False by simp
  qed
qed

section \<open>The stream as a whole\<close>

lemma html_escape_append: "html_escape (s @ t) = html_escape s @ html_escape t"
  by (induction s) auto

lemma safe_cut_chunks:
  assumes "[] \<notin> set secrets" and "v \<in> set secrets" and "star_free v"
    and "\<forall>c\<in>set cs. safe_cut secrets c"
  shows "\<not> sublist v (concat (map (mask_values secrets) cs) @ mask_values secrets lst)"
  using assms(4)
proof (induction cs)
  case Nil
  show ?case using mask_values_removes [OF assms(1-3)] by simp
next
  case (Cons c cs)
  let ?rest = "concat (map (mask_values secrets) cs) @ mask_values secrets lst"
  show ?case
  proof
    assume "sublist v (concat (map (mask_values secrets) (c # cs)) @ mask_values secrets lst)"
    then have "sublist v (mask_values secrets c @ ?rest)" by simp
    then obtain a b where "v = a @ b" "suffix a (mask_values secrets c)" "prefix b ?rest"
      using Cons mask_values_removes [OF assms(1-3)] by (auto simp: sublist_append)
    then have a: "suffix a c" "a = take (length a) v"
      using mask_values_suffix [OF assms(1), of a c] assms(3) by auto
    have "a \<noteq> []"
      using Cons \<open>v = a @ b\<close> \<open>prefix b ?rest\<close> by (auto intro: prefix_imp_sublist)
    moreover have "b \<noteq> []"
    proof
      assume "b = []"
      then have "sublist v (mask_values secrets c)"
        using \<open>v = a @ b\<close> \<open>suffix a (mask_values secrets c)\<close> by (simp add: suffix_imp_sublist)
      then show False using mask_values_removes [OF assms(1-3)] by blast
    qed
    ultimately have "1 \<le> length a" "length a < length v"
      using \<open>v = a @ b\<close> by (auto simp: Suc_le_eq)
    moreover have "safe_cut secrets c" using Cons.prems by simp
    ultimately show False using assms(2) a unfolding safe_cut_def by metis
  qed
qed

lemma masker_emit:
  "(case non_empty (mask_resolved_env_values_and_escape t secrets) of Some d \<Rightarrow> [d] | None \<Rightarrow> [])
     = (if html_escape (mask_values secrets t) = [] then [] else [html_escape (mask_values secrets t)])"
  by (simp add: mask_resolved_env_values_and_escape_def non_empty_def)

lemma mask_values_Nil: "[] \<notin> set vs \<Longrightarrow> mask_values vs [] = []"
  by (induction vs) auto

lemma masker_run_chunks:
  "[] \<notin> set (lm_secret_values m) \<Longrightarrow> \<exists>cs lst. concat cs @ lst = lm_buffer m @ concat texts
     \<and> (\<forall>c\<in>set cs. safe_cut (lm_secret_values m) c)
     \<and> concat (masker_run m texts)
         = html_escape (concat (map (mask_values (lm_secret_values m)) cs)
                        @ mask_values (lm_secret_values m) lst)"
proof (induction texts arbitrary: m)
  case Nil
  then have "concat (masker_run m []) = html_escape (mask_values (lm_secret_values m) (lm_buffer m))"
    by (simp add: masker_flush_def masker_emit mask_values_Nil)
  then show ?case by (intro exI [of _ "[]"] exI [of _ "lm_buffer m"]) simp
next
  case (Cons t texts)
  let ?b = "lm_buffer m @ t" and ?M = "mask_values (lm_secret_values m)"
  let ?n = "safe_emit_prefix_len ?b (lm_tail_chars m) (lm_secret_values m)"
  show ?case
  proof (cases "?n = 0")
    case True
    then show ?thesis
      using Cons.IH [of "m\<lparr>lm_buffer := ?b\<rparr>"] Cons.prems by (simp add: masker_push_def Let_def)
  next
    case False
    obtain cs lst where cs: "concat cs @ lst = drop ?n ?b @ concat texts"
        "\<forall>c\<in>set cs. safe_cut (lm_secret_values m) c"
        "concat (masker_run (m\<lparr>lm_buffer := drop ?n ?b\<rparr>) texts)
           = html_escape (concat (map ?M cs) @ ?M lst)"
      using Cons.IH [of "m\<lparr>lm_buffer := drop ?n ?b\<rparr>"] Cons.prems by auto
    have "concat (masker_run m (t # texts))
        = html_escape (?M (take ?n ?b)) @ html_escape (concat (map ?M cs) @ ?M lst)"
      using False cs(3) by (simp add: masker_push_def Let_def masker_emit)
    moreover have "concat (take ?n ?b # cs) @ lst = lm_buffer m @ concat (t # texts)"
      using cs(1) by (metis append.assoc append_take_drop_id concat.simps(2))
    ultimately show ?thesis
      using cs(2) safe_emit_safe_cut [OF refl False]
      by (intro exI [of _ "take ?n ?b # cs"] exI [of _ lst]) (simp add: html_escape_append)
  qed
qed

lemma masker_run_safe:
  assumes "m = masker_new X masking hook_env"
  shows "\<exists>chunks. concat chunks = concat texts
           \<and> concat (masker_run m texts)
               = html_escape (concat (map (mask_values (lm_secret_values m)) chunks))
           \<and> (\<forall>v\<in>set (lm_secret_values m). CHR ''*'' \<notin> set v \<longrightarrow>
                \<not> sublist v (concat (map (mask_values (lm_secret_values m)) chunks)))"
proof -
  have ne: "[] \<notin> set (lm_secret_values m)"
    by (simp add: assms masker_new_def Let_def stream_mask_secret_values_def)
  have "lm_buffer m = []" by (simp add: assms masker_new_def Let_def)
  with masker_run_chunks [OF ne, of texts] obtain cs lst where
    "concat cs @ lst = concat texts" "\<forall>c\<in>set cs. safe_cut (lm_secret_values m) c"
    "concat (masker_run m texts) = html_escape (concat (map (mask_values (lm_secret_values m)) cs)
        @ mask_values (lm_secret_values m) lst)" by auto
  then show ?thesis
    using safe_cut_chunks [OF ne] by (intro exI [of _ "cs @ [lst]"]) simp
qed

text \<open>C3: the log stream hides the secrets however the log is cut into pieces. For every
  sequence of texts read from the log file, what the masker sends, put together, is the escaped
  form of a masked text that comes from the whole log by cutting it into chunks and masking
  each; and although the chunks are masked one by one, no secret value without an asterisk
  occurs in it, not even across the boundary of two chunks or of two reads.\<close>

theorem log_stream_masker_safe:
  assumes "m = masker_new X masking hook_env"
  shows "\<exists>chunks. concat chunks = concat texts
           \<and> concat (masker_run m texts)
               = html_escape (concat (map (mask_values (lm_secret_values m)) chunks))
           \<and> (\<forall>v\<in>set (lm_secret_values m). CHR ''*'' \<notin> set v \<longrightarrow>
                \<not> sublist v (concat (map (mask_values (lm_secret_values m)) chunks)))"
  by (rule masker_run_safe [OF assms])

theorem log_stream_masker_safe_witness:
  "\<exists>chunks. concat chunks = ''a s3cret b''
      \<and> \<not> sublist ''s3cret'' (concat (map (mask_values [''s3cret'']) chunks))"
proof -
  let ?m = "masker_new sample_external
      \<lparr>mk_env_vars = [''TOKEN''], mk_patterns = [], mk_compiled_patterns = []\<rparr> []"
  have "lm_secret_values ?m = [''s3cret'']"
    by (simp add: masker_new_def stream_mask_secret_values_def resolve_var_def
        List.map_filter_def sample_external_def Let_def)
  with log_stream_masker_safe [OF refl [of ?m], of "[''a s3'', ''cret b'']"] show ?thesis by auto
qed

end
