(* ===== verification/Log_Stream.thy ===== *)
theory Log_Stream
  imports Execution_Routes Masking
begin

text \<open>
  The log stream of \<open>src/routes/executions.rs\<close>: tailing the two log files of an execution and
  sending what is new, masked, until the execution has ended.

  A file is its bytes. While a log is tailed it is not removed, so an open file is its path; a read
  returns the whole range it asks for, and every file operation fails by the stream \<open>w_io_fault\<close>.
  The loop that polls runs for as long as the execution does: it is a partial function, and what
  the rest of the server does while round k pauses, before it reads the second file and before it
  asks for the status is a function \<open>env\<close> of the world at \<open>3 k\<close>, \<open>3 k + 1\<close> and \<open>3 k + 2\<close>; once the
  execution has ended nothing writes to its logs, and the final drain is one step.
\<close>

section \<open>UTF-8\<close>

text \<open>\<open>String::from_utf8\<close>: well-formed byte sequences, without overlong forms, surrogates and values
  beyond U+10FFFF.\<close>

definition between_bytes :: "nat \<Rightarrow> nat \<Rightarrow> char \<Rightarrow> bool" where
  "between_bytes lo hi c \<longleftrightarrow> lo \<le> of_char c \<and> of_char c \<le> hi"

abbreviation continuation :: "char \<Rightarrow> bool" where "continuation \<equiv> between_bytes 128 191"

fun utf8_ok :: "string \<Rightarrow> bool" where
  "utf8_ok [] = True"
| "utf8_ok (a # s) =
     (if between_bytes 0 127 a then utf8_ok s
      else if between_bytes 194 223 a
      then (case s of b # r \<Rightarrow> continuation b \<and> utf8_ok r | _ \<Rightarrow> False)
      else if between_bytes 224 239 a
      then (case s of b # c # r \<Rightarrow>
              between_bytes (if of_char a = (224 :: nat) then 160 else 128)
                (if of_char a = (237 :: nat) then 159 else 191) b
              \<and> continuation c \<and> utf8_ok r
            | _ \<Rightarrow> False)
      else if between_bytes 240 244 a
      then (case s of b # c # d # r \<Rightarrow>
              between_bytes (if of_char a = (240 :: nat) then 144 else 128)
                (if of_char a = (244 :: nat) then 143 else 191) b
              \<and> continuation c \<and> continuation d \<and> utf8_ok r
            | _ \<Rightarrow> False)
      else False)"

definition from_utf8 :: "string \<Rightarrow> string option" where
  "from_utf8 s = (if utf8_ok s then Some s else None)"

section \<open>Tailing a file\<close>

definition log_tail_read_chunk_bytes :: nat where
  "log_tail_read_chunk_bytes = 64 * 1024"

record log_tail =
  lt_path :: string
  lt_open :: bool
  lt_offset :: nat

definition tail_new :: "string \<Rightarrow> log_tail" where
  "tail_new path = \<lparr>lt_path = path, lt_open = False, lt_offset = 0\<rparr>"

definition tail_closed :: "log_tail \<Rightarrow> log_tail" where
  "tail_closed t = t\<lparr>lt_open := False, lt_offset := 0\<rparr>"

definition file_bytes :: "string \<Rightarrow> world \<Rightarrow> string" where
  "file_bytes path w = (case w_files w path of Some s \<Rightarrow> s | None \<Rightarrow> [])"

definition open_tail :: "log_tail \<Rightarrow> log_tail io" where
  "open_tail t =
     (if lt_open t then return t
      else do {
        ok \<leftarrow> io_step;
        there \<leftarrow> gets (\<lambda>w. w_files w (lt_path t) \<noteq> None);
        return (t\<lparr>lt_open := ok \<and> there\<rparr>) })"

definition read_new_text :: "log_tail \<Rightarrow> (string option \<times> log_tail) io" where
  "read_new_text t0 = do {
     t \<leftarrow> open_tail t0;
     if \<not> lt_open t then return (None, t)
     else do {
       stat \<leftarrow> io_step;
       content \<leftarrow> gets (file_bytes (lt_path t));
       let len = length content;
       if \<not> stat then return (None, tail_closed t)
       else do {
         let t = (if len < lt_offset t then t\<lparr>lt_offset := 0\<rparr> else t);
         if len = lt_offset t then return (None, t)
         else do {
           let read_len = min (len - lt_offset t) log_tail_read_chunk_bytes;
           seek \<leftarrow> io_step;
           if \<not> seek then return (None, tail_closed t)
           else do {
             read \<leftarrow> io_step;
             if \<not> read then return (None, tail_closed t)
             else do {
               let bytes = take read_len (drop (lt_offset t) content);
               return (from_utf8 bytes, t\<lparr>lt_offset := lt_offset t + length bytes\<rparr>) } } } } } }"

section \<open>Events\<close>

datatype sse = Event string string

definition read_log_file :: "string \<Rightarrow> string \<Rightarrow> string \<Rightarrow> string option io" where
  "read_log_file logs_dir execution_id filename = do {
     let path = path_join (path_join logs_dir execution_id) filename;
     ok \<leftarrow> io_step;
     there \<leftarrow> gets (\<lambda>w. w_files w path);
     return (if \<not> ok then None
             else case Option.bind there from_utf8 of
                    Some contents \<Rightarrow> (if contents = [] then None else Some contents)
                  | None \<Rightarrow> None) }"

definition masked_log_file_event :: "external \<Rightarrow> string \<Rightarrow> string \<Rightarrow> string \<Rightarrow> string
    \<Rightarrow> masking_config \<Rightarrow> string_map \<Rightarrow> sse list io" where
  "masked_log_file_event X logs_dir execution_id filename event_name masking hook_env = do {
     contents \<leftarrow> read_log_file logs_dir execution_id filename;
     return (case contents of
               Some c \<Rightarrow> [Event event_name (mask_and_escape X c masking hook_env)]
             | None \<Rightarrow> []) }"

definition done_event :: "string \<Rightarrow> sse" where
  "done_event status =
     (let tag_class = (if status = ''success'' then ''ok'' else if status = ''failed'' then ''err'' else [])
      in Event ''done'' (''<span class='' @ [CHR 0x22] @ ''wf-tag '' @ tag_class @ [CHR 0x22] @ ''><span class=''
           @ [CHR 0x22] @ ''dot'' @ [CHR 0x22] @ ''></span>'' @ map ascii_upper status @ ''</span>''))"

definition log_events :: "external \<Rightarrow> string \<Rightarrow> string \<Rightarrow> masking_config \<Rightarrow> string_map \<Rightarrow> sse list io" where
  "log_events X logs_dir eid masking hook_env = do {
     outs \<leftarrow> masked_log_file_event X logs_dir eid ''stdout.log'' ''stdout'' masking hook_env;
     errs \<leftarrow> masked_log_file_event X logs_dir eid ''stderr.log'' ''stderr'' masking hook_env;
     return (outs @ errs) }"

definition chunk_events :: "string \<Rightarrow> string option \<Rightarrow> sse list" where
  "chunk_events name out = (case out of Some d \<Rightarrow> [Event name d] | None \<Rightarrow> [])"

section \<open>Draining a tail\<close>

text \<open>What reading does, in one equation: the world only counts file operations.\<close>

lemma run_open_tail:
  "run_state (open_tail t) w =
     (if lt_open t then (t, w)
      else (t\<lparr>lt_open := \<not> w_io_fault w (w_ios w) \<and> w_files w (lt_path t) \<noteq> None\<rparr>,
            w\<lparr>w_ios := Suc (w_ios w)\<rparr>))"
  by (simp add: open_tail_def)

definition tail_unread :: "log_tail \<Rightarrow> world \<Rightarrow> nat" where
  "tail_unread t w = length (file_bytes (lt_path t) w) - lt_offset t"

definition past_end :: "log_tail \<Rightarrow> world \<Rightarrow> bool" where
  "past_end t w \<longleftrightarrow> length (file_bytes (lt_path t) w) < lt_offset t"

lemma read_new_text_files: "w_files (snd (run_state (read_new_text t) w)) = w_files w"
  by (simp add: read_new_text_def run_open_tail Let_def)

lemma read_new_text_Some:
  assumes "run_state (read_new_text t) w = ((Some s, t'), w')"
  shows "lt_path t' = lt_path t \<and> lt_open t' \<and> utf8_ok s \<and> s \<noteq> []
    \<and> (let from = (if past_end t w then 0 else lt_offset t)
       in s = take (min (length (file_bytes (lt_path t) w) - from) log_tail_read_chunk_bytes)
                (drop from (file_bytes (lt_path t) w))
          \<and> lt_offset t' = from + length s)"
  using assms
  by (auto simp: read_new_text_def run_open_tail Let_def from_utf8_def past_end_def file_bytes_def
      log_tail_read_chunk_bytes_def min_def split: if_splits)

lemma read_new_text_decreases:
  assumes "run_state (read_new_text t) w = ((Some s, t'), w')"
  shows "\<not> past_end t' w' \<and> (past_end t w \<or> tail_unread t' w' < tail_unread t w)"
proof -
  have "w_files w' = w_files w" using read_new_text_files [of t w] assms by simp
  then have "file_bytes p w' = file_bytes p w" for p by (simp add: file_bytes_def)
  with read_new_text_Some [OF assms] show ?thesis
    by (auto simp: past_end_def tail_unread_def Let_def split: if_splits)
qed

text \<open>\<open>while let Some(text) = tail.read_new_text()\<close>: it ends, because every text that is read leaves
  less of the file.\<close>

function drain_tail :: "string \<Rightarrow> log_tail \<Rightarrow> log_stream_masker \<Rightarrow> world
    \<Rightarrow> (sse list \<times> log_tail \<times> log_stream_masker) \<times> world" where
  "drain_tail name t m w =
     (case run_state (read_new_text t) w of
        ((None, t'), w') \<Rightarrow> (([], t', m), w')
      | ((Some s, t'), w') \<Rightarrow>
          (case masker_push m s of (out, m') \<Rightarrow>
             (case drain_tail name t' m' w' of ((es, r), w'') \<Rightarrow>
                ((chunk_events name out @ es, r), w''))))"
  by pat_completeness auto
termination
  by (relation "measures [\<lambda>(name, t, m, w). if past_end t w then 1 else 0,
        \<lambda>(name, t, m, w). tail_unread t w]")
    (auto dest: read_new_text_decreases [OF sym])

declare drain_tail.simps [simp del]

section \<open>The stream\<close>

definition tail_events :: "string \<Rightarrow> log_tail \<Rightarrow> log_stream_masker
    \<Rightarrow> (sse list \<times> log_tail \<times> log_stream_masker) io" where
  "tail_events name t m = do {
     (text, t') \<leftarrow> read_new_text t;
     return (case text of
               None \<Rightarrow> ([], t', m)
             | Some s \<Rightarrow> (case masker_push m s of (out, m') \<Rightarrow> (chunk_events name out, t', m'))) }"

definition finish_stream :: "string \<Rightarrow> log_tail \<Rightarrow> log_stream_masker \<Rightarrow> sse list io" where
  "finish_stream name t m = do {
     (es, t', m') \<leftarrow> State (drain_tail name t m);
     return (es @ chunk_events name (fst (masker_flush m'))) }"

record live =
  lv_out :: log_tail
  lv_err :: log_tail
  lv_out_masker :: log_stream_masker
  lv_err_masker :: log_stream_masker

definition live_start :: "external \<Rightarrow> string \<Rightarrow> masking_config \<Rightarrow> string_map \<Rightarrow> live" where
  "live_start X log_dir masking hook_env =
     \<lparr>lv_out = tail_new (log_dir @ ''/stdout.log''), lv_err = tail_new (log_dir @ ''/stderr.log''),
      lv_out_masker = masker_new X masking hook_env, lv_err_masker = masker_new X masking hook_env\<rparr>"

text \<open>One round of the loop: a pause, a read of each file, and a look at the status. The flag says
  whether the loop ends.\<close>

definition live_round :: "(nat \<Rightarrow> world \<Rightarrow> world) \<Rightarrow> nat \<Rightarrow> string \<Rightarrow> live \<Rightarrow> (sse list \<times> live \<times> bool) io" where
  "live_round env k eid lv = do {
     _ \<leftarrow> modify (env (3 * k));
     (outs, out_tail, out_masker) \<leftarrow> tail_events ''stdout'' (lv_out lv) (lv_out_masker lv);
     _ \<leftarrow> modify (env (3 * k + 1));
     (errs, err_tail, err_masker) \<leftarrow> tail_events ''stderr'' (lv_err lv) (lv_err_masker lv);
     _ \<leftarrow> modify (env (3 * k + 2));
     fetched \<leftarrow> execution_get_by_id eid;
     let lv' = \<lparr>lv_out = out_tail, lv_err = err_tail, lv_out_masker = out_masker,
                lv_err_masker = err_masker\<rparr>;
     case fetched of
       Inl _ \<Rightarrow> return (outs @ errs, lv', False)
     | Inr e \<Rightarrow>
         if is_terminal (ex_status e) then do {
           outs' \<leftarrow> finish_stream ''stdout'' out_tail out_masker;
           errs' \<leftarrow> finish_stream ''stderr'' err_tail err_masker;
           return (outs @ errs @ outs' @ errs' @ [done_event (status_text (ex_status e))], lv', True) }
         else return (outs @ errs, lv', False) }"

partial_function (option) live_loop :: "(nat \<Rightarrow> world \<Rightarrow> world) \<Rightarrow> nat \<Rightarrow> string \<Rightarrow> live \<Rightarrow> sse list
    \<Rightarrow> world \<Rightarrow> (sse list \<times> world) option" where
  "live_loop env k eid lv acc w =
     (case run_state (live_round env k eid lv) w of
        ((es, lv', finished), w') \<Rightarrow>
          if finished then Some (acc @ es, w') else live_loop env (Suc k) eid lv' (acc @ es) w')"

text \<open>With regular expressions among the masks nothing is sent until the execution has ended.\<close>

partial_function (option) deferred_loop :: "external \<Rightarrow> (nat \<Rightarrow> world \<Rightarrow> world) \<Rightarrow> nat \<Rightarrow> string \<Rightarrow> string
    \<Rightarrow> masking_config \<Rightarrow> string_map \<Rightarrow> world \<Rightarrow> (sse list \<times> world) option" where
  "deferred_loop X env k logs_dir eid masking hook_env w =
     (case run_state (execution_get_by_id eid) (env k w) of
        (Inr e, w1) \<Rightarrow>
          if is_terminal (ex_status e)
          then (case run_state (log_events X logs_dir eid masking hook_env) w1 of
                  (es, w2) \<Rightarrow> Some (es @ [done_event (status_text (ex_status e))], w2))
          else deferred_loop X env (Suc k) logs_dir eid masking hook_env w1
      | (Inl _, w1) \<Rightarrow> deferred_loop X env (Suc k) logs_dir eid masking hook_env w1)"

definition ended_stream :: "external \<Rightarrow> string \<Rightarrow> string \<Rightarrow> masking_config \<Rightarrow> string_map \<Rightarrow> sse list io" where
  "ended_stream X logs_dir eid masking hook_env = do {
     es \<leftarrow> log_events X logs_dir eid masking hook_env;
     fetched \<leftarrow> execution_get_by_id eid;
     let status = (case fetched of Inr e \<Rightarrow> status_text (ex_status e) | Inl _ \<Rightarrow> ''unknown'');
     return (es @ [done_event status]) }"

text \<open>The environment of the execution's hook; empty when the hook is not configured any more.\<close>

definition hook_env_of :: "app_config \<Rightarrow> string \<Rightarrow> string_map" where
  "hook_env_of config slug =
     (case find_hook (\<lambda>h. hk_slug h = slug) config of Some h \<Rightarrow> hk_env h | None \<Rightarrow> [])"

definition log_stream :: "external \<Rightarrow> (nat \<Rightarrow> world \<Rightarrow> world) \<Rightarrow> string \<Rightarrow> world
    \<Rightarrow> app_error + (sse list \<times> world) option" where
  "log_stream X env eid w =
     (let config = w_config w; logs_dir = lg_dir (cf_logs config)
      in case run_state (execution_get_by_id eid) w of
           (Inl (NotFound _), _) \<Rightarrow> Inl (AppNotFound ''execution'')
         | (Inl _, _) \<Rightarrow> Inl AppInternal
         | (Inr exec, w1) \<Rightarrow>
             (let hook_env = (case find_hook (\<lambda>h. hk_slug h = ex_hook_slug exec) config of
                                Some hook \<Rightarrow> hk_env hook | None \<Rightarrow> []);
                  masking = cf_masking config
              in Inr (if is_terminal (ex_status exec)
                      then Some (run_state (ended_stream X logs_dir eid masking hook_env) w1)
                      else if mk_compiled_patterns masking \<noteq> []
                      then deferred_loop X env 0 logs_dir eid masking hook_env w1
                      else live_loop env 0 eid (live_start X (logs_dir @ ''/'' @ eid) masking hook_env) [] w1)))"

section \<open>The stream ends\<close>

definition has_ended :: "string \<Rightarrow> world \<Rightarrow> bool" where
  "has_ended eid w \<longleftrightarrow> (\<forall>n. \<not> w_fault w n) \<and> (\<exists>st. status_of eid w = Some st \<and> is_terminal st)"

lemma get_ended:
  assumes "has_ended eid w"
  obtains e w' where "run_state (execution_get_by_id eid) w = (Inr e, w')" and "is_terminal (ex_status e)"
  using assms by (auto simp: has_ended_def execution_get_by_id_def status_of_def find_exec_def)

lemma run_live_round:
  "run_state (live_round env k eid lv) w =
     (case run_state (tail_events ''stdout'' (lv_out lv) (lv_out_masker lv)) (env (3 * k) w) of (a, w1) \<Rightarrow>
      case run_state (tail_events ''stderr'' (lv_err lv) (lv_err_masker lv)) (env (3 * k + 1) w1) of (b, w2) \<Rightarrow>
      case run_state (execution_get_by_id eid) (env (3 * k + 2) w2) of (r, w3) \<Rightarrow>
        let lv' = \<lparr>lv_out = fst (snd a), lv_err = fst (snd b), lv_out_masker = snd (snd a),
                   lv_err_masker = snd (snd b)\<rparr>
        in case r of
             Inl _ \<Rightarrow> ((fst a @ fst b, lv', False), w3)
           | Inr e \<Rightarrow>
               if is_terminal (ex_status e) then
                 (case run_state (finish_stream ''stdout'' (fst (snd a)) (snd (snd a))) w3 of (c, w4) \<Rightarrow>
                  case run_state (finish_stream ''stderr'' (fst (snd b)) (snd (snd b))) w4 of (d, w5) \<Rightarrow>
                    ((fst a @ fst b @ c @ d @ [done_event (status_text (ex_status e))], lv', True), w5))
               else ((fst a @ fst b, lv', False), w3))"
  by (simp add: live_round_def case_prod_unfold Let_def split: sum.split)

lemma live_round_ends:
  assumes "\<And>w. has_ended eid (env (3 * k + 2) w)"
  shows "\<exists>es lv' w' st. run_state (live_round env k eid lv) w = ((es @ [done_event (status_text st)], lv', True), w')
           \<and> is_terminal st"
proof -
  obtain a w1 where 1: "run_state (tail_events ''stdout'' (lv_out lv) (lv_out_masker lv)) (env (3 * k) w) = (a, w1)"
    by fastforce
  obtain b w2 where 2: "run_state (tail_events ''stderr'' (lv_err lv) (lv_err_masker lv)) (env (3 * k + 1) w1) = (b, w2)"
    by fastforce
  obtain e w3 where 3: "run_state (execution_get_by_id eid) (env (3 * k + 2) w2) = (Inr e, w3)" "is_terminal (ex_status e)"
    using get_ended [OF assms] by metis
  show ?thesis
    unfolding run_live_round 1 2 3 prod.case sum.case using 3(2) by (auto simp: case_prod_unfold)
qed

lemma live_loop_ends:
  assumes "\<And>j w. K \<le> j \<Longrightarrow> has_ended eid (env j w)"
  shows "\<exists>es w' st. live_loop env k eid lv acc w = Some (es @ [done_event (status_text st)], w') \<and> is_terminal st"
proof (induction "K - k" arbitrary: k lv acc w rule: less_induct)
  case less
  obtain es lv' fin w' where r: "run_state (live_round env k eid lv) w = ((es, lv', fin), w')"
    by (metis prod.collapse)
  show ?case
  proof (cases "K \<le> 3 * k + 2")
    case True
    with live_round_ends [of eid env k lv w] assms r obtain st es' where
      "fin" "es = es' @ [done_event (status_text st)]" "is_terminal st" by auto
    with r show ?thesis by (subst live_loop.simps) auto
  next
    case False
    show ?thesis
    proof (cases fin)
      case True
      then have "\<exists>st es'. es = es' @ [done_event (status_text st)] \<and> is_terminal st"
        using r by (auto simp: run_live_round case_prod_unfold Let_def split: if_splits sum.splits)
      with True r show ?thesis by (subst live_loop.simps) auto
    next
      case False
      from \<open>\<not> K \<le> 3 * k + 2\<close> have "K - Suc k < K - k" by simp
      from less [OF this, of lv' "acc @ es" w'] False r show ?thesis
        by (subst live_loop.simps) auto
    qed
  qed
qed

lemma deferred_loop_ends:
  assumes "\<And>j w. K \<le> j \<Longrightarrow> has_ended eid (env j w)"
  shows "\<exists>es w' st. deferred_loop X env k logs_dir eid masking hook_env w = Some (es @ [done_event (status_text st)], w')
           \<and> is_terminal st"
proof (induction "K - k" arbitrary: k w rule: less_induct)
  case less
  obtain r w1 where r: "run_state (execution_get_by_id eid) (env k w) = (r, w1)" by fastforce
  obtain es w2 where es: "run_state (log_events X logs_dir eid masking hook_env) w1 = (es, w2)" by fastforce
  show ?case
  proof (cases "\<exists>e. r = Inr e \<and> is_terminal (ex_status e)")
    case True
    with r es show ?thesis by (subst deferred_loop.simps) auto
  next
    case False
    have "\<not> K \<le> k" using get_ended [OF assms, of k w] r False by auto
    then have "K - Suc k < K - k" by simp
    from less [OF this, of w1] False r show ?thesis
      by (subst deferred_loop.simps) (auto split: sum.splits)
  qed
qed

text \<open>C7: The log stream ends with the execution. For a stored execution that has ended, or that the
  rest of the server has ended from some point on, the stream is finite however the server, the
  log files and the failures of file operations behave until then, and its last event says that
  the execution is done. Only a failing first query is answered with an error.\<close>

theorem log_stream_ends:
  assumes "run_state (execution_get_by_id eid) w = (Inr exec, w1)"
    and "\<And>j v. K \<le> j \<Longrightarrow> has_ended eid (env j v)"
  shows "\<exists>es w' status. log_stream X env eid w = Inr (Some (es @ [done_event status], w'))"
proof -
  let ?masking = "cf_masking (w_config w)" and ?dir = "lg_dir (cf_logs (w_config w))"
  define hook_env where "hook_env = (case find_hook (\<lambda>h. hk_slug h = ex_hook_slug exec) (w_config w) of
      Some hook \<Rightarrow> hk_env hook | None \<Rightarrow> [])"
  have ended: "\<exists>es w' status. run_state (ended_stream X ?dir eid ?masking hook_env) w1 = (es @ [done_event status], w')"
    by (auto simp: ended_stream_def case_prod_unfold Let_def)
  have e: "\<And>j v. K \<le> j \<Longrightarrow> has_ended eid (env j v)" by (rule assms(2))
  have live: "\<exists>es w' status. live_loop env 0 eid (live_start X (?dir @ ''/'' @ eid) ?masking hook_env) [] w1
      = Some (es @ [done_event status], w')"
    using live_loop_ends [where env = env and K = K and eid = eid, OF e] by blast
  have deferred: "\<exists>es w' status. deferred_loop X env 0 ?dir eid ?masking hook_env w1
      = Some (es @ [done_event status], w')"
    using deferred_loop_ends [where env = env and K = K and eid = eid, OF e] by blast
  show ?thesis
    unfolding log_stream_def Let_def assms(1) prod.case sum.case hook_env_def [symmetric]
    using ended live deferred by simp
qed

section \<open>What is sent\<close>

fun masker_pushes :: "log_stream_masker \<Rightarrow> string list \<Rightarrow> string list \<times> log_stream_masker" where
  "masker_pushes m [] = ([], m)"
| "masker_pushes m (s # ss) =
     (case masker_push m s of (out, m') \<Rightarrow>
        (case masker_pushes m' ss of (ds, m'') \<Rightarrow> ((case out of Some d \<Rightarrow> [d] | None \<Rightarrow> []) @ ds, m'')))"

lemma masker_pushes_append:
  "masker_pushes m (ss @ rs) =
     (case masker_pushes m ss of (ds, m') \<Rightarrow> case masker_pushes m' rs of (es, m'') \<Rightarrow> (ds @ es, m''))"
  by (induction ss arbitrary: m) (auto split: prod.splits)

lemma masker_run_pushes:
  "masker_run m ss = (case masker_pushes m ss of (ds, m') \<Rightarrow>
     ds @ (case fst (masker_flush m') of Some d \<Rightarrow> [d] | None \<Rightarrow> []))"
  by (induction ss arbitrary: m) (auto split: prod.splits)

definition data_of :: "string \<Rightarrow> sse list \<Rightarrow> string list" where
  "data_of name es = List.map_filter (\<lambda>e. case e of Event n d \<Rightarrow> if n = name then Some d else None) es"

lemma data_of_simps [simp]:
  "data_of name [] = []" "data_of name (es @ fs) = data_of name es @ data_of name fs"
  "data_of name (Event n d # es) = (if n = name then [d] else []) @ data_of name es"
  by (simp_all add: data_of_def List.map_filter_def)

lemma data_of_chunk [simp]:
  "data_of name (chunk_events n out) = (if n = name then (case out of Some d \<Rightarrow> [d] | None \<Rightarrow> []) else [])"
  by (simp add: chunk_events_def split: option.split)

lemma data_of_done [simp]: "name \<noteq> ''done'' \<Longrightarrow> data_of name [done_event s] = []"
  by (simp add: done_event_def Let_def)

definition good :: "string \<Rightarrow> world \<Rightarrow> bool" where
  "good p w \<longleftrightarrow> (\<forall>n. \<not> w_io_fault w n) \<and> list_all (between_bytes 0 127) (file_bytes p w)"

lemma utf8_ok_ascii: "list_all (between_bytes 0 127) a \<Longrightarrow> utf8_ok (a @ s) = utf8_ok s"
  by (induction a) auto

lemma utf8_ok_of_ascii: "list_all (between_bytes 0 127) a \<Longrightarrow> utf8_ok a"
  using utf8_ok_ascii [of a "[]"] by simp

lemma read_new_text_io_fault: "w_io_fault (snd (run_state (read_new_text t) w)) = w_io_fault w"
  by (simp add: read_new_text_def run_open_tail Let_def)

lemma good_read: "good p (snd (run_state (read_new_text t) w)) = good p w"
  by (simp add: good_def file_bytes_def read_new_text_files read_new_text_io_fault)

text \<open>Reading an ASCII file without failures.\<close>

lemma read_new_text_good:
  assumes "good (lt_path t) w" and "lt_offset t \<le> length (file_bytes (lt_path t) w)"
    and "run_state (read_new_text t) w = ((r, t'), w')"
  shows "lt_path t' = lt_path t \<and> lt_offset t' \<le> length (file_bytes (lt_path t) w)
    \<and> (case r of
         None \<Rightarrow> lt_offset t' = lt_offset t \<and> lt_offset t = length (file_bytes (lt_path t) w)
       | Some s \<Rightarrow> take (lt_offset t') (file_bytes (lt_path t) w)
                      = take (lt_offset t) (file_bytes (lt_path t) w) @ s)"
proof -
  let ?c = "file_bytes (lt_path t) w"
  have nf: "\<not> w_io_fault w n" for n using assms(1) by (simp add: good_def)
  have "list_all (between_bytes 0 127) (take k (drop n ?c))" for k n
    using assms(1) by (auto simp: good_def list_all_iff dest!: in_set_takeD in_set_dropD)
  then have u: "from_utf8 (take k (drop n ?c)) = Some (take k (drop n ?c))" for k n
    by (simp add: from_utf8_def utf8_ok_of_ascii)
  have fb: "file_bytes p (w\<lparr>w_ios := n\<rparr>) = file_bytes p w" for p n by (simp add: file_bytes_def)
  have empty: "w_files w (lt_path t) = None \<Longrightarrow> ?c = []" by (simp add: file_bytes_def)
  show ?thesis
    using assms(2,3) nf u empty
    by (cases "lt_open t")
      (auto simp: read_new_text_def run_open_tail Let_def fb take_add [symmetric] split: if_splits)
qed

text \<open>How far the stream of one file has come: the texts read so far are the file up to the offset,
  and the events are what the masker makes of them.\<close>

definition follows :: "string \<Rightarrow> string \<Rightarrow> log_stream_masker \<Rightarrow> log_tail \<Rightarrow> log_stream_masker
    \<Rightarrow> world \<Rightarrow> sse list \<Rightarrow> bool" where
  "follows name p m0 t m w es \<longleftrightarrow>
     lt_path t = p \<and> good p w \<and> lt_offset t \<le> length (file_bytes p w)
     \<and> (\<exists>ss. concat ss = take (lt_offset t) (file_bytes p w) \<and> masker_pushes m0 ss = (data_of name es, m))"

lemma follows_read:
  assumes "follows name p m0 t m w es" and "run_state (read_new_text t) w = ((r, t'), w')"
  shows "case r of
      None \<Rightarrow> follows name p m0 t' m w' es \<and> lt_offset t' = length (file_bytes p w')
    | Some s \<Rightarrow> (case masker_push m s of (out, m') \<Rightarrow>
        follows name p m0 t' m' w' (es @ chunk_events name out))"
proof -
  have w': "w_files w' = w_files w" "good p w' = good p w"
    using read_new_text_files [of t w] good_read [of p t w] assms(2) by simp_all
  then have fb: "file_bytes p w' = file_bytes p w" by (simp add: file_bytes_def)
  obtain ss where ss: "concat ss = take (lt_offset t) (file_bytes p w)"
      "masker_pushes m0 ss = (data_of name es, m)" "lt_path t = p" "good p w"
      "lt_offset t \<le> length (file_bytes p w)"
    using assms(1) by (auto simp: follows_def)
  note r = read_new_text_good [of t w r t' w', OF _ _ assms(2)]
  show ?thesis
  proof (cases r)
    case None
    then show ?thesis using r ss w' fb by (auto simp: follows_def)
  next
    case (Some s)
    have "concat (ss @ [s]) = take (lt_offset t') (file_bytes p w')"
      using r ss fb Some by simp
    moreover have "masker_pushes m0 (ss @ [s]) = (data_of name (es @ chunk_events name out), m')"
      if "masker_push m s = (out, m')" for out m'
      using ss that by (simp add: masker_pushes_append)
    ultimately have "\<And>out m'. masker_push m s = (out, m') \<Longrightarrow>
        follows name p m0 t' m' w' (es @ chunk_events name out)"
      unfolding follows_def using r ss w' fb Some by (auto intro!: exI [of _ "ss @ [s]"])
    then show ?thesis using Some by (simp split: prod.split)
  qed
qed

lemma follows_tail_events:
  assumes "follows name p m0 t m w acc" and "run_state (tail_events name t m) w = ((es, t', m'), w')"
  shows "follows name p m0 t' m' w' (acc @ es)"
proof -
  obtain r t1 w1 where r: "run_state (read_new_text t) w = ((r, t1), w1)" by (metis prod.collapse)
  from follows_read [OF assms(1) r] show ?thesis
    using assms(2) r by (cases r) (auto simp: tail_events_def split: prod.splits)
qed

text \<open>Draining, by rule: the invariant is shown for the end of the file and for one text more.\<close>

lemma drain_tail_rule:
  assumes "drain_tail name t m w = (q, w')"
    and "\<And>t m w t' w'. run_state (read_new_text t) w = ((None, t'), w') \<Longrightarrow> P t m w ([], t', m) w'"
    and "\<And>t m w s t1 w1 out m1 es r w'. run_state (read_new_text t) w = ((Some s, t1), w1) \<Longrightarrow>
           masker_push m s = (out, m1) \<Longrightarrow> P t1 m1 w1 (es, r) w' \<Longrightarrow>
           P t m w (chunk_events name out @ es, r) w'"
  shows "P t m w q w'"
  using assms
proof (induction name t m w arbitrary: q w' rule: drain_tail.induct)
  case (1 n t m w)
  obtain r t1 w1 where r: "run_state (read_new_text t) w = ((r, t1), w1)" by (metis prod.collapse)
  show ?case
  proof (cases r)
    case None
    with r "1.prems"(1) "1.prems"(2) [OF r [unfolded None]] show ?thesis
      by (auto simp: drain_tail.simps [of n t m w])
  next
    case (Some s)
    obtain out m1 where p: "masker_push m s = (out, m1)" by fastforce
    obtain es e where d: "drain_tail n t1 m1 w1 = ((es, e), w')" "q = (chunk_events n out @ es, e)"
      using "1.prems"(1) r Some p by (auto simp: drain_tail.simps [of n t m w] split: prod.splits)
    have "P t1 m1 w1 (es, e) w'"
      by (rule "1.IH" [OF r [symmetric] refl Some p [symmetric] d(1) "1.prems"(2,3)])
    with "1.prems"(3) [OF r [unfolded Some] p] d(2) show ?thesis by simp
  qed
qed

lemma drain_tail_world:
  assumes "drain_tail name t m w = (q, w')"
  shows "w_files w' = w_files w \<and> w_io_fault w' = w_io_fault w"
  by (rule drain_tail_rule [OF assms, where P = "\<lambda>t m w q w'. w_files w' = w_files w \<and> w_io_fault w' = w_io_fault w"])
    (use read_new_text_files read_new_text_io_fault in \<open>metis snd_conv\<close>)+

lemma follows_drain:
  assumes "follows name p m0 t m w acc" and "drain_tail name t m w = ((es, t', m'), w')"
  shows "follows name p m0 t' m' w' (acc @ es) \<and> lt_offset t' = length (file_bytes p w')"
proof -
  have "\<forall>acc. follows name p m0 t m w acc \<longrightarrow>
      (case (es, t', m') of (es, t', m') \<Rightarrow>
        follows name p m0 t' m' w' (acc @ es) \<and> lt_offset t' = length (file_bytes p w'))"
    by (rule drain_tail_rule [OF assms(2)]) (fastforce dest: follows_read split: prod.splits)+
  with assms(1) show ?thesis by simp
qed

lemma other_data:
  "run_state (tail_events n t m) w = ((es, t', m'), w') \<Longrightarrow> name \<noteq> n \<Longrightarrow> data_of name es = []"
  by (auto simp: tail_events_def split: prod.splits option.splits)

lemma other_drain:
  assumes "drain_tail n t m w = ((es, t', m'), w')" and "name \<noteq> n"
  shows "data_of name es = []"
proof -
  have "data_of name (fst (es, t', m')) = []"
    by (rule drain_tail_rule [OF assms(1)]) (use assms(2) in auto)
  then show ?thesis by simp
qed

definition grows :: "string \<Rightarrow> world \<Rightarrow> world \<Rightarrow> bool" where
  "grows p w w' \<longleftrightarrow> (good p w \<longrightarrow> good p w' \<and> prefix (file_bytes p w) (file_bytes p w'))"

lemma grows_same: "w_files w' = w_files w \<Longrightarrow> w_io_fault w' = w_io_fault w \<Longrightarrow> grows p w w'"
  by (simp add: grows_def good_def file_bytes_def)

lemma follows_grows: "follows name p m0 t m w es \<Longrightarrow> grows p w w' \<Longrightarrow> follows name p m0 t m w' es"
  by (auto simp: follows_def grows_def prefix_def)

lemma follows_other:
  "follows name p m0 t m w es \<Longrightarrow> data_of name fs = [] \<Longrightarrow> follows name p m0 t m w (es @ fs)"
  by (simp add: follows_def)

lemma tail_events_grows: "run_state (tail_events n t m) w = (r, w') \<Longrightarrow> grows p w w'"
  using read_new_text_files [of t w] read_new_text_io_fault [of t w]
  by (auto simp: tail_events_def case_prod_unfold intro!: grows_same)

lemma get_by_id_grows: "run_state (execution_get_by_id eid) w = (r, w') \<Longrightarrow> grows p w w'"
  by (auto intro!: grows_same)

text \<open>All of a file has been sent.\<close>

definition sent :: "string \<Rightarrow> string \<Rightarrow> log_stream_masker \<Rightarrow> world \<Rightarrow> sse list \<Rightarrow> bool" where
  "sent name p m0 w es \<longleftrightarrow> (\<exists>ss. concat ss = file_bytes p w \<and> masker_run m0 ss = data_of name es)"

lemma sent_other:
  "sent name p m0 w es \<Longrightarrow> data_of name fs = [] \<Longrightarrow> w_files w' = w_files w \<Longrightarrow> sent name p m0 w' (es @ fs)"
  by (simp add: sent_def file_bytes_def)

lemma run_finish_stream:
  "run_state (finish_stream name t m) w = (case drain_tail name t m w of
     ((es, t', m'), w') \<Rightarrow> (es @ chunk_events name (fst (masker_flush m')), w'))"
  by (simp add: finish_stream_def case_prod_unfold)

lemma finish_stream_world:
  "run_state (finish_stream n t m) w = (es, w') \<Longrightarrow> w_files w' = w_files w \<and> w_io_fault w' = w_io_fault w"
  by (auto simp: run_finish_stream dest: drain_tail_world split: prod.splits)

lemma finish_stream_other:
  "run_state (finish_stream n t m) w = (es, w') \<Longrightarrow> name \<noteq> n \<Longrightarrow> data_of name es = []"
  by (auto simp: run_finish_stream dest: other_drain split: prod.splits)

lemma follows_finish:
  assumes "follows name p m0 t m w acc" and "run_state (finish_stream name t m) w = (es, w')"
  shows "sent name p m0 w' (acc @ es)"
proof -
  obtain es1 t1 m1 where d: "drain_tail name t m w = ((es1, t1, m1), w')"
      "es = es1 @ chunk_events name (fst (masker_flush m1))"
    using assms(2) by (auto simp: run_finish_stream split: prod.splits)
  from follows_drain [OF assms(1) d(1)] obtain ss where
    "concat ss = file_bytes p w'" "masker_pushes m0 ss = (data_of name (acc @ es1), m1)"
    by (auto simp: follows_def)
  with d(2) show ?thesis
    by (auto simp: sent_def masker_run_pushes intro!: exI [of _ ss] split: option.splits)
qed

definition tracks :: "string \<Rightarrow> string \<Rightarrow> log_stream_masker \<Rightarrow> live \<Rightarrow> world \<Rightarrow> sse list \<Rightarrow> bool" where
  "tracks po pe m0 lv w es \<longleftrightarrow>
     follows ''stdout'' po m0 (lv_out lv) (lv_out_masker lv) w es
     \<and> follows ''stderr'' pe m0 (lv_err lv) (lv_err_masker lv) w es"

text \<open>Both streams are read to their ends, one after the other.\<close>

lemma streams_end:
  assumes "follows ''stdout'' po m0 t1 m1 w acc" and "follows ''stderr'' pe m0 t2 m2 w acc"
    and "run_state (finish_stream ''stdout'' t1 m1) w = (c, w1)" and "run_state (finish_stream ''stderr'' t2 m2) w1 = (d, w2)"
  shows "sent ''stdout'' po m0 w2 (acc @ c @ d @ [done_event st]) \<and> sent ''stderr'' pe m0 w2 (acc @ c @ d @ [done_event st])"
proof -
  have o: "data_of ''stderr'' c = []" "data_of ''stdout'' d = []"
    using finish_stream_other [OF assms(3)] finish_stream_other [OF assms(4)] by simp_all
  note w = finish_stream_world [OF assms(3)] finish_stream_world [OF assms(4)]
  have "sent ''stdout'' po m0 w2 ((acc @ c) @ d @ [done_event st])"
    by (rule sent_other [OF follows_finish [OF assms(1,3)]]) (use o w in simp_all)
  moreover have "follows ''stderr'' pe m0 t2 m2 w1 (acc @ c)"
    by (rule follows_grows [OF follows_other [OF assms(2) o(1)]]) (use w grows_same in blast)
  then have "sent ''stderr'' pe m0 w2 (((acc @ c) @ d) @ [done_event st])"
    by (intro sent_other [OF follows_finish [OF _ assms(4)]]) simp_all
  ultimately show ?thesis by simp
qed

lemma tracks_round:
  assumes "tracks po pe m0 lv w acc" and round: "run_state (live_round env k eid lv) w = ((es, lv', fin), w')"
    and env: "\<And>j v. grows po v (env j v) \<and> grows pe v (env j v)"
  shows "if fin then sent ''stdout'' po m0 w' (acc @ es) \<and> sent ''stderr'' pe m0 w' (acc @ es)
    else tracks po pe m0 lv' w' (acc @ es)"
proof -
  let ?w0 = "env (3 * k) w"
  obtain outs t1 m1 w1 where 1: "run_state (tail_events ''stdout'' (lv_out lv) (lv_out_masker lv)) ?w0 = ((outs, t1, m1), w1)"
    by (metis prod.collapse)
  let ?w1 = "env (3 * k + 1) w1"
  obtain errs t2 m2 w2 where 2: "run_state (tail_events ''stderr'' (lv_err lv) (lv_err_masker lv)) ?w1 = ((errs, t2, m2), w2)"
    by (metis prod.collapse)
  let ?w2 = "env (3 * k + 2) w2"
  obtain r w3 where 3: "run_state (execution_get_by_id eid) ?w2 = (r, w3)" by fastforce
  have o: "data_of ''stderr'' outs = []" "data_of ''stdout'' errs = []"
    using other_data [OF 1] other_data [OF 2] by simp_all
  note t = assms(1) [unfolded tracks_def]
  have g: "grows p v (env j v)" if "p \<in> {po, pe}" for p j v using env that by blast
  have fo: "follows ''stdout'' po m0 t1 m1 w3 (acc @ outs @ errs)"
  proof -
    have "follows ''stdout'' po m0 (lv_out lv) (lv_out_masker lv) ?w0 acc"
      by (rule follows_grows [OF conjunct1 [OF t] g]) simp
    from follows_other [OF follows_tail_events [OF this 1] o(2)]
    have "follows ''stdout'' po m0 t1 m1 w1 (acc @ outs @ errs)" by simp
    from follows_grows [OF this g] have "follows ''stdout'' po m0 t1 m1 ?w1 (acc @ outs @ errs)" by simp
    from follows_grows [OF follows_grows [OF this tail_events_grows [OF 2]] g]
    have "follows ''stdout'' po m0 t1 m1 ?w2 (acc @ outs @ errs)" by simp
    from follows_grows [OF this get_by_id_grows [OF 3]] show ?thesis .
  qed
  have fe: "follows ''stderr'' pe m0 t2 m2 w3 (acc @ outs @ errs)"
  proof -
    have "follows ''stderr'' pe m0 (lv_err lv) (lv_err_masker lv) ?w0 acc"
      by (rule follows_grows [OF conjunct2 [OF t] g]) simp
    from follows_other [OF follows_grows [OF this tail_events_grows [OF 1]] o(1)]
    have "follows ''stderr'' pe m0 (lv_err lv) (lv_err_masker lv) w1 (acc @ outs)" .
    from follows_grows [OF this g]
    have "follows ''stderr'' pe m0 (lv_err lv) (lv_err_masker lv) ?w1 (acc @ outs)" by simp
    from follows_tail_events [OF this 2]
    have "follows ''stderr'' pe m0 t2 m2 w2 (acc @ outs @ errs)" by simp
    from follows_grows [OF this g] have "follows ''stderr'' pe m0 t2 m2 ?w2 (acc @ outs @ errs)" by simp
    from follows_grows [OF this get_by_id_grows [OF 3]] show ?thesis .
  qed
  show ?thesis
  proof (cases "\<exists>e. r = Inr e \<and> is_terminal (ex_status e)")
    case True
    then obtain e where e: "r = Inr e" "is_terminal (ex_status e)" by blast
    obtain c w4 where 4: "run_state (finish_stream ''stdout'' t1 m1) w3 = (c, w4)" by fastforce
    obtain d w5 where 5: "run_state (finish_stream ''stderr'' t2 m2) w4 = (d, w5)" by fastforce
    have res: "es = outs @ errs @ c @ d @ [done_event (status_text (ex_status e))]" "fin" "w' = w5"
      using round e unfolding run_live_round 1 2 3 prod.case Let_def fst_conv snd_conv 4 5 by auto
    from streams_end [OF fo fe 4 5] res show ?thesis by simp
  next
    case False
    then have res: "es = outs @ errs" "\<not> fin" "w' = w3"
        "lv' = \<lparr>lv_out = t1, lv_err = t2, lv_out_masker = m1, lv_err_masker = m2\<rparr>"
      using round unfolding run_live_round 1 2 3 prod.case Let_def fst_conv snd_conv
      by (auto split: sum.splits if_splits)
    with fo fe show ?thesis by (simp add: tracks_def)
  qed
qed

lemma live_loop_sent:
  assumes "live_loop env k eid lv acc w = Some x"
    and "\<forall>j v. grows po v (env j v) \<and> grows pe v (env j v)" and "tracks po pe m0 lv w acc"
  shows "sent ''stdout'' po m0 (snd x) (fst x) \<and> sent ''stderr'' pe m0 (snd x) (fst x)"
  using assms
proof (induction env k eid lv acc w x rule: live_loop.raw_induct [rotated, consumes 1])
  case (1 live_loop env k eid lv acc w x)
  obtain fs lv' fin w1 where r: "run_state (live_round env k eid lv) w = ((fs, lv', fin), w1)"
    by (metis prod.collapse)
  have round: "if fin then sent ''stdout'' po m0 w1 (acc @ fs) \<and> sent ''stderr'' pe m0 w1 (acc @ fs)
      else tracks po pe m0 lv' w1 (acc @ fs)"
    by (rule tracks_round [OF "1.prems"(2) r]) (use "1.prems"(1) in blast)
  show ?case
  proof (cases fin)
    case True
    with "1.hyps" r round show ?thesis by auto
  next
    case False
    with "1.hyps" r have "live_loop env (Suc k) eid lv' (acc @ fs) w1 = Some x" by simp
    from "1.IH" [OF this "1.prems"(1)] round False show ?thesis by simp
  qed
qed

definition masked_as :: "string list \<Rightarrow> string \<Rightarrow> string \<Rightarrow> bool" where
  "masked_as secret_values log data \<longleftrightarrow>
     (\<exists>chunks. concat chunks = log
        \<and> data = html_escape (concat (map (mask_values secret_values) chunks))
        \<and> (\<forall>v\<in>set secret_values. CHR ''*'' \<notin> set v \<longrightarrow>
             \<not> sublist v (concat (map (mask_values secret_values) chunks))))"

lemma sent_masked:
  assumes "sent name p (masker_new X masking hook_env) w es"
  shows "masked_as (stream_mask_secret_values X masking hook_env) (file_bytes p w) (concat (data_of name es))"
proof -
  have secrets: "lm_secret_values (masker_new X masking hook_env) = stream_mask_secret_values X masking hook_env"
    by (simp add: masker_new_def Let_def)
  from assms obtain ss where "concat ss = file_bytes p w"
      "masker_run (masker_new X masking hook_env) ss = data_of name es"
    by (auto simp: sent_def)
  with masker_run_safe [OF refl, where texts = ss] secrets show ?thesis
    unfolding masked_as_def by metis
qed

lemma tracks_start:
  assumes "good (log_dir @ ''/stdout.log'') w" and "good (log_dir @ ''/stderr.log'') w"
  shows "tracks (log_dir @ ''/stdout.log'') (log_dir @ ''/stderr.log'') (masker_new X masking hook_env)
           (live_start X log_dir masking hook_env) w []"
  using assms by (auto simp: tracks_def follows_def live_start_def tail_new_def intro!: exI [of _ "[]"])

text \<open>The values that are hidden in the logs of a hook: those of the masked variables, looked up in the
  environment that the configuration gives the hook, then in the environment of the server.\<close>

definition secrets_of :: "external \<Rightarrow> app_config \<Rightarrow> string \<Rightarrow> string list" where
  "secrets_of X config slug = stream_mask_secret_values X (cf_masking config) (hook_env_of config slug)"

text \<open>C6: The live stream loses nothing and shows no secret. For an execution that is running, with
  no regular expressions among the masks, while the log files only grow, are ASCII and can be
  read, the stream ends, and what it has sent as \<open>stdout\<close> and as \<open>stderr\<close>, put together, is the
  masked and escaped form of the whole file as it is at the end, however the writes and the reads
  interleave: the file cut into chunks that are masked one by one, with none of the values hidden for
  the execution's hook left in it, not even across the boundary of two reads. The values are those of
  the masked variables in the environment of this hook or of the server, but for values that
  contain an asterisk.\<close>

theorem live_stream_complete:
  fixes env :: "nat \<Rightarrow> world \<Rightarrow> world"
  defines "p w eid name \<equiv> lg_dir (cf_logs (w_config w)) @ ''/'' @ eid @ name"
  assumes "run_state (execution_get_by_id eid) w = (Inr exec, w1)" and "\<not> is_terminal (ex_status exec)"
    and "mk_compiled_patterns (cf_masking (w_config w)) = []"
    and "\<And>j v. K \<le> j \<Longrightarrow> has_ended eid (env j v)"
    and "\<And>j v. grows (p w eid ''/stdout.log'') v (env j v) \<and> grows (p w eid ''/stderr.log'') v (env j v)"
    and "good (p w eid ''/stdout.log'') w" and "good (p w eid ''/stderr.log'') w"
  shows "\<exists>es w'. log_stream X env eid w = Inr (Some (es, w'))
     \<and> masked_as (secrets_of X (w_config w) (ex_hook_slug exec))
          (file_bytes (p w eid ''/stdout.log'') w') (concat (data_of ''stdout'' es))
     \<and> masked_as (secrets_of X (w_config w) (ex_hook_slug exec))
          (file_bytes (p w eid ''/stderr.log'') w') (concat (data_of ''stderr'' es))
     \<and> (\<forall>name v. name \<in> set (mk_env_vars (cf_masking (w_config w))) \<and> v \<noteq> []
          \<and> resolve_var X (hook_env_of (w_config w) (ex_hook_slug exec)) name = Some v
          \<longrightarrow> v \<in> set (secrets_of X (w_config w) (ex_hook_slug exec)))"
proof -
  let ?masking = "cf_masking (w_config w)" and ?dir = "lg_dir (cf_logs (w_config w)) @ ''/'' @ eid"
  define hook_env where "hook_env = hook_env_of (w_config w) (ex_hook_slug exec)"
  have e: "\<And>j v. K \<le> j \<Longrightarrow> has_ended eid (env j v)" by (rule assms(5))
  from live_loop_ends [where env = env and K = K and eid = eid, OF e]
  obtain es w' where run: "live_loop env 0 eid (live_start X ?dir ?masking hook_env) [] w1 = Some (es, w')"
    by blast
  have g1: "good (?dir @ ''/stdout.log'') w1 \<and> good (?dir @ ''/stderr.log'') w1"
    using get_by_id_grows [OF assms(2)] assms(7,8) by (simp add: grows_def p_def)
  have "sent ''stdout'' (?dir @ ''/stdout.log'') (masker_new X ?masking hook_env) w' es
      \<and> sent ''stderr'' (?dir @ ''/stderr.log'') (masker_new X ?masking hook_env) w' es"
    using live_loop_sent [OF run _ tracks_start] g1 assms(6) by (simp add: p_def)
  moreover have "log_stream X env eid w = Inr (Some (es, w'))"
    unfolding log_stream_def Let_def assms(2) prod.case sum.case hook_env_of_def [symmetric] hook_env_def [symmetric]
    using assms(3,4) run by simp
  moreover have "\<forall>name v. name \<in> set (mk_env_vars ?masking) \<and> v \<noteq> [] \<and> resolve_var X hook_env name = Some v
      \<longrightarrow> v \<in> set (stream_mask_secret_values X ?masking hook_env)"
    by (force simp: stream_mask_secret_values_def List.map_filter_def)
  ultimately show ?thesis
    using sent_masked unfolding secrets_of_def hook_env_def [symmetric] by (fastforce simp: p_def)
qed

section \<open>Witnesses\<close>

text \<open>An execution that is running when the stream begins; the process writes two pieces of a line
  with the secret in the first two pauses, and ends.\<close>

definition sample_running :: world where
  "sample_running = sample_world\<lparr>w_execs := [sample_execution ''e1'' ''aa'' Running]\<rparr>"

definition sample_log :: string where "sample_log = ''data/logs/e1/stdout.log''"

definition sample_env :: "nat \<Rightarrow> world \<Rightarrow> world" where
  "sample_env j v = v\<lparr>w_execs := [sample_execution ''e1'' ''aa'' Success], w_fault := (\<lambda>_. False),
     w_files := (w_files v)(sample_log \<mapsto> file_bytes sample_log v
       @ (if j = 0 then ''a s3c'' else if j = 2 then ''ret b'' else []))\<rparr>"

lemma sample_env_ended: "has_ended ''e1'' (sample_env j v)"
  by (simp add: has_ended_def sample_env_def status_of_def find_exec_def sample_execution_def is_terminal_def)

lemma sample_env_grows:
  "grows sample_log v (sample_env j v) \<and> grows ''data/logs/e1/stderr.log'' v (sample_env j v)"
  by (auto simp: grows_def good_def sample_env_def file_bytes_def sample_log_def between_bytes_def)

lemma sample_running_get:
  "run_state (execution_get_by_id ''e1'') sample_running
     = (Inr (sample_execution ''e1'' ''aa'' Running), sample_running\<lparr>w_stmts := 1\<rparr>)"
  by (simp add: sample_running_def sample_world_def find_exec_def sample_execution_def)

lemma sample_running_config [simp]:
  "lg_dir (cf_logs (w_config sample_running)) = ''data/logs''"
  "mk_compiled_patterns (cf_masking (w_config sample_running)) = []"
  by (simp_all add: sample_running_def sample_world_def sample_config_def default_app_config_def default_logs_config_def)

lemma sample_running_good: "good p sample_running"
  by (simp add: good_def sample_running_def sample_world_def file_bytes_def)

theorem log_stream_ends_witness:
  "\<exists>es w' status. log_stream sample_external sample_env ''e1'' sample_running
     = Inr (Some (es @ [done_event status], w'))"
  by (rule log_stream_ends [OF sample_running_get sample_env_ended])

theorem live_stream_complete_witness:
  "\<exists>es w'. log_stream sample_external sample_env ''e1'' sample_running = Inr (Some (es, w'))
     \<and> masked_as (secrets_of sample_external (w_config sample_running) ''deploy'')
          (file_bytes sample_log w') (concat (data_of ''stdout'' es))"
proof -
  have paths: "lg_dir (cf_logs (w_config sample_running)) @ ''/'' @ ''e1'' @ ''/stdout.log'' = sample_log"
    "lg_dir (cf_logs (w_config sample_running)) @ ''/'' @ ''e1'' @ ''/stderr.log'' = ''data/logs/e1/stderr.log''"
    by (simp_all add: sample_log_def)
  have running: "\<not> is_terminal (ex_status (sample_execution ''e1'' ''aa'' Running))"
    by (simp add: sample_execution_def is_terminal_def)
  have slug: "ex_hook_slug (sample_execution ''e1'' ''aa'' Running) = ''deploy''" by (simp add: sample_execution_def)
  note complete = live_stream_complete [where env = sample_env and X = sample_external and K = 0,
      OF sample_running_get running sample_running_config(2), unfolded paths slug]
  from complete [OF sample_env_ended sample_env_grows sample_running_good sample_running_good]
  show ?thesis by blast
qed

section \<open>A character cut in two\<close>

text \<open>A read ends after 64 KiB, wherever that is. When it ends within a character, the bytes are no
  UTF-8, the text is dropped, and the offset has moved: 64 KiB of a well-formed log are never sent,
  and the drain at the end of the execution stops there, whatever follows in the file.\<close>

lemma utf8_ok_cut:
  assumes "list_all (between_bytes 0 127) a" and "between_bytes 194 223 c"
  shows "\<not> utf8_ok (a @ [c])"
  using assms by (auto simp: utf8_ok_ascii between_bytes_def)

theorem cut_character_stops_drain:
  assumes "w_files w p = Some (a @ [c, d] @ rest)" and "\<And>n. \<not> w_io_fault w n"
    and "list_all (between_bytes 0 127) a" and "length a = 65535"
    and "between_bytes 194 223 c" and "continuation d" and "utf8_ok rest"
  shows "utf8_ok (a @ [c, d] @ rest)
     \<and> (\<exists>t' w'. drain_tail name (tail_new p) m w = (([], t', m), w') \<and> lt_offset t' = 65536)"
proof -
  have "take 65536 (a @ [c, d] @ rest) = a @ [c]" by (simp add: assms(4))
  moreover have "from_utf8 (a @ [c]) = None"
    using utf8_ok_cut [OF assms(3,5)] by (simp add: from_utf8_def)
  ultimately have "\<exists>t' w'. run_state (read_new_text (tail_new p)) w = ((None, t'), w') \<and> lt_offset t' = 65536"
    using assms(1,2,4)
    by (simp add: read_new_text_def run_open_tail tail_new_def Let_def file_bytes_def log_tail_read_chunk_bytes_def)
  then have "\<exists>t' w'. drain_tail name (tail_new p) m w = (([], t', m), w') \<and> lt_offset t' = 65536"
    by (subst drain_tail.simps) auto
  moreover have "utf8_ok (a @ [c, d] @ rest)"
    unfolding utf8_ok_ascii [OF assms(3)] using assms(5-7) by (auto simp: between_bytes_def)
  ultimately show ?thesis by blast
qed

end
