(* ===== verification/Races.thy ===== *)
theory Races
  imports Barriers
begin

text \<open>
  What can go wrong between the statements of one handler: the interleavings that
  \<open>barriers/concurrency.rs\<close> does not exclude, because trying the lock and joining the queue are two
  statements. (One inside the approval sweep is in \<open>Exclusion\<close>.)
\<close>

lemma complete_without_waiting:
  assumes "no_faults w" and "queue_of slug w = []"
    and "run_state (on_execution_complete X slug (Some c) ac) w = (u, w')"
  shows "holder_of slug w' = None \<and> w_queue w' = w_queue w \<and> w_execs w' = w_execs w
    \<and> w_tasks w' = w_tasks w \<and> w_fault w' = w_fault w \<and> w_uuids w' = w_uuids w \<and> w_next_uuid w' = w_next_uuid w"
proof -
  have nf: "\<not> w_fault w n" for n using assms(1) by blast
  have h: "find_row lk_hook_slug s (filter (\<lambda>l. lk_hook_slug l \<noteq> s) ls) = None" for s ls
    by (auto simp: find_row_None_iff)
  have "waiting_rows slug (w_queue w) = []" using assms(2) by (simp add: queue_of_def)
  then show ?thesis
    using assms(3) nf by (auto simp: on_execution_complete_def peek_next_def release_def holder_of_def h split: if_splits)
qed

text \<open>A completion between the lock and the queue is missed. When an execution of a queue hook
  finds the lock held, the holder then completes, and only after that the execution joins the
  queue, then the caller is told that it is queued, and it is the one execution that waits; but the
  lock is free, and no task was spawned that would ever run it. (It waits for another request to
  take the lock and to complete.) These are the two halves of \<open>evaluate\<close>: without the completion
  in between they are the barrier's own steps.\<close>

theorem enqueue_misses_completion:
  assumes "queue_ok w" and "holder_of slug w = Some h" and "queue_of slug w = []"
    and "cc_mode c = Queue" and "0 < cc_queue_depth c"
    and "ne_id new = Some i" and "i \<notin> ex_id ` set (w_execs w)" and "ne_retry_of new = None"
    and "run_state (try_acquire X slug i) w = (got, w1)"
    and "run_state (on_execution_complete X slug (Some c) ac) w1 = (u, w2)"
    and "run_state (enqueue_or_reject X slug i c new) w2 = (out, w3)"
  shows "run_state (concurrency_evaluate X slug i c new) w = run_state (enqueue_or_reject X slug i c new) w1
    \<and> got = Inr False \<and> (\<exists>reason. out = Defer i Pending reason)
    \<and> queue_of slug w3 = [i] \<and> holder_of slug w3 = None \<and> w_tasks w3 = w_tasks w"
proof -
  have nf: "no_faults w" using assms(1) by (simp add: queue_ok_def)
  from held_not_acquired [OF nf assms(2), of X i] assms(9)
  have 1: "got = Inr False" "w1 = w\<lparr>w_ticks := Suc (w_ticks w), w_stmts := Suc (w_stmts w)\<rparr>" by simp_all
  then have "no_faults w1" "queue_of slug w1 = []"
    using nf assms(3) by (simp_all add: no_faults_def queue_of_def)
  from complete_without_waiting [OF this assms(10)] 1 have 2:
    "holder_of slug w2 = None" "w_queue w2 = w_queue w" "w_execs w2 = w_execs w" "w_tasks w2 = w_tasks w"
    "w_fault w2 = w_fault w" "w_uuids w2 = w_uuids w" "w_next_uuid w2 = w_next_uuid w" by simp_all
  then have "queue_ok w2" "length (queue_of slug w2) < cc_queue_depth c" "i \<notin> ex_id ` set (w_execs w2)"
    using assms(1,3,5,7) by (simp_all add: queue_ok_def no_faults_def queue_of_def)
  from enqueue_or_reject_defers [OF this(1,2) assms(6) this(3) assms(8), of X] assms(11) obtain at n m where
    3: "out = Defer i Pending (''queued at position '' @ show_nat (next_position slug (w_queue w2)))"
      "w3 = enqueued X slug i (w2\<lparr>w_ticks := n, w_stmts := m, w_execs := w_execs w2 @ [new_row i at new]\<rparr>)"
    by (metis prod.inject)
  have "run_state (concurrency_evaluate X slug i c new) w = run_state (enqueue_or_reject X slug i c new) w1"
    using assms(4,9) 1(1) by (simp add: concurrency_evaluate_def)
  let ?w2 = "w2\<lparr>w_ticks := n, w_stmts := m, w_execs := w_execs w2 @ [new_row i at new]\<rparr>"
  have ok: "queue_ok ?w2" "i \<in> ex_id ` set (w_execs ?w2)"
    using \<open>queue_ok w2\<close> by (simp_all add: queue_ok_def no_faults_def new_row_def)
  have "queue_of slug w3 = [i]" "w_locks w3 = w_locks w2" "w_tasks w3 = w_tasks w2"
    using enqueued_world(1) [OF ok, of X slug] enqueue_result(2,3) [OF ok, of X slug] 2 3 assms(3)
    by (simp_all add: queue_of_def waiting_rows_def)
  with \<open>run_state (concurrency_evaluate X slug i c new) w = run_state (enqueue_or_reject X slug i c new) w1\<close>
  show ?thesis using 1 2 3 by (simp add: holder_of_def)
qed

theorem enqueue_misses_completion_witness:
  "\<exists>w3. holder_of ''deploy'' w3 = None \<and> queue_of ''deploy'' w3 = [''n''] \<and> w_tasks w3 = w_tasks held_world"
proof -
  let ?c = "\<lparr>cc_mode = Queue, cc_queue_depth = 2\<rparr>"
  have "''n'' \<notin> ex_id ` set (w_execs held_world)"
    by (simp add: held_world_def two_world_def sample_execution_def)
  from enqueue_misses_completion [OF held_world_ok(1,3,4) _ _ _ this _ prod.collapse [symmetric]
      prod.collapse [symmetric] prod.collapse [symmetric],
      where new = "sample_new ''n''" and c = ?c and X = sample_external and ac = None]
  show ?thesis by (auto simp: sample_new_def)
qed

end
