(* ===== verification/File_System.thy ===== *)
theory File_System
  imports Sw_Prelude "HOL-Library.State_Monad" "HOL-Library.Sublist"
begin

text \<open>
  Paths and a file system with symbolic links, as far as \<open>std::path\<close>, \<open>std::fs\<close> and \<open>tokio::fs\<close> are
  used by the script manager. A path is the list of its components as \<open>Path::components\<close> gives
  them, with \<open>/\<close> for the root; a file system maps places, lists of names below the root, to
  nodes. Opening a path follows links, at most 40 of them, as Linux does. Looking whether
  something is there always works; every other operation fails by the stream \<open>fs_fault\<close>.
\<close>

section \<open>Paths\<close>

type_synonym path = "string list"

definition root_dir :: string where "root_dir = ''/''"

definition path_of :: "string \<Rightarrow> path" where
  "path_of s =
     (let cs = filter (\<lambda>c. c \<noteq> []) (split_on (CHR ''/'') s); plain = filter (\<lambda>c. c \<noteq> ''.'')
      in if starts_with ''/'' s then root_dir # plain cs
         else case cs of [] \<Rightarrow> [] | c # r \<Rightarrow> c # plain r)"

section \<open>File systems\<close>

datatype node = File string bool | Directory | Link path

record fs =
  fs_nodes :: "path \<Rightarrow> node option"
  fs_cwd :: path
  fs_fault :: "nat \<Rightarrow> bool"
  fs_ops :: nat

text \<open>Opening a path from a directory, with room for \<open>n\<close> links; \<open>create\<close> allows the last component
  to be missing. The result is a place.\<close>

function open_at :: "(path \<Rightarrow> node option) \<Rightarrow> bool \<Rightarrow> nat \<Rightarrow> path \<Rightarrow> path \<Rightarrow> path option" where
  "open_at N create n here [] = Some here"
| "open_at N create n here (c # rest) =
     (if c = root_dir then open_at N create n [] rest
      else if c = ''.'' then open_at N create n here rest
      else if c = ''..'' then open_at N create n (butlast here) rest
      else case N (here @ [c]) of
             None \<Rightarrow> if create \<and> rest = [] then Some (here @ [c]) else None
           | Some Directory \<Rightarrow> open_at N create n (here @ [c]) rest
           | Some (File _ _) \<Rightarrow> if rest = [] then Some (here @ [c]) else None
           | Some (Link target) \<Rightarrow>
               (case n of 0 \<Rightarrow> None | Suc m \<Rightarrow> open_at N create m here (target @ rest)))"
  by pat_completeness auto
termination
  by (relation "measures [\<lambda>(N, create, n, here, p). n, \<lambda>(N, create, n, here, p). length p]") auto

declare open_at.simps(2) [simp del]

definition max_links :: nat where "max_links = 40"

definition locate :: "fs \<Rightarrow> path \<Rightarrow> path option" where
  "locate f p = (if p = [] then None else open_at (fs_nodes f) False max_links (fs_cwd f) p)"

definition is_dir :: "(path \<Rightarrow> node option) \<Rightarrow> path \<Rightarrow> bool" where
  "is_dir N d \<longleftrightarrow> d = [] \<or> N d = Some Directory"

definition path_is_file :: "fs \<Rightarrow> path \<Rightarrow> bool" where
  "path_is_file f p =
     (case locate f p of
        None \<Rightarrow> False
      | Some q \<Rightarrow> q \<noteq> [] \<and> (case fs_nodes f q of Some (File _ _) \<Rightarrow> True | _ \<Rightarrow> False))"

definition parent :: "path \<Rightarrow> path" where "parent p = butlast p"

section \<open>Operations\<close>

type_synonym 'a fs_io = "(fs, 'a) state"

definition fs_step :: "bool fs_io" where
  "fs_step = State (\<lambda>f. (\<not> fs_fault f (fs_ops f), f\<lparr>fs_ops := Suc (fs_ops f)\<rparr>))"

definition fs_get :: "(fs \<Rightarrow> 'a) \<Rightarrow> 'a fs_io" where "fs_get g = State (\<lambda>f. (g f, f))"

definition set_node :: "path \<Rightarrow> node option \<Rightarrow> unit fs_io" where
  "set_node q v = State (\<lambda>f. ((), f\<lparr>fs_nodes := (fs_nodes f)(q := v)\<rparr>))"

lemma run_fs_steps [simp]:
  "run_state fs_step f = (\<not> fs_fault f (fs_ops f), f\<lparr>fs_ops := Suc (fs_ops f)\<rparr>)"
  "run_state (fs_get g) f = (g f, f)"
  "run_state (set_node q v) f = ((), f\<lparr>fs_nodes := (fs_nodes f)(q := v)\<rparr>)"
  by (simp_all add: fs_step_def fs_get_def set_node_def)

abbreviation fs_return :: "'a \<Rightarrow> 'a fs_io" where "fs_return \<equiv> State_Monad.return"

definition canonicalize :: "path \<Rightarrow> path option fs_io" where
  "canonicalize p = do {
     ok \<leftarrow> fs_step;
     q \<leftarrow> fs_get (\<lambda>f. locate f p);
     fs_return (if ok then map_option (\<lambda>q. root_dir # q) q else None) }"

text \<open>\<open>tokio::fs::write\<close>: create or truncate, then write; when the writing fails the file is empty.\<close>

definition write_to :: "path \<Rightarrow> string \<Rightarrow> bool fs_io" where
  "write_to p content = do {
     ok \<leftarrow> fs_step;
     target \<leftarrow> fs_get (\<lambda>f. if p = [] then None else open_at (fs_nodes f) True max_links (fs_cwd f) p);
     case (if ok then target else None) of
       None \<Rightarrow> fs_return False
     | Some q \<Rightarrow> do {
         old \<leftarrow> fs_get (\<lambda>f. if q = [] then Some Directory else fs_nodes f q);
         case old of
           Some Directory \<Rightarrow> fs_return False
         | _ \<Rightarrow> do {
             let executable = (case old of Some (File _ x) \<Rightarrow> x | _ \<Rightarrow> False);
             _ \<leftarrow> set_node q (Some (File [] executable));
             written \<leftarrow> fs_step;
             _ \<leftarrow> (if written then set_node q (Some (File content executable)) else fs_return ());
             fs_return written } } }"

definition set_executable :: "path \<Rightarrow> bool fs_io" where
  "set_executable p = do {
     stat \<leftarrow> fs_step;
     chmod \<leftarrow> fs_step;
     q \<leftarrow> fs_get (\<lambda>f. locate f p);
     node \<leftarrow> fs_get (\<lambda>f. Option.bind q (fs_nodes f));
     case (if stat \<and> chmod then q else None) of
       None \<Rightarrow> fs_return False
     | Some q \<Rightarrow> do {
         _ \<leftarrow> (case node of Some (File c _) \<Rightarrow> set_node q (Some (File c True)) | _ \<Rightarrow> fs_return ());
         fs_return True } }"

text \<open>The place of the last component itself, which is not followed when it is a link.\<close>

definition entry_of :: "fs \<Rightarrow> path \<Rightarrow> path option" where
  "entry_of f p =
     (if p = [] then None
      else if parent p = [] then Some (fs_cwd f @ [last p])
      else case locate f (parent p) of
             None \<Rightarrow> None
           | Some d \<Rightarrow> if is_dir (fs_nodes f) d then Some (d @ [last p]) else None)"

definition unlink :: "path \<Rightarrow> bool fs_io" where
  "unlink p = do {
     ok \<leftarrow> fs_step;
     q \<leftarrow> fs_get (\<lambda>f. entry_of f p);
     node \<leftarrow> fs_get (\<lambda>f. Option.bind q (fs_nodes f));
     case (if ok then q else None) of
       None \<Rightarrow> fs_return False
     | Some q \<Rightarrow>
         (case node of
            None \<Rightarrow> fs_return False
          | Some Directory \<Rightarrow> fs_return False
          | Some _ \<Rightarrow> do { _ \<leftarrow> set_node q None; fs_return True }) }"

text \<open>\<open>create_dir_all\<close> makes the missing directories from the first to the last; what cannot be
  made stays away, and with it everything below.\<close>

definition make_dir :: "path \<Rightarrow> unit fs_io" where
  "make_dir p = do {
     ok \<leftarrow> fs_step;
     q \<leftarrow> fs_get (\<lambda>f. if last p \<in> {root_dir, ''.'', ''..''} then None else entry_of f p);
     node \<leftarrow> fs_get (\<lambda>f. Option.bind q (fs_nodes f));
     case (if ok then q else None) of
       None \<Rightarrow> fs_return ()
     | Some q \<Rightarrow> if node = None then set_node q (Some Directory) else fs_return () }"

fun make_dirs :: "path list \<Rightarrow> unit fs_io" where
  "make_dirs [] = fs_return ()"
| "make_dirs (p # ps) = do { _ \<leftarrow> make_dir p; make_dirs ps }"

definition create_dir_all :: "path \<Rightarrow> unit fs_io" where
  "create_dir_all p = make_dirs (map (\<lambda>k. take k p) [1..<Suc (length p)])"

section \<open>Opening\<close>

text \<open>A place that is opened without creating is the same when creating is allowed.\<close>

lemma open_at_create: "open_at N False n here p = Some q \<Longrightarrow> open_at N True n here p = Some q"
  by (induction N False n here p rule: open_at.induct)
    (auto simp: open_at.simps(2) split: if_splits option.splits node.splits nat.splits)

lemma open_at_prefix: "open_at N create n here (a @ b) = Some q \<Longrightarrow> b \<noteq> [] \<Longrightarrow> open_at N False n here a \<noteq> None"
  by (induction N create n here a rule: open_at.induct)
    (auto simp: open_at.simps(2) split: if_splits option.splits node.splits nat.splits)

text \<open>Once a path has led to a directory, what follows is opened from there, with the links that are
  left.\<close>

lemma open_at_append:
  assumes "open_at N False n here d = Some D" and "is_dir N D" and "r \<noteq> []"
  shows "\<exists>m\<le>n. \<forall>create. open_at N create n here (d @ r) = open_at N create m D r"
  using assms(1,2)
proof (induction N False n here d rule: open_at.induct)
  case (2 N n here c rest)
  show ?case
  proof (cases "c \<in> {root_dir, ''.'', ''..''}")
    case True
    with 2 show ?thesis by (auto simp: open_at.simps(2) root_dir_def split: if_splits)
  next
    case False
    then have plain: "c \<noteq> root_dir" "c \<noteq> ''.''" "c \<noteq> ''..''" by auto
    show ?thesis
    proof (cases "N (here @ [c])")
      case None
      with "2.prems" plain show ?thesis by (simp add: open_at.simps(2))
    next
      case (Some v)
      show ?thesis
      proof (cases v)
        case (File x y)
        with "2.prems" plain Some show ?thesis
          by (auto simp: open_at.simps(2) is_dir_def split: if_splits)
      next
        case Directory
        with 2 plain Some show ?thesis by (simp add: open_at.simps(2))
      next
        case (Link target)
        with "2.prems"(1) plain Some obtain m where m: "n = Suc m" "open_at N False m here (target @ rest) = Some D"
          by (auto simp: open_at.simps(2) split: nat.splits)
        from "2.hyps"(5) [OF plain Some Link m(1) m(2) "2.prems"(2)] obtain k where "k \<le> m"
            "\<forall>create. open_at N create m here ((target @ rest) @ r) = open_at N create k D r" by blast
        with plain Some Link m(1) show ?thesis
          by (intro exI [of _ k]) (simp add: open_at.simps(2))
      qed
    qed
  qed
qed (use assms(3) in auto)


text \<open>Where creating leads when there is nothing yet, and what is there afterwards.\<close>

lemma open_at_new:
  "open_at N True n here p = Some q \<Longrightarrow> open_at N False n here p = None \<Longrightarrow> N q = None \<and> q \<noteq> []"
  by (induction N True n here p rule: open_at.induct)
    (auto simp: open_at.simps(2) split: if_splits option.splits node.splits nat.splits)

lemma open_at_created:
  "open_at N True n here p = Some q \<Longrightarrow> open_at N False n here p = None \<Longrightarrow>
   open_at (N(q \<mapsto> File s x)) False n here p = Some q"
proof (induction N True n here p rule: open_at.induct)
  case (2 N n here c rest)
  show ?case
  proof (cases "c \<in> {root_dir, ''.'', ''..''}")
    case True
    with 2 show ?thesis by (auto simp: open_at.simps(2) root_dir_def split: if_splits)
  next
    case False
    have new: "N q = None" using open_at_new [OF "2.prems"] by simp
    show ?thesis
    proof (cases "here @ [c] = q")
      case True
      with False new "2.prems"(1) show ?thesis by (simp add: open_at.simps(2) split: if_splits)
    next
      case other: False
      with False 2 show ?thesis
        by (auto simp: open_at.simps(2) split: if_splits option.splits node.splits nat.splits)
    qed
  qed
qed simp

lemma open_at_rewritten:
  "N q = Some (File s x) \<Longrightarrow> open_at (N(q \<mapsto> File s' x')) create n here p = open_at N create n here p"
  by (induction N create n here p rule: open_at.induct)
    (auto simp: open_at.simps(2) split: option.splits node.splits nat.splits)

section \<open>What the operations change\<close>

definition same_files :: "fs \<Rightarrow> fs \<Rightarrow> bool" where
  "same_files f g \<longleftrightarrow> fs_nodes g = fs_nodes f \<and> fs_cwd g = fs_cwd f \<and> fs_fault g = fs_fault f"

lemma same_files_refl [simp]: "same_files f f"
  by (simp add: same_files_def)

lemma same_files_trans: "same_files f g \<Longrightarrow> same_files g h \<Longrightarrow> same_files f h"
  by (simp add: same_files_def)

lemma same_files_locate: "same_files f g \<Longrightarrow> locate g p = locate f p"
  by (simp add: same_files_def locate_def)

lemma fs_ops_only [simp]:
  "locate (f\<lparr>fs_ops := n\<rparr>) p = locate f p" "entry_of (f\<lparr>fs_ops := n\<rparr>) p = entry_of f p"
  by (simp_all add: locate_def entry_of_def split: option.split)

lemma run_canonicalize:
  "run_state (canonicalize p) f
     = (if fs_fault f (fs_ops f) then None else map_option (\<lambda>q. root_dir # q) (locate f p),
        f\<lparr>fs_ops := Suc (fs_ops f)\<rparr>)"
  by (simp add: canonicalize_def locate_def)

lemma run_write_to:
  "run_state (write_to p content) f =
     (let target = (if p = [] then None else open_at (fs_nodes f) True max_links (fs_cwd f) p);
          ok = (\<not> fs_fault f (Suc (fs_ops f)))
      in case (if fs_fault f (fs_ops f) then None else target) of
           None \<Rightarrow> (False, f\<lparr>fs_ops := Suc (fs_ops f)\<rparr>)
         | Some q \<Rightarrow>
             if q = [] \<or> fs_nodes f q = Some Directory then (False, f\<lparr>fs_ops := Suc (fs_ops f)\<rparr>)
             else (ok, f\<lparr>fs_ops := Suc (Suc (fs_ops f)), fs_nodes := (fs_nodes f)(q \<mapsto>
                    File (if ok then content else []) (case fs_nodes f q of Some (File _ x) \<Rightarrow> x | _ \<Rightarrow> False))\<rparr>))"
  by (simp add: write_to_def Let_def split: option.split node.split)

lemma write_to_effect:
  assumes "run_state (write_to p content) f = (ok, f')"
  obtains "\<not> ok" and "same_files f f'"
  | q s x where "p \<noteq> []" and "open_at (fs_nodes f) True max_links (fs_cwd f) p = Some q" and "q \<noteq> []"
      and "fs_nodes f q \<noteq> Some Directory" and "s = (if ok then content else [])"
      and "x = (case fs_nodes f q of Some (File _ x) \<Rightarrow> x | _ \<Rightarrow> False)"
      and "fs_nodes f' = (fs_nodes f)(q \<mapsto> File s x)" and "fs_cwd f' = fs_cwd f" and "fs_fault f' = fs_fault f"
proof (cases "fs_fault f (fs_ops f) \<or> p = []")
  case True
  then have "(if fs_fault f (fs_ops f) then None
      else if p = [] then None else open_at (fs_nodes f) True max_links (fs_cwd f) p) = None" by auto
  with assms have "\<not> ok" "same_files f f'" by (auto simp: run_write_to same_files_def Let_def)
  then show ?thesis by (rule that(1))
next
  case False
  show ?thesis
  proof (cases "open_at (fs_nodes f) True max_links (fs_cwd f) p")
    case None
    with False assms have "\<not> ok" "same_files f f'" by (auto simp: run_write_to same_files_def Let_def)
    then show ?thesis by (rule that(1))
  next
    case (Some q)
    show ?thesis
    proof (cases "q = [] \<or> fs_nodes f q = Some Directory")
      case True
      with False Some assms have "\<not> ok" "same_files f f'" by (auto simp: run_write_to same_files_def Let_def)
      then show ?thesis by (rule that(1))
    next
      case plain: False
      with False Some assms show ?thesis
        by (intro that(2) [OF _ Some _ _ refl refl]) (auto simp: run_write_to Let_def)
    qed
  qed
qed

lemma set_executable_effect:
  assumes "run_state (set_executable p) f = (ok, f')"
  obtains "same_files f f'"
  | q s x where "locate f p = Some q" and "fs_nodes f q = Some (File s x)"
      and "fs_nodes f' = (fs_nodes f)(q \<mapsto> File s True)"
  using assms
  by (auto simp: set_executable_def locate_def same_files_def split: if_splits option.splits node.splits)

lemma unlink_effect:
  assumes "run_state (unlink p) f = (ok, f')"
  obtains "same_files f f'"
  | q where "entry_of f p = Some q" and "fs_nodes f' = (fs_nodes f)(q := None)"
  using assms
  by (auto simp: unlink_def same_files_def split: if_splits option.splits node.splits)

end
