(* ===== verification/Scripts.thy ===== *)
theory Scripts
  imports Config File_System
begin

text \<open>
  The script manager of \<open>src/routes/scripts.rs\<close>: the check of a file name and the handlers that
  create, save and delete a script. A response is the address it redirects to; percent-encoding is
  a parameter \<open>E\<close>. Listing and showing scripts only read.
\<close>

section \<open>File names\<close>

definition max_script_size :: nat where "max_script_size = 1024 * 1024"

definition script_char :: "char \<Rightarrow> bool" where
  "script_char c \<longleftrightarrow>
     c \<in> {CHR ''.'', CHR ''-'', CHR ''_''}
     \<or> (let b = (of_char c :: nat) in 48 \<le> b \<and> b \<le> 57 \<or> 65 \<le> b \<and> b \<le> 90 \<or> 97 \<le> b \<and> b \<le> 122)"

definition filename_error :: "string \<Rightarrow> string option" where
  "filename_error filename =
     (if filename = [] then Some ''Filename cannot be empty''
      else if starts_with ''.'' filename then Some ''Filename cannot start with a dot''
      else if \<not> list_all script_char filename
      then Some ''Filename may only contain letters, numbers, hyphens, underscores, and dots''
      else if str_contains ''..'' filename then Some (''Filename cannot contain '' @ [CHR 0x27] @ ''..'' @ [CHR 0x27])
      else None)"

definition validate_filename :: "string \<Rightarrow> path \<Rightarrow> (string + path) fs_io" where
  "validate_filename filename scripts_dir =
     (case filename_error filename of
        Some e \<Rightarrow> fs_return (Inl e)
      | None \<Rightarrow> do {
          let candidate = scripts_dir @ [filename];
          dir \<leftarrow> canonicalize scripts_dir;
          let canon_dir = (case dir of Some d \<Rightarrow> d | None \<Rightarrow> scripts_dir);
          there \<leftarrow> fs_get (\<lambda>f. locate f candidate \<noteq> None);
          canon \<leftarrow> (if there then do {
                      q \<leftarrow> canonicalize candidate;
                      fs_return (case q of Some q \<Rightarrow> Inr q | None \<Rightarrow> Inl ''Failed to resolve file path'') }
                    else do {
                      q \<leftarrow> canonicalize (parent candidate);
                      fs_return (Inr ((case q of Some q \<Rightarrow> q | None \<Rightarrow> parent candidate) @ [filename])) });
          fs_return (case canon of
              Inl e \<Rightarrow> Inl e
            | Inr q \<Rightarrow> if prefix canon_dir q then Inr candidate
                       else Inl ''File path escapes the managed scripts directory'') })"

section \<open>Handlers\<close>

definition scripts_dir :: "app_config \<Rightarrow> path" where
  "scripts_dir cfg = path_of (sc_dir (cf_scripts cfg))"

definition ensure_scripts_dir :: "app_config \<Rightarrow> path fs_io" where
  "ensure_scripts_dir cfg = do { _ \<leftarrow> create_dir_all (scripts_dir cfg); fs_return (scripts_dir cfg) }"

definition create_script :: "app_config \<Rightarrow> (string \<Rightarrow> string) \<Rightarrow> string \<Rightarrow> string \<Rightarrow> string fs_io" where
  "create_script cfg E filename content = do {
     dir \<leftarrow> ensure_scripts_dir cfg;
     valid \<leftarrow> validate_filename filename dir;
     case valid of
       Inl msg \<Rightarrow> fs_return (''/scripts/new?error='' @ E msg)
     | Inr path \<Rightarrow> do {
         there \<leftarrow> fs_get (\<lambda>f. locate f path \<noteq> None);
         if there then fs_return (''/scripts/new?error='' @ E ''A script with that filename already exists'')
         else if length content > max_script_size
         then fs_return (''/scripts/new?error='' @ E ''Script content exceeds 1 MB limit'')
         else do {
           ok \<leftarrow> write_to path content;
           if \<not> ok then fs_return (''/scripts/new?error='' @ E ''Failed to write script file'')
           else do {
             _ \<leftarrow> set_executable path;
             fs_return (''/scripts/'' @ E filename @ ''?success=Script+created'') } } } }"

definition save_script :: "app_config \<Rightarrow> (string \<Rightarrow> string) \<Rightarrow> string \<Rightarrow> string \<Rightarrow> string fs_io" where
  "save_script cfg E filename content = do {
     dir \<leftarrow> ensure_scripts_dir cfg;
     valid \<leftarrow> validate_filename filename dir;
     case valid of
       Inl msg \<Rightarrow> fs_return (''/scripts/'' @ E filename @ ''?error='' @ E msg)
     | Inr path \<Rightarrow> do {
         there \<leftarrow> fs_get (\<lambda>f. path_is_file f path);
         if \<not> there then fs_return ''/scripts?error=Script+not+found''
         else if length content > max_script_size
         then fs_return (''/scripts/'' @ E filename @ ''?error='' @ E ''Script content exceeds 1 MB limit'')
         else do {
           ok \<leftarrow> write_to path content;
           if \<not> ok then fs_return (''/scripts/'' @ E filename @ ''?error='' @ E ''Failed to save script'')
           else do {
             _ \<leftarrow> set_executable path;
             fs_return (''/scripts/'' @ E filename @ ''?success=Script+saved'') } } } }"

definition delete_script :: "app_config \<Rightarrow> (string \<Rightarrow> string) \<Rightarrow> string \<Rightarrow> string fs_io" where
  "delete_script cfg E filename = do {
     dir \<leftarrow> ensure_scripts_dir cfg;
     valid \<leftarrow> validate_filename filename dir;
     case valid of
       Inl msg \<Rightarrow> fs_return (''/scripts?error='' @ E msg)
     | Inr path \<Rightarrow> do {
         there \<leftarrow> fs_get (\<lambda>f. path_is_file f path);
         if \<not> there then fs_return ''/scripts?error=Script+not+found''
         else do {
           ok \<leftarrow> unlink path;
           fs_return (if ok then ''/scripts?success=Script+deleted''
                      else ''/scripts?error='' @ E ''Failed to delete script'') } } }"

text \<open>The three requests that change something, as the router dispatches them.\<close>

datatype script_request = CreateScript string string | SaveScript string string | DeleteScript string

fun handle_script :: "app_config \<Rightarrow> (string \<Rightarrow> string) \<Rightarrow> script_request \<Rightarrow> string fs_io" where
  "handle_script cfg E (CreateScript filename content) = create_script cfg E filename content"
| "handle_script cfg E (SaveScript filename content) = save_script cfg E filename content"
| "handle_script cfg E (DeleteScript filename) = delete_script cfg E filename"

section \<open>What the check lets through\<close>

lemma path_of_Nil [simp]: "path_of s = [] \<longleftrightarrow> s = []"
proof -
  have "s = [] \<or> starts_with ''/'' s" if "filter (\<lambda>c. c \<noteq> []) (split_on (CHR ''/'') s) = []"
    using that by (cases s) (auto simp: starts_with_def split: list.splits if_splits)
  then show ?thesis by (auto simp: path_of_def Let_def starts_with_def split: list.split)
qed

lemma filename_error_None:
  assumes "filename_error n = None"
  shows "n \<noteq> []" and "n \<noteq> root_dir" and "n \<noteq> ''.''" and "n \<noteq> ''..''" and "CHR ''/'' \<notin> set n"
proof -
  have "\<not> script_char (CHR ''/'')" by (simp add: script_char_def)
  then show "CHR ''/'' \<notin> set n"
    using assms by (auto simp: filename_error_def list_all_iff split: if_splits)
  then show "n \<noteq> root_dir" by (auto simp: root_dir_def)
  show "n \<noteq> []" "n \<noteq> ''.''" "n \<noteq> ''..''"
    using assms by (auto simp: filename_error_def starts_with_def split: if_splits)
qed

lemma same_files_ops: "same_files f (f\<lparr>fs_ops := n\<rparr>)"
  by (simp add: same_files_def)

lemma validate_filename_keeps:
  "run_state (validate_filename n d) f = (r, f') \<Longrightarrow> same_files f f'"
  by (auto simp: validate_filename_def run_canonicalize Let_def same_files_def split: option.splits if_splits)

lemma validate_filename_Inr:
  assumes "run_state (validate_filename n d) f = (Inr p, f')"
  shows "p = d @ [n]" and "filename_error n = None"
    and "locate f p = Some q \<Longrightarrow> locate f d = Some D \<Longrightarrow> \<not> fs_fault f (fs_ops f) \<Longrightarrow> prefix D q"
  using assms
  by (auto simp: validate_filename_def run_canonicalize Let_def split: option.splits if_splits)

lemma locate_scripts_dir: "locate f (d @ [n]) \<noteq> None \<Longrightarrow> d \<noteq> [] \<Longrightarrow> locate f d \<noteq> None"
  by (auto simp: locate_def dest!: open_at_prefix)

text \<open>Below the scripts directory \<open>D\<close>, the file name is opened in \<open>D\<close> itself.\<close>

lemma open_in_dir:
  assumes "locate f d = Some D" and "is_dir (fs_nodes f) D" and "filename_error n = None"
  obtains m where "\<And>create. open_at (fs_nodes f) create max_links (fs_cwd f) (d @ [n]) =
    (case fs_nodes f (D @ [n]) of
       None \<Rightarrow> if create then Some (D @ [n]) else None
     | Some (Link t) \<Rightarrow> (case m of 0 \<Rightarrow> None | Suc k \<Rightarrow> open_at (fs_nodes f) create k D t)
     | Some _ \<Rightarrow> Some (D @ [n]))"
proof -
  have "open_at (fs_nodes f) False max_links (fs_cwd f) d = Some D"
    using assms(1) by (simp add: locate_def split: if_splits)
  from open_at_append [OF this assms(2), of "[n]"] obtain m where
    "\<forall>create. open_at (fs_nodes f) create max_links (fs_cwd f) (d @ [n]) = open_at (fs_nodes f) create m D [n]"
    by auto
  with filename_error_None [OF assms(3)] show ?thesis
    by (intro that [of m]) (auto simp: open_at.simps(2) split: option.split node.split nat.split)
qed

section \<open>What the handlers change\<close>

text \<open>Making the directories adds directories and changes nothing that is there.\<close>

definition adds_dirs :: "fs \<Rightarrow> fs \<Rightarrow> bool" where
  "adds_dirs f g \<longleftrightarrow> fs_cwd g = fs_cwd f \<and> fs_fault g = fs_fault f
     \<and> (\<forall>q. fs_nodes g q = fs_nodes f q \<or> fs_nodes f q = None \<and> fs_nodes g q = Some Directory)"

lemma adds_dirs_trans: "adds_dirs f g \<Longrightarrow> adds_dirs g h \<Longrightarrow> adds_dirs f h"
  unfolding adds_dirs_def by (metis option.distinct(1))

lemma make_dirs_adds: "run_state (make_dirs ps) f = (u, g) \<Longrightarrow> adds_dirs f g"
proof (induction ps arbitrary: f)
  case (Cons p ps)
  obtain v h where h: "run_state (make_dir p) f = (v, h)" by (metis prod.collapse)
  then have "adds_dirs f h"
    by (auto simp: make_dir_def adds_dirs_def split: option.splits if_splits)
  with Cons h show ?case by (auto intro: adds_dirs_trans)
qed (simp add: adds_dirs_def)

text \<open>Creating changes at most one place, where nothing was.\<close>

definition creates_at :: "fs \<Rightarrow> path \<Rightarrow> path \<Rightarrow> fs \<Rightarrow> bool" where
  "creates_at f p q g \<longleftrightarrow> locate f p = None \<and> fs_nodes f q = None
     \<and> open_at (fs_nodes f) True max_links (fs_cwd f) p = Some q
     \<and> (\<exists>s x. fs_nodes g = (fs_nodes f)(q \<mapsto> File s x))"

lemma create_at:
  assumes "locate f p = None"
    and "run_state (write_to p content) f = (ok, g)" and "run_state (set_executable p) g = (x, h)"
  shows "fs_nodes g = fs_nodes f \<and> \<not> ok \<or> (\<exists>q. creates_at f p q g)"
    and "ok \<Longrightarrow> \<exists>q. creates_at f p q h"
    and "ok \<Longrightarrow> \<forall>n. \<not> fs_fault f n \<Longrightarrow> \<exists>q. creates_at f p q h \<and> fs_nodes h q = Some (File content True)"
proof -
  have "(\<not> ok \<and> same_files f g) \<or> (\<exists>q s x. creates_at f p q g \<and> p \<noteq> [] \<and> s = (if ok then content else [])
      \<and> fs_nodes g = (fs_nodes f)(q \<mapsto> File s x) \<and> fs_cwd g = fs_cwd f \<and> fs_fault g = fs_fault f)"
    using assms(2)
  proof (cases rule: write_to_effect)
    case (2 q s x)
    with open_at_new [OF 2(2)] assms(1) show ?thesis
      by (auto simp: creates_at_def locate_def)
  qed auto
  then consider "\<not> ok" "same_files f g"
    | q s x where "creates_at f p q g" "p \<noteq> []" "s = (if ok then content else [])"
        "fs_nodes g = (fs_nodes f)(q \<mapsto> File s x)" "fs_cwd g = fs_cwd f" "fs_fault g = fs_fault f" by blast
  note cs = this
  show "fs_nodes g = fs_nodes f \<and> \<not> ok \<or> (\<exists>q. creates_at f p q g)"
    using cs by cases (auto simp: same_files_def)
  have l: "locate g p = Some q" if "creates_at f p q g" "fs_nodes g = (fs_nodes f)(q \<mapsto> File s x)"
      "p \<noteq> []" "fs_cwd g = fs_cwd f" for q s x
    using open_at_created [of "fs_nodes f" max_links "fs_cwd f" p q s x] that
    by (simp add: creates_at_def locate_def)
  show "\<exists>q. creates_at f p q h" if ok
    using cs
  proof cases
    case (2 q s x)
    from assms(3) show ?thesis
    proof (cases rule: set_executable_effect)
      case 1
      then show ?thesis using 2(1) by (auto simp: creates_at_def same_files_def)
    next
      case (2 q' s' x')
      then show ?thesis using l [OF \<open>creates_at f p q g\<close> \<open>fs_nodes g = (fs_nodes f)(q \<mapsto> File s x)\<close>]
          \<open>creates_at f p q g\<close> \<open>p \<noteq> []\<close> \<open>fs_cwd g = fs_cwd f\<close>
        unfolding creates_at_def by (intro exI [of _ q] conjI exI [of _ s'] exI [of _ True]) auto
    qed
  qed (use that in simp)
  show "\<exists>q. creates_at f p q h \<and> fs_nodes h q = Some (File content True)" if ok "\<forall>n. \<not> fs_fault f n"
    using cs
  proof cases
    case (2 q s x)
    then have "locate g p = Some q" using l by blast
    then have "fs_nodes h = (fs_nodes g)(q \<mapsto> File content True)"
      using assms(3) that 2 by (auto simp: set_executable_def)
    with 2 show ?thesis by (auto simp: creates_at_def)
  qed (use that in simp)
qed

definition prepared :: "app_config \<Rightarrow> fs \<Rightarrow> fs" where
  "prepared cfg f = snd (run_state (create_dir_all (scripts_dir cfg)) f)"

lemma run_ensure_scripts_dir: "run_state (ensure_scripts_dir cfg) f = (scripts_dir cfg, prepared cfg f)"
  by (simp add: ensure_scripts_dir_def prepared_def case_prod_unfold)

lemma prepared_adds: "adds_dirs f (prepared cfg f)"
  unfolding prepared_def create_dir_all_def by (rule make_dirs_adds) (rule prod.collapse [symmetric])

lemma creates_at_same: "same_files f g \<Longrightarrow> creates_at g p q h = creates_at f p q h"
  by (simp add: creates_at_def same_files_locate) (simp add: same_files_def)

lemma create_script_effect:
  assumes "run_state (create_script cfg E n content) f = (r, f')"
  shows "fs_nodes f' = fs_nodes (prepared cfg f)
    \<or> filename_error n = None \<and> (\<exists>q. creates_at (prepared cfg f) (scripts_dir cfg @ [n]) q f')"
proof -
  obtain v g where v: "run_state (validate_filename n (scripts_dir cfg)) (prepared cfg f) = (v, g)"
    by (metis prod.collapse)
  note same = validate_filename_keeps [OF v]
  then have nodes: "fs_nodes g = fs_nodes (prepared cfg f)" by (simp add: same_files_def)
  show ?thesis
  proof (cases "\<exists>p. v = Inr p \<and> locate g p = None \<and> length content \<le> max_script_size")
    case False
    with assms v nodes show ?thesis
      by (auto simp: create_script_def run_ensure_scripts_dir split: sum.splits if_splits)
  next
    case True
    then obtain p where p: "v = Inr p" "locate g p = None" "length content \<le> max_script_size" by blast
    obtain ok g1 where w: "run_state (write_to p content) g = (ok, g1)" by (metis prod.collapse)
    obtain x g2 where x: "run_state (set_executable p) g1 = (x, g2)" by (metis prod.collapse)
    have "f' = (if ok then g2 else g1)"
      using assms v p w x by (auto simp: create_script_def run_ensure_scripts_dir split: if_splits)
    with create_at(1,2) [OF p(2) w x] have "fs_nodes f' = fs_nodes g \<or> (\<exists>q. creates_at g p q f')"
      by (auto split: if_splits)
    with nodes validate_filename_Inr(1,2) [OF v [unfolded p(1)]] show ?thesis
      by (simp add: creates_at_same [OF same])
  qed
qed

lemma save_script_effect:
  assumes "run_state (save_script cfg E n content) f = (r, f')"
  shows "fs_nodes f' = fs_nodes (prepared cfg f)
    \<or> (\<exists>q c x s y. locate (prepared cfg f) (scripts_dir cfg @ [n]) = Some q \<and> q \<noteq> []
         \<and> fs_nodes (prepared cfg f) q = Some (File c x) \<and> fs_nodes f' = (fs_nodes (prepared cfg f))(q \<mapsto> File s y)
         \<and> (\<forall>D. locate (prepared cfg f) (scripts_dir cfg) = Some D \<longrightarrow>
              \<not> fs_fault (prepared cfg f) (fs_ops (prepared cfg f)) \<longrightarrow> prefix D q))"
proof -
  let ?f = "prepared cfg f"
  obtain v g where v: "run_state (validate_filename n (scripts_dir cfg)) ?f = (v, g)"
    by (metis prod.collapse)
  note same = validate_filename_keeps [OF v]
  then have nodes: "fs_nodes g = fs_nodes ?f" by (simp add: same_files_def)
  show ?thesis
  proof (cases "\<exists>p. v = Inr p \<and> path_is_file g p \<and> length content \<le> max_script_size")
    case False
    with assms v nodes show ?thesis
      by (auto simp: save_script_def run_ensure_scripts_dir split: sum.splits if_splits)
  next
    case True
    then obtain p where p: "v = Inr p" "path_is_file g p" "length content \<le> max_script_size" by blast
    obtain ok g1 where w: "run_state (write_to p content) g = (ok, g1)" by (metis prod.collapse)
    obtain x g2 where x: "run_state (set_executable p) g1 = (x, g2)" by (metis prod.collapse)
    have f': "f' = (if ok then g2 else g1)"
      using assms v p w x by (auto simp: save_script_def run_ensure_scripts_dir split: if_splits)
    note p' = validate_filename_Inr [OF v [unfolded p(1)]]
    obtain q c y where q: "locate g p = Some q" "fs_nodes g q = Some (File c y)" and root: "q \<noteq> []"
      using p(2) by (auto simp: path_is_file_def split: option.splits node.splits)
    then have there: "locate ?f p = Some q" "fs_nodes ?f q = Some (File c y)"
      using same nodes by (simp_all add: same_files_locate)
    have "fs_nodes f' = fs_nodes ?f \<or> (\<exists>s y. fs_nodes f' = (fs_nodes ?f)(q \<mapsto> File s y))"
      using w
    proof (cases rule: write_to_effect)
      case 1
      with f' nodes show ?thesis by (simp add: same_files_def)
    next
      case (2 q' s x')
      have "q' = q" using 2(1,2) q(1) open_at_create by (fastforce simp: locate_def)
      with 2 have g1: "fs_nodes g1 = (fs_nodes g)(q \<mapsto> File s x')" "fs_cwd g1 = fs_cwd g" by simp_all
      have "locate g1 p = Some q"
        using q g1 open_at_rewritten [of "fs_nodes g" q c y s x'] by (simp add: locate_def split: if_splits)
      with x have "fs_nodes g2 = fs_nodes g1 \<or> (\<exists>s y. fs_nodes g2 = (fs_nodes g1)(q \<mapsto> File s y))"
        by (cases rule: set_executable_effect) (auto simp: same_files_def)
      with f' g1 nodes show ?thesis by (auto split: if_splits)
    qed
    with there root p' show ?thesis by auto
  qed
qed

lemma delete_script_effect:
  assumes "run_state (delete_script cfg E n) f = (r, f')"
  shows "fs_nodes f' = fs_nodes (prepared cfg f)
    \<or> (\<exists>q. entry_of (prepared cfg f) (scripts_dir cfg @ [n]) = Some q
         \<and> fs_nodes f' = (fs_nodes (prepared cfg f))(q := None))"
proof -
  let ?f = "prepared cfg f"
  obtain v g where v: "run_state (validate_filename n (scripts_dir cfg)) ?f = (v, g)"
    by (metis prod.collapse)
  note same = validate_filename_keeps [OF v]
  then have nodes: "fs_nodes g = fs_nodes ?f" "entry_of g p = entry_of ?f p" for p
    by (simp_all add: same_files_def entry_of_def locate_def split: option.split)
  show ?thesis
  proof (cases "\<exists>p. v = Inr p \<and> path_is_file g p")
    case False
    with assms v nodes show ?thesis
      by (auto simp: delete_script_def run_ensure_scripts_dir split: sum.splits if_splits)
  next
    case True
    then obtain p where p: "v = Inr p" "path_is_file g p" by blast
    obtain ok g1 where u: "run_state (unlink p) g = (ok, g1)" by (metis prod.collapse)
    have f': "f' = g1" using assms v p u by (auto simp: delete_script_def run_ensure_scripts_dir)
    from u show ?thesis
      using f' nodes validate_filename_Inr(1) [OF v [unfolded p(1)]]
      by (cases rule: unlink_effect) (auto simp: same_files_def)
  qed
qed

section \<open>Properties\<close>

text \<open>What is created under a name that is no dangling link is in the directory itself.\<close>

lemma created_inside:
  assumes "locate f d = Some D" and "is_dir (fs_nodes f) D" and "filename_error n = None"
    and "creates_at f (d @ [n]) q g"
    and "case fs_nodes f (D @ [n]) of Some (Link t) \<Rightarrow> locate f (d @ [n]) \<noteq> None | _ \<Rightarrow> True"
  shows "q = D @ [n]"
proof -
  obtain m where m: "\<And>create. open_at (fs_nodes f) create max_links (fs_cwd f) (d @ [n]) =
      (case fs_nodes f (D @ [n]) of None \<Rightarrow> if create then Some (D @ [n]) else None
       | Some (Link t) \<Rightarrow> (case m of 0 \<Rightarrow> None | Suc k \<Rightarrow> open_at (fs_nodes f) create k D t)
       | Some _ \<Rightarrow> Some (D @ [n]))"
    by (rule open_in_dir [OF assms(1-3)]) (rule that)
  with assms(4,5) m [of False] m [of True] show ?thesis
    by (auto simp: creates_at_def locate_def split: option.splits node.splits)
qed

text \<open>C12: The script manager stays in its directory, but for two cases that the code does not cover.
  Whatever is requested, whatever links the file system has and whatever file operations fail:
  besides making the scripts directory (and its missing parents), creating, saving or deleting a
  script changes nothing that is not below the place \<open>D\<close> of the scripts directory. Links are
  followed: a script that is a link out of the directory is refused. The two cases are a request to
  create a script under the name of a dangling link, which is followed out of the directory
  (\<open>dangling_link_escapes\<close>), and a request to save a script while resolving the scripts directory
  itself fails, where the check compares with the directory's name as it is configured.\<close>

theorem scripts_stay_inside:
  assumes "sc_dir (cf_scripts cfg) \<noteq> []"
    and "locate (prepared cfg f) (scripts_dir cfg) = Some D" and "is_dir (fs_nodes (prepared cfg f)) D"
    and "case r of
        CreateScript n _ \<Rightarrow> (case fs_nodes (prepared cfg f) (D @ [n]) of
            Some (Link t) \<Rightarrow> locate (prepared cfg f) (scripts_dir cfg @ [n]) \<noteq> None | _ \<Rightarrow> True)
      | SaveScript _ _ \<Rightarrow> \<not> fs_fault (prepared cfg f) (fs_ops (prepared cfg f))
      | DeleteScript _ \<Rightarrow> True"
    and "run_state (handle_script cfg E r) f = (resp, f')" and "\<not> strict_prefix D q"
  shows "fs_nodes f' q = fs_nodes f q \<or> fs_nodes f q = None \<and> fs_nodes f' q = Some Directory"
proof -
  let ?f = "prepared cfg f"
  have dir: "scripts_dir cfg \<noteq> []" using assms(1) by (simp add: scripts_dir_def)
  have "fs_nodes f' q = fs_nodes ?f q"
  proof (cases r)
    case (CreateScript n content)
    with assms(5) create_script_effect [of cfg E n content f resp f'] consider "fs_nodes f' = fs_nodes ?f"
      | q' where "filename_error n = None" "creates_at ?f (scripts_dir cfg @ [n]) q' f'" by auto
    then show ?thesis
    proof cases
      case (2 q')
      have "q' = D @ [n]"
        using created_inside [OF assms(2,3) 2] assms(4) CreateScript by simp
      with 2(2) assms(6) show ?thesis by (auto simp: creates_at_def strict_prefix_def)
    qed simp
  next
    case (SaveScript n content)
    with assms(5) save_script_effect [of cfg E n content f resp f'] consider "fs_nodes f' = fs_nodes ?f"
      | q' c x s y where "fs_nodes ?f q' = Some (File c x)" "fs_nodes f' = (fs_nodes ?f)(q' \<mapsto> File s y)"
          "prefix D q'" "q' \<noteq> []" using assms(2,4) SaveScript by auto
    then show ?thesis
    proof cases
      case (2 q' c x s y)
      have "q' \<noteq> D" using 2(1,4) assms(3) by (auto simp: is_dir_def)
      with 2 assms(6) show ?thesis by (auto simp: strict_prefix_def)
    qed simp
  next
    case (DeleteScript n)
    with assms(5) delete_script_effect [of cfg E n f resp f'] consider "fs_nodes f' = fs_nodes ?f"
      | q' where "entry_of ?f (scripts_dir cfg @ [n]) = Some q'" "fs_nodes f' = (fs_nodes ?f)(q' := None)"
      by auto
    then show ?thesis
    proof cases
      case (2 q')
      then have "q' = D @ [n]" using assms(2) dir by (auto simp: entry_of_def parent_def split: if_splits)
      with 2 assms(6) show ?thesis by (auto simp: strict_prefix_def)
    qed simp
  qed
  with prepared_adds [of f cfg] show ?thesis by (auto simp: adds_dirs_def)
qed

text \<open>Creating never changes what is there, whatever fails and whatever the links are.\<close>

theorem create_keeps_files:
  assumes "run_state (create_script cfg E n content) f = (r, f')" and "fs_nodes f q = Some v"
  shows "fs_nodes f' q = Some v"
proof -
  have "fs_nodes (prepared cfg f) q = Some v"
    using prepared_adds [of f cfg] assms(2) by (auto simp: adds_dirs_def) (metis option.distinct(1))
  with create_script_effect [OF assms(1)] show ?thesis by (auto simp: creates_at_def)
qed

lemma prepared_fault: "fs_fault (prepared cfg f) = fs_fault f"
  using prepared_adds [of f cfg] by (simp add: adds_dirs_def)

lemma validate_filename_ok:
  assumes "locate f d = Some D" and "is_dir (fs_nodes f) D" and "d \<noteq> []"
    and "filename_error n = None" and "\<And>t. fs_nodes f (D @ [n]) \<noteq> Some (Link t)" and "\<And>k. \<not> fs_fault f k"
  shows "fst (run_state (validate_filename n d) f) = Inr (d @ [n])"
    and "locate f (d @ [n]) = (if fs_nodes f (D @ [n]) = None then None else Some (D @ [n]))"
proof -
  obtain m where "\<And>create. open_at (fs_nodes f) create max_links (fs_cwd f) (d @ [n]) =
      (case fs_nodes f (D @ [n]) of None \<Rightarrow> if create then Some (D @ [n]) else None
       | Some (Link t) \<Rightarrow> (case m of 0 \<Rightarrow> None | Suc k \<Rightarrow> open_at (fs_nodes f) create k D t)
       | Some _ \<Rightarrow> Some (D @ [n]))"
    by (rule open_in_dir [OF assms(1,2,4)]) (rule that)
  from this [of False] show l: "locate f (d @ [n]) = (if fs_nodes f (D @ [n]) = None then None else Some (D @ [n]))"
    using assms(5) by (auto simp: locate_def split: option.splits node.splits)
  show "fst (run_state (validate_filename n d) f) = Inr (d @ [n])"
    using assms(1,4,6) l by (auto simp: validate_filename_def run_canonicalize Let_def parent_def)
qed

section \<open>Where it does not hold\<close>

text \<open>The check takes a dangling link for a file that is not there yet: its parent is the scripts
  directory, so it passes, and writing follows the link. So a request can create a file anywhere
  such a link points to.\<close>

theorem create_follows_dangling_link:
  assumes "sc_dir (cf_scripts cfg) \<noteq> []" and "\<And>k. \<not> fs_fault f k"
    and "locate (prepared cfg f) (scripts_dir cfg) = Some D" and "is_dir (fs_nodes (prepared cfg f)) D"
    and "filename_error n = None" and "fs_nodes (prepared cfg f) (D @ [n]) = Some (Link t)"
    and "locate (prepared cfg f) (scripts_dir cfg @ [n]) = None"
    and "open_at (fs_nodes (prepared cfg f)) True max_links (fs_cwd (prepared cfg f)) (scripts_dir cfg @ [n]) = Some q"
    and "length content \<le> max_script_size"
    and "run_state (create_script cfg E n content) f = (r, f')"
  shows "r = ''/scripts/'' @ E n @ ''?success=Script+created''
    \<and> fs_nodes f' = (fs_nodes (prepared cfg f))(q \<mapsto> File content True)"
proof -
  let ?f = "prepared cfg f" and ?d = "scripts_dir cfg"
  have dir: "?d \<noteq> []" using assms(1) by (simp add: scripts_dir_def)
  have nf: "\<not> fs_fault ?f k" for k using assms(2) by (simp add: prepared_fault)
  have "fst (run_state (validate_filename n ?d) ?f) = Inr (?d @ [n])"
    using assms(3,5,7) nf by (auto simp: validate_filename_def run_canonicalize Let_def parent_def)
  then obtain g where v: "run_state (validate_filename n ?d) ?f = (Inr (?d @ [n]), g)" by (metis prod.collapse)
  note same = validate_filename_keeps [OF v]
  then have g: "fs_nodes g = fs_nodes ?f" "fs_fault g = fs_fault ?f" "fs_cwd g = fs_cwd ?f"
      "locate g (?d @ [n]) = None"
    using assms(7) by (simp_all add: same_files_locate) (simp_all add: same_files_def)
  obtain w g1 where w: "run_state (write_to (?d @ [n]) content) g = (w, g1)" by (metis prod.collapse)
  obtain x g2 where x: "run_state (set_executable (?d @ [n])) g1 = (x, g2)" by (metis prod.collapse)
  have q: "fs_nodes ?f q = None" "q \<noteq> []"
    using open_at_new [OF assms(8)] assms(7) by (simp_all add: locate_def)
  then have "w" using w g assms(8) nf by (auto simp: run_write_to Let_def split: if_splits)
  with create_at(3) [OF g(4) w x] g nf obtain q' where
    q': "creates_at g (?d @ [n]) q' g2" "fs_nodes g2 q' = Some (File content True)" by auto
  then have "fs_nodes g2 = (fs_nodes ?f)(q \<mapsto> File content True)"
    using assms(8) g by (auto simp: creates_at_def)
  moreover have "r = ''/scripts/'' @ E n @ ''?success=Script+created'' \<and> f' = g2"
    using assms(9,10) v g w x \<open>w\<close> by (auto simp: create_script_def run_ensure_scripts_dir)
  ultimately show ?thesis by simp
qed

section \<open>Witnesses\<close>

definition sample_nodes :: "path \<Rightarrow> node option" where
  "sample_nodes q =
     (if q \<in> {[''srv''], [''srv'', ''data''], [''srv'', ''data'', ''scripts''], [''etc'']} then Some Directory
      else if q = [''srv'', ''data'', ''scripts'', ''run.sh''] then Some (File ''exit 0'' True)
      else if q = [''etc'', ''hosts''] then Some (File ''::1'' False)
      else if q = [''srv'', ''data'', ''scripts'', ''out''] then Some (Link [root_dir, ''etc'', ''cron''])
      else None)"

definition sample_fs :: fs where
  "sample_fs = \<lparr>fs_nodes = sample_nodes, fs_cwd = [''srv''], fs_fault = (\<lambda>_. False), fs_ops = 0\<rparr>"

lemma sample_scripts_dir: "scripts_dir default_app_config = [''data'', ''scripts'']"
  by (simp add: scripts_dir_def default_app_config_def default_scripts_config_def path_of_def starts_with_def Let_def)

lemma sample_prepared: "prepared default_app_config sample_fs = sample_fs\<lparr>fs_ops := 2\<rparr>"
  by (simp add: prepared_def sample_scripts_dir create_dir_all_def make_dir_def upt_rec root_dir_def entry_of_def
      parent_def locate_def open_at.simps(2) sample_fs_def sample_nodes_def is_dir_def max_links_def)

lemma sample_located:
  "locate (prepared default_app_config sample_fs) (scripts_dir default_app_config) = Some [''srv'', ''data'', ''scripts'']"
  "is_dir (fs_nodes (prepared default_app_config sample_fs)) [''srv'', ''data'', ''scripts'']"
  "sc_dir (cf_scripts default_app_config) \<noteq> []"
  unfolding sample_prepared sample_scripts_dir
  by (simp_all add: locate_def open_at.simps(2) sample_fs_def sample_nodes_def is_dir_def root_dir_def
      default_app_config_def default_scripts_config_def)

lemma sample_prepared_nodes: "fs_nodes (prepared default_app_config sample_fs) = sample_nodes"
  unfolding sample_prepared by (simp add: sample_fs_def)

theorem scripts_stay_inside_witness:
  "fs_nodes (snd (run_state (handle_script default_app_config id (CreateScript ''new.sh'' ''exit 1'')) sample_fs))
     [''etc'', ''hosts''] = Some (File ''::1'' False)"
proof -
  have "\<not> strict_prefix [''srv'', ''data'', ''scripts''] [''etc'', ''hosts'']"
    by (simp add: strict_prefix_def)
  from scripts_stay_inside [OF sample_located(3,1,2) _ prod.collapse [symmetric] this,
      where r = "CreateScript ''new.sh'' ''exit 1''" and E = id]
  show ?thesis unfolding sample_prepared by (auto simp: sample_fs_def sample_nodes_def)
qed

text \<open>A request that writes outside of the scripts directory.\<close>

theorem dangling_link_escapes:
  "fs_nodes (snd (run_state (create_script default_app_config id ''out'' ''0 0 * * * root'') sample_fs))
     [''etc'', ''cron''] = Some (File ''0 0 * * * root'' True)"
proof -
  have nf: "\<not> fs_fault sample_fs k" for k by (simp add: sample_fs_def)
  have name: "filename_error ''out'' = None"
    by (simp add: filename_error_def script_char_def starts_with_def)
  have "fs_nodes (prepared default_app_config sample_fs) ([''srv'', ''data'', ''scripts''] @ [''out''])
      = Some (Link [root_dir, ''etc'', ''cron''])"
    unfolding sample_prepared_nodes by (simp add: sample_nodes_def)
  note follows = create_follows_dangling_link [OF sample_located(3) nf sample_located(1,2) name this _ _ _
      prod.collapse [symmetric], where E = id and content = "''0 0 * * * root''" and q = "[''etc'', ''cron'']"]
  show ?thesis
    using follows unfolding sample_prepared sample_scripts_dir
    by (simp add: sample_fs_def sample_nodes_def locate_def open_at.simps(2) root_dir_def max_links_def
        max_script_size_def)
qed

end
