(* ===== verification/Script_Pages.thy ===== *)
theory Script_Pages
  imports Scripts Log_Stream
begin

text \<open>
  The pages of the script manager (\<open>list_scripts\<close>, \<open>new_script\<close> and \<open>edit_script\<close> of
  \<open>src/routes/scripts.rs\<close>, with the data of \<open>src/views/scripts.rs\<close>), and the script manager as a
  whole: read and changed through its handlers, the directory is a store of named scripts. The names
  of a directory, times of files and the encoding of names in links are parameters.
\<close>

section \<open>Sizes\<close>

text \<open>A \<open>u64\<close> becomes an \<open>f64\<close> of 53 significant bits; dividing by a power of two is exact, and so
  is printing with a fixed number of decimals, up to the last one. Both round to the nearest,
  and halves to the even neighbour.\<close>

definition round_half_even :: "nat \<Rightarrow> nat \<Rightarrow> nat" where
  "round_half_even a b =
     (let q = a div b; r = a mod b in if 2 * r < b \<or> 2 * r = b \<and> even q then q else q + 1)"

fun bit_length :: "nat \<Rightarrow> nat" where
  "bit_length n = (if n = 0 then 0 else Suc (bit_length (n div 2)))"

declare bit_length.simps [simp del]

definition f64_of_u64 :: "nat \<Rightarrow> nat" where
  "f64_of_u64 n = (let e = bit_length n - 53 in round_half_even n (2 ^ e) * 2 ^ e)"

definition one_decimal :: "nat \<Rightarrow> nat \<Rightarrow> string" where
  "one_decimal a b =
     (let tenths = round_half_even (10 * a) b in show_nat (tenths div 10) @ ''.'' @ show_nat (tenths mod 10))"

definition format_size :: "nat \<Rightarrow> string" where
  "format_size bytes =
     (if bytes < 1024 then show_nat bytes @ '' B''
      else if bytes < 1024 * 1024
      then (let x = f64_of_u64 bytes
            in if x < 10 * 1024 then one_decimal x 1024 @ '' KB''
               else show_nat (round_half_even x 1024) @ '' KB'')
      else one_decimal (f64_of_u64 bytes) (1024 * 1024) @ '' MB'')"

section \<open>The data of the pages\<close>

record script_entry =
  sn_name :: string
  sn_size :: string
  sn_modified :: string

record script_list_row =
  sr_name :: string
  sr_href :: string
  sr_size :: string
  sr_modified :: string

definition script_row_new :: "(string \<Rightarrow> string) \<Rightarrow> string \<Rightarrow> string \<Rightarrow> string \<Rightarrow> script_list_row" where
  "script_row_new E name bytes modified =
     \<lparr>sr_name = name, sr_href = ''/scripts/'' @ E name, sr_size = bytes, sr_modified = modified\<rparr>"

record scripts_page =
  sp_rows :: "script_list_row list"

definition scripts_count_label :: "scripts_page \<Rightarrow> string" where
  "scripts_count_label p =
     show_nat (length (sp_rows p)) @ '' file'' @ (if length (sp_rows p) = 1 then [] else ''s'')"

record script_editor_page =
  se_is_new :: bool
  se_filename :: string
  se_encoded_filename :: string
  se_content :: string

definition new_script_page :: script_editor_page where
  "new_script_page = \<lparr>se_is_new = True, se_filename = [], se_encoded_filename = [], se_content = []\<rparr>"

definition edit_script_page :: "(string \<Rightarrow> string) \<Rightarrow> string \<Rightarrow> string \<Rightarrow> script_editor_page" where
  "edit_script_page E filename content =
     \<lparr>se_is_new = False, se_filename = filename, se_encoded_filename = E filename, se_content = content\<rparr>"

definition editor_title :: "script_editor_page \<Rightarrow> string" where
  "editor_title p = (if se_is_new p then ''New Script'' else se_filename p)"

definition editor_panel_title :: "script_editor_page \<Rightarrow> string" where
  "editor_panel_title p = (if se_is_new p then ''CREATE SCRIPT'' else ''EDIT SCRIPT'')"

definition editor_submit_label :: "script_editor_page \<Rightarrow> string" where
  "editor_submit_label p = (if se_is_new p then ''CREATE'' else ''SAVE'')"

definition form_action :: "script_editor_page \<Rightarrow> string" where
  "form_action p = (if se_is_new p then ''/scripts/new'' else ''/scripts/'' @ se_encoded_filename p)"

definition delete_action :: "script_editor_page \<Rightarrow> string" where
  "delete_action p = ''/scripts/'' @ se_encoded_filename p @ ''/delete''"

section \<open>Handlers\<close>

text \<open>What the operating system and the crates say about a directory: its names in some order, when
  an entry was changed, how long the text of a link is, how a name reads as text and how a time is
  written.\<close>

record listing_lib =
  ll_names :: "fs \<Rightarrow> path \<Rightarrow> string list"
  ll_modified :: "fs \<Rightarrow> path \<Rightarrow> int option"
  ll_link_size :: "fs \<Rightarrow> path \<Rightarrow> nat"
  ll_lossy :: "string \<Rightarrow> string"
  ll_format :: "int \<Rightarrow> string"

definition format_modified :: "listing_lib \<Rightarrow> int \<Rightarrow> string" where
  "format_modified L t = ll_format L t"

definition node_size :: "listing_lib \<Rightarrow> fs \<Rightarrow> path \<Rightarrow> nat" where
  "node_size L f q = (case fs_nodes f q of Some (File c _) \<Rightarrow> length c | _ \<Rightarrow> ll_link_size L f q)"

fun read_entries :: "listing_lib \<Rightarrow> path \<Rightarrow> string list \<Rightarrow> script_entry list
    \<Rightarrow> (app_error + script_entry list) fs_io" where
  "read_entries L d [] entries = do {
     ok \<leftarrow> fs_step;
     fs_return (if ok then Inr entries else Inl AppInternal) }"
| "read_entries L d (n # ns) entries = do {
     ok \<leftarrow> fs_step;
     if \<not> ok then fs_return (Inl AppInternal)
     else do {
       stat \<leftarrow> fs_step;
       node \<leftarrow> fs_get (\<lambda>f. fs_nodes f (d @ [n]));
       bytes \<leftarrow> fs_get (\<lambda>f. node_size L f (d @ [n]));
       modified \<leftarrow> fs_get (\<lambda>f. ll_modified L f (d @ [n]));
       if \<not> stat \<or> node = None \<or> node = Some Directory then read_entries L d ns entries
       else read_entries L d ns (entries @
         [\<lparr>sn_name = ll_lossy L n, sn_size = format_size bytes,
           sn_modified = (case modified of Some t \<Rightarrow> format_modified L t | None \<Rightarrow> [])\<rparr>]) } }"

text \<open>Whether a path that cannot be opened is missing; otherwise a component is a file, or there are too
  many links.\<close>

function path_missing :: "(path \<Rightarrow> node option) \<Rightarrow> nat \<Rightarrow> path \<Rightarrow> path \<Rightarrow> bool" where
  "path_missing N n here [] = False"
| "path_missing N n here (c # rest) =
     (if c = root_dir then path_missing N n [] rest
      else if c = ''.'' then path_missing N n here rest
      else if c = ''..'' then path_missing N n (butlast here) rest
      else case N (here @ [c]) of
             None \<Rightarrow> True
           | Some Directory \<Rightarrow> path_missing N n (here @ [c]) rest
           | Some (File _ _) \<Rightarrow> False
           | Some (Link target) \<Rightarrow>
               (case n of 0 \<Rightarrow> False | Suc m \<Rightarrow> path_missing N m here (target @ rest)))"
  by pat_completeness auto
termination
  by (relation "measures [\<lambda>(N, n, here, p). n, \<lambda>(N, n, here, p). length p]") auto

declare path_missing.simps(2) [simp del]

definition list_scripts :: "app_config \<Rightarrow> (string \<Rightarrow> string) \<Rightarrow> listing_lib
    \<Rightarrow> (app_error + scripts_page) fs_io" where
  "list_scripts cfg E L = do {
     dir \<leftarrow> ensure_scripts_dir cfg;
     ok \<leftarrow> fs_step;
     place \<leftarrow> fs_get (\<lambda>f. locate f dir);
     missing \<leftarrow> fs_get (\<lambda>f. dir = [] \<or> path_missing (fs_nodes f) max_links (fs_cwd f) dir);
     directory \<leftarrow> fs_get (\<lambda>f. case place of Some d \<Rightarrow> is_dir (fs_nodes f) d | None \<Rightarrow> False);
     if \<not> ok then fs_return (Inl AppInternal)
     else case place of
       None \<Rightarrow> fs_return (if missing then Inr \<lparr>sp_rows = []\<rparr> else Inl AppInternal)
     | Some d \<Rightarrow>
         if \<not> directory then fs_return (Inl AppInternal)
         else do {
           names \<leftarrow> fs_get (\<lambda>f. ll_names L f d);
           found \<leftarrow> read_entries L d names [];
           fs_return (case found of
               Inl e \<Rightarrow> Inl e
             | Inr entries \<Rightarrow> Inr \<lparr>sp_rows =
                 map (\<lambda>e. script_row_new E (sn_name e) (sn_size e) (sn_modified e)) (sort_key sn_name entries)\<rparr>) } }"

definition edit_script :: "app_config \<Rightarrow> (string \<Rightarrow> string) \<Rightarrow> string
    \<Rightarrow> (app_error + script_editor_page) fs_io" where
  "edit_script cfg E filename = do {
     dir \<leftarrow> ensure_scripts_dir cfg;
     valid \<leftarrow> validate_filename filename dir;
     case valid of
       Inl msg \<Rightarrow> fs_return (Inl AppInternal)
     | Inr path \<Rightarrow> do {
         there \<leftarrow> fs_get (\<lambda>f. path_is_file f path);
         if \<not> there then fs_return (Inl (AppNotFound ''script''))
         else do {
           ok \<leftarrow> fs_step;
           node \<leftarrow> fs_get (\<lambda>f. Option.bind (locate f path) (fs_nodes f));
           fs_return (case (if ok then node else None) of
               Some (File bytes _) \<Rightarrow>
                 (case from_utf8 bytes of
                    Some content \<Rightarrow> Inr (edit_script_page E filename content)
                  | None \<Rightarrow> Inl AppInternal)
             | _ \<Rightarrow> Inl AppInternal) } } }"

text \<open>Every request of the script manager, as the router dispatches them.\<close>

datatype script_call = ShowList | ShowNew | ShowEditor string | Change script_request

datatype script_answer =
  Redirected string | ListPage scripts_page | EditorPage script_editor_page | Failure app_error

fun handle_call :: "app_config \<Rightarrow> (string \<Rightarrow> string) \<Rightarrow> listing_lib \<Rightarrow> script_call \<Rightarrow> script_answer fs_io" where
  "handle_call cfg E L ShowList = do {
     page \<leftarrow> list_scripts cfg E L;
     fs_return (case page of Inl e \<Rightarrow> Failure e | Inr p \<Rightarrow> ListPage p) }"
| "handle_call cfg E L ShowNew = fs_return (EditorPage new_script_page)"
| "handle_call cfg E L (ShowEditor filename) = do {
     page \<leftarrow> edit_script cfg E filename;
     fs_return (case page of Inl e \<Rightarrow> Failure e | Inr p \<Rightarrow> EditorPage p) }"
| "handle_call cfg E L (Change r) = do {
     location \<leftarrow> handle_script cfg E r;
     fs_return (Redirected location) }"

fun handle_calls :: "app_config \<Rightarrow> (string \<Rightarrow> string) \<Rightarrow> listing_lib \<Rightarrow> script_call list
    \<Rightarrow> script_answer list fs_io" where
  "handle_calls cfg E L [] = fs_return []"
| "handle_calls cfg E L (c # cs) = do {
     a \<leftarrow> handle_call cfg E L c;
     as \<leftarrow> handle_calls cfg E L cs;
     fs_return (a # as) }"


section \<open>The store\<close>

text \<open>What the directory at the place \<open>D\<close> holds under each name, when it has no links.\<close>

datatype stored = Script string | Folder

type_synonym script_store = "string \<Rightarrow> stored option"

definition store_of :: "path \<Rightarrow> fs \<Rightarrow> script_store" where
  "store_of D f n = map_option (\<lambda>v. case v of File c _ \<Rightarrow> Script c | _ \<Rightarrow> Folder) (fs_nodes f (D @ [n]))"

definition is_script :: "script_store \<Rightarrow> string \<Rightarrow> bool" where
  "is_script s n = (case s n of Some (Script _) \<Rightarrow> True | _ \<Rightarrow> False)"

text \<open>What a request makes of a store.\<close>

fun change_store :: "script_request \<Rightarrow> script_store \<Rightarrow> script_store" where
  "change_store (CreateScript n c) s =
     (if filename_error n = None \<and> s n = None \<and> length c \<le> max_script_size then s(n \<mapsto> Script c) else s)"
| "change_store (SaveScript n c) s =
     (if filename_error n = None \<and> is_script s n \<and> length c \<le> max_script_size then s(n \<mapsto> Script c) else s)"
| "change_store (DeleteScript n) s = (if filename_error n = None \<and> is_script s n then s(n := None) else s)"

fun store_after :: "script_call \<Rightarrow> script_store \<Rightarrow> script_store" where
  "store_after (Change r) s = change_store r s"
| "store_after _ s = s"

text \<open>Where a change sends the browser.\<close>

fun change_location :: "(string \<Rightarrow> string) \<Rightarrow> script_store \<Rightarrow> script_request \<Rightarrow> string" where
  "change_location E s (CreateScript n c) =
     (case filename_error n of
        Some msg \<Rightarrow> ''/scripts/new?error='' @ E msg
      | None \<Rightarrow>
          if s n \<noteq> None then ''/scripts/new?error='' @ E ''A script with that filename already exists''
          else if length c > max_script_size then ''/scripts/new?error='' @ E ''Script content exceeds 1 MB limit''
          else ''/scripts/'' @ E n @ ''?success=Script+created'')"
| "change_location E s (SaveScript n c) =
     (case filename_error n of
        Some msg \<Rightarrow> ''/scripts/'' @ E n @ ''?error='' @ E msg
      | None \<Rightarrow>
          if \<not> is_script s n then ''/scripts?error=Script+not+found''
          else if length c > max_script_size
          then ''/scripts/'' @ E n @ ''?error='' @ E ''Script content exceeds 1 MB limit''
          else ''/scripts/'' @ E n @ ''?success=Script+saved'')"
| "change_location E s (DeleteScript n) =
     (case filename_error n of
        Some msg \<Rightarrow> ''/scripts?error='' @ E msg
      | None \<Rightarrow>
          if \<not> is_script s n then ''/scripts?error=Script+not+found''
          else ''/scripts?success=Script+deleted'')"

definition editor_answer :: "(string \<Rightarrow> string) \<Rightarrow> script_store \<Rightarrow> string \<Rightarrow> script_answer" where
  "editor_answer E s n =
     (case (filename_error n, s n) of
        (None, Some (Script c)) \<Rightarrow>
          if utf8_ok c then EditorPage (edit_script_page E n c) else Failure AppInternal
      | (None, _) \<Rightarrow> Failure (AppNotFound ''script'')
      | (Some _, _) \<Rightarrow> Failure AppInternal)"

definition stored_size :: "stored option \<Rightarrow> nat" where
  "stored_size v = (case v of Some (Script c) \<Rightarrow> length c | _ \<Rightarrow> 0)"

text \<open>The list shows every script once, in the order of the names.\<close>

definition lists_store :: "(string \<Rightarrow> string) \<Rightarrow> listing_lib \<Rightarrow> script_store \<Rightarrow> scripts_page \<Rightarrow> bool" where
  "lists_store E L s p \<longleftrightarrow> sorted (map sr_name (sp_rows p))
     \<and> (\<exists>ns. distinct ns \<and> set ns = Collect (is_script s)
          \<and> map (\<lambda>r. (sr_name r, sr_href r, sr_size r)) (sp_rows p)
            = map (\<lambda>n. (ll_lossy L n, ''/scripts/'' @ E (ll_lossy L n),
                format_size (stored_size (s n)))) ns)"

fun answers :: "(string \<Rightarrow> string) \<Rightarrow> listing_lib \<Rightarrow> script_store \<Rightarrow> script_call \<Rightarrow> script_answer \<Rightarrow> bool" where
  "answers E L s ShowList a = (\<exists>p. a = ListPage p \<and> lists_store E L s p)"
| "answers E L s ShowNew a = (a = EditorPage new_script_page)"
| "answers E L s (ShowEditor n) a = (a = editor_answer E s n)"
| "answers E L s (Change r) a = (a = Redirected (change_location E s r))"

text \<open>A sequence of requests answered from a store, and the store at the end.\<close>

fun served_from :: "(string \<Rightarrow> string) \<Rightarrow> listing_lib \<Rightarrow> script_store \<Rightarrow> script_call list
    \<Rightarrow> script_answer list \<Rightarrow> script_store \<Rightarrow> bool" where
  "served_from E L s [] as s' = (as = [] \<and> s' = s)"
| "served_from E L s (c # cs) as s' =
     (\<exists>a rest. as = a # rest \<and> answers E L s c a \<and> served_from E L (store_after c s) cs rest s')"

section \<open>A directory that is in order\<close>

text \<open>The scripts directory is there, without links, and file operations work.\<close>

definition scripts_open :: "app_config \<Rightarrow> path \<Rightarrow> fs \<Rightarrow> bool" where
  "scripts_open cfg D f \<longleftrightarrow> sc_dir (cf_scripts cfg) \<noteq> []
     \<and> locate f (scripts_dir cfg) = Some D \<and> is_dir (fs_nodes f) D
     \<and> (\<forall>n t. fs_nodes f (D @ [n]) \<noteq> Some (Link t)) \<and> finite {n. fs_nodes f (D @ [n]) \<noteq> None}
     \<and> (\<forall>k. \<not> fs_fault f k)"

text \<open>The law of \<open>read_dir\<close>: every entry of a directory once, in some order.\<close>

definition lists_names :: "listing_lib \<Rightarrow> bool" where
  "lists_names L \<longleftrightarrow> (\<forall>f d. finite {n. fs_nodes f (d @ [n]) \<noteq> None} \<longrightarrow>
     distinct (ll_names L f d) \<and> set (ll_names L f d) = {n. fs_nodes f (d @ [n]) \<noteq> None})"

lemma same_files_sym: "same_files f g \<Longrightarrow> same_files g f"
  by (simp add: same_files_def)

lemma same_files_open: "same_files f g \<Longrightarrow> scripts_open cfg D f \<Longrightarrow> scripts_open cfg D g"
  by (simp add: scripts_open_def same_files_locate) (simp add: same_files_def)

lemma same_files_store: "same_files f g \<Longrightarrow> store_of D g = store_of D f"
  by (simp add: store_of_def same_files_def fun_eq_iff)

text \<open>Making directories that are there does nothing.\<close>

lemma make_dir_there:
  assumes "locate f p \<noteq> None" and "p \<noteq> []" and "locate f (parent p) \<noteq> None \<or> parent p = []"
  shows "same_files f (snd (run_state (make_dir p) f))"
proof (cases "last p \<in> {root_dir, ''.'', ''..''}")
  case True
  then show ?thesis by (auto simp: make_dir_def same_files_def)
next
  case False
  have p: "p = parent p @ [last p]" using assms(2) by (simp add: parent_def)
  have "fs_nodes f q \<noteq> None" if q: "entry_of f p = Some q" for q
  proof (cases "parent p = []")
    case True
    then have "open_at (fs_nodes f) False max_links (fs_cwd f) [last p] \<noteq> None"
      using assms(1,2) p by (metis append_Nil locate_def)
    then show ?thesis using False q True assms(2) by (auto simp: entry_of_def open_at.simps(2) split: option.splits)
  next
    case parent: False
    then obtain d where d: "locate f (parent p) = Some d" "is_dir (fs_nodes f) d" "q = d @ [last p]"
      using q assms(2) by (auto simp: entry_of_def split: option.splits if_splits)
    then have "open_at (fs_nodes f) False max_links (fs_cwd f) (parent p) = Some d"
      by (simp add: locate_def split: if_splits)
    from open_at_append [OF this d(2), of "[last p]"] obtain m where
      "open_at (fs_nodes f) False max_links (fs_cwd f) p = open_at (fs_nodes f) False m d [last p]"
      using p by auto
    then have "open_at (fs_nodes f) False m d [last p] \<noteq> None" using assms(1,2) by (simp add: locate_def)
    then show ?thesis using False d(3) by (auto simp: open_at.simps(2) split: option.splits)
  qed
  then show ?thesis by (auto simp: make_dir_def same_files_def split: option.split)
qed

lemma make_dirs_there:
  "(\<And>p. p \<in> set ps \<Longrightarrow> locate f p \<noteq> None \<and> p \<noteq> [] \<and> (locate f (parent p) \<noteq> None \<or> parent p = []))
   \<Longrightarrow> same_files f (snd (run_state (make_dirs ps) f))"
proof (induction ps arbitrary: f)
  case (Cons p ps)
  define g where "g = snd (run_state (make_dir p) f)"
  have g: "same_files f g"
    unfolding g_def using Cons.prems [of p] by (intro make_dir_there) auto
  then have "same_files g (snd (run_state (make_dirs ps) g))"
    using Cons.prems by (intro Cons.IH) (simp add: same_files_locate)
  with g show ?case by (simp add: g_def case_prod_unfold) (rule same_files_trans)
qed simp

lemma prepared_there:
  assumes "scripts_open cfg D f"
  shows "same_files f (prepared cfg f)"
proof -
  let ?d = "scripts_dir cfg"
  have there: "open_at (fs_nodes f) False max_links (fs_cwd f) ?d = Some D"
    using assms by (auto simp: scripts_open_def locate_def split: if_splits)
  have "locate f (take k ?d) \<noteq> None" if "0 < k" "k \<le> length ?d" for k
  proof (cases "k = length ?d")
    case False
    then have "open_at (fs_nodes f) False max_links (fs_cwd f) (take k ?d) \<noteq> None"
      using open_at_prefix [of "fs_nodes f" False max_links "fs_cwd f" "take k ?d" "drop k ?d" D] there that by simp
    with that show ?thesis by (auto simp: locate_def)
  qed (use there that in \<open>auto simp: locate_def\<close>)
  note located = this
  have parent: "parent (take k ?d) = take (k - 1) ?d" if "k \<le> length ?d" for k
    using that by (simp add: parent_def butlast_take)
  show ?thesis
    unfolding prepared_def create_dir_all_def
  proof (rule make_dirs_there)
    fix p
    assume "p \<in> set (map (\<lambda>k. take k ?d) [1..<Suc (length ?d)])"
    then obtain k where "k \<in> {1..<Suc (length ?d)}" and p: "p = take k ?d"
      by (auto simp del: upt_Suc)
    then have k: "0 < k" "k \<le> length ?d" "p = take k ?d" by simp_all
    have "?d \<noteq> []" using k by auto
    with k located [of k] located [of "k - 1"] parent [of k]
    show "locate f p \<noteq> None \<and> p \<noteq> [] \<and> (locate f (parent p) \<noteq> None \<or> parent p = [])"
      by (cases "k = 1") auto
  qed
qed


section \<open>Changes\<close>

text \<open>Opening a directory only looks at directories and links.\<close>

lemma open_at_dirs:
  assumes "\<And>q. N q = Some Directory \<or> (\<exists>t. N q = Some (Link t)) \<Longrightarrow> N' q = N q"
  shows "open_at N False n here p = Some D \<Longrightarrow> is_dir N D \<Longrightarrow> open_at N' False n here p = Some D"
  using assms
proof (induction N False n here p rule: open_at.induct)
  case (2 N n here c rest)
  show ?case
  proof (cases "c \<in> {root_dir, ''.'', ''..''}")
    case True
    with 2 show ?thesis by (auto simp: open_at.simps(2) root_dir_def)
  next
    case False
    with "2.prems"(1) obtain v where v: "N (here @ [c]) = Some v"
      by (auto simp: open_at.simps(2) split: option.splits)
    show ?thesis
    proof (cases v)
      case (File s x)
      with False v "2.prems"(1,2) show ?thesis
        by (auto simp: open_at.simps(2) is_dir_def split: if_splits)
    next
      case Directory
      then have "N' (here @ [c]) = Some Directory" using v "2.prems"(3) by simp
      with False v Directory 2 show ?thesis by (simp add: open_at.simps(2))
    next
      case (Link t)
      then have "N' (here @ [c]) = Some (Link t)" using v "2.prems"(3) by simp
      with False v Link 2 show ?thesis by (simp add: open_at.simps(2) split: nat.splits)
    qed
  qed
qed simp

definition plain_change :: "fs \<Rightarrow> path \<Rightarrow> node option \<Rightarrow> fs \<Rightarrow> bool" where
  "plain_change f q v g \<longleftrightarrow> fs_nodes g = (fs_nodes f)(q := v) \<and> fs_cwd g = fs_cwd f \<and> fs_fault g = fs_fault f"

lemma plain_change_same: "same_files f g \<Longrightarrow> plain_change g q v h \<Longrightarrow> plain_change f q v h"
  by (simp add: plain_change_def same_files_def)

text \<open>A file that comes, goes or changes leaves the directory in order.\<close>

lemma scripts_open_change:
  assumes "scripts_open cfg D f" and "plain_change f (D @ [n]) v g"
    and "fs_nodes f (D @ [n]) \<noteq> Some Directory" and "v = None \<or> (\<exists>c x. v = Some (File c x))"
  shows "scripts_open cfg D g"
    and "store_of D g = (store_of D f)(n := map_option (\<lambda>v. case v of File c _ \<Rightarrow> Script c | _ \<Rightarrow> Folder) v)"
proof -
  have nodes: "fs_nodes g = (fs_nodes f)(D @ [n] := v)" and rest: "fs_cwd g = fs_cwd f" "fs_fault g = fs_fault f"
    using assms(2) by (simp_all add: plain_change_def)
  have plain: "\<And>t. fs_nodes f (D @ [n]) \<noteq> Some (Link t)" using assms(1) by (simp add: scripts_open_def)
  have "open_at (fs_nodes f) False max_links (fs_cwd f) (scripts_dir cfg) = Some D" and dir: "is_dir (fs_nodes f) D"
    using assms(1) by (auto simp: scripts_open_def locate_def split: if_splits)
  then have "open_at (fs_nodes g) False max_links (fs_cwd f) (scripts_dir cfg) = Some D"
    by (rule open_at_dirs [rotated]) (use nodes assms(3) plain in auto)
  moreover have "is_dir (fs_nodes g) D" using dir nodes by (simp add: is_dir_def)
  moreover have "finite {m. fs_nodes g (D @ [m]) \<noteq> None}"
    by (rule finite_subset [of _ "insert n {m. fs_nodes f (D @ [m]) \<noteq> None}"])
      (use assms(1) nodes in \<open>auto simp: scripts_open_def\<close>)
  ultimately show "scripts_open cfg D g"
    using assms(1,4) rest nodes by (auto simp: scripts_open_def locate_def split: if_splits)
  show "store_of D g = (store_of D f)(n := map_option (\<lambda>v. case v of File c _ \<Rightarrow> Script c | _ \<Rightarrow> Folder) v)"
    using nodes by (auto simp: store_of_def fun_eq_iff)
qed

text \<open>What the check of a name makes of it.\<close>

lemma name_checked:
  assumes "scripts_open cfg D f" and "filename_error n = None"
  obtains g where "run_state (validate_filename n (scripts_dir cfg)) f = (Inr (scripts_dir cfg @ [n]), g)"
    and "same_files f g" and "scripts_open cfg D g"
    and "locate g (scripts_dir cfg @ [n]) = (if fs_nodes f (D @ [n]) = None then None else Some (D @ [n]))"
    and "open_at (fs_nodes g) True max_links (fs_cwd g) (scripts_dir cfg @ [n]) = Some (D @ [n])"
proof -
  have o: "locate f (scripts_dir cfg) = Some D" "is_dir (fs_nodes f) D" "scripts_dir cfg \<noteq> []"
      "\<And>t. fs_nodes f (D @ [n]) \<noteq> Some (Link t)" "\<And>k. \<not> fs_fault f k"
    using assms(1) by (auto simp: scripts_open_def scripts_dir_def)
  note ok = validate_filename_ok [OF o(1-3) assms(2) o(4,5)]
  obtain g where v: "run_state (validate_filename n (scripts_dir cfg)) f = (Inr (scripts_dir cfg @ [n]), g)"
    using ok(1) by (metis prod.collapse)
  note same = validate_filename_keeps [OF v]
  obtain m where "\<And>create. open_at (fs_nodes f) create max_links (fs_cwd f) (scripts_dir cfg @ [n]) =
      (case fs_nodes f (D @ [n]) of None \<Rightarrow> if create then Some (D @ [n]) else None
       | Some (Link t) \<Rightarrow> (case m of 0 \<Rightarrow> None | Suc k \<Rightarrow> open_at (fs_nodes f) create k D t)
       | Some _ \<Rightarrow> Some (D @ [n]))"
    by (rule open_in_dir [OF o(1,2) assms(2)]) (rule that)
  then have "open_at (fs_nodes f) True max_links (fs_cwd f) (scripts_dir cfg @ [n]) = Some (D @ [n])"
    using o(4) by (auto split: option.split node.split)
  with v same ok(2) show ?thesis
    by (intro that [of g]) (simp_all add: same_files_locate same_files_open [OF same assms(1)],
        simp add: same_files_def)
qed

text \<open>Writing a script and making it executable, which \<open>create_script\<close> and \<open>save_script\<close> share.\<close>

lemma script_written:
  assumes "open_at (fs_nodes g) True max_links (fs_cwd g) p = Some q" and "p \<noteq> []" and "q \<noteq> []"
    and "fs_nodes g q = None \<or> (\<exists>c x. fs_nodes g q = Some (File c x))"
    and "locate g p = (if fs_nodes g q = None then None else Some q)" and "\<And>k. \<not> fs_fault g k"
  obtains h h' where "run_state (write_to p content) g = (True, h)"
    and "run_state (set_executable p) h = (True, h')" and "plain_change g q (Some (File content True)) h'"
proof -
  define x where "x = (case fs_nodes g q of Some (File _ x) \<Rightarrow> x | _ \<Rightarrow> False)"
  obtain h where w: "run_state (write_to p content) g = (True, h)"
    and h: "plain_change g q (Some (File content x)) h"
    using assms by (fastforce simp: run_write_to Let_def plain_change_def x_def split: option.splits)
  have "locate h p = Some q"
  proof (cases "fs_nodes g q")
    case None
    then show ?thesis
      using open_at_created [OF assms(1), of content x] assms(2,5) h by (simp add: locate_def plain_change_def)
  next
    case (Some v)
    then obtain c y where "fs_nodes g q = Some (File c y)" using assms(4) by auto
    then show ?thesis
      using open_at_rewritten [of "fs_nodes g" q c y content x] assms(2,5) h by (simp add: locate_def plain_change_def)
  qed
  then have "run_state (set_executable p) h = (True, h\<lparr>fs_ops := Suc (Suc (fs_ops h)),
      fs_nodes := (fs_nodes h)(q \<mapsto> File content True)\<rparr>)"
    using h assms(6) by (simp add: set_executable_def plain_change_def)
  from that [OF w this] h show ?thesis by (simp add: plain_change_def)
qed


lemma is_script_store: "is_script (store_of D f) n \<longleftrightarrow> (\<exists>c x. fs_nodes f (D @ [n]) = Some (File c x))"
  by (auto simp: is_script_def store_of_def split: option.splits node.splits)

lemma store_free: "store_of D f n = None \<longleftrightarrow> fs_nodes f (D @ [n]) = None"
  by (simp add: store_of_def)

lemma file_at_name:
  "locate g p = (if fs_nodes g (D @ [n]) = None then None else Some (D @ [n])) \<Longrightarrow>
   path_is_file g p \<longleftrightarrow> is_script (store_of D g) n"
  by (auto simp: path_is_file_def is_script_store split: option.splits node.splits)

definition refines :: "app_config \<Rightarrow> path \<Rightarrow> fs \<Rightarrow> script_store \<Rightarrow> bool" where
  "refines cfg D f s \<longleftrightarrow> scripts_open cfg D f \<and> store_of D f = s"

lemma refines_same: "same_files f g \<Longrightarrow> refines cfg D f s \<Longrightarrow> refines cfg D g s"
  by (auto simp: refines_def same_files_open same_files_store)

lemma refines_open: "scripts_open cfg D f \<Longrightarrow> refines cfg D f (store_of D f)"
  by (simp add: refines_def)

lemma refines_put:
  "scripts_open cfg D f \<Longrightarrow> plain_change f (D @ [n]) (Some (File c x)) g \<Longrightarrow>
   store_of D f n = None \<or> is_script (store_of D f) n \<Longrightarrow> refines cfg D g ((store_of D f)(n \<mapsto> Script c))"
  using scripts_open_change [of cfg D f n "Some (File c x)" g]
  by (auto simp: refines_def is_script_store store_free)

lemma refines_removed:
  "scripts_open cfg D f \<Longrightarrow> plain_change f (D @ [n]) None g \<Longrightarrow> is_script (store_of D f) n \<Longrightarrow>
   refines cfg D g ((store_of D f)(n := None))"
  using scripts_open_change [of cfg D f n None g] by (auto simp: refines_def is_script_store)

text \<open>What the handlers know after the directory was made and the name was checked.\<close>

lemma named:
  assumes "scripts_open cfg D f"
  obtains (bad) msg where "filename_error n = Some msg"
      and "run_state (validate_filename n (scripts_dir cfg)) (prepared cfg f) = (Inl msg, prepared cfg f)"
      and "refines cfg D (prepared cfg f) (store_of D f)"
  | (good) g where "filename_error n = None"
      and "run_state (validate_filename n (scripts_dir cfg)) (prepared cfg f) = (Inr (scripts_dir cfg @ [n]), g)"
      and "scripts_open cfg D g" and "store_of D g = store_of D f"
      and "locate g (scripts_dir cfg @ [n]) = (if store_of D f n = None then None else Some (D @ [n]))"
      and "open_at (fs_nodes g) True max_links (fs_cwd g) (scripts_dir cfg @ [n]) = Some (D @ [n])"
      and "path_is_file g (scripts_dir cfg @ [n]) \<longleftrightarrow> is_script (store_of D f) n"
proof -
  note same = prepared_there [OF assms]
  note open_p = same_files_open [OF same assms]
  show ?thesis
  proof (cases "filename_error n")
    case (Some msg)
    with bad refines_same [OF same refines_open [OF assms]] show ?thesis
      by (simp add: validate_filename_def)
  next
    case None
    obtain g where v: "run_state (validate_filename n (scripts_dir cfg)) (prepared cfg f) = (Inr (scripts_dir cfg @ [n]), g)"
      and g: "same_files (prepared cfg f) g" "scripts_open cfg D g"
      and l: "locate g (scripts_dir cfg @ [n]) = (if fs_nodes (prepared cfg f) (D @ [n]) = None then None else Some (D @ [n]))"
      and o: "open_at (fs_nodes g) True max_links (fs_cwd g) (scripts_dir cfg @ [n]) = Some (D @ [n])"
      by (rule name_checked [OF open_p None])
    have s: "store_of D g = store_of D f" using same g(1) by (simp add: same_files_store)
    have "fs_nodes (prepared cfg f) = fs_nodes g" using g(1) by (simp add: same_files_def)
    with l have l': "locate g (scripts_dir cfg @ [n]) = (if fs_nodes g (D @ [n]) = None then None else Some (D @ [n]))"
      by simp
    show ?thesis
      using good [OF None v g(2) s _ o] l' file_at_name [OF l'] s store_free [of D g n] by simp
  qed
qed

lemma create_refines:
  assumes "scripts_open cfg D f" and "run_state (create_script cfg E n content) f = (loc, f')"
  shows "loc = change_location E (store_of D f) (CreateScript n content)
    \<and> refines cfg D f' (change_store (CreateScript n content) (store_of D f))"
  using assms(1)
proof (cases rule: named [where n = n])
  case (bad msg)
  with assms(2) show ?thesis by (auto simp: create_script_def run_ensure_scripts_dir)
next
  case (good g)
  show ?thesis
  proof (cases "store_of D f n = None \<and> length content \<le> max_script_size")
    case False
    with good assms(2) refines_open [OF good(3)] show ?thesis
      by (auto simp: create_script_def run_ensure_scripts_dir split: if_splits)
  next
    case True
    obtain h h' where w: "run_state (write_to (scripts_dir cfg @ [n]) content) g = (True, h)"
      "run_state (set_executable (scripts_dir cfg @ [n])) h = (True, h')"
      and h: "plain_change g (D @ [n]) (Some (File content True)) h'"
      by (rule script_written [OF good(6)])
        (use good True store_free [of D g n] in \<open>auto simp: scripts_open_def\<close>)
    with good True assms(2) refines_put [OF good(3) h] show ?thesis
      by (auto simp: create_script_def run_ensure_scripts_dir)
  qed
qed

lemma save_refines:
  assumes "scripts_open cfg D f" and "run_state (save_script cfg E n content) f = (loc, f')"
  shows "loc = change_location E (store_of D f) (SaveScript n content)
    \<and> refines cfg D f' (change_store (SaveScript n content) (store_of D f))"
  using assms(1)
proof (cases rule: named [where n = n])
  case (bad msg)
  with assms(2) show ?thesis by (auto simp: save_script_def run_ensure_scripts_dir)
next
  case (good g)
  show ?thesis
  proof (cases "is_script (store_of D f) n \<and> length content \<le> max_script_size")
    case False
    with good assms(2) refines_open [OF good(3)] show ?thesis
      by (auto simp: save_script_def run_ensure_scripts_dir split: if_splits)
  next
    case True
    then have old: "\<exists>c x. fs_nodes g (D @ [n]) = Some (File c x)"
      using good(4) is_script_store [of D g n] by simp
    obtain h h' where w: "run_state (write_to (scripts_dir cfg @ [n]) content) g = (True, h)"
      "run_state (set_executable (scripts_dir cfg @ [n])) h = (True, h')"
      and h: "plain_change g (D @ [n]) (Some (File content True)) h'"
      by (rule script_written [OF good(6)])
        (use good old store_free [of D g n] in \<open>auto simp: scripts_open_def\<close>)
    with good True assms(2) refines_put [OF good(3) h] show ?thesis
      by (auto simp: save_script_def run_ensure_scripts_dir)
  qed
qed

lemma run_unlink_script:
  assumes "scripts_open cfg D g" and "is_script (store_of D g) n"
  obtains h where "run_state (unlink (scripts_dir cfg @ [n])) g = (True, h)" and "plain_change g (D @ [n]) None h"
proof -
  have "entry_of g (scripts_dir cfg @ [n]) = Some (D @ [n])"
    using assms(1) by (simp add: scripts_open_def entry_of_def parent_def scripts_dir_def)
  then show ?thesis
    using that assms by (fastforce simp: unlink_def is_script_store scripts_open_def plain_change_def)
qed

lemma delete_refines:
  assumes "scripts_open cfg D f" and "run_state (delete_script cfg E n) f = (loc, f')"
  shows "loc = change_location E (store_of D f) (DeleteScript n)
    \<and> refines cfg D f' (change_store (DeleteScript n) (store_of D f))"
  using assms(1)
proof (cases rule: named [where n = n])
  case (bad msg)
  with assms(2) show ?thesis by (auto simp: delete_script_def run_ensure_scripts_dir)
next
  case (good g)
  show ?thesis
  proof (cases "is_script (store_of D f) n")
    case False
    with good assms(2) refines_open [OF good(3)] show ?thesis
      by (auto simp: delete_script_def run_ensure_scripts_dir)
  next
    case True
    then have there: "is_script (store_of D g) n" using good(4) by simp
    obtain h where "run_state (unlink (scripts_dir cfg @ [n])) g = (True, h)" and h: "plain_change g (D @ [n]) None h"
      by (rule run_unlink_script [OF good(3) there])
    with good True assms(2) refines_removed [OF good(3) h there] show ?thesis
      by (auto simp: delete_script_def run_ensure_scripts_dir)
  qed
qed

section \<open>Reading\<close>

lemma edit_refines:
  assumes "scripts_open cfg D f" and "run_state (edit_script cfg E n) f = (p, f')"
  shows "(case p of Inl e \<Rightarrow> Failure e | Inr q \<Rightarrow> EditorPage q) = editor_answer E (store_of D f) n
    \<and> refines cfg D f' (store_of D f)"
  using assms(1)
proof (cases rule: named [where n = n])
  case (bad msg)
  with assms(2) show ?thesis
    by (auto simp: edit_script_def run_ensure_scripts_dir editor_answer_def)
next
  case (good g)
  have keep: "refines cfg D (g\<lparr>fs_ops := k\<rparr>) (store_of D f)" for k
    using refines_same [OF same_files_ops refines_open [OF good(3)]] good(4) by simp
  show ?thesis
  proof (cases "is_script (store_of D f) n")
    case False
    with good assms(2) refines_open [OF good(3)] show ?thesis
      by (auto simp: edit_script_def run_ensure_scripts_dir editor_answer_def is_script_def
          split: option.split stored.splits)
  next
    case True
    then obtain c x where node: "fs_nodes g (D @ [n]) = Some (File c x)"
      using good(4) is_script_store [of D g n] by auto
    then have "store_of D g n = Some (Script c)" by (simp add: store_of_def)
    then have c: "store_of D f n = Some (Script c)" using good(4) by simp
    with node good True assms(2) c keep show ?thesis
      by (auto simp: edit_script_def run_ensure_scripts_dir editor_answer_def from_utf8_def scripts_open_def)
  qed
qed


lemma read_entries_lists:
  assumes "\<And>k. \<not> fs_fault f k" and "\<And>n t. fs_nodes f (D @ [n]) \<noteq> Some (Link t)"
  shows "\<exists>es' f'. run_state (read_entries L D ns es) f = (Inr (es @ es'), f') \<and> same_files f f'
    \<and> map (\<lambda>e. (sn_name e, sn_size e)) es'
      = map (\<lambda>n. (ll_lossy L n, format_size (stored_size (store_of D f n)))) (filter (is_script (store_of D f)) ns)"
  using assms
proof (induction ns arbitrary: es f)
  case Nil
  then show ?case by (simp add: same_files_def)
next
  case (Cons n ns)
  define g where "g = f\<lparr>fs_ops := Suc (Suc (fs_ops f))\<rparr>"
  have g: "same_files f g" "store_of D g = store_of D f" "\<And>k. \<not> fs_fault g k"
      "\<And>n t. fs_nodes g (D @ [n]) \<noteq> Some (Link t)"
    using Cons.prems by (simp_all add: g_def same_files_def store_of_def fun_eq_iff)
  note IH = Cons.IH [OF g(3,4)]
  show ?case
  proof (cases "is_script (store_of D f) n")
    case True
    then obtain c x where node: "fs_nodes f (D @ [n]) = Some (File c x)" by (auto simp: is_script_store)
    define e where "e = \<lparr>sn_name = ll_lossy L n, sn_size = format_size (length c),
        sn_modified = (case ll_modified L g (D @ [n]) of Some t \<Rightarrow> format_modified L t | None \<Rightarrow> [])\<rparr>"
    obtain es' f' where r: "run_state (read_entries L D ns (es @ [e])) g = (Inr ((es @ [e]) @ es'), f')" "same_files g f'"
      "map (\<lambda>e. (sn_name e, sn_size e)) es' = map (\<lambda>n. (ll_lossy L n, format_size (stored_size (store_of D f n))))
         (filter (is_script (store_of D f)) ns)"
      using IH [of "es @ [e]"] g(2) by auto
    have "run_state (read_entries L D (n # ns) es) f = (Inr (es @ e # es'), f')"
      using r(1) node Cons.prems by (simp add: g_def e_def node_size_def)
    moreover have "stored_size (store_of D f n) = length c" using node by (simp add: store_of_def stored_size_def)
    ultimately show ?thesis
      using r(3) True same_files_trans [OF g(1) r(2)]
      by (intro exI [of _ "e # es'"] exI [of _ f']) (simp add: e_def del: read_entries.simps)
  next
    case False
    then have "fs_nodes f (D @ [n]) = None \<or> fs_nodes f (D @ [n]) = Some Directory"
      using Cons.prems(2) by (cases "fs_nodes f (D @ [n])") (auto simp: is_script_store split: node.split, metis node.exhaust)
    then have "run_state (read_entries L D (n # ns) es) f = run_state (read_entries L D ns es) g"
      using Cons.prems by (auto simp: g_def)
    with IH [of es] g(2) False same_files_trans [OF g(1)] show ?thesis by auto
  qed
qed

lemma map_insort_key: "map h (insort_key (\<lambda>x. f (h x)) x xs) = insort_key f (h x) (map h xs)"
  by (induction xs) auto

lemma map_sort_key: "map h (sort_key (\<lambda>x. f (h x)) xs) = sort_key f (map h xs)"
  by (induction xs) (simp_all add: map_insort_key)

lemma list_refines:
  assumes "scripts_open cfg D f" and "lists_names L" and "run_state (list_scripts cfg E L) f = (p, f')"
  shows "(\<exists>page. p = Inr page \<and> lists_store E L (store_of D f) page) \<and> refines cfg D f' (store_of D f)"
proof -
  define g where "g = (prepared cfg f)\<lparr>fs_ops := Suc (fs_ops (prepared cfg f))\<rparr>"
  let ?s = "store_of D f"
  have same: "same_files f g"
    using prepared_there [OF assms(1)] unfolding g_def by (rule same_files_trans [OF _ same_files_ops])
  note open_g = same_files_open [OF same assms(1)]
  have o: "locate g (scripts_dir cfg) = Some D" "is_dir (fs_nodes g) D" "\<And>n t. fs_nodes g (D @ [n]) \<noteq> Some (Link t)"
      "\<And>k. \<not> fs_fault g k" "finite {n. fs_nodes g (D @ [n]) \<noteq> None}"
    using open_g by (auto simp: scripts_open_def)
  have s: "store_of D g = ?s" using same by (simp add: same_files_store)
  obtain es h where r: "run_state (read_entries L D (ll_names L g D) []) g = (Inr es, h)" "same_files g h"
    and es: "map (\<lambda>e. (sn_name e, sn_size e)) es
      = map (\<lambda>n. (ll_lossy L n, format_size (stored_size (?s n)))) (filter (is_script ?s) (ll_names L g D))"
    using read_entries_lists [OF o(4,3), where L = L and es = "[]" and ns = "ll_names L g D"] s by auto
  let ?row = "\<lambda>e. script_row_new E (sn_name e) (sn_size e) (sn_modified e)"
  have p: "p = Inr \<lparr>sp_rows = map ?row (sort_key sn_name es)\<rparr>" and f': "f' = h"
    using assms(1,3) r(1) o
    by (auto simp: prepared_fault list_scripts_def run_ensure_scripts_dir g_def [symmetric] scripts_open_def)
  have names: "distinct (ll_names L g D)" "set (ll_names L g D) = {n. fs_nodes g (D @ [n]) \<noteq> None}"
    using assms(2) o(5) by (auto simp: lists_names_def)
  define ns where "ns = sort_key (ll_lossy L) (filter (is_script ?s) (ll_names L g D))"
  have "map (\<lambda>e. (sn_name e, sn_size e)) (sort_key sn_name es)
      = map (\<lambda>n. (ll_lossy L n, format_size (stored_size (?s n)))) ns"
    using map_sort_key [of "\<lambda>e. (sn_name e, sn_size e)" fst es] es
      map_sort_key [of "\<lambda>n. (ll_lossy L n, format_size (stored_size (?s n)))" fst "filter (is_script ?s) (ll_names L g D)"]
    by (simp add: ns_def)
  then have "map (\<lambda>(n, b). (n, ''/scripts/'' @ E n, b)) (map (\<lambda>e. (sn_name e, sn_size e)) (sort_key sn_name es))
      = map (\<lambda>(n, b). (n, ''/scripts/'' @ E n, b)) (map (\<lambda>n. (ll_lossy L n, format_size (stored_size (?s n)))) ns)"
    by simp
  then have "map (\<lambda>r. (sr_name r, sr_href r, sr_size r)) (map ?row (sort_key sn_name es))
      = map (\<lambda>n. (ll_lossy L n, ''/scripts/'' @ E (ll_lossy L n), format_size (stored_size (?s n)))) ns"
    by (simp add: script_row_new_def comp_def)
  moreover have "distinct ns" using names(1) by (simp add: ns_def)
  moreover have "set ns = Collect (is_script ?s)"
    using names(2) by (auto simp: ns_def is_script_store simp flip: s)
  moreover have "sorted (map sr_name (map ?row (sort_key sn_name es)))"
    by (simp add: script_row_new_def comp_def)
  ultimately show ?thesis
    unfolding p f' lists_store_def
    using refines_same [OF same_files_trans [OF same r(2)] refines_open [OF assms(1)]] by auto
qed


section \<open>The script manager\<close>

lemma call_refines:
  assumes "scripts_open cfg D f" and "lists_names L" and "run_state (handle_call cfg E L c) f = (a, f')"
  shows "answers E L (store_of D f) c a \<and> refines cfg D f' (store_after c (store_of D f))"
proof (cases c)
  case ShowList
  obtain p g where "run_state (list_scripts cfg E L) f = (p, g)" by (metis prod.collapse)
  with list_refines [OF assms(1,2) this] assms(3) ShowList show ?thesis by auto
next
  case ShowNew
  with assms(3) refines_open [OF assms(1)] show ?thesis by auto
next
  case (ShowEditor n)
  obtain p g where "run_state (edit_script cfg E n) f = (p, g)" by (metis prod.collapse)
  with edit_refines [OF assms(1) this] assms(3) ShowEditor show ?thesis by auto
next
  case (Change r)
  obtain loc g where g: "run_state (handle_script cfg E r) f = (loc, g)" by (metis prod.collapse)
  then have "loc = change_location E (store_of D f) r \<and> refines cfg D g (change_store r (store_of D f))"
  proof (cases r)
    case (CreateScript n content)
    with create_refines [OF assms(1)] g show ?thesis by simp
  next
    case (SaveScript n content)
    with save_refines [OF assms(1)] g show ?thesis by simp
  next
    case (DeleteScript n)
    with delete_refines [OF assms(1)] g show ?thesis by simp
  qed
  with g assms(3) Change show ?thesis by auto
qed

text \<open>C15: The script manager is a store of named scripts. While file operations work and nobody puts links
  into the directory, any sequence of requests is answered as the store \<open>store_of D f\<close> says: a
  script is created only under a good, free name, saved and deleted only when it is there, and not
  above one megabyte; the editor shows exactly the content that was written last, unless it is not
  text; the list shows every script of the directory once, by name, with its size. At the end the
  directory holds what the changes have made of the store.\<close>

theorem script_manager_refines:
  assumes "scripts_open cfg D f" and "lists_names L"
    and "run_state (handle_calls cfg E L cs) f = (as, f')"
  shows "served_from E L (store_of D f) cs as (store_of D f')"
  using assms(1,3)
proof (induction cs arbitrary: f as)
  case (Cons c cs)
  obtain a g where a: "run_state (handle_call cfg E L c) f = (a, g)" by (metis prod.collapse)
  obtain rest h where rest: "run_state (handle_calls cfg E L cs) g = (rest, h)" by (metis prod.collapse)
  have "as = a # rest" "f' = h" using Cons.prems(2) a rest by auto
  with call_refines [OF Cons.prems(1) assms(2) a] rest Cons.IH [of g rest] show ?case
    by (auto simp: refines_def)
qed simp


text \<open>The list leads to pages that fail: it shows every file of the directory, also those whose names
  the editor refuses as an internal error.\<close>

theorem listed_but_not_editable:
  assumes "scripts_open cfg D f" and "lists_names L" and "filename_error n = Some msg" and "is_script (store_of D f) n"
  shows "\<exists>page. fst (run_state (handle_call cfg E L ShowList) f) = ListPage page
      \<and> ''/scripts/'' @ E (ll_lossy L n) \<in> set (map sr_href (sp_rows page))"
    and "fst (run_state (handle_call cfg E L (ShowEditor n)) f) = Failure AppInternal"
proof -
  obtain page where page: "fst (run_state (handle_call cfg E L ShowList) f) = ListPage page"
      "lists_store E L (store_of D f) page"
    using call_refines [OF assms(1,2) prod.collapse [symmetric], where c = ShowList and E = E] by auto
  then obtain ns where ns: "set ns = Collect (is_script (store_of D f))"
    "map (\<lambda>r. (sr_name r, sr_href r, sr_size r)) (sp_rows page) = map (\<lambda>n. (ll_lossy L n,
        ''/scripts/'' @ E (ll_lossy L n), format_size (stored_size (store_of D f n)))) ns"
    by (auto simp: lists_store_def)
  have "map sr_href (sp_rows page) = map (\<lambda>n. ''/scripts/'' @ E (ll_lossy L n)) ns"
    using arg_cong [OF ns(2), where f = "map (\<lambda>(a, b, c). b)"] by (simp add: comp_def)
  then have "''/scripts/'' @ E (ll_lossy L n) \<in> set (map sr_href (sp_rows page))"
    using ns(1) assms(4) by auto
  with page(1) show "\<exists>page. fst (run_state (handle_call cfg E L ShowList) f) = ListPage page
      \<and> ''/scripts/'' @ E (ll_lossy L n) \<in> set (map sr_href (sp_rows page))" by blast
  show "fst (run_state (handle_call cfg E L (ShowEditor n)) f) = Failure AppInternal"
    using call_refines [OF assms(1,2) prod.collapse [symmetric], where c = "ShowEditor n" and E = E] assms(3)
    by (simp add: editor_answer_def)
qed

section \<open>Witnesses\<close>

definition two_scripts :: "path \<Rightarrow> node option" where
  "two_scripts q =
     (if q \<in> {[''srv''], [''srv'', ''data''], [''srv'', ''data'', ''scripts'']} then Some Directory
      else if q = [''srv'', ''data'', ''scripts'', ''deploy.sh''] then Some (File ''make deploy'' True)
      else if q = [''srv'', ''data'', ''scripts'', ''.env''] then Some (File ''TOKEN=1'' False) else None)"

definition plain_fs :: fs where
  "plain_fs = \<lparr>fs_nodes = two_scripts, fs_cwd = [''srv''], fs_fault = (\<lambda>_. False), fs_ops = 0\<rparr>"

definition plain_listing :: listing_lib where
  "plain_listing = \<lparr>ll_names = (\<lambda>f d. sorted_list_of_set {n. fs_nodes f (d @ [n]) \<noteq> None}),
     ll_modified = (\<lambda>f q. None), ll_link_size = (\<lambda>f q. 0), ll_lossy = (\<lambda>s. s), ll_format = (\<lambda>t. [])\<rparr>"

lemma plain_lists_names: "lists_names plain_listing"
  by (simp add: lists_names_def plain_listing_def)

lemma plain_open: "scripts_open default_app_config [''srv'', ''data'', ''scripts''] plain_fs"
proof -
  have "{n. fs_nodes plain_fs ([''srv'', ''data'', ''scripts''] @ [n]) \<noteq> None} \<subseteq> {''deploy.sh'', ''.env''}"
    by (auto simp: plain_fs_def two_scripts_def split: if_splits)
  then have "finite {n. fs_nodes plain_fs ([''srv'', ''data'', ''scripts''] @ [n]) \<noteq> None}"
    by (rule finite_subset) simp
  then show ?thesis
    unfolding scripts_open_def sample_scripts_dir
    by (simp add: plain_fs_def two_scripts_def locate_def open_at.simps(2) is_dir_def root_dir_def
        default_app_config_def default_scripts_config_def)
qed

theorem script_manager_refines_witness:
  "fst (run_state (handle_calls default_app_config id plain_listing
       [Change (CreateScript ''new.sh'' ''exit 1''), Change (SaveScript ''new.sh'' ''exit 2''), ShowEditor ''new.sh'',
        Change (DeleteScript ''deploy.sh''), ShowEditor ''deploy.sh'', ShowEditor ''.env'']) plain_fs)
     = [Redirected ''/scripts/new.sh?success=Script+created'', Redirected ''/scripts/new.sh?success=Script+saved'',
        EditorPage (edit_script_page id ''new.sh'' ''exit 2''),
        Redirected ''/scripts?success=Script+deleted'', Failure (AppNotFound ''script''), Failure AppInternal]"
proof -
  have names: "filename_error ''new.sh'' = None" "filename_error ''deploy.sh'' = None"
      "filename_error ''.env'' = Some ''Filename cannot start with a dot''"
    by (simp_all add: filename_error_def script_char_def starts_with_def)
  have store: "store_of [''srv'', ''data'', ''scripts''] plain_fs n =
      (if n = ''deploy.sh'' then Some (Script ''make deploy'') else if n = ''.env'' then Some (Script ''TOKEN=1'') else None)" for n
    by (simp add: store_of_def plain_fs_def two_scripts_def)
  have utf: "utf8_ok ''exit 2''" by code_simp
  have short: "length ''exit 1'' \<le> max_script_size" "length ''exit 2'' \<le> max_script_size"
    by (simp_all add: max_script_size_def)
  let ?cs = "[Change (CreateScript ''new.sh'' ''exit 1''), Change (SaveScript ''new.sh'' ''exit 2''),
      ShowEditor ''new.sh'', Change (DeleteScript ''deploy.sh''), ShowEditor ''deploy.sh'', ShowEditor ''.env'']"
  obtain as g where r: "run_state (handle_calls default_app_config id plain_listing ?cs) plain_fs = (as, g)"
    by (metis prod.collapse)
  define s where "s = store_of [''srv'', ''data'', ''scripts''] plain_fs"
  have s: "s n = (if n = ''deploy.sh'' then Some (Script ''make deploy'')
      else if n = ''.env'' then Some (Script ''TOKEN=1'') else None)" for n
    using store by (simp add: s_def)
  from script_manager_refines [OF plain_open plain_lists_names r, folded s_def]
  have "as = [Redirected ''/scripts/new.sh?success=Script+created'', Redirected ''/scripts/new.sh?success=Script+saved'',
      EditorPage (edit_script_page id ''new.sh'' ''exit 2''),
      Redirected ''/scripts?success=Script+deleted'', Failure (AppNotFound ''script''), Failure AppInternal]"
    using names utf short by (auto simp: s is_script_def editor_answer_def simp del: list.size)
  then show ?thesis unfolding r by (simp only: fst_conv)
qed

end
