(* ===== verification/Config_Writer.thy ===== *)
theory Config_Writer
  imports Executor Masking
begin

text \<open>
  Loading the configuration (\<open>AppConfig::load_from\<close> of \<open>src/config.rs\<close>) and writing hooks back to
  \<open>sendword.toml\<close> (\<open>src/config_writer.rs\<close>).

  A TOML document is the tree of values that \<open>toml_edit\<close> works on; a table is the list of its keys
  and items in the order of the file. Comments and spacing, which \<open>toml_edit\<close> keeps, are not
  represented. Reading and printing the text of a document, and figment's merge of the file, the
  JSON override and the environment into an \<open>AppConfig\<close>, are the fields of \<open>config_lib\<close>.
\<close>

section \<open>Documents\<close>

datatype toml =
    TString string
  | TInteger int
  | TBoolean bool
  | TArray "toml list"
  | TInline "(string \<times> toml) list"
  | TTable "(string \<times> toml) list"
  | TTables "(string \<times> toml) list list"

type_synonym toml_table = "(string \<times> toml) list"

text \<open>\<open>Table::insert\<close> replaces the item of a key it has and appends otherwise.\<close>

fun tbl_insert :: "string \<Rightarrow> toml \<Rightarrow> toml_table \<Rightarrow> toml_table" where
  "tbl_insert k v [] = [(k, v)]"
| "tbl_insert k v ((k', v') # t) = (if k' = k then (k, v) # t else (k', v') # tbl_insert k v t)"

definition tbl_remove :: "string \<Rightarrow> toml_table \<Rightarrow> toml_table" where
  "tbl_remove k t = filter (\<lambda>(k', _). k' \<noteq> k) t"

text \<open>Set a key when there is a value for it, and remove it otherwise.\<close>

definition set_or_remove :: "string \<Rightarrow> toml option \<Rightarrow> toml_table \<Rightarrow> toml_table" where
  "set_or_remove k v t = (case v of Some i \<Rightarrow> tbl_insert k i t | None \<Rightarrow> tbl_remove k t)"

fun as_tables :: "toml \<Rightarrow> toml_table list option" where
  "as_tables (TTables ts) = Some ts"
| "as_tables _ = None"

fun as_str :: "toml \<Rightarrow> string option" where
  "as_str (TString s) = Some s"
| "as_str _ = None"

definition tbl_slug :: "toml_table \<Rightarrow> string option" where
  "tbl_slug t = Option.bind (map_of t ''slug'') as_str"

section \<open>Loading\<close>

datatype config_error = Figment string | Validation string

record config_lib =
  cl_parse :: "string \<Rightarrow> string + toml_table"
  cl_print :: "toml_table \<Rightarrow> string"
  cl_extract :: "string option \<Rightarrow> string option \<Rightarrow> string + app_config"
  cl_pid :: nat
  cl_url_encode :: "string \<Rightarrow> string"

definition load_from :: "external \<Rightarrow> config_lib \<Rightarrow> string option \<Rightarrow> string option
    \<Rightarrow> config_error + app_config" where
  "load_from X L toml_text json_text =
     (case cl_extract L toml_text json_text of
        Inl e \<Rightarrow> Inl (Figment e)
      | Inr config \<Rightarrow>
          (case compile X (cf_masking config) of
             Inl errors \<Rightarrow> Inl (Validation (join [CHR 0x0A] errors))
           | Inr masking \<Rightarrow>
               (let config = config\<lparr>cf_masking := masking\<rparr>
                in case validate_config X config of
                     Inl e \<Rightarrow> Inl (Validation e)
                   | Inr _ \<Rightarrow> Inr config)))"

lemma compile_loop_errors:
  "\<exists>more. snd (compile_loop X i ps compiled errors) = errors @ more
     \<and> (more = [] \<longleftrightarrow> list_all (regex_ok X) ps)
     \<and> (list_all (regex_ok X) ps \<longrightarrow> fst (compile_loop X i ps compiled errors) = compiled @ ps)"
proof (induction ps arbitrary: i compiled errors)
  case (Cons p ps)
  show ?case
    using Cons.IH [of "Suc i" "compiled @ [p]" errors]
      Cons.IH [of "Suc i" compiled "errors @ [''masking.patterns['' @ show_nat i @ ''] '' @ quoted p
                       @ '': '' @ regex_error_text X p]"]
    by auto
qed simp

lemma compile_Inr_iff:
  "compile X m = Inr m' \<longleftrightarrow>
     list_all (regex_ok X) (mk_patterns m) \<and> m' = m\<lparr>mk_compiled_patterns := mk_patterns m\<rparr>"
  using compile_loop_errors [of X 0 "mk_patterns m" "[]" "[]"]
  by (auto simp: compile_def split: prod.splits)

lemma load_from_Inr:
  "load_from X L t j = Inr c \<Longrightarrow> validate_config X c = Inr ()
     \<and> list_all (regex_ok X) (mk_patterns (cf_masking c))
     \<and> mk_compiled_patterns (cf_masking c) = mk_patterns (cf_masking c)"
  by (auto simp: load_from_def Let_def compile_Inr_iff split: sum.splits)

text \<open>C10: A configuration that was loaded is well formed. Whatever the file and the override contain,
  when \<open>load_from\<close> returns a configuration, its global settings are in range, its slugs are
  distinct, every hook is well formed, and every masking pattern is a valid regular expression and
  has been compiled.\<close>

theorem load_from_well_formed:
  assumes "load_from X L toml_text json_text = Inr c"
  shows "globals_ok X c \<and> distinct (map hk_slug (cf_hooks c)) \<and> list_all (hook_ok X) (cf_hooks c)
         \<and> list_all (regex_ok X) (mk_patterns (cf_masking c))
         \<and> mk_compiled_patterns (cf_masking c) = mk_patterns (cf_masking c)"
  using load_from_Inr [OF assms] by (simp add: validate_config_wf list_all_iff)

section \<open>The data of a form\<close>

record retry_form_data =
  rf_count :: nat
  rf_backoff :: backoff_strategy
  rf_initial_delay :: duration
  rf_max_delay :: duration

record hook_form_data =
  hd_name :: string
  hd_slug :: string
  hd_description :: string
  hd_enabled :: bool
  hd_executor :: executor_config
  hd_cwd :: "string option"
  hd_env :: string_map
  hd_timeout :: "duration option"
  hd_retries :: "retry_form_data option"
  hd_auth :: "hook_auth_config option"
  hd_payload :: "payload_schema option"
  hd_trigger_rules :: "trigger_rules option"

section \<open>Words for values\<close>

fun field_type_str :: "field_type \<Rightarrow> string" where
  "field_type_str FtString = ''string''"
| "field_type_str FtNumber = ''number''"
| "field_type_str FtBoolean = ''boolean''"
| "field_type_str FtObject = ''object''"
| "field_type_str FtArray = ''array''"

fun filter_operator_str :: "filter_operator \<Rightarrow> string" where
  "filter_operator_str OpEquals = ''equals''"
| "filter_operator_str OpNotEquals = ''not_equals''"
| "filter_operator_str OpContains = ''contains''"
| "filter_operator_str OpRegex = ''regex''"
| "filter_operator_str OpExists = ''exists''"
| "filter_operator_str OpGt = ''gt''"
| "filter_operator_str OpLt = ''lt''"
| "filter_operator_str OpGte = ''gte''"
| "filter_operator_str OpLte = ''lte''"

fun backoff_str :: "backoff_strategy \<Rightarrow> string" where
  "backoff_str BackoffNone = ''none''"
| "backoff_str BackoffLinear = ''linear''"
| "backoff_str BackoffExponential = ''exponential''"

fun method_str :: "http_method \<Rightarrow> string" where
  "method_str Get = ''GET''"
| "method_str Post = ''POST''"
| "method_str Put = ''PUT''"
| "method_str Patch = ''PATCH''"
| "method_str Delete = ''DELETE''"

definition format_duration :: "duration \<Rightarrow> string" where
  "format_duration d =
     (let secs = as_secs d; millis = subsec_millis d
      in if secs = 0 \<and> millis > 0 then show_nat millis @ ''ms''
         else if secs < 60 then show_nat secs @ ''s''
         else if secs < 3600 \<and> secs mod 60 = 0 then show_nat (secs div 60) @ ''m''
         else if secs mod 3600 = 0 then show_nat (secs div 3600) @ ''h''
         else show_nat secs @ ''s'')"

section \<open>The table of a hook\<close>

definition string_map_table :: "string_map \<Rightarrow> toml_table" where
  "string_map_table values =
     (let keys = sort (map fst values)
      in foldl (\<lambda>t key. tbl_insert key (TString (the (map_of values key))) t) [] keys)"

definition executor_table :: "executor_config \<Rightarrow> toml_table" where
  "executor_table executor =
     (case executor of
        Shell command \<Rightarrow> [(''type'', TString ''shell''), (''command'', TString command)]
      | Script path \<Rightarrow> [(''type'', TString ''script''), (''path'', TString path)]
      | JavaScript path \<Rightarrow> [(''type'', TString ''javascript''), (''path'', TString path)]
      | Python path \<Rightarrow> [(''type'', TString ''python''), (''path'', TString path)]
      | Http method url hdrs body follow_redirects \<Rightarrow>
          [(''type'', TString ''http''), (''method'', TString (method_str method)), (''url'', TString url)]
          @ (if hdrs \<noteq> [] then [(''headers'', TTable (string_map_table hdrs))] else [])
          @ (case body of Some b \<Rightarrow> [(''body'', TString b)] | None \<Rightarrow> [])
          @ [(''follow_redirects'', TBoolean follow_redirects)])"

definition retries_item :: "retry_form_data option \<Rightarrow> toml option" where
  "retries_item retries =
     (case retries of
        Some r \<Rightarrow>
          (if rf_count r > 0
           then Some (TTable [(''count'', TInteger (int (rf_count r))),
                  (''backoff'', TString (backoff_str (rf_backoff r))),
                  (''initial_delay'', TString (format_duration (rf_initial_delay r))),
                  (''max_delay'', TString (format_duration (rf_max_delay r)))])
           else None)
      | None \<Rightarrow> None)"

definition auth_item :: "hook_auth_config option \<Rightarrow> toml option" where
  "auth_item auth =
     (case auth of
        Some (Bearer token) \<Rightarrow> Some (TTable [(''mode'', TString ''bearer''), (''token'', TString token)])
      | Some (Hmac header algorithm secret) \<Rightarrow>
          Some (TTable [(''mode'', TString ''hmac''), (''header'', TString header),
            (''algorithm'', TString (case algorithm of Sha256 \<Rightarrow> ''sha256'')), (''secret'', TString secret)])
      | _ \<Rightarrow> None)"

definition payload_item :: "payload_schema option \<Rightarrow> toml option" where
  "payload_item payload =
     (case payload of
        Some schema \<Rightarrow>
          (if ps_fields schema \<noteq> []
           then Some (TTable [(''fields'', TArray (map (\<lambda>f. TInline
                  [(''name'', TString (pf_name f)), (''type'', TString (field_type_str (pf_field_type f))),
                   (''required'', TBoolean (pf_required f))]) (ps_fields schema)))])
           else None)
      | None \<Rightarrow> None)"

definition has_some :: "'a list option \<Rightarrow> bool" where
  "has_some xs = (case xs of Some ys \<Rightarrow> ys \<noteq> [] | None \<Rightarrow> False)"

definition has_trigger_rules :: "trigger_rules option \<Rightarrow> bool" where
  "has_trigger_rules rules =
     (case rules of
        Some r \<Rightarrow> has_some (ru_payload_filters r) \<or> has_some (ru_time_windows r)
                  \<or> ru_cooldown r \<noteq> None \<or> ru_rate_limit r \<noteq> None
      | None \<Rightarrow> False)"

definition filter_item :: "payload_filter \<Rightarrow> toml" where
  "filter_item f = TInline ([(''field'', TString (fl_field f)),
      (''operator'', TString (filter_operator_str (fl_operator f)))]
      @ (case fl_value f of Some v \<Rightarrow> [(''value'', TString v)] | None \<Rightarrow> []))"

definition window_item :: "time_window \<Rightarrow> toml" where
  "window_item w = TInline [(''days'', TArray (map TString (tw_days w))),
      (''start_time'', TString (tw_start_time w)), (''end_time'', TString (tw_end_time w))]"

definition rules_table :: "trigger_rules \<Rightarrow> toml_table" where
  "rules_table rules =
     (case ru_payload_filters rules of
        Some filters \<Rightarrow>
          (if filters \<noteq> [] then [(''payload_filters'', TArray (map filter_item filters))] else [])
      | None \<Rightarrow> [])
   @ (case ru_time_windows rules of
        Some windows \<Rightarrow>
          (if windows \<noteq> [] then [(''time_windows'', TArray (map window_item windows))] else [])
      | None \<Rightarrow> [])
   @ (case ru_cooldown rules of
        Some cooldown \<Rightarrow> [(''cooldown'', TString (format_duration cooldown))] | None \<Rightarrow> [])
   @ (case ru_rate_limit rules of
        Some rl \<Rightarrow> [(''rate_limit'', TTable [(''max_requests'', TInteger (int (min (tr_max_requests rl) i64_max))),
                     (''window'', TString (format_duration (tr_window rl)))])]
      | None \<Rightarrow> [])"

definition apply_hook_fields :: "hook_form_data \<Rightarrow> toml_table \<Rightarrow> toml_table" where
  "apply_hook_fields data table =
     (let table = tbl_insert ''name'' (TString (hd_name data)) table;
          table = tbl_insert ''description'' (TString (hd_description data)) table;
          table = tbl_insert ''enabled'' (TBoolean (hd_enabled data)) table;
          table = tbl_insert ''executor'' (TTable (executor_table (hd_executor data))) table;
          table = set_or_remove ''cwd'' (case hd_cwd data of
                    Some cwd \<Rightarrow> (if cwd \<noteq> [] then Some (TString cwd) else None) | None \<Rightarrow> None) table;
          table = set_or_remove ''env'' (if hd_env data = [] then None
                    else Some (TTable (string_map_table (hd_env data)))) table;
          table = set_or_remove ''timeout'' (map_option (TString \<circ> format_duration) (hd_timeout data)) table;
          table = set_or_remove ''retries'' (retries_item (hd_retries data)) table;
          table = set_or_remove ''auth'' (auth_item (hd_auth data)) table;
          table = set_or_remove ''payload'' (payload_item (hd_payload data)) table
      in set_or_remove ''trigger_rules'' (if has_trigger_rules (hd_trigger_rules data)
           then map_option (TTable \<circ> rules_table) (hd_trigger_rules data) else None) table)"

definition build_hook_table :: "hook_form_data \<Rightarrow> toml_table" where
  "build_hook_table data =
     (let table = apply_hook_fields data []
      in tbl_insert ''slug'' (TString (hd_slug data)) table)"

section \<open>Writing the file\<close>

datatype write_error =
    WriteIo | WriteParse string | HookNotFound string | SlugConflict string
  | WriteValidation config_error

text \<open>The directory of a path, \<open>.\<close> when it has none; paths here have no trailing or doubled slashes.\<close>

definition parent_dir :: "string \<Rightarrow> string" where
  "parent_dir p =
     (if p = [] \<or> p = ''/'' then ''.''
      else let d = rev (drop 1 (dropWhile (\<lambda>c. c \<noteq> CHR ''/'') (rev p)))
           in if d = [] \<and> starts_with ''/'' p then ''/'' else d)"

definition tmp_path :: "config_lib \<Rightarrow> string \<Rightarrow> string" where
  "tmp_path L dir = path_join dir (''.sendword-'' @ show_nat (cl_pid L) @ ''.tmp'')"

definition tempfile_in :: "config_lib \<Rightarrow> string \<Rightarrow> string \<Rightarrow> string option io" where
  "tempfile_in L dir content =
     (let tmp = tmp_path L dir
      in if_ok (write_file tmp [])
           (if_ok (write_file tmp content)
             (if_ok (return ()) (return (Some tmp)))))"

definition remove_file :: "string \<Rightarrow> bool io" where
  "remove_file path = do {
     ok \<leftarrow> io_step;
     _ \<leftarrow> (if ok then modify (\<lambda>w. w\<lparr>w_files := (w_files w)(path := None)\<rparr>) else return ());
     return ok }"

definition rename_file :: "string \<Rightarrow> string \<Rightarrow> bool io" where
  "rename_file src dst = do {
     ok \<leftarrow> io_step;
     _ \<leftarrow> (if ok then modify (\<lambda>w. w\<lparr>w_files := (w_files w)(src := None, dst := w_files w src)\<rparr>)
           else return ());
     return ok }"

text \<open>A file that cannot be read counts as empty.\<close>

definition read_document :: "config_lib \<Rightarrow> string \<Rightarrow> (write_error + toml_table) io" where
  "read_document L path = do {
     ok \<leftarrow> io_step;
     files \<leftarrow> gets w_files;
     let content = (if ok then case files path of Some c \<Rightarrow> c | None \<Rightarrow> [] else []);
     return (case cl_parse L content of Inl e \<Rightarrow> Inl (WriteParse e) | Inr doc \<Rightarrow> Inr doc) }"

definition find_hook_index :: "toml_table \<Rightarrow> string \<Rightarrow> write_error + nat" where
  "find_hook_index doc slug =
     (case Option.bind (map_of doc ''hooks'') as_tables of
        None \<Rightarrow> Inl (HookNotFound slug)
      | Some hooks \<Rightarrow>
          (case position (\<lambda>t. tbl_slug t = Some slug) hooks of
             None \<Rightarrow> Inl (HookNotFound slug) | Some idx \<Rightarrow> Inr idx))"

definition validate_and_write :: "external \<Rightarrow> config_lib \<Rightarrow> string \<Rightarrow> toml_table
    \<Rightarrow> (write_error + unit) io" where
  "validate_and_write X L path doc = do {
     let serialized = cl_print L doc;
     made \<leftarrow> tempfile_in L (parent_dir path) serialized;
     case made of
       None \<Rightarrow> return (Inl WriteIo)
     | Some tmp \<Rightarrow> do {
         files \<leftarrow> gets w_files;
         case load_from X L (files tmp) (files ''nonexistent.json'') of
           Inl e \<Rightarrow> do { _ \<leftarrow> remove_file tmp; return (Inl (WriteValidation e)) }
         | Inr _ \<Rightarrow> do {
             ok \<leftarrow> rename_file tmp path;
             return (if ok then Inr () else Inl WriteIo) } } }"

text \<open>The three changes as changes of the document.\<close>

definition add_hook_doc :: "hook_form_data \<Rightarrow> toml_table \<Rightarrow> write_error + toml_table" where
  "add_hook_doc data doc =
     (if (case Option.bind (map_of doc ''hooks'') as_tables of
            Some hooks \<Rightarrow> \<exists>t \<in> set hooks. tbl_slug t = Some (hd_slug data) | None \<Rightarrow> False)
      then Inl (SlugConflict (hd_slug data))
      else let hook_table = build_hook_table data;
               hooks = (case map_of doc ''hooks'' of Some i \<Rightarrow> i | None \<Rightarrow> TTables [])
           in Inr (tbl_insert ''hooks'' (case as_tables hooks of
                     Some arr \<Rightarrow> TTables (arr @ [hook_table]) | None \<Rightarrow> hooks) doc))"

definition update_hook_doc :: "string \<Rightarrow> hook_form_data \<Rightarrow> toml_table \<Rightarrow> write_error + toml_table" where
  "update_hook_doc slug data doc =
     (case find_hook_index doc slug of
        Inl e \<Rightarrow> Inl e
      | Inr idx \<Rightarrow>
          (let hooks = the (Option.bind (map_of doc ''hooks'') as_tables)
           in Inr (tbl_insert ''hooks'' (TTables (hooks[idx := apply_hook_fields data (hooks ! idx)])) doc)))"

definition remove_hook_doc :: "string \<Rightarrow> toml_table \<Rightarrow> write_error + toml_table" where
  "remove_hook_doc slug doc =
     (case find_hook_index doc slug of
        Inl e \<Rightarrow> Inl e
      | Inr idx \<Rightarrow>
          (let hooks = the (Option.bind (map_of doc ''hooks'') as_tables);
               hooks = take idx hooks @ drop (Suc idx) hooks
           in Inr (if hooks = [] then tbl_remove ''hooks'' doc
                   else tbl_insert ''hooks'' (TTables hooks) doc)))"

definition change_config :: "external \<Rightarrow> config_lib \<Rightarrow> string
    \<Rightarrow> (toml_table \<Rightarrow> write_error + toml_table) \<Rightarrow> (write_error + unit) io" where
  "change_config X L path change =
     and_then (read_document L path) (\<lambda>doc.
       and_then (return (change doc)) (validate_and_write X L path))"

definition config_add_hook :: "external \<Rightarrow> config_lib \<Rightarrow> string \<Rightarrow> hook_form_data
    \<Rightarrow> (write_error + unit) io" where
  "config_add_hook X L path data = change_config X L path (add_hook_doc data)"

definition config_update_hook :: "external \<Rightarrow> config_lib \<Rightarrow> string \<Rightarrow> string \<Rightarrow> hook_form_data
    \<Rightarrow> (write_error + unit) io" where
  "config_update_hook X L path slug data = change_config X L path (update_hook_doc slug data)"

definition config_remove_hook :: "external \<Rightarrow> config_lib \<Rightarrow> string \<Rightarrow> string
    \<Rightarrow> (write_error + unit) io" where
  "config_remove_hook X L path slug = change_config X L path (remove_hook_doc slug)"

section \<open>Tables\<close>

lemma map_of_tbl_insert [simp]: "map_of (tbl_insert k v t) = (map_of t)(k \<mapsto> v)"
  by (induction k v t rule: tbl_insert.induct) (auto simp: fun_eq_iff)

lemma tbl_insert_same: "map_of t k = Some v \<Longrightarrow> tbl_insert k v t = t"
  by (induction k v t rule: tbl_insert.induct) (auto split: if_splits)

lemma map_of_tbl_remove [simp]: "map_of (tbl_remove k t) = (map_of t)(k := None)"
  by (induction t) (auto simp: tbl_remove_def fun_eq_iff)

lemma map_of_set_or_remove [simp]: "map_of (set_or_remove k v t) = (map_of t)(k := v)"
  by (simp add: set_or_remove_def split: option.split)

lemma string_map_table_entries:
  "map_of (string_map_table values) key = map_option TString (map_of values key)"
proof -
  have "map_of (foldl (\<lambda>t k. tbl_insert k (TString (the (map_of values k))) t) t0 ks) key
      = (if key \<in> set ks then Some (TString (the (map_of values key))) else map_of t0 key)" for t0 ks
    by (induction ks arbitrary: t0) auto
  moreover have "map_of values key = None" if "key \<notin> fst ` set values"
    using that by (simp add: map_of_eq_None_iff)
  moreover have "map_of values key \<noteq> None" if "key \<in> fst ` set values"
    using that by (simp add: map_of_eq_None_iff)
  ultimately show ?thesis
    by (cases "map_of values key") (auto simp: string_map_table_def Let_def)
qed

section \<open>Atomic changes\<close>

lemma last_path_join [simp]: "b \<noteq> [] \<Longrightarrow> last (path_join a b) = last b"
  by (simp add: path_join_def)

lemma tmp_path_not_json: "tmp_path L d \<noteq> ''nonexistent.json''"
proof
  assume "tmp_path L d = ''nonexistent.json''"
  then have "last (tmp_path L d) = CHR ''n''" by simp
  then show False by (simp add: tmp_path_def)
qed

lemma run_remove_file [simp]:
  "run_state (remove_file p) w = (\<not> w_io_fault w (w_ios w), w\<lparr>w_ios := Suc (w_ios w),
     w_files := if w_io_fault w (w_ios w) then w_files w else (w_files w)(p := None)\<rparr>)"
  by (simp add: remove_file_def)

lemma run_rename_file [simp]:
  "run_state (rename_file p q) w = (\<not> w_io_fault w (w_ios w), w\<lparr>w_ios := Suc (w_ios w),
     w_files := if w_io_fault w (w_ios w) then w_files w
                else (w_files w)(p := None, q := w_files w p)\<rparr>)"
  by (simp add: rename_file_def)

text \<open>What a change leaves behind: an error leaves the file alone, and a success has put a text
  there that the whole loading pipeline accepts.\<close>

definition written :: "external \<Rightarrow> config_lib \<Rightarrow> string \<Rightarrow> world \<Rightarrow> write_error + unit \<Rightarrow> world \<Rightarrow> bool" where
  "written X L path w r w' \<longleftrightarrow>
     (case r of
        Inl _ \<Rightarrow> w_files w' path = w_files w path
      | Inr _ \<Rightarrow> \<exists>text config. w_files w' path = Some text
          \<and> load_from X L (Some text) (w_files w ''nonexistent.json'') = Inr config)
     \<and> (\<forall>p. p \<notin> {path, tmp_path L (parent_dir path)} \<longrightarrow> w_files w' p = w_files w p)"

lemma validate_and_write_written:
  assumes "tmp_path L (parent_dir path) \<noteq> path"
  shows "case run_state (validate_and_write X L path doc) w of (r, w') \<Rightarrow>
           written X L path w r w' \<and> (\<not> isl r \<longrightarrow> w_files w' path = Some (cl_print L doc))"
  using assms tmp_path_not_json [of L "parent_dir path"]
  by (auto simp: validate_and_write_def written_def tempfile_in_def if_ok_def write_file_def Let_def
      split: sum.splits option.splits if_splits)

lemma run_read_document:
  "run_state (read_document L path) w =
     (case cl_parse L (if w_io_fault w (w_ios w) then []
                       else case w_files w path of Some c \<Rightarrow> c | None \<Rightarrow> []) of
        Inl e \<Rightarrow> Inl (WriteParse e) | Inr doc \<Rightarrow> Inr doc,
      w\<lparr>w_ios := Suc (w_ios w)\<rparr>)"
  by (simp add: read_document_def)

lemma change_config_written:
  assumes "tmp_path L (parent_dir path) \<noteq> path"
  shows "case run_state (change_config X L path change) w of (r, w') \<Rightarrow> written X L path w r w'"
proof -
  let ?w = "w\<lparr>w_ios := Suc (w_ios w)\<rparr>"
  have "case run_state (validate_and_write X L path d) ?w of (r, w') \<Rightarrow> written X L path w r w'" for d
    using validate_and_write_written [OF assms, where X = X and doc = d and w = ?w] by (auto simp: written_def split: sum.splits)
  then show ?thesis
    by (auto simp: change_config_def run_read_document written_def split: sum.splits)
qed

text \<open>C9: Changing the configuration file is atomic. Adding, updating or removing a hook, whatever
  file operations fail: when an error is reported the configuration file has its old content, and
  when success is reported it has a content that parses, compiles its masks and passes
  validation. Apart from the temporary file beside it no other file is touched.\<close>

theorem config_change_atomic:
  assumes "op \<in> {config_add_hook X L path data, config_update_hook X L path slug data,
                 config_remove_hook X L path slug}"
    and "tmp_path L (parent_dir path) \<noteq> path" and "run_state op w = (r, w')"
  shows "(case r of
            Inl _ \<Rightarrow> w_files w' path = w_files w path
          | Inr _ \<Rightarrow> \<exists>text config. w_files w' path = Some text
              \<and> load_from X L (Some text) (w_files w ''nonexistent.json'') = Inr config)
         \<and> (\<forall>p. p \<notin> {path, tmp_path L (parent_dir path)} \<longrightarrow> w_files w' p = w_files w p)"
proof -
  obtain change where "op = change_config X L path change"
    using assms(1) by (auto simp: config_add_hook_def config_update_hook_def config_remove_hook_def)
  with change_config_written [OF assms(2), where X = X and change = change and w = w] assms(3) show ?thesis
    by (simp add: written_def)
qed

section \<open>What a change does to the document\<close>

definition form_keys :: "string list" where
  "form_keys = [''name'', ''description'', ''enabled'', ''executor'', ''cwd'', ''env'', ''timeout'',
     ''retries'', ''auth'', ''payload'', ''trigger_rules'']"

text \<open>The items of a hook's table after the fields of a form were applied.\<close>

lemma apply_hook_fields_lookup:
  "map_of (apply_hook_fields data t) k =
     (if k = ''name'' then Some (TString (hd_name data))
      else if k = ''description'' then Some (TString (hd_description data))
      else if k = ''enabled'' then Some (TBoolean (hd_enabled data))
      else if k = ''executor'' then Some (TTable (executor_table (hd_executor data)))
      else if k = ''cwd'' then
        (if hd_cwd data = Some [] then None else map_option TString (hd_cwd data))
      else if k = ''env'' then
        (if hd_env data = [] then None else Some (TTable (string_map_table (hd_env data))))
      else if k = ''timeout'' then map_option (\<lambda>d. TString (format_duration d)) (hd_timeout data)
      else if k = ''retries'' then retries_item (hd_retries data)
      else if k = ''auth'' then auth_item (hd_auth data)
      else if k = ''payload'' then payload_item (hd_payload data)
      else if k = ''trigger_rules'' then
        (if has_trigger_rules (hd_trigger_rules data)
         then map_option (\<lambda>r. TTable (rules_table r)) (hd_trigger_rules data) else None)
      else map_of t k)"
  by (simp add: apply_hook_fields_def Let_def comp_def split: option.split)

lemma apply_hook_fields_slug [simp]: "tbl_slug (apply_hook_fields data t) = tbl_slug t"
  by (simp add: tbl_slug_def apply_hook_fields_def Let_def)

lemma build_hook_table_slug [simp]: "tbl_slug (build_hook_table data) = Some (hd_slug data)"
  by (simp add: tbl_slug_def build_hook_table_def Let_def)

lemma position_first: "position P xs = Some i \<Longrightarrow> j < i \<Longrightarrow> \<not> P (xs ! j)"
  by (induction xs arbitrary: i j) (auto simp: nth_Cons' split: if_splits)

lemma as_tables_Some_iff [simp]: "as_tables i = Some ts \<longleftrightarrow> i = TTables ts"
  by (cases i) auto

lemma find_hook_index_Inr:
  "find_hook_index doc slug = Inr i \<longleftrightarrow>
     (\<exists>hooks. map_of doc ''hooks'' = Some (TTables hooks)
        \<and> position (\<lambda>t. tbl_slug t = Some slug) hooks = Some i)"
  by (auto simp: find_hook_index_def split: option.splits Option.bind_splits)

lemma change_config_success:
  assumes "tmp_path L (parent_dir path) \<noteq> path"
    and "run_state (change_config X L path change) w = (Inr u, w')"
    and "cl_parse L (if w_io_fault w (w_ios w) then []
                     else case w_files w path of Some c \<Rightarrow> c | None \<Rightarrow> []) = Inr doc"
  obtains doc' where "change doc = Inr doc'" and "w_files w' path = Some (cl_print L doc')"
proof (cases "change doc")
  case (Inl e)
  with assms(2,3) show ?thesis by (simp add: change_config_def run_read_document)
next
  case (Inr doc')
  with assms(2,3) have "run_state (validate_and_write X L path doc') (w\<lparr>w_ios := Suc (w_ios w)\<rparr>) = (Inr u, w')"
    by (simp add: change_config_def run_read_document)
  with validate_and_write_written [OF assms(1), where X = X and doc = doc' and w = "w\<lparr>w_ios := Suc (w_ios w)\<rparr>"]
  have "w_files w' path = Some (cl_print L doc')" by simp
  with Inr show ?thesis by (rule that)
qed

text \<open>Updating a hook changes one table. When the file can be read and the update succeeds, the
  document had a hook of that slug, and the new file is the old document in which the table of
  the first such hook has the form's fields applied; the table keeps its slug, and every other
  hook and every other section of the document is as before.\<close>

theorem config_update_spec:
  assumes "run_state (config_update_hook X L path slug data) w = (Inr u, w')"
    and "tmp_path L (parent_dir path) \<noteq> path" and "\<not> w_io_fault w (w_ios w)"
    and "w_files w path = Some content" and "cl_parse L content = Inr doc"
  shows "\<exists>hooks i. map_of doc ''hooks'' = Some (TTables hooks) \<and> i < length hooks
           \<and> tbl_slug (hooks ! i) = Some slug \<and> (\<forall>j < i. tbl_slug (hooks ! j) \<noteq> Some slug)
           \<and> tbl_slug (apply_hook_fields data (hooks ! i)) = Some slug
           \<and> w_files w' path = Some (cl_print L (tbl_insert ''hooks''
                (TTables (hooks[i := apply_hook_fields data (hooks ! i)])) doc))"
proof -
  obtain doc' where d: "update_hook_doc slug data doc = Inr doc'" "w_files w' path = Some (cl_print L doc')"
    using change_config_success [OF assms(2), of X "update_hook_doc slug data" w u w' doc] assms
    by (auto simp: config_update_hook_def)
  then obtain hooks i where h: "map_of doc ''hooks'' = Some (TTables hooks)"
      "position (\<lambda>t. tbl_slug t = Some slug) hooks = Some i"
    by (auto simp: update_hook_doc_def find_hook_index_Inr split: sum.splits)
  then have "find_hook_index doc slug = Inr i" by (simp add: find_hook_index_Inr)
  with d(1) h(1) have "doc' = tbl_insert ''hooks'' (TTables (hooks[i := apply_hook_fields data (hooks ! i)])) doc"
    by (simp add: update_hook_doc_def)
  with d(2) h position_Some [OF h(2)] show ?thesis by (auto dest: position_first)
qed

text \<open>A configuration file that cannot be read is replaced. When reading the file fails (and an
  empty text is an empty document), adding a hook counts the file as empty; if the write
  succeeds, the new file holds this one hook and nothing of the old configuration.\<close>

theorem unreadable_config_overwritten:
  assumes "run_state (config_add_hook X L path data) w = (Inr u, w')"
    and "tmp_path L (parent_dir path) \<noteq> path" and "w_io_fault w (w_ios w)"
    and "cl_parse L [] = Inr []"
  shows "w_files w' path = Some (cl_print L [(''hooks'', TTables [build_hook_table data])])"
proof -
  have "\<And>doc'. add_hook_doc data [] = Inr doc' \<Longrightarrow> doc' = [(''hooks'', TTables [build_hook_table data])]"
    by (simp add: add_hook_doc_def Let_def)
  with change_config_success [OF assms(2), of X "add_hook_doc data" w u w' "[]"] assms show ?thesis
    by (auto simp: config_add_hook_def)
qed

text \<open>A hook is lost when the document writes its hooks as an inline array, as in \<open>hooks = []\<close>: the
  writer reports success and prints the document as it was.\<close>

theorem add_hook_lost:
  assumes "run_state (config_add_hook X L path data) w = (Inr u, w')"
    and "tmp_path L (parent_dir path) \<noteq> path" and "\<not> w_io_fault w (w_ios w)"
    and "w_files w path = Some content" and "cl_parse L content = Inr doc"
    and "map_of doc ''hooks'' = Some (TArray items)"
  shows "w_files w' path = Some (cl_print L doc)"
proof -
  have "doc' = doc" if "add_hook_doc data doc = Inr doc'" for doc'
    using that assms(6) by (simp add: add_hook_doc_def Let_def tbl_insert_same)
  with change_config_success [OF assms(2), of X "add_hook_doc data" w u w' doc] assms show ?thesis
    by (auto simp: config_add_hook_def)
qed

section \<open>Concrete libraries\<close>

definition sample_hook_data :: hook_form_data where
  "sample_hook_data = \<lparr>hd_name = ''Deploy'', hd_slug = ''deploy'', hd_description = [], hd_enabled = True,
     hd_executor = Shell ''make'', hd_cwd = None, hd_env = [], hd_timeout = None, hd_retries = None,
     hd_auth = None, hd_payload = None, hd_trigger_rules = None\<rparr>"

definition sample_doc :: toml_table where
  "sample_doc = [(''hooks'', TTables [[(''slug'', TString ''deploy''), (''rate_limit'', TInteger 3)]])]"

definition inline_doc :: toml_table where
  "inline_doc = [(''hooks'', TArray [])]"

text \<open>Texts are numerals: the empty text, \<open>1\<close> for \<open>sample_doc\<close>, \<open>2\<close> for \<open>inline_doc\<close>, \<open>3\<close> for other
  documents.\<close>

definition sample_config_lib :: config_lib where
  "sample_config_lib = \<lparr>
     cl_parse = (\<lambda>s. if s = [] then Inr [] else if s = ''1'' then Inr sample_doc
                    else if s = ''2'' then Inr inline_doc else Inl ''bad''),
     cl_print = (\<lambda>d. if d = sample_doc then ''1'' else if d = inline_doc then ''2'' else ''3''),
     cl_extract = (\<lambda>t j. Inr default_app_config), cl_pid = 7, cl_url_encode = (\<lambda>s. s)\<rparr>"

definition config_file_world :: "string \<Rightarrow> (nat \<Rightarrow> bool) \<Rightarrow> world" where
  "config_file_world text fault = sample_world\<lparr>w_files := [''sendword.toml'' \<mapsto> text], w_io_fault := fault\<rparr>"

lemma sample_load: "load_from sample_external sample_config_lib t j = Inr default_app_config"
  using default_config_valid [of sample_external]
  by (simp add: load_from_def sample_config_lib_def compile_def default_app_config_def Let_def)

theorem load_from_well_formed_witness:
  "\<exists>c. load_from sample_external sample_config_lib None None = Inr c \<and> globals_ok sample_external c"
  using load_from_well_formed [OF sample_load] sample_load by blast

lemma sample_tmp_path: "tmp_path sample_config_lib (parent_dir ''sendword.toml'') \<noteq> ''sendword.toml''"
proof
  assume "tmp_path sample_config_lib (parent_dir ''sendword.toml'') = ''sendword.toml''"
  then have "last (tmp_path sample_config_lib (parent_dir ''sendword.toml'')) = CHR ''l''" by simp
  then show False by (simp add: tmp_path_def)
qed

text \<open>Changes on these files succeed.\<close>

lemma sample_change:
  assumes "\<exists>doc'. change doc = Inr doc'" and "\<And>n. 0 < n \<Longrightarrow> \<not> fault n"
    and "cl_parse sample_config_lib (if fault 0 then [] else content) = Inr doc"
  obtains w' where "run_state (change_config sample_external sample_config_lib ''sendword.toml'' change)
      (config_file_world content fault) = (Inr (), w')"
proof -
  from assms obtain doc' where "change doc = Inr doc'" by blast
  moreover have "\<not> fault (Suc n)" for n using assms(2) by simp
  ultimately have "fst (run_state (change_config sample_external sample_config_lib ''sendword.toml'' change)
      (config_file_world content fault)) = Inr ()"
    using assms(3)
    by (auto simp: change_config_def run_read_document validate_and_write_def tempfile_in_def if_ok_def
        write_file_def Let_def sample_load config_file_world_def sample_world_def)
  then show ?thesis using that by (metis prod.collapse)
qed

theorem config_change_atomic_witness:
  "\<exists>w'. run_state (config_add_hook sample_external sample_config_lib ''sendword.toml'' sample_hook_data)
          (config_file_world ''1'' (\<lambda>_. False)) = (Inl (SlugConflict ''deploy''), w')
        \<and> w_files w' ''sendword.toml'' = Some ''1''"
proof -
  obtain r w' where run: "run_state (config_add_hook sample_external sample_config_lib ''sendword.toml''
      sample_hook_data) (config_file_world ''1'' (\<lambda>_. False)) = (r, w')" by fastforce
  then have "r = Inl (SlugConflict ''deploy'')"
    by (simp add: config_add_hook_def change_config_def run_read_document config_file_world_def
        sample_world_def sample_config_lib_def add_hook_doc_def sample_doc_def tbl_slug_def sample_hook_data_def)
  moreover from config_change_atomic [OF _ sample_tmp_path run, where X = sample_external
      and data = sample_hook_data and slug = "''deploy''"] have "case r of
      Inl _ \<Rightarrow> w_files w' ''sendword.toml'' = w_files (config_file_world ''1'' (\<lambda>_. False)) ''sendword.toml''
    | Inr _ \<Rightarrow> True" by (auto split: sum.splits)
  ultimately show ?thesis using run by (simp add: config_file_world_def)
qed

theorem config_update_spec_witness:
  "\<exists>w'. run_state (config_update_hook sample_external sample_config_lib ''sendword.toml'' ''deploy''
            sample_hook_data) (config_file_world ''1'' (\<lambda>_. False)) = (Inr (), w')
        \<and> w_files w' ''sendword.toml'' = Some ''3''"
proof -
  have "\<exists>d. update_hook_doc ''deploy'' sample_hook_data sample_doc = Inr d"
    by (simp add: update_hook_doc_def find_hook_index_def sample_doc_def tbl_slug_def)
  then obtain w' where run: "run_state (config_update_hook sample_external sample_config_lib ''sendword.toml''
      ''deploy'' sample_hook_data) (config_file_world ''1'' (\<lambda>_. False)) = (Inr (), w')"
    by (rule sample_change [where fault = "\<lambda>_. False" and content = "''1''"])
      (auto simp: config_update_hook_def sample_config_lib_def)
  have "cl_parse sample_config_lib ''1'' = Inr sample_doc" by (simp add: sample_config_lib_def)
  from config_update_spec [OF run sample_tmp_path _ _ this]
  have "\<exists>hooks i. map_of sample_doc ''hooks'' = Some (TTables hooks) \<and> i < length hooks
      \<and> w_files w' ''sendword.toml'' = Some (cl_print sample_config_lib (tbl_insert ''hooks''
            (TTables (hooks[i := apply_hook_fields sample_hook_data (hooks ! i)])) sample_doc))"
    by (auto simp: config_file_world_def sample_world_def)
  then have "w_files w' ''sendword.toml'' = Some (cl_print sample_config_lib (tbl_insert ''hooks''
      (TTables [apply_hook_fields sample_hook_data [(''slug'', TString ''deploy''), (''rate_limit'', TInteger 3)]])
        sample_doc))"
    by (auto simp: sample_doc_def less_Suc_eq)
  moreover have "apply_hook_fields sample_hook_data t \<noteq> [(''slug'', TString ''deploy''), (''rate_limit'', TInteger 3)]" for t
  proof -
    have "map_of (apply_hook_fields sample_hook_data t) ''name'' = Some (TString ''Deploy'')"
      by (simp add: apply_hook_fields_def Let_def sample_hook_data_def)
    then show ?thesis by auto
  qed
  ultimately show ?thesis using run
    by (simp add: sample_config_lib_def sample_doc_def inline_doc_def)
qed

theorem unreadable_config_overwritten_witness:
  "\<exists>w'. run_state (config_add_hook sample_external sample_config_lib ''sendword.toml'' sample_hook_data)
          (config_file_world ''1'' (\<lambda>n. n = 0)) = (Inr (), w')
        \<and> w_files w' ''sendword.toml'' = Some ''3''"
proof -
  have "\<exists>d. add_hook_doc sample_hook_data [] = Inr d" by (simp add: add_hook_doc_def)
  then obtain w' where run: "run_state (config_add_hook sample_external sample_config_lib ''sendword.toml''
      sample_hook_data) (config_file_world ''1'' (\<lambda>n. n = 0)) = (Inr (), w')"
    by (rule sample_change [where fault = "\<lambda>n. n = 0" and content = "''1''"])
      (auto simp: config_add_hook_def sample_config_lib_def)
  from unreadable_config_overwritten [OF run sample_tmp_path]
  have "w_files w' ''sendword.toml'' = Some (cl_print sample_config_lib
      [(''hooks'', TTables [build_hook_table sample_hook_data])])"
    by (simp add: config_file_world_def sample_world_def sample_config_lib_def)
  moreover have "map_of (build_hook_table sample_hook_data) ''name'' = Some (TString ''Deploy'')"
    by (simp add: build_hook_table_def apply_hook_fields_def Let_def sample_hook_data_def)
  then have "build_hook_table sample_hook_data \<noteq> [(''slug'', TString ''deploy''), (''rate_limit'', TInteger 3)]"
    by auto
  ultimately show ?thesis using run
    by (simp add: sample_config_lib_def sample_doc_def inline_doc_def)
qed

end
