(* ===== verification/Hook_Form.thy ===== *)
theory Hook_Form
  imports Config_Writer "HOL-Library.AList"
begin

text \<open>
  The form that creates and edits hooks (\<open>src/routes/hooks.rs\<close>, \<open>src/views/hook_form.rs\<close>): reading
  a submitted form into the data the configuration writer saves, and the page that shows a hook's
  present settings in the form's fields.
\<close>

section \<open>Fields\<close>

definition then_ok :: "'e + 'a \<Rightarrow> ('a \<Rightarrow> 'e + 'b) \<Rightarrow> 'e + 'b" where
  "then_ok r k = (case r of Inl e \<Rightarrow> Inl e | Inr a \<Rightarrow> k a)"

lemma then_ok_simps [simp]: "then_ok (Inl e) k = Inl e" "then_ok (Inr a) k = k a"
  by (simp_all add: then_ok_def)

definition parse_duration_field :: "external \<Rightarrow> string \<Rightarrow> string + duration option" where
  "parse_duration_field X s =
     (let s = trim s
      in if s = [] then Inr None
         else case humantime_parse X s of
                Inr d \<Rightarrow> Inr (Some d)
              | Inl e \<Rightarrow> Inl (''invalid duration '' @ quoted s @ '': '' @ e))"

text \<open>The three text areas are read line by line: blank lines are skipped, the first bad line is the
  error; no item at all counts as no setting.\<close>

fun collect_lines :: "(nat \<Rightarrow> string \<Rightarrow> string + 'a) \<Rightarrow> nat \<Rightarrow> string list \<Rightarrow> string + 'a list" where
  "collect_lines item i [] = Inr []"
| "collect_lines item i (l # ls) =
     (let line = trim l
      in if line = [] then collect_lines item (Suc i) ls
         else then_ok (item (i + 1) line) (\<lambda>a.
                then_ok (collect_lines item (Suc i) ls) (\<lambda>as. Inr (a # as))))"

definition some_items :: "string + 'a list \<Rightarrow> string + 'a list option" where
  "some_items r = then_ok r (\<lambda>items. Inr (if items = [] then None else Some items))"

definition parse_field_type :: "string \<Rightarrow> field_type option" where
  "parse_field_type s =
     (if s = ''string'' then Some FtString
      else if s = ''number'' then Some FtNumber
      else if s = ''boolean'' then Some FtBoolean
      else if s = ''object'' then Some FtObject
      else if s = ''array'' then Some FtArray
      else None)"

definition payload_line :: "nat \<Rightarrow> string \<Rightarrow> string + payload_field" where
  "payload_line n line =
     (let at = ''payload line '' @ show_nat n @ '': '';
          parts = splitn 3 (CHR '':'') line
      in if length parts < 2
         then Inl (at @ ''expected 'name:type' or 'name:type:required', got '' @ quoted line)
         else let name = trim (parts ! 0)
              in if name = [] then Inl (at @ ''field name cannot be empty'')
                 else let type_str = trim (parts ! 1)
                      in case parse_field_type type_str of
                           None \<Rightarrow> Inl (at @ ''unknown type '' @ quoted type_str
                                   @ '' (expected string, number, boolean, object, or array)'')
                         | Some field_type \<Rightarrow>
                             then_ok (if length parts = 3
                                then (let flag = trim (parts ! 2)
                                      in if flag = ''required'' then Inr True
                                         else if flag = ''optional'' \<or> flag = [] then Inr False
                                         else Inl (at @ ''expected 'required' or 'optional', got '' @ quoted flag))
                                else Inr False)
                               (\<lambda>required. Inr \<lparr>pf_name = name, pf_field_type = field_type,
                                                pf_required = required\<rparr>))"

definition parse_payload_text :: "string \<Rightarrow> string + payload_schema option" where
  "parse_payload_text text =
     then_ok (some_items (collect_lines payload_line 0 (lines text)))
       (\<lambda>fields. Inr (map_option (\<lambda>fs. \<lparr>ps_fields = fs\<rparr>) fields))"

definition parse_operator :: "string \<Rightarrow> filter_operator option" where
  "parse_operator s =
     (if s = ''equals'' then Some OpEquals
      else if s = ''not_equals'' then Some OpNotEquals
      else if s = ''contains'' then Some OpContains
      else if s = ''regex'' then Some OpRegex
      else if s = ''exists'' then Some OpExists
      else if s = ''gt'' then Some OpGt
      else if s = ''lt'' then Some OpLt
      else if s = ''gte'' then Some OpGte
      else if s = ''lte'' then Some OpLte
      else None)"

definition filter_line :: "nat \<Rightarrow> string \<Rightarrow> string + payload_filter" where
  "filter_line n line =
     (let at = ''filter line '' @ show_nat n @ '': '';
          parts = splitn 3 (CHR '':'') line
      in if length parts < 2
         then Inl (at @ ''expected 'field:operator' or 'field:operator:value', got '' @ quoted line)
         else let field = trim (parts ! 0)
              in if field = [] then Inl (at @ ''field name cannot be empty'')
                 else let op_str = trim (parts ! 1)
                      in case parse_operator op_str of
                           None \<Rightarrow> Inl (at @ ''unknown operator '' @ quoted op_str
                                   @ '' (expected equals, not_equals, contains, regex, exists, gt, lt, gte, lte)'')
                         | Some operator \<Rightarrow>
                             then_ok (if operator = OpExists then Inr None
                                else if length parts = 3
                                then (let v = trim (parts ! 2)
                                      in if v = [] then Inl (at @ ''value required for operator '' @ quoted op_str)
                                         else Inr (Some v))
                                else Inl (at @ ''operator '' @ quoted op_str @ '' requires a value''))
                               (\<lambda>value. Inr \<lparr>fl_field = field, fl_operator = operator, fl_value = value\<rparr>))"

definition parse_filters_text :: "string \<Rightarrow> string + payload_filter list option" where
  "parse_filters_text text = some_items (collect_lines filter_line 0 (lines text))"

definition window_line :: "nat \<Rightarrow> string \<Rightarrow> string + time_window" where
  "window_line n line =
     (let at = ''window line '' @ show_nat n @ '': ''
      in case split_once (CHR '':'') line of
           None \<Rightarrow> Inl (at @ ''expected 'Days:HH:MM-HH:MM', got '' @ quoted line)
         | Some (days_part, time_part) \<Rightarrow>
             (let days = filter (\<lambda>d. d \<noteq> []) (map trim (split_on (CHR '','') days_part))
              in if days = [] then Inl (at @ ''at least one day is required'')
                 else case split_once (CHR ''-'') time_part of
                        None \<Rightarrow> Inl (at @ ''expected time range 'HH:MM-HH:MM', got '' @ quoted time_part)
                      | Some (before, after) \<Rightarrow>
                          (let start_time = trim before; end_time = trim after
                           in if start_time = [] \<or> end_time = []
                              then Inl (at @ ''start and end times must not be empty'')
                              else Inr \<lparr>tw_days = days, tw_start_time = start_time,
                                        tw_end_time = end_time\<rparr>)))"

definition parse_windows_text :: "string \<Rightarrow> string + time_window list option" where
  "parse_windows_text text = some_items (collect_lines window_line 0 (lines text))"

section \<open>The form\<close>

record hook_form =
  fm_name :: string
  fm_slug :: string
  fm_description :: string
  fm_enabled :: "string option"
  fm_executor_type :: string
  fm_command :: string
  fm_cwd :: string
  fm_timeout :: string
  fm_env_text :: string
  fm_retry_count :: "string option"
  fm_retry_backoff :: "string option"
  fm_retry_initial_delay :: "string option"
  fm_retry_max_delay :: "string option"
  fm_auth_mode :: "string option"
  fm_auth_token :: "string option"
  fm_auth_header :: "string option"
  fm_auth_algorithm :: "string option"
  fm_auth_secret :: "string option"
  fm_payload_text :: string
  fm_trigger_filters_text :: string
  fm_trigger_windows_text :: string
  fm_trigger_cooldown :: string
  fm_trigger_rate_max :: "string option"
  fm_trigger_rate_window :: string

definition or_else :: "'a option \<Rightarrow> 'a \<Rightarrow> 'a" where
  "or_else v d = (case v of Some x \<Rightarrow> x | None \<Rightarrow> d)"

lemma or_else_simps [simp]: "or_else (Some x) d = x" "or_else None d = d"
  by (simp_all add: or_else_def)

text \<open>A line of the environment without \<open>=\<close> or without a key is skipped.\<close>

definition env_line :: "string_map \<Rightarrow> string \<Rightarrow> string_map" where
  "env_line env l =
     (let line = trim l
      in if line = [] then env
         else case split_once (CHR ''='') line of
                None \<Rightarrow> env
              | Some (key, value) \<Rightarrow>
                  (let key = trim key in if key \<noteq> [] then AList.update key value env else env))"

definition parse_env_text :: "string \<Rightarrow> string_map" where
  "parse_env_text text = foldl env_line [] (lines text)"

definition parse_retries :: "external \<Rightarrow> hook_form \<Rightarrow> string + retry_form_data option" where
  "parse_retries X form =
     (let retry_count = or_else (parse_unsigned u32_max (trim (or_else (fm_retry_count form) []))) 0
      in if retry_count > 0
         then let b = or_else (fm_retry_backoff form) ''exponential'';
                  backoff = (if b = ''none'' then BackoffNone
                             else if b = ''linear'' then BackoffLinear else BackoffExponential)
              in then_ok (parse_duration_field X (or_else (fm_retry_initial_delay form) [])) (\<lambda>initial_delay.
                 then_ok (parse_duration_field X (or_else (fm_retry_max_delay form) [])) (\<lambda>max_delay.
                 Inr (Some \<lparr>rf_count = retry_count, rf_backoff = backoff,
                            rf_initial_delay = or_else initial_delay (from_secs 1),
                            rf_max_delay = or_else max_delay (from_secs 60)\<rparr>)))
         else Inr None)"

definition parse_auth :: "hook_form \<Rightarrow> string + hook_auth_config option" where
  "parse_auth form =
     (let mode = or_else (fm_auth_mode form) ''none''
      in if mode = ''bearer''
         then let token = trim (or_else (fm_auth_token form) [])
              in if token = [] then Inl ''auth token must be non-empty for bearer mode''
                 else Inr (Some (Bearer token))
         else if mode = ''hmac''
         then let header = trim (or_else (fm_auth_header form) []);
                  secret = trim (or_else (fm_auth_secret form) [])
              in if header = [] then Inl ''auth header must be non-empty for HMAC mode''
                 else if secret = [] then Inl ''auth secret must be non-empty for HMAC mode''
                 else let algorithm = or_else (fm_auth_algorithm form) ''sha256''
                      in if algorithm = ''sha256'' then Inr (Some (Hmac header Sha256 secret))
                         else Inl (''unsupported HMAC algorithm: '' @ algorithm)
         else Inr None)"

definition parse_rate_limit :: "external \<Rightarrow> hook_form \<Rightarrow> string + trigger_rate_limit option" where
  "parse_rate_limit X form =
     (let max_str = trim (or_else (fm_trigger_rate_max form) []);
          window_str = trim (fm_trigger_rate_window form);
          max_requests = or_else (parse_unsigned u64_max max_str) 0
      in if max_requests > 0 \<and> window_str \<noteq> []
         then then_ok (parse_duration_field X window_str) (\<lambda>window.
                case window of
                  None \<Rightarrow> Inl ''trigger rate window must be a valid duration''
                | Some d \<Rightarrow> Inr (Some \<lparr>tr_max_requests = max_requests, tr_window = d\<rparr>))
         else Inr None)"

definition http_executor_form_error :: string where
  "http_executor_form_error = ''HTTP executors are not supported by this form''"

definition parse_executor :: "hook_form \<Rightarrow> string + executor_config" where
  "parse_executor form =
     (let command = trim (fm_command form); kind = trim (fm_executor_type form)
      in if kind = [] \<or> kind = ''shell'' then Inr (Shell command)
         else if kind = ''script'' then Inr (Script command)
         else if kind = ''javascript'' then Inr (JavaScript command)
         else if kind = ''python'' then Inr (Python command)
         else if kind = ''http'' then Inl http_executor_form_error
         else Inl (''unknown executor type '' @ quoted kind))"

definition trigger_rules_of :: "payload_filter list option \<Rightarrow> time_window list option
    \<Rightarrow> duration option \<Rightarrow> trigger_rate_limit option \<Rightarrow> trigger_rules option" where
  "trigger_rules_of filters windows cooldown rate_limit =
     (if filters \<noteq> None \<or> windows \<noteq> None \<or> cooldown \<noteq> None \<or> rate_limit \<noteq> None
      then Some \<lparr>ru_payload_filters = filters, ru_time_windows = windows, ru_cooldown = cooldown,
                 ru_rate_limit = rate_limit\<rparr>
      else None)"

definition parse_hook_form :: "external \<Rightarrow> hook_form \<Rightarrow> string + hook_form_data" where
  "parse_hook_form X form =
     then_ok (parse_duration_field X (fm_timeout form)) (\<lambda>timeout.
     then_ok (parse_retries X form) (\<lambda>retries.
     let cwd = (if trim (fm_cwd form) = [] then None else Some (trim (fm_cwd form)))
     in then_ok (parse_auth form) (\<lambda>auth.
     then_ok (parse_payload_text (fm_payload_text form)) (\<lambda>payload.
     then_ok (parse_filters_text (fm_trigger_filters_text form)) (\<lambda>payload_filters.
     then_ok (parse_windows_text (fm_trigger_windows_text form)) (\<lambda>time_windows.
     then_ok (parse_duration_field X (trim (fm_trigger_cooldown form))) (\<lambda>cooldown.
     then_ok (parse_rate_limit X form) (\<lambda>rate_limit.
     then_ok (parse_executor form) (\<lambda>executor.
     Inr \<lparr>hd_name = trim (fm_name form), hd_slug = trim (fm_slug form),
          hd_description = trim (fm_description form), hd_enabled = (fm_enabled form \<noteq> None),
          hd_executor = executor, hd_cwd = cwd, hd_env = parse_env_text (fm_env_text form),
          hd_timeout = timeout, hd_retries = retries, hd_auth = auth, hd_payload = payload,
          hd_trigger_rules = trigger_rules_of payload_filters time_windows cooldown rate_limit\<rparr>)))))))))"

section \<open>The page\<close>

record hook_form_page =
  pg_is_new :: bool
  pg_slug :: string
  pg_page_title :: string
  pg_form_action :: string
  pg_cancel_href :: string
  pg_submit_label :: string
  pg_name :: string
  pg_form_slug :: string
  pg_description :: string
  pg_enabled :: bool
  pg_executor_type :: string
  pg_command :: string
  pg_cwd :: string
  pg_timeout :: string
  pg_env_text :: string
  pg_retry_count :: nat
  pg_retry_backoff :: string
  pg_retry_initial_delay :: string
  pg_retry_max_delay :: string
  pg_auth_mode :: string
  pg_auth_token :: string
  pg_auth_header :: string
  pg_auth_algorithm :: string
  pg_auth_secret :: string
  pg_payload_text :: string
  pg_trigger_filters_text :: string
  pg_trigger_windows_text :: string
  pg_trigger_cooldown :: string
  pg_trigger_rate_max :: string
  pg_trigger_rate_window :: string

definition new_hook_page :: hook_form_page where
  "new_hook_page = \<lparr>pg_is_new = True, pg_slug = [], pg_page_title = ''New hook'',
     pg_form_action = ''/hooks/new'', pg_cancel_href = ''/'', pg_submit_label = ''CREATE HOOK'',
     pg_name = [], pg_form_slug = [], pg_description = [], pg_enabled = True,
     pg_executor_type = ''shell'', pg_command = [], pg_cwd = [], pg_timeout = [], pg_env_text = [],
     pg_retry_count = 0, pg_retry_backoff = ''exponential'', pg_retry_initial_delay = [],
     pg_retry_max_delay = [], pg_auth_mode = ''none'', pg_auth_token = [],
     pg_auth_header = ''X-Hub-Signature-256'', pg_auth_algorithm = ''sha256'', pg_auth_secret = [],
     pg_payload_text = [], pg_trigger_filters_text = [], pg_trigger_windows_text = [],
     pg_trigger_cooldown = [], pg_trigger_rate_max = [], pg_trigger_rate_window = []\<rparr>"

definition edit_page :: "string \<Rightarrow> string \<Rightarrow> hook_form_page" where
  "edit_page slug name = new_hook_page\<lparr>pg_is_new := False, pg_page_title := ''Edit '' @ name,
     pg_form_action := ''/hooks/'' @ slug @ ''/edit'', pg_cancel_href := ''/hooks/'' @ slug,
     pg_submit_label := ''SAVE CHANGES'', pg_name := name, pg_form_slug := slug, pg_slug := slug\<rparr>"

definition non_empty_or :: "string option \<Rightarrow> string \<Rightarrow> string" where
  "non_empty_or v d = (case v of Some s \<Rightarrow> (if s = [] then d else s) | None \<Rightarrow> d)"

text \<open>The page shown again after a refused submission keeps what the user typed.\<close>

definition submitted_hook_form_page :: "hook_form \<Rightarrow> hook_form_page \<Rightarrow> hook_form_page" where
  "submitted_hook_form_page form page =
     (let page = (if pg_is_new page
                  then page\<lparr>pg_slug := fm_slug form, pg_form_slug := fm_slug form\<rparr> else page)
      in page\<lparr>pg_name := fm_name form, pg_description := fm_description form,
        pg_enabled := (fm_enabled form \<noteq> None),
        pg_executor_type := (if fm_executor_type form = [] then ''shell'' else fm_executor_type form),
        pg_command := fm_command form, pg_cwd := fm_cwd form, pg_timeout := fm_timeout form,
        pg_env_text := fm_env_text form,
        pg_retry_count := or_else (Option.bind (fm_retry_count form) (\<lambda>v. parse_unsigned u32_max (trim v))) 0,
        pg_retry_backoff := non_empty_or (fm_retry_backoff form) ''exponential'',
        pg_retry_initial_delay := or_else (fm_retry_initial_delay form) [],
        pg_retry_max_delay := or_else (fm_retry_max_delay form) [],
        pg_auth_mode := non_empty_or (fm_auth_mode form) ''none'',
        pg_auth_token := or_else (fm_auth_token form) [],
        pg_auth_header := non_empty_or (fm_auth_header form) ''X-Hub-Signature-256'',
        pg_auth_algorithm := non_empty_or (fm_auth_algorithm form) ''sha256'',
        pg_auth_secret := or_else (fm_auth_secret form) [],
        pg_payload_text := fm_payload_text form,
        pg_trigger_filters_text := fm_trigger_filters_text form,
        pg_trigger_windows_text := fm_trigger_windows_text form,
        pg_trigger_cooldown := fm_trigger_cooldown form,
        pg_trigger_rate_max := or_else (fm_trigger_rate_max form) [],
        pg_trigger_rate_window := fm_trigger_rate_window form\<rparr>)"

text \<open>The page of \<open>edit_hook_form\<close>: the settings of the hook as texts.\<close>

definition env_text_of :: "string_map \<Rightarrow> string" where
  "env_text_of env = join [CHR 0x0A] (map (\<lambda>(k, v). k @ ''='' @ v) (sort_key fst env))"

definition payload_text_of :: "payload_schema option \<Rightarrow> string" where
  "payload_text_of payload =
     (case payload of
        Some schema \<Rightarrow> join [CHR 0x0A] (map (\<lambda>f.
          if pf_required f then pf_name f @ '':'' @ field_type_display (pf_field_type f) @ '':required''
          else pf_name f @ '':'' @ field_type_display (pf_field_type f)) (ps_fields schema))
      | None \<Rightarrow> [])"

definition filter_text_of :: "payload_filter \<Rightarrow> string" where
  "filter_text_of f =
     (let operator = filter_operator_str (fl_operator f)
      in case fl_value f of
           Some v \<Rightarrow> fl_field f @ '':'' @ operator @ '':'' @ v
         | None \<Rightarrow> fl_field f @ '':'' @ operator)"

definition window_text_of :: "time_window \<Rightarrow> string" where
  "window_text_of w = join '','' (tw_days w) @ '':'' @ tw_start_time w @ ''-'' @ tw_end_time w"

definition edit_hook_page :: "hook_config \<Rightarrow> hook_form_page" where
  "edit_hook_page hook =
     (let (command, executor_type) = (case hk_executor hook of
            Shell command \<Rightarrow> (command, ''shell'')
          | Script path \<Rightarrow> (path, ''script'')
          | JavaScript path \<Rightarrow> (path, ''javascript'')
          | Python path \<Rightarrow> (path, ''python'')
          | Http m url h b r \<Rightarrow> (url, ''http''));
        (retry_count, retry_backoff, retry_initial_delay, retry_max_delay) =
          (case hk_retries hook of
             Some r \<Rightarrow> (rc_count r, backoff_str (rc_backoff r), format_duration (rc_initial_delay r),
                        format_duration (rc_max_delay r))
           | None \<Rightarrow> (0, ''exponential'', [], []));
        (auth_mode, auth_token, auth_header, auth_algorithm, auth_secret) =
          (case hk_auth hook of
             Some (Bearer token) \<Rightarrow> (''bearer'', token, [], [], [])
           | Some (Hmac header algorithm secret) \<Rightarrow>
               (''hmac'', [], header, (case algorithm of Sha256 \<Rightarrow> ''sha256''), secret)
           | _ \<Rightarrow> (''none'', [], [], ''sha256'', []));
        (trigger_filters_text, trigger_windows_text, trigger_cooldown, trigger_rate_max, trigger_rate_window) =
          (case hk_trigger_rules hook of
             Some rules \<Rightarrow>
               (case ru_payload_filters rules of Some fs \<Rightarrow> join [CHR 0x0A] (map filter_text_of fs) | None \<Rightarrow> [],
                case ru_time_windows rules of Some ws \<Rightarrow> join [CHR 0x0A] (map window_text_of ws) | None \<Rightarrow> [],
                case ru_cooldown rules of Some d \<Rightarrow> format_duration d | None \<Rightarrow> [],
                case ru_rate_limit rules of Some rl \<Rightarrow> show_nat (tr_max_requests rl) | None \<Rightarrow> [],
                case ru_rate_limit rules of Some rl \<Rightarrow> format_duration (tr_window rl) | None \<Rightarrow> [])
           | None \<Rightarrow> ([], [], [], [], []))
      in (edit_page (hk_slug hook) (hk_name hook))\<lparr>
        pg_description := hk_description hook, pg_enabled := hk_enabled hook,
        pg_executor_type := executor_type, pg_command := command,
        pg_cwd := or_else (hk_cwd hook) [],
        pg_timeout := (case hk_timeout hook of Some d \<Rightarrow> format_duration d | None \<Rightarrow> []),
        pg_env_text := env_text_of (hk_env hook),
        pg_retry_count := retry_count, pg_retry_backoff := retry_backoff,
        pg_retry_initial_delay := retry_initial_delay, pg_retry_max_delay := retry_max_delay,
        pg_auth_mode := auth_mode, pg_auth_token := auth_token, pg_auth_header := auth_header,
        pg_auth_algorithm := auth_algorithm, pg_auth_secret := auth_secret,
        pg_payload_text := payload_text_of (hk_payload hook),
        pg_trigger_filters_text := trigger_filters_text,
        pg_trigger_windows_text := trigger_windows_text,
        pg_trigger_cooldown := trigger_cooldown, pg_trigger_rate_max := trigger_rate_max,
        pg_trigger_rate_window := trigger_rate_window\<rparr>)"

section \<open>Submitting the page\<close>

text \<open>What a browser sends for a page that is not changed: the fields of the template by their names.
  A checkbox is sent when it is checked, a selection falls back to its first option, and the line
  breaks of a text area are sent as carriage return and line feed.\<close>

definition crlf :: "string \<Rightarrow> string" where
  "crlf s = concat (map (\<lambda>c. if c = CHR 0x0A then [CHR 0x0D, CHR 0x0A] else [c]) s)"

definition selected :: "string list \<Rightarrow> string \<Rightarrow> string" where
  "selected options v = (if v \<in> set options then v else hd options)"

definition resubmit :: "hook_form_page \<Rightarrow> hook_form" where
  "resubmit p = \<lparr>fm_name = pg_name p, fm_slug = pg_form_slug p, fm_description = crlf (pg_description p),
     fm_enabled = (if pg_enabled p then Some ''true'' else None),
     fm_executor_type = selected [''shell'', ''script'', ''javascript'', ''python'', ''http''] (pg_executor_type p),
     fm_command = pg_command p, fm_cwd = pg_cwd p, fm_timeout = pg_timeout p,
     fm_env_text = crlf (pg_env_text p), fm_retry_count = Some (show_nat (pg_retry_count p)),
     fm_retry_backoff = Some (selected [''none'', ''linear'', ''exponential''] (pg_retry_backoff p)),
     fm_retry_initial_delay = Some (pg_retry_initial_delay p),
     fm_retry_max_delay = Some (pg_retry_max_delay p),
     fm_auth_mode = Some (selected [''none'', ''bearer'', ''hmac''] (pg_auth_mode p)),
     fm_auth_token = Some (pg_auth_token p), fm_auth_header = Some (pg_auth_header p),
     fm_auth_algorithm = Some (selected [''sha256''] (pg_auth_algorithm p)),
     fm_auth_secret = Some (pg_auth_secret p), fm_payload_text = crlf (pg_payload_text p),
     fm_trigger_filters_text = crlf (pg_trigger_filters_text p),
     fm_trigger_windows_text = crlf (pg_trigger_windows_text p),
     fm_trigger_cooldown = pg_trigger_cooldown p, fm_trigger_rate_max = Some (pg_trigger_rate_max p),
     fm_trigger_rate_window = pg_trigger_rate_window p\<rparr>"

section \<open>Lines\<close>

definition trimmed :: "string \<Rightarrow> bool" where
  "trimmed s \<longleftrightarrow> s = [] \<or> \<not> is_space (hd s) \<and> \<not> is_space (last s)"

definition one_line :: "string \<Rightarrow> bool" where
  "one_line s \<longleftrightarrow> CHR 0x0A \<notin> set s \<and> CHR 0x0D \<notin> set s"

lemma trim_trimmed: "trimmed s \<Longrightarrow> trim s = s"
proof (cases s)
  case (Cons c cs)
  assume t: "trimmed s"
  with Cons have "dropWhile is_space s = s" by (simp add: trimmed_def)
  moreover have "dropWhile is_space (rev s) = rev s"
    using t Cons by (cases "rev s") (auto simp: trimmed_def last_rev hd_rev[symmetric] dest: arg_cong [where f = hd])
  ultimately show ?thesis by (simp add: trim_def)
qed (simp add: trim_def)

lemma trimmed_Nil [simp]: "trimmed []" by (simp add: trimmed_def)

lemma trimmed_append:
  "a \<noteq> [] \<Longrightarrow> b \<noteq> [] \<Longrightarrow> \<not> is_space (hd a) \<Longrightarrow> \<not> is_space (last b) \<Longrightarrow> trimmed (a @ b)"
  by (simp add: trimmed_def)

lemma trimmed_ends: "trimmed s \<Longrightarrow> s \<noteq> [] \<Longrightarrow> \<not> is_space (hd s) \<and> \<not> is_space (last s)"
  by (simp add: trimmed_def)

lemma one_line_append [simp]: "one_line (a @ b) \<longleftrightarrow> one_line a \<and> one_line b"
  by (auto simp: one_line_def)

lemma one_line_simps [simp]:
  "one_line []" "one_line (c # s) \<longleftrightarrow> c \<noteq> CHR 0x0A \<and> c \<noteq> CHR 0x0D \<and> one_line s"
  by (auto simp: one_line_def)

lemma crlf_one_line: "one_line s \<Longrightarrow> crlf s = s"
  by (induction s) (auto simp: crlf_def)

lemma crlf_append [simp]: "crlf (a @ b) = crlf a @ crlf b"
  by (simp add: crlf_def)

lemma crlf_Cons: "crlf (c # s) = (if c = CHR 0x0A then [CHR 0x0D, CHR 0x0A] else [c]) @ crlf s"
  by (simp add: crlf_def)

lemma split_join_crlf:
  assumes "\<And>l. l \<in> set ls \<Longrightarrow> one_line l" and "ls \<noteq> []"
  shows "split_on (CHR 0x0A) (crlf (join [CHR 0x0A] ls)) = map (\<lambda>l. l @ [CHR 0x0D]) (butlast ls) @ [last ls]"
  using assms
proof (induction "[CHR 0x0A]" ls rule: join.induct)
  case (2 s)
  then show ?case by (simp add: crlf_one_line split_on_no_sep one_line_def)
next
  case (3 s t ss)
  have "split_on (CHR 0x0A) ((s @ [CHR 0x0D]) @ CHR 0x0A # crlf (join [CHR 0x0A] (t # ss)))
      = (s @ [CHR 0x0D]) # split_on (CHR 0x0A) (crlf (join [CHR 0x0A] (t # ss)))"
    using 3(2) [of s] by (intro split_on_append) (simp add: one_line_def)
  with 3 show ?case by (simp add: crlf_one_line crlf_Cons)
qed simp

lemma drop_cr_snoc: "drop_cr (l @ [CHR 0x0D]) = l"
  by (simp add: drop_cr_def)

lemma drop_cr_one_line: "one_line l \<Longrightarrow> drop_cr l = l"
  by (metis drop_cr_def last_in_set one_line_def)

lemma lines_join:
  assumes "\<And>l. l \<in> set ls \<Longrightarrow> one_line l \<and> l \<noteq> []"
  shows "lines (crlf (join [CHR 0x0A] ls)) = ls"
proof (cases ls rule: rev_cases)
  case Nil
  then show ?thesis by (simp add: lines_def crlf_def)
next
  case (snoc ks l)
  have "split_on (CHR 0x0A) (crlf (join [CHR 0x0A] ls)) = map (\<lambda>l. l @ [CHR 0x0D]) ks @ [l]"
    using split_join_crlf [of ls] assms snoc by simp
  then show ?thesis
    using assms [of l] snoc by (simp add: lines_def Let_def drop_cr_snoc drop_cr_one_line comp_def)
qed

text \<open>The three formats of lines as one interface: an item, its text, and when the text reads back.\<close>

locale line_format =
  fixes item :: "nat \<Rightarrow> string \<Rightarrow> string + 'a" and shown :: "'a \<Rightarrow> string" and ok :: "'a \<Rightarrow> bool"
  assumes line: "ok x \<Longrightarrow> shown x \<noteq> [] \<and> trimmed (shown x) \<and> one_line (shown x)"
    and reads: "ok x \<Longrightarrow> item n (shown x) = Inr x"
begin

lemma collect: "list_all ok xs \<Longrightarrow> collect_lines item i (map shown xs) = Inr xs"
  by (induction xs arbitrary: i) (auto simp: Let_def trim_trimmed line reads)

lemma text_reads_back:
  assumes "list_all ok xs"
  shows "some_items (collect_lines item 0 (lines (crlf (join [CHR 0x0A] (map shown xs)))))
           = Inr (if xs = [] then None else Some xs)"
proof -
  have "lines (crlf (join [CHR 0x0A] (map shown xs))) = map shown xs"
    using assms by (intro lines_join) (auto simp: list_all_iff line)
  with collect [OF assms] show ?thesis by (simp add: some_items_def)
qed

end

section \<open>Each format reads back\<close>

definition name_ok :: "string \<Rightarrow> bool" where
  "name_ok s \<longleftrightarrow> s \<noteq> [] \<and> trimmed s \<and> one_line s \<and> CHR '':'' \<notin> set s"

lemma splitn_two: "d \<notin> set a \<Longrightarrow> d \<notin> set b \<Longrightarrow> splitn 3 d (a @ d # b) = [a, b]"
proof -
  assume "d \<notin> set a" "d \<notin> set b"
  then have "split_once d (a @ d # b) = Some (a, b)" "split_once d b = None"
    by (simp_all add: split_once_Some_iff split_once_None_iff)
  then show ?thesis by (simp add: numeral_3_eq_3)
qed

lemma splitn_three: "d \<notin> set a \<Longrightarrow> d \<notin> set b \<Longrightarrow> splitn 3 d (a @ d # b @ d # c) = [a, b, c]"
proof -
  assume "d \<notin> set a" "d \<notin> set b"
  then have "split_once d (a @ d # b @ d # c) = Some (a, b @ d # c)" "split_once d (b @ d # c) = Some (b, c)"
    by (simp_all add: split_once_Some_iff)
  then show ?thesis by (simp add: numeral_3_eq_3)
qed

lemma name_ok_word: "name_ok s \<Longrightarrow> trim s = s \<and> s \<noteq> [] \<and> \<not> is_space (hd s) \<and> one_line s \<and> CHR '':'' \<notin> set s"
  by (auto simp: name_ok_def trim_trimmed dest: trimmed_ends)

lemma field_type_words [simp]:
  "parse_field_type (field_type_display t) = Some t" "trim (field_type_display t) = field_type_display t"
  "CHR '':'' \<notin> set (field_type_display t)" "field_type_display t \<noteq> []"
  "\<not> is_space (last (field_type_display t))" "one_line (field_type_display t)"
  by (cases t; simp add: parse_field_type_def trim_def is_space_def)+

lemma operator_words [simp]:
  "parse_operator (filter_operator_str p) = Some p" "trim (filter_operator_str p) = filter_operator_str p"
  "CHR '':'' \<notin> set (filter_operator_str p)" "filter_operator_str p \<noteq> []"
  "\<not> is_space (last (filter_operator_str p))" "one_line (filter_operator_str p)"
  by (cases p; simp add: parse_operator_def trim_def is_space_def)+

lemma required_word [simp]:
  "\<not> is_space (CHR ''d'')" "trim ''required'' = ''required''"
  by (simp_all add: trim_def is_space_def)

definition payload_field_text :: "payload_field \<Rightarrow> string" where
  "payload_field_text f =
     (if pf_required f then pf_name f @ '':'' @ field_type_display (pf_field_type f) @ '':required''
      else pf_name f @ '':'' @ field_type_display (pf_field_type f))"

interpretation payload_lines: line_format payload_line payload_field_text "\<lambda>f. name_ok (pf_name f)"
proof
  fix f :: payload_field
  assume "name_ok (pf_name f)"
  note w = name_ok_word [OF this]
  show "payload_field_text f \<noteq> [] \<and> trimmed (payload_field_text f) \<and> one_line (payload_field_text f)"
    using w by (auto simp: payload_field_text_def trimmed_def)
  show "payload_line n (payload_field_text f) = Inr f" for n
    using w splitn_three [of "CHR '':''" "pf_name f" "field_type_display (pf_field_type f)" "''required''"]
    by (auto simp: payload_field_text_def payload_line_def Let_def splitn_two)
qed

definition filter_text_ok :: "payload_filter \<Rightarrow> bool" where
  "filter_text_ok f \<longleftrightarrow> name_ok (fl_field f)
     \<and> (case fl_value f of
          None \<Rightarrow> fl_operator f = OpExists
        | Some v \<Rightarrow> fl_operator f \<noteq> OpExists \<and> v \<noteq> [] \<and> trimmed v \<and> one_line v)"

interpretation filter_lines: line_format filter_line filter_text_of filter_text_ok
proof
  fix f :: payload_filter
  assume f: "filter_text_ok f"
  then have w: "trim (fl_field f) = fl_field f" "fl_field f \<noteq> []" "\<not> is_space (hd (fl_field f))"
      "one_line (fl_field f)" "CHR '':'' \<notin> set (fl_field f)"
    using name_ok_word by (auto simp: filter_text_ok_def)
  show "filter_text_of f \<noteq> [] \<and> trimmed (filter_text_of f) \<and> one_line (filter_text_of f)"
    using f w by (auto simp: filter_text_of_def filter_text_ok_def Let_def trimmed_def split: option.splits)
  show "filter_line n (filter_text_of f) = Inr f" for n
    using f w splitn_three [of "CHR '':''" "fl_field f" "filter_operator_str (fl_operator f)"]
    by (auto simp: filter_text_of_def filter_text_ok_def filter_line_def Let_def splitn_two trim_trimmed
        split: option.splits)
qed

definition window_text_ok :: "time_window \<Rightarrow> bool" where
  "window_text_ok w \<longleftrightarrow> tw_days w \<noteq> []
     \<and> list_all (\<lambda>d. name_ok d \<and> CHR '','' \<notin> set d) (tw_days w)
     \<and> tw_start_time w \<noteq> [] \<and> trimmed (tw_start_time w) \<and> one_line (tw_start_time w)
     \<and> CHR ''-'' \<notin> set (tw_start_time w)
     \<and> tw_end_time w \<noteq> [] \<and> trimmed (tw_end_time w) \<and> one_line (tw_end_time w)"

lemma split_on_join: "ss \<noteq> [] \<Longrightarrow> (\<And>s. s \<in> set ss \<Longrightarrow> d \<notin> set s) \<Longrightarrow> split_on d (join [d] ss) = ss"
  by (induction "[d]" ss rule: join.induct) (auto simp: split_on_no_sep split_on_append)

lemma join_days:
  assumes "list_all (\<lambda>d. name_ok d \<and> CHR '','' \<notin> set d) days" and "days \<noteq> []"
  shows "CHR '':'' \<notin> set (join '','' days) \<and> one_line (join '','' days) \<and> join '','' days \<noteq> []
         \<and> \<not> is_space (hd (join '','' days))"
  using assms by (induction "'',''" days rule: join.induct) (auto dest!: name_ok_word simp: hd_append)

interpretation window_lines: line_format window_line window_text_of window_text_ok
proof
  fix w :: time_window
  assume w: "window_text_ok w"
  then have d: "tw_days w \<noteq> []" "list_all (\<lambda>d. name_ok d \<and> CHR '','' \<notin> set d) (tw_days w)"
    by (simp_all add: window_text_ok_def)
  note j = join_days [OF d(2,1)]
  show "window_text_of w \<noteq> [] \<and> trimmed (window_text_of w) \<and> one_line (window_text_of w)"
    using w j by (auto simp: window_text_of_def window_text_ok_def trimmed_def)
  have "filter (\<lambda>d. d \<noteq> []) (map trim (tw_days w)) = tw_days w"
    using d(2) by (induction "tw_days w") (auto simp: filter_id_conv map_idI list_all_iff name_ok_word)
  moreover have "split_on (CHR '','') (join '','' (tw_days w)) = tw_days w"
    using d by (intro split_on_join) (auto simp: list_all_iff)
  moreover have "split_once (CHR '':'') (window_text_of w)
      = Some (join '','' (tw_days w), tw_start_time w @ ''-'' @ tw_end_time w)"
    using j by (simp add: window_text_of_def split_once_Some_iff)
  moreover have "split_once (CHR ''-'') (tw_start_time w @ ''-'' @ tw_end_time w)
      = Some (tw_start_time w, tw_end_time w)"
    using w by (simp add: split_once_Some_iff window_text_ok_def)
  ultimately show "window_line n (window_text_of w) = Inr w" for n
    using w d(1) by (simp add: window_line_def Let_def window_text_ok_def trim_trimmed)
qed

section \<open>Durations\<close>

text \<open>What humantime documents of the units the writer uses; milliseconds are only written below a second.\<close>

definition humantime_units :: "external \<Rightarrow> bool" where
  "humantime_units X \<longleftrightarrow>
     (\<forall>n < 1000. humantime_parse X (show_nat n @ ''ms'') = Inr (from_millis n))
     \<and> (\<forall>n. n \<le> u64_max \<longrightarrow> humantime_parse X (show_nat n @ ''s'') = Inr (from_secs n))
     \<and> (\<forall>n. n * 60 \<le> u64_max \<longrightarrow> humantime_parse X (show_nat n @ ''m'') = Inr (from_secs (n * 60)))
     \<and> (\<forall>n. n * 3600 \<le> u64_max \<longrightarrow> humantime_parse X (show_nat n @ ''h'') = Inr (from_secs (n * 3600)))"

text \<open>What is left of a duration: the milliseconds of less than a second, else the seconds.\<close>

definition kept_duration :: "duration \<Rightarrow> duration" where
  "kept_duration d = (if as_secs d = 0 then from_millis (subsec_millis d) else from_secs (as_secs d))"

lemma kept_duration_same_iff:
  "kept_duration d = d \<longleftrightarrow> (if d < nanos_per_sec then d mod 1000000 = 0 else d mod nanos_per_sec = 0)"
proof -
  have "as_secs d = 0 \<longleftrightarrow> d < nanos_per_sec"
    by (simp add: as_secs_def nanos_per_sec_def div_eq_0_iff)
  moreover have "d div 1000000 * 1000000 = d \<longleftrightarrow> d mod 1000000 = 0"
    by (metis add.right_neutral add_left_cancel mult.commute mult_div_mod_eq)
  moreover have "d div nanos_per_sec * nanos_per_sec = d \<longleftrightarrow> d mod nanos_per_sec = 0"
    by (metis add.right_neutral add_left_cancel mult.commute mult_div_mod_eq)
  ultimately show ?thesis
    by (simp add: kept_duration_def from_millis_def from_secs_def subsec_millis_def as_secs_def)
qed

lemma as_secs_bound: "d \<le> duration_max \<Longrightarrow> as_secs d \<le> u64_max"
proof -
  assume "d \<le> duration_max"
  then have "d div nanos_per_sec \<le> duration_max div nanos_per_sec" by (rule div_le_mono)
  then show ?thesis by (simp add: as_secs_def duration_max_def u64_max_def nanos_per_sec_def)
qed

lemma format_duration_parse:
  assumes "humantime_units X" and "d \<le> duration_max"
  shows "humantime_parse X (format_duration d) = Inr (kept_duration d)"
proof -
  have s: "as_secs d \<le> u64_max" by (rule as_secs_bound [OF assms(2)])
  have ms: "subsec_millis d < 1000"
    by (simp add: subsec_millis_def nanos_per_sec_def)
  have m: "as_secs d mod 60 = 0 \<Longrightarrow> as_secs d div 60 * 60 = as_secs d" by auto
  have h: "as_secs d mod 3600 = 0 \<Longrightarrow> as_secs d div 3600 * 3600 = as_secs d" by auto
  show ?thesis
    using assms(1) s ms m h
    by (auto simp: format_duration_def Let_def humantime_units_def kept_duration_def from_millis_def
        from_secs_def)
qed

lemma show_nat_chars: "c \<in> set (show_nat n) \<Longrightarrow> is_digit c"
  using show_nat_digits [of n] by (simp add: list_all_iff)

lemma digit_char_word: "is_digit c \<Longrightarrow> \<not> is_space c \<and> c \<noteq> CHR 0x0A \<and> c \<noteq> CHR 0x0D"
  by (auto simp: is_digit_def is_space_def)

lemma show_nat_word: "\<not> is_space (hd (show_nat n))" "\<not> is_space (last (show_nat n))" "one_line (show_nat n)"
  using show_nat_chars [of _ n] digit_char_word by (auto simp: one_line_def)

lemma unit_letters [simp]: "\<not> is_space (CHR ''s'')" "\<not> is_space (CHR ''m'')" "\<not> is_space (CHR ''h'')"
  by (simp_all add: is_space_def)

lemma format_duration_word: "format_duration d \<noteq> []" "trim (format_duration d) = format_duration d"
proof -
  have "trimmed (show_nat n @ u)" if "u \<in> {''ms'', ''s'', ''m'', ''h''}" for n u
    using that show_nat_word(1) [of n] by (auto simp: trimmed_def)
  then have "trimmed (format_duration d)" by (simp add: format_duration_def Let_def)
  then show "trim (format_duration d) = format_duration d" by (rule trim_trimmed)
  show "format_duration d \<noteq> []" by (simp add: format_duration_def Let_def)
qed

text \<open>A duration survives being written and read when it is whole: the text the writer and the
  edit page give a duration parses to the duration itself exactly for whole seconds, and for whole
  milliseconds of less than a second; any other duration loses its fraction.\<close>

theorem format_duration_roundtrip:
  assumes "humantime_units X" and "d \<le> duration_max"
  shows "parse_duration_field X (format_duration d) = Inr (Some (kept_duration d))
         \<and> (parse_duration_field X (format_duration d) = Inr (Some d) \<longleftrightarrow>
              (if d < nanos_per_sec then d mod 1000000 = 0 else d mod nanos_per_sec = 0))"
  using format_duration_parse [OF assms]
  by (simp add: parse_duration_field_def format_duration_word kept_duration_same_iff)

section \<open>The environment\<close>

definition env_pair_ok :: "string \<times> string \<Rightarrow> bool" where
  "env_pair_ok p \<longleftrightarrow>
     (case p of (k, v) \<Rightarrow> k \<noteq> [] \<and> trimmed k \<and> one_line k \<and> CHR ''='' \<notin> set k
        \<and> one_line v \<and> (v = [] \<or> \<not> is_space (last v)))"

lemma update_fresh: "k \<notin> fst ` set xs \<Longrightarrow> AList.update k v xs = xs @ [(k, v)]"
  by (induction xs) auto

lemma env_line_pair:
  assumes "env_pair_ok (k, v)" and "k \<notin> fst ` set env"
  shows "env_line env (k @ CHR ''='' # v) = env @ [(k, v)]"
proof -
  have k: "k \<noteq> []" "trim k = k" "\<not> is_space (hd k)" "CHR ''='' \<notin> set k" "\<not> is_space (CHR ''='')"
    using assms(1) trimmed_ends [of k] by (auto simp: env_pair_ok_def trim_trimmed is_space_def)
  then have "trimmed (k @ CHR ''='' # v)"
    using assms(1) by (auto simp: env_pair_ok_def trimmed_def)
  moreover have "split_once (CHR ''='') (k @ CHR ''='' # v) = Some (k, v)"
    using k by (simp add: split_once_Some_iff)
  ultimately show ?thesis
    using k assms(2) by (simp add: env_line_def Let_def trim_trimmed update_fresh)
qed

lemma env_lines:
  assumes "list_all env_pair_ok ps" and "distinct (map fst (env @ ps))"
  shows "foldl env_line env (map (\<lambda>(k, v). k @ ''='' @ v) ps) = env @ ps"
  using assms
proof (induction ps arbitrary: env)
  case (Cons p ps)
  obtain k v where p: "p = (k, v)" by (cases p)
  have "k \<notin> fst ` set env" using Cons.prems(2) by (auto simp: p)
  with Cons show ?case
    using Cons.IH [of "env @ [(k, v)]"] by (simp add: p env_line_pair)
qed simp

lemma env_reads_back:
  assumes "list_all env_pair_ok env" and "distinct (map fst env)"
  shows "parse_env_text (crlf (env_text_of env)) = sort_key fst env"
proof -
  have ok: "list_all env_pair_ok (sort_key fst env)" using assms(1) by (simp add: list_all_iff)
  have "mset (map fst (sort_key fst env)) = mset (map fst env)" by simp
  then have d: "distinct (map fst (sort_key fst env))" using assms(2) by (metis mset_eq_imp_distinct_iff)
  have "lines (crlf (env_text_of env)) = map (\<lambda>(k, v). k @ ''='' @ v) (sort_key fst env)"
    unfolding env_text_of_def using ok
    by (intro lines_join) (auto simp: list_all_iff env_pair_ok_def)
  then show ?thesis using env_lines [OF ok, of "[]"] d by (simp add: parse_env_text_def)
qed

section \<open>The whole form\<close>

lemma parse_shown_duration:
  "humantime_units X \<Longrightarrow> d \<le> duration_max \<Longrightarrow>
     parse_duration_field X (format_duration d) = Inr (Some (kept_duration d))"
  using format_duration_parse [of X d] by (simp add: parse_duration_field_def format_duration_word)

lemma parse_no_duration [simp]: "parse_duration_field X [] = Inr None"
  by (simp add: parse_duration_field_def trim_def)

lemma trim_format_duration [simp]: "trim (format_duration d) = format_duration d"
  by (rule format_duration_word)

lemma trim_show_nat [simp]: "trim (show_nat n) = show_nat n"
  using show_nat_word [of n] by (simp add: trim_trimmed trimmed_def)

lemma trim_Nil [simp]: "trim [] = []"
  by (simp add: trim_def)

definition retry_config_ok :: "retry_config \<Rightarrow> bool" where
  "retry_config_ok r \<longleftrightarrow> rc_count r \<le> u32_max \<and> rc_initial_delay r \<le> duration_max
     \<and> rc_max_delay r \<le> duration_max"

definition auth_ok :: "hook_auth_config \<Rightarrow> bool" where
  "auth_ok a \<longleftrightarrow>
     (case a of
        AuthNone \<Rightarrow> True
      | Bearer token \<Rightarrow> token \<noteq> [] \<and> trimmed token
      | Hmac header algorithm secret \<Rightarrow> header \<noteq> [] \<and> trimmed header \<and> secret \<noteq> [] \<and> trimmed secret)"

definition rules_text_ok :: "trigger_rules \<Rightarrow> bool" where
  "rules_text_ok r \<longleftrightarrow>
     list_all filter_text_ok (or_else (ru_payload_filters r) [])
     \<and> list_all window_text_ok (or_else (ru_time_windows r) [])
     \<and> pred_option (\<lambda>d. d \<le> duration_max) (ru_cooldown r)
     \<and> pred_option (\<lambda>l. 0 < tr_max_requests l \<and> tr_max_requests l \<le> u64_max \<and> tr_window l \<le> duration_max)
         (ru_rate_limit r)"

fun executor_shown_ok :: "executor_config \<Rightarrow> bool" where
  "executor_shown_ok (Shell c) = trimmed c"
| "executor_shown_ok (Script c) = trimmed c"
| "executor_shown_ok (JavaScript c) = trimmed c"
| "executor_shown_ok (Python c) = trimmed c"
| "executor_shown_ok (Http m u h b f) = False"

definition hook_shown_ok :: "hook_config \<Rightarrow> bool" where
  "hook_shown_ok hook \<longleftrightarrow>
     trimmed (hk_name hook) \<and> trimmed (hk_slug hook) \<and> trimmed (hk_description hook)
     \<and> one_line (hk_description hook) \<and> executor_shown_ok (hk_executor hook)
     \<and> pred_option (\<lambda>c. c \<noteq> [] \<and> trimmed c) (hk_cwd hook)
     \<and> list_all env_pair_ok (hk_env hook) \<and> distinct (map fst (hk_env hook))
     \<and> pred_option (\<lambda>d. d \<le> duration_max) (hk_timeout hook) \<and> pred_option retry_config_ok (hk_retries hook)
     \<and> pred_option auth_ok (hk_auth hook)
     \<and> pred_option (\<lambda>s. list_all (\<lambda>f. name_ok (pf_name f)) (ps_fields s)) (hk_payload hook)
     \<and> pred_option rules_text_ok (hk_trigger_rules hook)"

text \<open>The data an unchanged page stands for: empty lists and a retry count of zero are no settings, and of
  a duration what its text shows is left.\<close>

definition some_list :: "'a list option \<Rightarrow> 'a list option" where
  "some_list xs = (if or_else xs [] = [] then None else xs)"

definition kept_rate_limit :: "trigger_rate_limit \<Rightarrow> trigger_rate_limit" where
  "kept_rate_limit l = l\<lparr>tr_window := kept_duration (tr_window l)\<rparr>"

definition shown_rules :: "trigger_rules option \<Rightarrow> trigger_rules option" where
  "shown_rules rules = Option.bind rules (\<lambda>r.
     trigger_rules_of (some_list (ru_payload_filters r)) (some_list (ru_time_windows r))
       (map_option kept_duration (ru_cooldown r)) (map_option kept_rate_limit (ru_rate_limit r)))"

definition shown_retries :: "retry_config option \<Rightarrow> retry_form_data option" where
  "shown_retries retries = Option.bind retries (\<lambda>r.
     if rc_count r = 0 then None
     else Some \<lparr>rf_count = rc_count r, rf_backoff = rc_backoff r,
                rf_initial_delay = kept_duration (rc_initial_delay r),
                rf_max_delay = kept_duration (rc_max_delay r)\<rparr>)"

definition shown_data :: "hook_config \<Rightarrow> hook_form_data" where
  "shown_data hook = \<lparr>hd_name = hk_name hook, hd_slug = hk_slug hook,
     hd_description = hk_description hook, hd_enabled = hk_enabled hook, hd_executor = hk_executor hook,
     hd_cwd = hk_cwd hook, hd_env = sort_key fst (hk_env hook),
     hd_timeout = map_option kept_duration (hk_timeout hook),
     hd_retries = shown_retries (hk_retries hook),
     hd_auth = (if hk_auth hook = Some AuthNone then None else hk_auth hook),
     hd_payload = Option.bind (hk_payload hook) (\<lambda>s. if ps_fields s = [] then None else Some s),
     hd_trigger_rules = shown_rules (hk_trigger_rules hook)\<rparr>"

abbreviation unchanged :: "hook_config \<Rightarrow> hook_form" where
  "unchanged hook \<equiv> resubmit (edit_hook_page hook)"

lemmas page_defs = resubmit_def edit_hook_page_def edit_page_def new_hook_page_def selected_def

lemma read_retries:
  "humantime_units X \<Longrightarrow> pred_option retry_config_ok (hk_retries hook) \<Longrightarrow>
     parse_retries X (unchanged hook) = Inr (shown_retries (hk_retries hook))"
  by (cases "hk_retries hook"; cases "rc_backoff (the (hk_retries hook))")
    (auto simp: parse_retries_def page_defs case_prod_unfold Let_def shown_retries_def retry_config_ok_def
      parse_show_nat parse_shown_duration)

lemma only_sha256: "a = Sha256"
  by (cases a)

lemma read_auth:
  "pred_option auth_ok (hk_auth hook) \<Longrightarrow>
     parse_auth (unchanged hook) = Inr (if hk_auth hook = Some AuthNone then None else hk_auth hook)"
  by (auto simp: parse_auth_def page_defs case_prod_unfold Let_def auth_ok_def trim_trimmed
      split: option.splits hook_auth_config.splits intro: only_sha256 [symmetric])

lemma kind_words [simp]:
  "trim ''shell'' = ''shell''" "trim ''script'' = ''script''" "trim ''javascript'' = ''javascript''"
  "trim ''python'' = ''python''"
  by (simp_all add: trim_def is_space_def)

lemma read_executor:
  "executor_shown_ok (hk_executor hook) \<Longrightarrow> parse_executor (unchanged hook) = Inr (hk_executor hook)"
  by (cases "hk_executor hook")
    (auto simp: parse_executor_def page_defs case_prod_unfold Let_def trim_trimmed)

lemma read_payload:
  assumes "pred_option (\<lambda>s. list_all (\<lambda>f. name_ok (pf_name f)) (ps_fields s)) (hk_payload hook)"
  shows "parse_payload_text (fm_payload_text (unchanged hook))
           = Inr (Option.bind (hk_payload hook) (\<lambda>s. if ps_fields s = [] then None else Some s))"
proof -
  have "fm_payload_text (unchanged hook) = crlf (join [CHR 0x0A]
      (map payload_field_text (case hk_payload hook of Some s \<Rightarrow> ps_fields s | None \<Rightarrow> [])))"
    by (simp add: page_defs case_prod_unfold Let_def payload_text_of_def payload_field_text_def [abs_def]
        split: option.split)
  then show ?thesis
    using assms payload_lines.text_reads_back [of "case hk_payload hook of Some s \<Rightarrow> ps_fields s | None \<Rightarrow> []"]
    by (auto simp: parse_payload_text_def split: option.splits)
qed

definition rules_of :: "hook_config \<Rightarrow> trigger_rules" where
  "rules_of hook = or_else (hk_trigger_rules hook)
     \<lparr>ru_payload_filters = None, ru_time_windows = None, ru_cooldown = None, ru_rate_limit = None\<rparr>"

lemma shown_rule_fields:
  "fm_trigger_filters_text (unchanged hook)
     = crlf (join [CHR 0x0A] (map filter_text_of (or_else (ru_payload_filters (rules_of hook)) [])))"
  "fm_trigger_windows_text (unchanged hook)
     = crlf (join [CHR 0x0A] (map window_text_of (or_else (ru_time_windows (rules_of hook)) [])))"
  "fm_trigger_cooldown (unchanged hook)
     = (case ru_cooldown (rules_of hook) of Some d \<Rightarrow> format_duration d | None \<Rightarrow> [])"
  "fm_trigger_rate_max (unchanged hook)
     = Some (case ru_rate_limit (rules_of hook) of Some rl \<Rightarrow> show_nat (tr_max_requests rl) | None \<Rightarrow> [])"
  "fm_trigger_rate_window (unchanged hook)
     = (case ru_rate_limit (rules_of hook) of Some rl \<Rightarrow> format_duration (tr_window rl) | None \<Rightarrow> [])"
  by (auto simp: page_defs rules_of_def case_prod_unfold Let_def crlf_def split: option.splits)

lemma read_filters:
  "rules_text_ok r \<Longrightarrow>
     parse_filters_text (crlf (join [CHR 0x0A] (map filter_text_of (or_else (ru_payload_filters r) []))))
       = Inr (some_list (ru_payload_filters r))"
  using filter_lines.text_reads_back [of "or_else (ru_payload_filters r) []"]
  by (cases "ru_payload_filters r") (auto simp: rules_text_ok_def parse_filters_text_def some_list_def)

lemma read_windows:
  "rules_text_ok r \<Longrightarrow>
     parse_windows_text (crlf (join [CHR 0x0A] (map window_text_of (or_else (ru_time_windows r) []))))
       = Inr (some_list (ru_time_windows r))"
  using window_lines.text_reads_back [of "or_else (ru_time_windows r) []"]
  by (cases "ru_time_windows r") (auto simp: rules_text_ok_def parse_windows_text_def some_list_def)

lemma read_rate_limit:
  assumes "humantime_units X" and "rules_text_ok (rules_of hook)"
  shows "parse_rate_limit X (unchanged hook) = Inr (map_option kept_rate_limit (ru_rate_limit (rules_of hook)))"
  using assms
  by (cases "ru_rate_limit (rules_of hook)")
    (auto simp: parse_rate_limit_def shown_rule_fields Let_def rules_text_ok_def parse_show_nat
      parse_shown_duration format_duration_word(1) kept_rate_limit_def)

lemma read_cooldown:
  assumes "humantime_units X" and "rules_text_ok (rules_of hook)"
  shows "parse_duration_field X (trim (fm_trigger_cooldown (unchanged hook)))
    = Inr (map_option kept_duration (ru_cooldown (rules_of hook)))"
  using assms
  by (cases "ru_cooldown (rules_of hook)") (auto simp: shown_rule_fields rules_text_ok_def parse_shown_duration)

lemma rules_of_shown:
  "trigger_rules_of (some_list (ru_payload_filters (rules_of hook))) (some_list (ru_time_windows (rules_of hook)))
     (map_option kept_duration (ru_cooldown (rules_of hook)))
     (map_option kept_rate_limit (ru_rate_limit (rules_of hook))) = shown_rules (hk_trigger_rules hook)"
  by (cases "hk_trigger_rules hook") (auto simp: rules_of_def shown_rules_def some_list_def trigger_rules_of_def)

lemma edit_form_reads_back:
  assumes "humantime_units X" and "hook_shown_ok hook"
  shows "parse_hook_form X (resubmit (edit_hook_page hook)) = Inr (shown_data hook)"
proof -
  have ok: "pred_option retry_config_ok (hk_retries hook)" "pred_option auth_ok (hk_auth hook)"
      "pred_option (\<lambda>s. list_all (\<lambda>f. name_ok (pf_name f)) (ps_fields s)) (hk_payload hook)"
      "executor_shown_ok (hk_executor hook)" "rules_text_ok (rules_of hook)"
    using assms(2)
    by (cases "hk_trigger_rules hook"; simp add: hook_shown_ok_def rules_of_def rules_text_ok_def)+
  have timeout: "parse_duration_field X (fm_timeout (unchanged hook))
      = Inr (map_option kept_duration (hk_timeout hook))"
    using assms by (cases "hk_timeout hook")
      (auto simp: page_defs case_prod_unfold Let_def hook_shown_ok_def parse_shown_duration)
  have env: "parse_env_text (fm_env_text (unchanged hook)) = sort_key fst (hk_env hook)"
    using assms(2) by (simp add: page_defs case_prod_unfold Let_def hook_shown_ok_def env_reads_back)
  have rest: "fm_name (unchanged hook) = hk_name hook" "fm_slug (unchanged hook) = hk_slug hook"
      "fm_description (unchanged hook) = crlf (hk_description hook)"
      "fm_enabled (unchanged hook) = (if hk_enabled hook then Some ''true'' else None)"
      "fm_cwd (unchanged hook) = or_else (hk_cwd hook) []"
    by (simp_all add: page_defs case_prod_unfold Let_def)
  note fields = read_retries [OF assms(1) ok(1)] read_auth [OF ok(2)] read_payload [OF ok(3)]
    read_executor [OF ok(4)] read_filters [OF ok(5)] read_windows [OF ok(5)]
    read_rate_limit [OF assms(1) ok(5)] read_cooldown [OF assms(1) ok(5)] rules_of_shown
  show ?thesis
    using assms(2)
    by (cases "hk_cwd hook") (auto simp: parse_hook_form_def shown_data_def timeout env rest fields
        shown_rule_fields(1,2) hook_shown_ok_def crlf_one_line trim_trimmed Let_def)
qed


section \<open>A hook with every kind of setting\<close>

definition units_parse :: "string \<Rightarrow> string + duration" where
  "units_parse s =
     (let n = digits_value (takeWhile is_digit s); u = dropWhile is_digit s
      in if u = ''ms'' then Inr (from_millis n)
         else if u = ''s'' then Inr (from_secs n)
         else if u = ''m'' then Inr (from_secs (n * 60))
         else if u = ''h'' then Inr (from_secs (n * 3600))
         else Inl ''bad'')"

definition units_external :: external where
  "units_external = sample_external\<lparr>humantime_parse := units_parse\<rparr>"

lemma digits_then_unit:
  assumes "\<not> is_digit c"
  shows "takeWhile is_digit (show_nat n @ c # u) = show_nat n" "dropWhile is_digit (show_nat n @ c # u) = c # u"
  using assms by (auto simp: takeWhile_append2 dropWhile_append2 show_nat_chars)

lemma units_external_units: "humantime_units units_external"
  by (simp add: humantime_units_def units_external_def units_parse_def digits_then_unit is_digit_def)

definition rich_hook :: hook_config where
  "rich_hook = \<lparr>hk_name = ''Deploy'', hk_slug = ''deploy'', hk_description = ''to prod'', hk_enabled = True,
     hk_auth = Some (Hmac ''X-Sig'' Sha256 ''${KEY}''), hk_executor = Script ''deploy.sh'',
     hk_env = [(''B'', ''x y''), (''A'', [])], hk_cwd = Some ''/srv'', hk_timeout = Some (from_secs 90),
     hk_retries = Some \<lparr>rc_count = 2, rc_backoff = BackoffLinear, rc_initial_delay = from_millis 500,
                         rc_max_delay = from_secs 60\<rparr>,
     hk_rate_limit = None,
     hk_payload = Some \<lparr>ps_fields = [\<lparr>pf_name = ''env'', pf_field_type = FtString, pf_required = True\<rparr>]\<rparr>,
     hk_trigger_rules = Some \<lparr>
       ru_payload_filters = Some [\<lparr>fl_field = ''env'', fl_operator = OpEquals, fl_value = Some ''a:b''\<rparr>],
       ru_time_windows = Some [\<lparr>tw_days = [''Mon'', ''Tue''], tw_start_time = ''09:00'', tw_end_time = ''17:00''\<rparr>],
       ru_cooldown = None, ru_rate_limit = Some \<lparr>tr_max_requests = 3, tr_window = from_secs 3600\<rparr>\<rparr>,
     hk_concurrency = None, hk_approval = None, hk_notification = None\<rparr>"

lemma rich_hook_shown_ok: "hook_shown_ok rich_hook"
  by (simp add: hook_shown_ok_def rich_hook_def trimmed_def is_space_def env_pair_ok_def
      retry_config_ok_def auth_ok_def name_ok_def rules_text_ok_def filter_text_ok_def window_text_ok_def
      from_secs_def from_millis_def nanos_per_sec_def duration_max_def u32_max_def u64_max_def)


theorem format_duration_roundtrip_witness:
  "parse_duration_field units_external (format_duration 1500000000) = Inr (Some 1000000000)
   \<and> parse_duration_field units_external (format_duration (from_secs 90)) = Inr (Some (from_secs 90))"
proof -
  have "1500000000 \<le> duration_max" "from_secs 90 \<le> duration_max"
    by (simp_all add: duration_max_def nanos_per_sec_def from_secs_def)
  then show ?thesis
    using format_duration_roundtrip [OF units_external_units]
    by (simp add: kept_duration_def as_secs_def from_secs_def nanos_per_sec_def)
qed

end
