(* ===== verification/Hook_Admin.thy ===== *)
theory Hook_Admin
  imports Hook_Form Trigger_Hook
begin

text \<open>
  The handlers that create, edit and delete hooks (\<open>src/routes/hooks.rs\<close>), with the reload of the
  live configuration (\<open>src/server.rs\<close>). The live configuration is \<open>w_config\<close>; the file is a file of
  the world.
\<close>

section \<open>Reloading\<close>

text \<open>The reload reads no JSON override. A file that cannot be read is an error of figment.\<close>

definition reload_config :: "external \<Rightarrow> config_lib \<Rightarrow> string \<Rightarrow> bool io" where
  "reload_config X L path = do {
     ok \<leftarrow> io_step;
     files \<leftarrow> gets w_files;
     if \<not> ok then return False
     else case load_from X L (files path) (files ''nonexistent.json'') of
            Inl e \<Rightarrow> return False
          | Inr new_config \<Rightarrow> do {
              _ \<leftarrow> modify (\<lambda>w. w\<lparr>w_config := new_config\<rparr>);
              return True } }"

section \<open>Handlers\<close>

text \<open>A form is answered by its page with a message or by a redirect.\<close>

datatype form_response = FormPage hook_form_page string | GoTo string

definition config_error_text :: "config_error \<Rightarrow> string" where
  "config_error_text e =
     (case e of
        Figment msg \<Rightarrow> ''config loading failed: '' @ msg
      | Validation msg \<Rightarrow> ''config validation failed:'' @ [CHR 0x0A] @ msg)"

definition write_error_message :: "write_error \<Rightarrow> string" where
  "write_error_message e =
     (case e of
        SlugConflict slug \<Rightarrow> ''A hook with slug '' @ quoted slug @ '' already exists''
      | HookNotFound slug \<Rightarrow> ''Hook '' @ quoted slug @ '' not found''
      | WriteValidation inner \<Rightarrow> ''Validation error: '' @ config_error_text inner
      | WriteIo \<Rightarrow> ''Failed to write config file''
      | WriteParse _ \<Rightarrow> ''Failed to parse config file'')"

definition create_hook :: "external \<Rightarrow> config_lib \<Rightarrow> string \<Rightarrow> hook_form \<Rightarrow> form_response io" where
  "create_hook X L path form =
     (case parse_hook_form X form of
        Inl msg \<Rightarrow> return (FormPage (submitted_hook_form_page form new_hook_page) msg)
      | Inr data \<Rightarrow> do {
          added \<leftarrow> config_add_hook X L path data;
          case added of
            Inl e \<Rightarrow> return (FormPage (submitted_hook_form_page form new_hook_page) (write_error_message e))
          | Inr _ \<Rightarrow> do {
              _ \<leftarrow> reload_config X L path;
              return (GoTo (''/hooks/'' @ hd_slug data @ ''?success=Hook+created'')) } })"

definition existing_hook_is_http :: "app_config \<Rightarrow> string \<Rightarrow> bool" where
  "existing_hook_is_http config slug \<longleftrightarrow>
     list_ex (\<lambda>hook. hk_slug hook = slug \<and> (case hk_executor hook of Http _ _ _ _ _ \<Rightarrow> True | _ \<Rightarrow> False))
       (cf_hooks config)"

definition update_hook :: "external \<Rightarrow> config_lib \<Rightarrow> string \<Rightarrow> string \<Rightarrow> hook_form \<Rightarrow> form_response io" where
  "update_hook X L path slug form = do {
     config \<leftarrow> gets w_config;
     if existing_hook_is_http config slug
     then return (GoTo (''/hooks/'' @ slug @ ''/edit?error='' @ cl_url_encode L http_executor_form_error))
     else case parse_hook_form X form of
            Inl msg \<Rightarrow> return (FormPage (submitted_hook_form_page form (edit_page slug (fm_name form))) msg)
          | Inr data \<Rightarrow> do {
              updated \<leftarrow> config_update_hook X L path slug data;
              case updated of
                Inl e \<Rightarrow> return (FormPage (submitted_hook_form_page form (edit_page slug (fm_name form)))
                                 (write_error_message e))
              | Inr _ \<Rightarrow> do {
                  _ \<leftarrow> reload_config X L path;
                  return (GoTo (''/hooks/'' @ slug @ ''?success=Changes+saved'')) } } }"

definition delete_hook :: "external \<Rightarrow> config_lib \<Rightarrow> string \<Rightarrow> string \<Rightarrow> form_response io" where
  "delete_hook X L path slug = do {
     removed \<leftarrow> config_remove_hook X L path slug;
     case removed of
       Inl e \<Rightarrow> return (GoTo (''/hooks/'' @ slug @ ''?error='' @ cl_url_encode L (write_error_message e)))
     | Inr _ \<Rightarrow> do {
         _ \<leftarrow> reload_config X L path;
         return (GoTo ''/?success=Hook+deleted'') } }"

section \<open>The live configuration\<close>

lemma run_reload_config:
  "run_state (reload_config X L path) w =
     (if w_io_fault w (w_ios w) then (False, w\<lparr>w_ios := Suc (w_ios w)\<rparr>)
      else case load_from X L (w_files w path) (w_files w ''nonexistent.json'') of
             Inl e \<Rightarrow> (False, w\<lparr>w_ios := Suc (w_ios w)\<rparr>)
           | Inr c \<Rightarrow> (True, w\<lparr>w_ios := Suc (w_ios w), w_config := c\<rparr>))"
  by (simp add: reload_config_def split: sum.split)

text \<open>A change of the file leaves the tables, the configuration and the streams alone.\<close>

lemma tables_io_files [tables_intros]:
  "state_io_rel same_tables (remove_file p)" "state_io_rel same_tables (rename_file p q)"
  by (simp_all add: state_io_rel_def same_tables_def)

lemma tables_change_config [tables_intros]: "state_io_rel same_tables (change_config X L path change)"
  unfolding change_config_def read_document_def validate_and_write_def tempfile_in_def Let_def
  by (intro tables_intros)

text \<open>The text that a change starts from: a file that cannot be read counts as empty.\<close>

definition text_read :: "string \<Rightarrow> world \<Rightarrow> string" where
  "text_read path w =
     (if w_io_fault w (w_ios w) then [] else case w_files w path of Some c \<Rightarrow> c | None \<Rightarrow> [])"

text \<open>What a handler of this file does to the file and the configuration: nothing, or the document
  is changed, printed and loaded.\<close>

definition saved :: "external \<Rightarrow> config_lib \<Rightarrow> string \<Rightarrow> (toml_table \<Rightarrow> write_error + toml_table)
    \<Rightarrow> world \<Rightarrow> bool \<Rightarrow> world \<Rightarrow> bool" where
  "saved X L path change w success w' \<longleftrightarrow>
     (if success
      then \<exists>doc doc' config. cl_parse L (text_read path w) = Inr doc \<and> change doc = Inr doc'
             \<and> w_files w' path = Some (cl_print L doc')
             \<and> load_from X L (Some (cl_print L doc')) (w_files w ''nonexistent.json'') = Inr config
             \<and> (w_config w' = config \<or> w_config w' = w_config w \<and> \<not> no_io_faults w)
      else w_files w' path = w_files w path \<and> w_config w' = w_config w)
     \<and> w_execs w' = w_execs w \<and> w_attempts w' = w_attempts w \<and> w_locks w' = w_locks w
     \<and> w_queue w' = w_queue w \<and> w_tasks w' = w_tasks w"

lemma change_config_parsed:
  assumes "run_state (change_config X L path change) w = (Inr u, w')"
  obtains doc where "cl_parse L (text_read path w) = Inr doc"
  using assms by (cases "cl_parse L (text_read path w)")
    (auto simp: change_config_def run_read_document text_read_def split: sum.splits if_splits option.splits)

lemma change_then_reload:
  assumes "tmp_path L (parent_dir path) \<noteq> path" and "path \<noteq> ''nonexistent.json''"
    and "run_state (do { r \<leftarrow> change_config X L path change;
           case r of Inl e \<Rightarrow> return (bad e)
           | Inr _ \<Rightarrow> do { _ \<leftarrow> reload_config X L path; return good } }) w = (out, w')"
    and "\<And>e. bad e \<noteq> good"
  shows "saved X L path change w (out = good) w'"
proof -
  obtain r w1 where 1: "run_state (change_config X L path change) w = (r, w1)" by fastforce
  have "same_tables w w1"
    using tables_change_config [of X L path change] 1 by (metis state_io_rel_def snd_conv)
  then have same: "w_config w1 = w_config w" "w_execs w1 = w_execs w" "w_attempts w1 = w_attempts w"
      "w_locks w1 = w_locks w" "w_queue w1 = w_queue w" "w_tasks w1 = w_tasks w"
      "w_io_fault w1 = w_io_fault w" by (simp_all add: same_tables_def)
  have wr: "written X L path w r w1"
    using change_config_written [OF assms(1), where X = X and change = change and w = w] 1 by simp
  show ?thesis
  proof (cases r)
    case (Inl e)
    with assms(3,4) 1 wr same show ?thesis by (auto simp: saved_def written_def)
  next
    case (Inr u)
    with 1 obtain doc where doc: "cl_parse L (text_read path w) = Inr doc" by (auto elim: change_config_parsed)
    with Inr 1 obtain doc' where doc': "change doc = Inr doc'" "w_files w1 path = Some (cl_print L doc')"
      using change_config_success [OF assms(1), of X change w u w1 doc] by (auto simp: text_read_def)
    then obtain config where "load_from X L (Some (cl_print L doc')) (w_files w ''nonexistent.json'') = Inr config"
        "w_files w1 ''nonexistent.json'' = w_files w ''nonexistent.json''"
      using wr Inr assms(2) tmp_path_not_json [of L "parent_dir path"] by (auto simp: written_def)
    with assms(3) Inr 1 same doc doc' show ?thesis
      by (auto simp: saved_def no_io_faults_def run_reload_config split: if_splits)
  qed
qed

text \<open>Each handler with its change of the document and the answer that reports success.\<close>

definition admin_operations :: "external \<Rightarrow> config_lib \<Rightarrow> string \<Rightarrow> string \<Rightarrow> hook_form
    \<Rightarrow> (form_response io \<times> (toml_table \<Rightarrow> write_error + toml_table) \<times> form_response) set" where
  "admin_operations X L path slug form =
     {(create_hook X L path form, add_hook_doc (projr (parse_hook_form X form)),
       GoTo (''/hooks/'' @ hd_slug (projr (parse_hook_form X form)) @ ''?success=Hook+created'')),
      (update_hook X L path slug form, update_hook_doc slug (projr (parse_hook_form X form)),
       GoTo (''/hooks/'' @ slug @ ''?success=Changes+saved'')),
      (delete_hook X L path slug, remove_hook_doc slug, GoTo ''/?success=Hook+deleted'')}"

lemma handlers_saved:
  assumes "tmp_path L (parent_dir path) \<noteq> path" and "path \<noteq> ''nonexistent.json''"
    and "(op, change, good) \<in> admin_operations X L path slug form" and "run_state op w = (out, w')"
  shows "saved X L path change w (out = good) w'"
proof -
  note run = change_then_reload [OF assms(1,2)]
  consider (create) "op = create_hook X L path form" "change = add_hook_doc (projr (parse_hook_form X form))"
        "good = GoTo (''/hooks/'' @ hd_slug (projr (parse_hook_form X form)) @ ''?success=Hook+created'')"
    | (update) "op = update_hook X L path slug form" "change = update_hook_doc slug (projr (parse_hook_form X form))"
        "good = GoTo (''/hooks/'' @ slug @ ''?success=Changes+saved'')"
    | (delete) "op = delete_hook X L path slug" "change = remove_hook_doc slug" "good = GoTo ''/?success=Hook+deleted''"
    using assms(3) by (auto simp: admin_operations_def)
  then show ?thesis
  proof cases
    case create
    show ?thesis
    proof (cases "parse_hook_form X form")
      case (Inl msg)
      with assms(4) create show ?thesis by (auto simp: create_hook_def saved_def)
    next
      case (Inr data)
      with assms(4) create show ?thesis
        by (auto simp: create_hook_def config_add_hook_def intro!: run)
    qed
  next
    case update
    show ?thesis
    proof (cases "existing_hook_is_http (w_config w) slug \<or> isl (parse_hook_form X form)")
      case True
      with assms(4) update show ?thesis
        by (auto simp: update_hook_def saved_def split: sum.splits if_splits)
    next
      case False
      then obtain data where "parse_hook_form X form = Inr data" by (cases "parse_hook_form X form") auto
      with False assms(4) update show ?thesis
        by (auto simp: update_hook_def config_update_hook_def intro!: run)
    qed
  next
    case delete
    with assms(4) show ?thesis by (auto simp: delete_hook_def config_remove_hook_def intro!: run)
  qed
qed

text \<open>C11: The hook pages keep the file and the live configuration together. Creating, editing or
  deleting a hook answers with its success redirect exactly when the file was written: then the
  file holds the print of the document that was read with the hook added, changed or removed,
  this text loads and validates, and the live configuration is what it loads to (when a file
  operation failed it may still be the old one). With any other answer, a form that is shown
  again or a redirect that reports an error, neither the file nor the live configuration has
  changed. Executions, attempts, locks, queue and tasks are never touched.\<close>

theorem hook_admin_saved:
  assumes "(op, change, good) \<in> admin_operations X L path slug form"
    and "tmp_path L (parent_dir path) \<noteq> path" and "path \<noteq> ''nonexistent.json''"
    and "run_state op w = (out, w')"
  shows "(if out = good
        then \<exists>doc doc' config. cl_parse L (text_read path w) = Inr doc \<and> change doc = Inr doc'
               \<and> w_files w' path = Some (cl_print L doc')
               \<and> load_from X L (Some (cl_print L doc')) (w_files w ''nonexistent.json'') = Inr config
               \<and> (w_config w' = config \<or> w_config w' = w_config w \<and> \<not> no_io_faults w)
        else w_files w' path = w_files w path \<and> w_config w' = w_config w)
     \<and> w_execs w' = w_execs w \<and> w_attempts w' = w_attempts w \<and> w_locks w' = w_locks w
     \<and> w_queue w' = w_queue w \<and> w_tasks w' = w_tasks w"
  using handlers_saved [OF assms(2,3,1,4)] unfolding saved_def .

text \<open>A hook whose executor is an HTTP request is out of the form's reach: updating it is answered
  with a redirect and changes nothing at all.\<close>

theorem http_hook_not_edited:
  assumes "hook \<in> set (cf_hooks (w_config w))" and "hk_slug hook = slug"
    and "hk_executor hook = Http m url hdrs body follow"
  shows "\<exists>target. run_state (update_hook X L path slug form) w = (GoTo target, w)"
proof -
  have "existing_hook_is_http (w_config w) slug"
    using assms by (auto simp: existing_hook_is_http_def list_ex_iff)
  then show ?thesis by (simp add: update_hook_def)
qed

text \<open>A save forgets the JSON override. At start-up the configuration is loaded from
  \<open>sendword.toml\<close> with the overrides of \<open>sendword.json\<close>; after a hook was added through the form,
  the live configuration is what the TOML file alone loads to, although the override is still
  there.\<close>

theorem reload_ignores_override:
  assumes "no_io_faults w" and "parse_hook_form X form = Inr data"
    and "w_files w ''nonexistent.json'' = None"
    and "tmp_path L (parent_dir ''sendword.toml'') \<notin> {''sendword.toml'', ''sendword.json''}"
    and "run_state (create_hook X L ''sendword.toml'' form) w = (GoTo target, w')"
  shows "\<exists>text. w_files w' ''sendword.toml'' = Some text
           \<and> load_from X L (Some text) None = Inr (w_config w')
           \<and> w_files w' ''sendword.json'' = w_files w ''sendword.json''"
proof -
  obtain r w1 where 1: "run_state (config_add_hook X L ''sendword.toml'' data) w = (r, w1)" by fastforce
  have t: "tmp_path L (parent_dir ''sendword.toml'') \<noteq> ''sendword.toml''" using assms(4) by simp
  from 1 assms(2,5) obtain u where r: "r = Inr u"
    by (cases r) (simp_all add: create_hook_def)
  have "same_tables w w1"
    using tables_change_config [of X L "''sendword.toml''" "add_hook_doc data"] 1
    by (metis config_add_hook_def state_io_rel_def snd_conv)
  then have nf: "\<not> w_io_fault w1 n" for n
    using assms(1) by (simp add: same_tables_def no_io_faults_def)
  have wr: "written X L ''sendword.toml'' w r w1"
    using change_config_written [OF t, where X = X and change = "add_hook_doc data" and w = w] 1
    by (simp add: config_add_hook_def)
  then obtain t1 c where c: "w_files w1 ''sendword.toml'' = Some t1" "load_from X L (Some t1) None = Inr c"
    using r assms(3) by (auto simp: written_def)
  have "w_files w1 ''nonexistent.json'' = None" "w_files w1 ''sendword.json'' = w_files w ''sendword.json''"
    using wr r assms(3,4) tmp_path_not_json [of L "parent_dir ''sendword.toml''"] by (auto simp: written_def)
  with c nf r 1 assms(2,5) show ?thesis
    by (auto simp: create_hook_def run_reload_config)
qed

text \<open>An unchanged save can switch retries on. A hook that sets its retry count to zero is never
  retried, whatever the global default. Submitting its edit page as it is removes \<open>retries\<close> from
  the hook's table, and a hook without \<open>retries\<close> is retried as often as the global default says.\<close>

theorem save_enables_retries:
  assumes "humantime_units X" and "hook_shown_ok hook" and "hk_retries hook = Some r" and "rc_count r = 0"
  shows "er_count (resolve_retry_config hook global) = 0
    \<and> (\<exists>data. parse_hook_form X (resubmit (edit_hook_page hook)) = Inr data
          \<and> map_of (apply_hook_fields data t) ''retries'' = None)
    \<and> er_count (resolve_retry_config (hook\<lparr>hk_retries := None\<rparr>) global) = rc_count global"
  using edit_form_reads_back [OF assms(1,2)] assms(3,4)
  by (simp add: resolve_retry_config_def Let_def shown_data_def shown_retries_def apply_hook_fields_def
      retries_item_def)

section \<open>Concrete runs\<close>

theorem save_enables_retries_witness:
  "er_count (resolve_retry_config (rich_hook\<lparr>hk_retries := Some default_retry_config\<rparr>)
      (default_retry_config\<lparr>rc_count := 3\<rparr>)) = 0
   \<and> er_count (resolve_retry_config (rich_hook\<lparr>hk_retries := None\<rparr>)
      (default_retry_config\<lparr>rc_count := 3\<rparr>)) = 3"
proof -
  have "hook_shown_ok (rich_hook\<lparr>hk_retries := Some default_retry_config\<rparr>)"
    using rich_hook_shown_ok
    by (simp add: hook_shown_ok_def retry_config_ok_def default_retry_config_def from_secs_def
        nanos_per_sec_def duration_max_def u32_max_def)
  from save_enables_retries [OF units_external_units this, of default_retry_config
      "default_retry_config\<lparr>rc_count := 3\<rparr>"] show ?thesis
    by (simp add: default_retry_config_def rich_hook_def)
qed


definition plain_form :: hook_form where
  "plain_form = \<lparr>fm_name = ''N'', fm_slug = ''n'', fm_description = [], fm_enabled = None,
     fm_executor_type = ''shell'', fm_command = ''make'', fm_cwd = [], fm_timeout = [], fm_env_text = [],
     fm_retry_count = None, fm_retry_backoff = None, fm_retry_initial_delay = None,
     fm_retry_max_delay = None, fm_auth_mode = None, fm_auth_token = None, fm_auth_header = None,
     fm_auth_algorithm = None, fm_auth_secret = None, fm_payload_text = [],
     fm_trigger_filters_text = [], fm_trigger_windows_text = [], fm_trigger_cooldown = [],
     fm_trigger_rate_max = None, fm_trigger_rate_window = []\<rparr>"

lemma plain_form_parse: "\<exists>data. parse_hook_form X plain_form = Inr data \<and> hd_slug data = ''n''"
  by (simp add: parse_hook_form_def plain_form_def parse_retries_def parse_auth_def parse_payload_text_def
      parse_filters_text_def parse_windows_text_def parse_rate_limit_def parse_executor_def
      some_items_def lines_def parse_unsigned_def trim_def is_space_def Let_def)

theorem hook_admin_saved_witness:
  "(\<exists>page msg w'. run_state (create_hook sample_external sample_config_lib ''sendword.toml''
            (plain_form\<lparr>fm_executor_type := ''http''\<rparr>)) (config_file_world ''1'' (\<lambda>_. False)) = (FormPage page msg, w')
        \<and> w_files w' ''sendword.toml'' = Some ''1'')
   \<and> (\<exists>w'. run_state (delete_hook sample_external sample_config_lib ''sendword.toml'' ''deploy'')
            (config_file_world ''1'' (\<lambda>_. False)) = (GoTo ''/?success=Hook+deleted'', w')
        \<and> w_files w' ''sendword.toml'' = Some ''3'')"
proof (intro conjI)
  let ?form = "plain_form\<lparr>fm_executor_type := ''http''\<rparr>"
  let ?w = "config_file_world ''1'' (\<lambda>_. False)"
  note saves = hook_admin_saved [OF _ sample_tmp_path _, where X = sample_external and form = ?form
      and slug = "''deploy''" and w = ?w]
  obtain out w' where run: "run_state (create_hook sample_external sample_config_lib ''sendword.toml'' ?form) ?w
      = (out, w')" by fastforce
  have "\<exists>msg. parse_hook_form sample_external ?form = Inl msg"
    by (simp add: parse_hook_form_def plain_form_def parse_retries_def parse_auth_def parse_payload_text_def
        parse_filters_text_def parse_windows_text_def parse_rate_limit_def parse_executor_def
        some_items_def lines_def parse_unsigned_def trim_def is_space_def Let_def)
  with run obtain page msg where out: "out = FormPage page msg" by (auto simp: create_hook_def)
  have "w_files w' ''sendword.toml'' = w_files ?w ''sendword.toml''"
    using saves [OF _ _ run, where change = "add_hook_doc (projr (parse_hook_form sample_external ?form))"
        and good = "GoTo (''/hooks/'' @ hd_slug (projr (parse_hook_form sample_external ?form)) @ ''?success=Hook+created'')"]
      out by (simp add: admin_operations_def)
  with run out show "\<exists>page msg w'. run_state (create_hook sample_external sample_config_lib ''sendword.toml'' ?form) ?w
      = (FormPage page msg, w') \<and> w_files w' ''sendword.toml'' = Some ''1''"
    by (simp add: config_file_world_def)
  have changed: "remove_hook_doc ''deploy'' sample_doc = Inr []"
    by (simp add: remove_hook_doc_def find_hook_index_def sample_doc_def tbl_slug_def tbl_remove_def)
  have parsed: "cl_parse sample_config_lib (text_read ''sendword.toml'' ?w) = Inr sample_doc"
    by (simp add: text_read_def config_file_world_def sample_config_lib_def)
  obtain w1 where "run_state (change_config sample_external sample_config_lib ''sendword.toml''
      (remove_hook_doc ''deploy'')) ?w = (Inr (), w1)"
    using sample_change [of "remove_hook_doc ''deploy''" sample_doc "\<lambda>_. False" "''1''"] changed
    by (auto simp: sample_config_lib_def)
  then obtain w2 where del: "run_state (delete_hook sample_external sample_config_lib ''sendword.toml'' ''deploy'') ?w
      = (GoTo ''/?success=Hook+deleted'', w2)"
    by (simp add: delete_hook_def config_remove_hook_def case_prod_unfold)
  have "w_files w2 ''sendword.toml'' = Some (cl_print sample_config_lib [])"
    using saves [OF _ _ del, where change = "remove_hook_doc ''deploy''" and good = "GoTo ''/?success=Hook+deleted''"]
      parsed changed by (auto simp: admin_operations_def)
  with del show "\<exists>w'. run_state (delete_hook sample_external sample_config_lib ''sendword.toml'' ''deploy'') ?w
      = (GoTo ''/?success=Hook+deleted'', w') \<and> w_files w' ''sendword.toml'' = Some ''3''"
    by (simp add: sample_config_lib_def sample_doc_def inline_doc_def)
qed

theorem http_hook_not_edited_witness:
  "\<exists>hook target. hook \<in> set (cf_hooks (w_config (sample_world\<lparr>w_config := default_app_config\<lparr>cf_hooks :=
        [sample_hook\<lparr>hk_executor := Http Post ''https://x'' [] None True\<rparr>]\<rparr>\<rparr>)))
     \<and> run_state (update_hook sample_external sample_config_lib ''sendword.toml'' ''deploy-app'' plain_form)
        (sample_world\<lparr>w_config := default_app_config\<lparr>cf_hooks :=
           [sample_hook\<lparr>hk_executor := Http Post ''https://x'' [] None True\<rparr>]\<rparr>\<rparr>)
        = (GoTo target, sample_world\<lparr>w_config := default_app_config\<lparr>cf_hooks :=
           [sample_hook\<lparr>hk_executor := Http Post ''https://x'' [] None True\<rparr>]\<rparr>\<rparr>)"
proof -
  let ?hook = "sample_hook\<lparr>hk_executor := Http Post ''https://x'' [] None True\<rparr>"
  let ?w = "sample_world\<lparr>w_config := default_app_config\<lparr>cf_hooks := [?hook]\<rparr>\<rparr>"
  have h: "?hook \<in> set (cf_hooks (w_config ?w))" "hk_slug ?hook = ''deploy-app''"
      "hk_executor ?hook = Http Post ''https://x'' [] None True"
    by (simp_all add: sample_hook_def)
  from h(1) http_hook_not_edited [OF h, of sample_external sample_config_lib "''sendword.toml''" plain_form]
  show ?thesis by blast
qed

text \<open>The override adds an environment variable whose value is masked.\<close>

definition override_lib :: config_lib where
  "override_lib = sample_config_lib\<lparr>cl_extract := (\<lambda>t j. Inr (if j = None then default_app_config
     else default_app_config\<lparr>cf_masking := \<lparr>mk_env_vars = [''TOKEN''], mk_patterns = [], mk_compiled_patterns = []\<rparr>\<rparr>))\<rparr>"

definition override_world :: world where
  "override_world = sample_world\<lparr>w_files := [''sendword.toml'' \<mapsto> [], ''sendword.json'' \<mapsto> ''J'']\<rparr>"

definition masked_config :: app_config where
  "masked_config = default_app_config\<lparr>cf_masking :=
     \<lparr>mk_env_vars = [''TOKEN''], mk_patterns = [], mk_compiled_patterns = []\<rparr>\<rparr>"

lemma masked_config_valid: "validate_config sample_external masked_config = Inr ()"
  by (simp add: validate_config_wf masked_config_def globals_ok_def default_config_defs from_secs_def
      nanos_per_sec_def)

lemma override_load:
  "load_from sample_external override_lib t None = Inr default_app_config"
  "load_from sample_external override_lib t (Some j) = Inr masked_config"
  using default_config_valid [of sample_external] masked_config_valid
  by (simp_all add: load_from_def override_lib_def compile_def Let_def masked_config_def
      default_app_config_def)

lemma override_parse: "cl_parse override_lib [] = Inr []"
  by (simp add: override_lib_def sample_config_lib_def)

theorem reload_ignores_override_witness:
  "\<exists>target w' c. run_state (create_hook sample_external override_lib ''sendword.toml'' plain_form) override_world
        = (GoTo target, w')
      \<and> mk_env_vars (cf_masking (w_config w')) = []
      \<and> load_from sample_external override_lib (w_files w' ''sendword.toml'') (w_files w' ''sendword.json'') = Inr c
      \<and> mk_env_vars (cf_masking c) = [''TOKEN'']"
proof -
  obtain data where data: "parse_hook_form sample_external plain_form = Inr data" using plain_form_parse by blast
  obtain out w' where run: "run_state (create_hook sample_external override_lib ''sendword.toml'' plain_form)
      override_world = (out, w')" by fastforce
  have "add_hook_doc data [] = Inr [(''hooks'', TTables [build_hook_table data])]"
    by (simp add: add_hook_doc_def Let_def)
  moreover have "tmp_path override_lib (parent_dir ''sendword.toml'') \<noteq> ''nonexistent.json''"
    by (rule tmp_path_not_json)
  ultimately have "\<exists>target. out = GoTo target"
    using run data
    by (auto simp: create_hook_def config_add_hook_def change_config_def run_read_document override_world_def
        sample_world_def validate_and_write_def tempfile_in_def if_ok_def write_file_def Let_def override_load
        override_parse run_reload_config split: sum.splits)
  then obtain target where out: "out = GoTo target" ..
  have t: "tmp_path override_lib (parent_dir ''sendword.toml'') \<notin> {''sendword.toml'', ''sendword.json''}"
  proof -
    have "last (tmp_path override_lib (parent_dir ''sendword.toml'')) = CHR ''p''"
      by (simp add: tmp_path_def)
    then show ?thesis by auto
  qed
  from reload_ignores_override [OF _ data _ t run [unfolded out]]
  obtain s where "load_from sample_external override_lib (Some s) None = Inr (w_config w')"
      "w_files w' ''sendword.json'' = Some ''J''" "w_files w' ''sendword.toml'' = Some s"
    by (auto simp: override_world_def sample_world_def no_io_faults_def)
  moreover from this have "w_config w' = default_app_config" by (simp add: override_load)
  then have "mk_env_vars (cf_masking (w_config w')) = []" by (simp add: default_app_config_def)
  moreover have "mk_env_vars (cf_masking masked_config) = [''TOKEN'']" by (simp add: masked_config_def)
  ultimately show ?thesis using run out by (auto simp: override_load)
qed

end
