(* ===== verification/Hook_Detail.thy ===== *)
theory Hook_Detail
  imports Hook_Admin Execution_Routes File_System
begin

text \<open>
  The page of a hook: \<open>hook_detail\<close> of \<open>src/routes/hooks.rs\<close> and the data of its page,
  \<open>src/views/hook_detail.rs\<close>. The handler answers with the page record that the template renders,
  which is all the template can show.
\<close>

section \<open>The page\<close>

datatype auth_mode_view = AuthModeNone | AuthModeBearer | AuthModeHmac

fun auth_mode_value :: "auth_mode_view \<Rightarrow> string" where
  "auth_mode_value AuthModeNone = ''none''"
| "auth_mode_value AuthModeBearer = ''bearer''"
| "auth_mode_value AuthModeHmac = ''hmac''"

fun auth_mode_label :: "auth_mode_view \<Rightarrow> string" where
  "auth_mode_label AuthModeNone = ''NONE''"
| "auth_mode_label AuthModeBearer = ''BEARER''"
| "auth_mode_label AuthModeHmac = ''HMAC''"

fun auth_mode_tag_class :: "auth_mode_view \<Rightarrow> string" where
  "auth_mode_tag_class AuthModeBearer = ''wf-tag info''"
| "auth_mode_tag_class AuthModeHmac = ''wf-tag accent''"
| "auth_mode_tag_class AuthModeNone = ''wf-tag''"

record payload_field_row =
  fr_name :: string
  fr_field_type :: string
  fr_required :: bool

record trigger_filter_row =
  tf_field :: string
  tf_operator :: string
  tf_value :: "string option"

record trigger_window_row =
  tw_row_days :: string
  tw_row_start_time :: string
  tw_row_end_time :: string

record trigger_rate_row =
  tq_max_requests :: string
  tq_window :: string

record hook_detail_page =
  hd_page_name :: string
  hd_page_slug :: string
  hd_page_slug_label :: string
  hd_page_description :: string
  hd_page_enabled :: bool
  hd_page_executor_type :: string
  hd_page_executor_value_label :: string
  hd_page_executor_command :: string
  hd_page_script_edit_url :: "string option"
  hd_page_cwd :: "string option"
  hd_page_timeout_secs :: nat
  hd_page_env_vars :: "string list"
  hd_page_auth_mode :: auth_mode_view
  hd_page_auth_header :: "string option"
  hd_page_auth_algorithm :: "string option"
  hd_page_payload_fields :: "payload_field_row list"
  hd_page_trigger_filter_rows :: "trigger_filter_row list"
  hd_page_trigger_window_rows :: "trigger_window_row list"
  hd_page_trigger_cooldown :: "string option"
  hd_page_trigger_rate :: "trigger_rate_row option"
  hd_page_rate_limit_max_per_minute :: "nat option"

definition detail_page_new :: "string \<Rightarrow> string \<Rightarrow> hook_detail_page" where
  "detail_page_new name slug =
     \<lparr>hd_page_name = name, hd_page_slug = slug, hd_page_slug_label = map ascii_upper slug,
      hd_page_description = [], hd_page_enabled = True, hd_page_executor_type = [],
      hd_page_executor_value_label = [], hd_page_executor_command = [],
      hd_page_script_edit_url = None, hd_page_cwd = None, hd_page_timeout_secs = 0,
      hd_page_env_vars = [], hd_page_auth_mode = AuthModeNone, hd_page_auth_header = None,
      hd_page_auth_algorithm = None, hd_page_payload_fields = [],
      hd_page_trigger_filter_rows = [], hd_page_trigger_window_rows = [],
      hd_page_trigger_cooldown = None, hd_page_trigger_rate = None,
      hd_page_rate_limit_max_per_minute = None\<rparr>"

definition has_description :: "hook_detail_page \<Rightarrow> bool" where
  "has_description p \<longleftrightarrow> hd_page_description p \<noteq> []"

definition has_auth :: "hook_detail_page \<Rightarrow> bool" where
  "has_auth p \<longleftrightarrow> hd_page_auth_mode p \<noteq> AuthModeNone"

definition shows_trigger_rules :: "hook_detail_page \<Rightarrow> bool" where
  "shows_trigger_rules p \<longleftrightarrow>
     hd_page_trigger_filter_rows p \<noteq> [] \<or> hd_page_trigger_window_rows p \<noteq> []
     \<or> hd_page_trigger_cooldown p \<noteq> None \<or> hd_page_trigger_rate p \<noteq> None"

section \<open>The handler\<close>

text \<open>Type, label of the value, value, and whether it is a script.\<close>

fun executor_shown :: "executor_config \<Rightarrow> string \<times> string \<times> string \<times> bool" where
  "executor_shown (Shell command) = (command, ''Shell'', ''Command'', False)"
| "executor_shown (Script path) = (path, ''Executable script'', ''Script path'', True)"
| "executor_shown (JavaScript path) = (path, ''JavaScript script'', ''Script path'', True)"
| "executor_shown (Python path) = (path, ''Python script'', ''Script path'', True)"
| "executor_shown (Http m url hs b follow) = (url, ''HTTP'', ''URL'', False)"

text \<open>The rest of the path below the scripts directory has no slash when it is one component.\<close>

definition script_edit_url :: "string \<Rightarrow> string \<Rightarrow> bool \<Rightarrow> string option" where
  "script_edit_url scripts_dir executor_command is_script_like =
     (if is_script_like
      then (case strip_prefix (path_of scripts_dir) (path_of executor_command) of
              Some [name] \<Rightarrow> if CHR ''/'' \<notin> set name then Some (''/scripts/'' @ name) else None
            | _ \<Rightarrow> None)
      else None)"

fun auth_shown :: "hook_auth_config option \<Rightarrow> auth_mode_view \<times> string option \<times> string option" where
  "auth_shown (Some (Bearer token)) = (AuthModeBearer, None, None)"
| "auth_shown (Some (Hmac header algorithm secret)) =
     (AuthModeHmac, Some header, Some (case algorithm of Sha256 \<Rightarrow> ''sha256''))"
| "auth_shown _ = (AuthModeNone, None, None)"

definition payload_rows :: "payload_schema option \<Rightarrow> payload_field_row list" where
  "payload_rows payload =
     (case payload of
        Some schema \<Rightarrow> map (\<lambda>f. \<lparr>fr_name = pf_name f, fr_field_type = field_type_display (pf_field_type f),
                                  fr_required = pf_required f\<rparr>) (ps_fields schema)
      | None \<Rightarrow> [])"

definition filter_rows :: "payload_filter list option \<Rightarrow> trigger_filter_row list" where
  "filter_rows filters =
     (case filters of
        Some fs \<Rightarrow> map (\<lambda>f. \<lparr>tf_field = fl_field f, tf_operator = filter_operator_str (fl_operator f),
                             tf_value = Option.bind (fl_value f) (\<lambda>v. if v \<noteq> [] then Some v else None)\<rparr>) fs
      | None \<Rightarrow> [])"

definition window_rows :: "time_window list option \<Rightarrow> trigger_window_row list" where
  "window_rows windows =
     (case windows of
        Some ws \<Rightarrow> map (\<lambda>w. \<lparr>tw_row_days = join '', '' (tw_days w), tw_row_start_time = tw_start_time w,
                             tw_row_end_time = tw_end_time w\<rparr>) ws
      | None \<Rightarrow> [])"

definition hook_detail_view :: "app_config \<Rightarrow> hook_config \<Rightarrow> hook_detail_page" where
  "hook_detail_view config hook =
     (let (executor_command, executor_type, executor_value_label, is_script_like) =
            executor_shown (hk_executor hook);
          (auth_mode, auth_header, auth_algorithm) = auth_shown (hk_auth hook);
          rules = hk_trigger_rules hook
      in (detail_page_new (hk_name hook) (hk_slug hook))\<lparr>
        hd_page_description := hk_description hook, hd_page_enabled := hk_enabled hook,
        hd_page_executor_type := executor_type,
        hd_page_executor_value_label := executor_value_label,
        hd_page_executor_command := executor_command,
        hd_page_script_edit_url :=
          script_edit_url (sc_dir (cf_scripts config)) executor_command is_script_like,
        hd_page_cwd := hk_cwd hook,
        hd_page_timeout_secs := as_secs (or_else (hk_timeout hook) (df_timeout (cf_defaults config))),
        hd_page_env_vars := map fst (hk_env hook),
        hd_page_auth_mode := auth_mode, hd_page_auth_header := auth_header,
        hd_page_auth_algorithm := auth_algorithm,
        hd_page_payload_fields := payload_rows (hk_payload hook),
        hd_page_trigger_filter_rows := filter_rows (Option.bind rules ru_payload_filters),
        hd_page_trigger_window_rows := window_rows (Option.bind rules ru_time_windows),
        hd_page_trigger_cooldown := map_option format_duration (Option.bind rules ru_cooldown),
        hd_page_trigger_rate := map_option (\<lambda>rl. \<lparr>tq_max_requests = show_nat (tr_max_requests rl),
            tq_window = format_duration (tr_window rl)\<rparr>) (Option.bind rules ru_rate_limit),
        hd_page_rate_limit_max_per_minute := map_option rl_max_per_minute (hk_rate_limit hook)\<rparr>)"

definition hook_detail :: "app_config \<Rightarrow> string \<Rightarrow> app_error + hook_detail_page" where
  "hook_detail config slug =
     (case find_hook (\<lambda>h. hk_slug h = slug) config of
        None \<Rightarrow> Inl (AppNotFound ''hook'')
      | Some hook \<Rightarrow> Inr (hook_detail_view config hook))"

section \<open>Secrets\<close>

text \<open>A hook without its secrets: the values of the environment, the token, the signing secret, the
  headers and the body of a request, and the notification with its headers and its body.\<close>

fun redact_auth :: "hook_auth_config \<Rightarrow> hook_auth_config" where
  "redact_auth AuthNone = AuthNone"
| "redact_auth (Bearer token) = Bearer []"
| "redact_auth (Hmac header algorithm secret) = Hmac header algorithm []"

fun redact_executor :: "executor_config \<Rightarrow> executor_config" where
  "redact_executor (Http m url hs b follow) = Http m url [] None follow"
| "redact_executor e = e"

definition redact_hook :: "hook_config \<Rightarrow> hook_config" where
  "redact_hook h = h\<lparr>hk_env := map (\<lambda>(k, v). (k, [])) (hk_env h),
     hk_auth := map_option redact_auth (hk_auth h), hk_executor := redact_executor (hk_executor h),
     hk_notification := None\<rparr>"

definition redact_config :: "app_config \<Rightarrow> app_config" where
  "redact_config c = c\<lparr>cf_hooks := map redact_hook (cf_hooks c), cf_backup := None,
     cf_auth := default_auth_config,
     cf_masking := \<lparr>mk_env_vars = [], mk_patterns = [], mk_compiled_patterns = []\<rparr>\<rparr>"

lemma redact_hook_slug [simp]: "hk_slug (redact_hook h) = hk_slug h"
  by (simp add: redact_hook_def)

lemma executor_shown_redact: "executor_shown (redact_executor e) = executor_shown e"
  by (cases e) simp_all

lemma auth_shown_redact: "auth_shown (map_option redact_auth a) = auth_shown a"
  by (cases a rule: auth_shown.cases) simp_all

lemma detail_view_redact:
  "hook_detail_view (redact_config config) (redact_hook hook) = hook_detail_view config hook"
  by (simp add: hook_detail_view_def redact_hook_def redact_config_def executor_shown_redact
      auth_shown_redact comp_def case_prod_beta')

lemma find_map_redact: "List.find p (map f xs) = map_option f (List.find (p \<circ> f) xs)"
  by (induction xs) simp_all

text \<open>C27: The page of a hook shows no secret. Whatever the values of environment variables, tokens,
  signing secrets, request headers and bodies, notifications, mail and backup credentials of the
  configuration are, the page is the same as with all of them blanked: an answer of \<open>hook_detail\<close>
  carries no information about them.\<close>

theorem hook_detail_hides_secrets:
  "hook_detail (redact_config config) slug = hook_detail config slug"
  by (auto simp: hook_detail_def find_hook_def redact_config_def [of config] find_map_redact
      comp_def detail_view_redact [unfolded redact_config_def]
      split: option.splits)

end
