(* ===== verification/Url.thy ===== *)
theory Url
  imports Sw_Prelude
begin

text \<open>
  Addresses as the server writes and reads them. Percent-coding is the work of crates and a
  parameter: \<open>url_encode\<close> is \<open>urlencoding::encode\<close>, \<open>decode_segment\<close> is how axum's \<open>Path\<close> decodes a
  segment of the path (none when the bytes are no UTF-8), \<open>decode_query\<close> how its \<open>Query\<close> decodes a
  name or value of the query string. The query string is read as \<open>Query\<close> reads it for a struct:
  keys that the struct does not have are ignored and a key that occurs twice is an error.
\<close>

section \<open>Percent-coding\<close>

record url_lib =
  url_encode :: "string \<Rightarrow> string"
  decode_segment :: "string \<Rightarrow> string option"
  decode_query :: "string \<Rightarrow> string"

definition is_unreserved :: "char \<Rightarrow> bool" where
  "is_unreserved c \<longleftrightarrow> is_digit c \<or>
     (let n = of_char (ascii_lower c) :: nat in 97 \<le> n \<and> n \<le> 122) \<or> c \<in> set ''-_.~''"

definition url_laws :: "url_lib \<Rightarrow> bool" where
  "url_laws U \<longleftrightarrow>
     (\<forall>s. list_all (\<lambda>c. is_unreserved c \<or> c = CHR ''%'') (url_encode U s)
        \<and> decode_segment U (url_encode U s) = Some s \<and> decode_query U (url_encode U s) = s)
     \<and> (\<forall>s. list_all is_unreserved s \<longrightarrow> decode_segment U s = Some s \<and> decode_query U s = s)"

section \<open>The query string\<close>

definition query_pairs :: "url_lib \<Rightarrow> string \<Rightarrow> (string \<times> string) list" where
  "query_pairs U query =
     map (\<lambda>p. case split_once (CHR ''='') p of
                Some (k, v) \<Rightarrow> (decode_query U k, decode_query U v)
              | None \<Rightarrow> (decode_query U p, []))
       (filter (\<lambda>p. p \<noteq> []) (split_on (CHR ''&'') query))"

definition query_field :: "(string \<times> string) list \<Rightarrow> string \<Rightarrow> string option option" where
  "query_field pairs k =
     (case filter (\<lambda>p. fst p = k) pairs of
        [] \<Rightarrow> Some None | [p] \<Rightarrow> Some (Some (snd p)) | _ \<Rightarrow> None)"

definition parse_i64 :: "string \<Rightarrow> int option" where
  "parse_i64 s =
     (case s of
        c # ds \<Rightarrow>
          if c = CHR ''-''
          then (if ds \<noteq> [] \<and> list_all is_digit ds \<and> digits_value ds \<le> 2 ^ 63
                then Some (- int (digits_value ds)) else None)
          else map_option int (parse_unsigned i64_max s)
      | [] \<Rightarrow> None)"

section \<open>Lemmas\<close>

lemma url_roundtrip:
  assumes "url_laws U"
  shows "decode_segment U (url_encode U s) = Some s" and "decode_query U (url_encode U s) = s"
    and "list_all is_unreserved s \<Longrightarrow> decode_segment U s = Some s"
    and "list_all is_unreserved s \<Longrightarrow> decode_query U s = s"
  using assms by (simp_all add: url_laws_def)

lemma encoded_chars:
  assumes "url_laws U" and "\<not> is_unreserved c" and "c \<noteq> CHR ''%''"
  shows "c \<notin> set (url_encode U s)"
  using assms by (auto simp: url_laws_def list_all_iff)

lemma encode_nonempty:
  assumes "url_laws U" and "s \<noteq> []"
  shows "url_encode U s \<noteq> []"
  using url_roundtrip(1) [OF assms(1), of s] url_roundtrip(3) [OF assms(1), of "[]"] assms(2) by auto

lemma reserved: "\<not> is_unreserved (CHR ''/'')" "\<not> is_unreserved (CHR ''?'')" "\<not> is_unreserved (CHR ''&'')"
  "\<not> is_unreserved (CHR ''='')"
  by code_simp+

lemma show_nat_unreserved: "list_all is_unreserved (show_nat n)"
  using show_nat_digits by (auto simp: list_all_iff is_unreserved_def)

lemma show_nat_no_reserved: "\<not> is_digit c \<Longrightarrow> c \<notin> set (show_nat n)"
  using show_nat_digits by (auto simp: list_all_iff)

lemma parse_show_i64: "int n < 2 ^ 63 \<Longrightarrow> parse_i64 (show_nat n) = Some (int n)"
proof -
  assume "int n < 2 ^ 63"
  then have "parse_unsigned i64_max (show_nat n) = Some n" by (intro parse_show_nat) (simp add: i64_max_def)
  moreover obtain c cs where c: "show_nat n = c # cs"
    using calculation by (cases "show_nat n") (auto simp: parse_unsigned_def)
  moreover have "c \<noteq> CHR ''-''" using show_nat_digits [of n] c by (auto simp: is_digit_def)
  ultimately show ?thesis by (simp add: parse_i64_def)
qed

section \<open>A concrete coding\<close>

text \<open>Percent-coding as it is written down: every character that is not unreserved becomes a percent
  sign and two hexadecimal digits.\<close>

definition hex_upper :: "nat \<Rightarrow> char" where
  "hex_upper n = ''0123456789ABCDEF'' ! n"

definition hex_value :: "char \<Rightarrow> nat option" where
  "hex_value c = map_of (zip ''0123456789ABCDEF'' [0..<16]) c"

definition percent_encode :: "string \<Rightarrow> string" where
  "percent_encode s = concat (map (\<lambda>c. if is_unreserved c then [c]
     else [CHR ''%'', hex_upper (of_char c div 16), hex_upper (of_char c mod 16)]) s)"

fun percent_decode :: "string \<Rightarrow> string option" where
  "percent_decode [] = Some []"
| "percent_decode (c # cs) =
     (if c = CHR ''%''
      then (case cs of
              h # l # rest \<Rightarrow>
                (case (hex_value h, hex_value l) of
                   (Some a, Some b) \<Rightarrow> map_option ((#) (char_of (16 * a + b))) (percent_decode rest)
                 | _ \<Rightarrow> None)
            | _ \<Rightarrow> None)
      else map_option ((#) c) (percent_decode cs))"

definition sample_url :: url_lib where
  "sample_url = \<lparr>url_encode = percent_encode, decode_segment = percent_decode,
     decode_query = (\<lambda>s. case percent_decode s of Some t \<Rightarrow> t | None \<Rightarrow> s)\<rparr>"

lemma char_nibbles: "(of_char c :: nat) div 16 < 16 \<and> (of_char c :: nat) mod 16 < 16"
proof -
  have "(of_char c :: nat) < 256" by (metis mod_less_divisor of_char_mod_256 zero_less_numeral)
  then show ?thesis by (intro conjI less_mult_imp_div_less pos_mod_bound) (simp_all del: of_char_mod_256)
qed

lemma hex_digits: "n < 16 \<Longrightarrow> hex_value (hex_upper n) = Some n \<and> is_unreserved (hex_upper n)"
proof -
  have "list_all (\<lambda>n. hex_value (hex_upper n) = Some n \<and> is_unreserved (hex_upper n)) [0..<16]" by code_simp
  then show "n < 16 \<Longrightarrow> hex_value (hex_upper n) = Some n \<and> is_unreserved (hex_upper n)"
    by (simp add: list_all_iff)
qed

lemma percent_not_unreserved: "\<not> is_unreserved (CHR ''%'')"
  by code_simp

lemma percent_decode_plain: "list_all is_unreserved s \<Longrightarrow> percent_decode s = Some s"
  using percent_not_unreserved by (induction s) auto

lemma percent_roundtrip: "percent_decode (percent_encode s) = Some s"
proof (induction s)
  case (Cons c s)
  with percent_not_unreserved show ?case
    by (auto simp: percent_encode_def hex_digits char_nibbles)
qed (simp add: percent_encode_def)

lemma sample_url_laws: "url_laws sample_url"
proof -
  have "list_all (\<lambda>c. is_unreserved c \<or> c = CHR ''%'') (percent_encode s)" for s
    using hex_digits char_nibbles by (auto simp: percent_encode_def list_all_iff)
  then show ?thesis by (simp add: url_laws_def sample_url_def percent_roundtrip percent_decode_plain)
qed

end
