(* ===== verification/Activity.thy ===== *)
theory Activity
  imports Execution_Routes Url
begin

text \<open>
  The activity lists of a hook: the handlers \<open>execution_list\<close> and \<open>trigger_attempt_list\<close> of
  \<open>src/routes/hooks.rs\<close> with their views (\<open>src/views/hook_activity.rs\<close>) and the pager
  (\<open>PaginationState\<close> of \<open>src/views.rs\<close>). A handler answers with the view that its template
  renders; percent-encoding is a parameter \<open>E\<close>.
\<close>

section \<open>The pager\<close>

record pagination_state =
  pn_page :: int
  pn_per_page :: int
  pn_total :: int
  pn_item_count :: int

text \<open>\<open>Ord::clamp\<close>, for \<open>lo \<le> hi\<close>.\<close>

definition clamp :: "int \<Rightarrow> int \<Rightarrow> int \<Rightarrow> int" where
  "clamp lo hi x = (if x < lo then lo else if x > hi then hi else x)"

definition pages_of :: "int \<Rightarrow> int \<Rightarrow> int" where
  "pages_of per_page all = (if all = 0 then 1 else (all + per_page - 1) div per_page)"

definition pagination_new :: "int \<Rightarrow> int \<Rightarrow> int \<Rightarrow> int \<Rightarrow> pagination_state" where
  "pagination_new page per_page all item_count =
     (let per_page = max 1 per_page; all = max 0 all
      in \<lparr>pn_page = clamp 1 (pages_of per_page all) page, pn_per_page = per_page, pn_total = all,
          pn_item_count = clamp 0 per_page item_count\<rparr>)"

definition total_pages :: "pagination_state \<Rightarrow> int" where
  "total_pages p = pages_of (pn_per_page p) (pn_total p)"

definition start_index :: "pagination_state \<Rightarrow> int" where
  "start_index p =
     (if pn_total p = 0 \<or> pn_item_count p = 0 then 0 else (pn_page p - 1) * pn_per_page p + 1)"

definition end_index :: "pagination_state \<Rightarrow> int" where
  "end_index p =
     (if pn_total p = 0 \<or> pn_item_count p = 0 then 0
      else min (start_index p + pn_item_count p - 1) (pn_total p))"

definition has_previous :: "pagination_state \<Rightarrow> bool" where
  "has_previous p \<longleftrightarrow> pn_page p > 1"

definition has_next :: "pagination_state \<Rightarrow> bool" where
  "has_next p \<longleftrightarrow> pn_page p < total_pages p"

definition summary_label :: "pagination_state \<Rightarrow> string" where
  "summary_label p = show_int (start_index p) @ ''-'' @ show_int (end_index p) @ '' OF '' @ show_int (pn_total p)"

section \<open>Rows and links\<close>

definition short_id :: "string \<Rightarrow> string" where
  "short_id i = take 8 i"

definition append_query_param :: "(string \<Rightarrow> string) \<Rightarrow> string \<Rightarrow> string \<Rightarrow> string \<Rightarrow> string" where
  "append_query_param E href name value =
     (if value = [] then href else href @ ''&'' @ name @ ''='' @ E value)"

definition execution_status_class :: "execution_status \<Rightarrow> string" where
  "execution_status_class s = (case s of
     Success \<Rightarrow> ''wf-tag ok''
   | Failed \<Rightarrow> ''wf-tag err'' | TimedOut \<Rightarrow> ''wf-tag err'' | Rejected \<Rightarrow> ''wf-tag err'' | Expired \<Rightarrow> ''wf-tag err''
   | Running \<Rightarrow> ''wf-tag warn''
   | Pending \<Rightarrow> ''wf-tag info'' | PendingApproval \<Rightarrow> ''wf-tag info''
   | Approved \<Rightarrow> ''wf-tag'')"

definition attempt_status_class :: "trigger_attempt_status \<Rightarrow> string" where
  "attempt_status_class s = (case s of
     Fired \<Rightarrow> ''wf-tag ok''
   | AuthFailed \<Rightarrow> ''wf-tag err'' | ValidationFailed \<Rightarrow> ''wf-tag err''
   | RateLimited \<Rightarrow> ''wf-tag warn'' | ConcurrencyRejected \<Rightarrow> ''wf-tag warn''
   | _ \<Rightarrow> ''wf-tag info'')"

record execution_list_row =
  el_id :: string
  el_short_id :: string
  el_triggered_at :: string
  el_status_label :: string
  el_status_class :: string
  el_exit_code :: "int option"
  el_duration :: "string option"

definition from_execution :: "external \<Rightarrow> execution \<Rightarrow> execution_list_row" where
  "from_execution X e =
     \<lparr>el_id = ex_id e, el_short_id = short_id (ex_id e), el_triggered_at = ex_triggered_at e,
      el_status_label = map ascii_upper (status_text (ex_status e)),
      el_status_class = execution_status_class (ex_status e), el_exit_code = ex_exit_code e,
      el_duration = compute_duration X (ex_started_at e) (ex_completed_at e)\<rparr>"

record attempt_list_row =
  al_attempted_at :: string
  al_status_label :: string
  al_status_class :: string
  al_source_ip :: string
  al_reason :: string
  al_execution_id :: "string option"
  al_execution_short_id :: "string option"

definition from_attempt :: "trigger_attempt \<Rightarrow> attempt_list_row" where
  "from_attempt a =
     \<lparr>al_attempted_at = ta_attempted_at a,
      al_status_label = map ascii_upper (attempt_status_text (ta_status a)),
      al_status_class = attempt_status_class (ta_status a), al_source_ip = ta_source_ip a,
      al_reason = ta_reason a, al_execution_id = ta_execution_id a,
      al_execution_short_id = map_option short_id (ta_execution_id a)\<rparr>"

record execution_list_view =
  xv_slug :: string
  xv_rows :: "execution_list_row list"
  xv_pagination :: pagination_state
  xv_active_status :: string
  xv_active_from :: string
  xv_active_to :: string

record attempt_list_view =
  av_slug :: string
  av_rows :: "attempt_list_row list"
  av_pagination :: pagination_state
  av_active_status :: string

definition execution_page_href :: "(string \<Rightarrow> string) \<Rightarrow> execution_list_view \<Rightarrow> int \<Rightarrow> string" where
  "execution_page_href E v page =
     (let href = ''/hooks/'' @ E (xv_slug v) @ ''/executions?page='' @ show_int page;
          href = append_query_param E href ''status'' (xv_active_status v);
          href = append_query_param E href ''from_date'' (xv_active_from v)
      in append_query_param E href ''to_date'' (xv_active_to v))"

definition next_page_href :: "(string \<Rightarrow> string) \<Rightarrow> execution_list_view \<Rightarrow> string" where
  "next_page_href E v = execution_page_href E v (pn_page (xv_pagination v) + 1)"

definition previous_page_href :: "(string \<Rightarrow> string) \<Rightarrow> execution_list_view \<Rightarrow> string" where
  "previous_page_href E v = execution_page_href E v (pn_page (xv_pagination v) - 1)"

definition attempt_page_href :: "(string \<Rightarrow> string) \<Rightarrow> attempt_list_view \<Rightarrow> int \<Rightarrow> string" where
  "attempt_page_href E v page =
     append_query_param E (''/hooks/'' @ E (av_slug v) @ ''/attempts?page='' @ show_int page)
       ''status'' (av_active_status v)"

section \<open>The handlers\<close>

definition executions_per_page :: int where "executions_per_page = 20"
definition attempts_per_page :: int where "attempts_per_page = 20"

text \<open>Arithmetic of \<open>i64\<close> in a release build.\<close>

definition wrap_i64 :: "int \<Rightarrow> int" where
  "wrap_i64 x = (x + 2 ^ 63) mod 2 ^ 64 - 2 ^ 63"

text \<open>\<open>await?\<close> on a \<open>DbResult\<close> in a handler that answers with \<open>AppError\<close>.\<close>

definition app_then :: "'a db_result io \<Rightarrow> ('a \<Rightarrow> (app_error + 'b) io) \<Rightarrow> (app_error + 'b) io" where
  "app_then act f = do { r \<leftarrow> act; case r of Inl _ \<Rightarrow> return (Inl AppInternal) | Inr a \<Rightarrow> f a }"

definition non_empty :: "string \<Rightarrow> string option" where
  "non_empty s = (if s = [] then None else Some s)"

record pagination_params =
  pp_page :: "int option"
  pp_status :: "string option"
  pp_from_date :: "string option"
  pp_to_date :: "string option"

definition text_or_default :: "string option \<Rightarrow> string" where
  "text_or_default s = (case s of Some t \<Rightarrow> t | None \<Rightarrow> [])"

definition requested_page :: "int option \<Rightarrow> int" where
  "requested_page page = max 1 (case page of Some p \<Rightarrow> p | None \<Rightarrow> 1)"

definition execution_list :: "external \<Rightarrow> string \<Rightarrow> pagination_params
    \<Rightarrow> (app_error + execution_list_view) io" where
  "execution_list X slug params = do {
     config \<leftarrow> gets w_config;
     case find_hook (\<lambda>h. hk_slug h = slug) config of
       None \<Rightarrow> return (Inl (AppNotFound ''hook''))
     | Some _ \<Rightarrow>
         (let page = requested_page (pp_page params);
              offset = wrap_i64 ((page - 1) * executions_per_page);
              active_status = text_or_default (pp_status params);
              active_from = text_or_default (pp_from_date params);
              active_to = text_or_default (pp_to_date params);
              filters = \<lparr>xf_status = non_empty active_status, xf_from_date = non_empty active_from,
                         xf_to_date = non_empty active_to\<rparr>
          in app_then (execution_count_by_hook_filtered slug filters) (\<lambda>total.
             app_then (execution_list_by_hook_filtered slug filters executions_per_page offset) (\<lambda>executions.
               let rows = map (from_execution X) executions
               in return (Inr
                    \<lparr>xv_slug = slug, xv_rows = rows,
                     xv_pagination = pagination_new page executions_per_page total (int (length rows)),
                     xv_active_status = active_status, xv_active_from = active_from,
                     xv_active_to = active_to\<rparr>)))) }"

text \<open>A request for an address of the route \<open>/hooks/{slug}/executions\<close>, as the extractors \<open>Path\<close> and
  \<open>Query\<close> of the handler read it; none when they reject it.\<close>

definition read_pagination_params :: "url_lib \<Rightarrow> string \<Rightarrow> pagination_params option" where
  "read_pagination_params U question = do {
     let pairs = query_pairs U question;
     page \<leftarrow> query_field pairs ''page'';
     page \<leftarrow> (case page of None \<Rightarrow> Some None | Some p \<Rightarrow> map_option Some (parse_i64 p));
     status \<leftarrow> query_field pairs ''status'';
     from_date \<leftarrow> query_field pairs ''from_date'';
     to_date \<leftarrow> query_field pairs ''to_date'';
     Some \<lparr>pp_page = page, pp_status = status, pp_from_date = from_date, pp_to_date = to_date\<rparr> }"

definition open_execution_list :: "url_lib \<Rightarrow> external \<Rightarrow> string \<Rightarrow> world
    \<Rightarrow> (app_error + execution_list_view) option" where
  "open_execution_list U X href w =
     (let (path, question) = (case split_once (CHR ''?'') href of Some parts \<Rightarrow> parts | None \<Rightarrow> (href, []))
      in case split_on (CHR ''/'') path of
           [start, hooks, segment, executions] \<Rightarrow>
             if start = [] \<and> hooks = ''hooks'' \<and> segment \<noteq> [] \<and> executions = ''executions''
             then do {
               slug \<leftarrow> decode_segment U segment;
               params \<leftarrow> read_pagination_params U question;
               Some (fst (run_state (execution_list X slug params) w)) }
             else None
         | _ \<Rightarrow> None)"

definition trigger_attempt_list :: "string \<Rightarrow> string option \<Rightarrow> int option
    \<Rightarrow> (app_error + attempt_list_view) io" where
  "trigger_attempt_list slug status page = do {
     config \<leftarrow> gets w_config;
     case find_hook (\<lambda>h. hk_slug h = slug) config of
       None \<Rightarrow> return (Inl (AppNotFound ''hook''))
     | Some _ \<Rightarrow>
         (let page = requested_page page;
              offset = wrap_i64 ((page - 1) * attempts_per_page);
              active_status = text_or_default status;
              parsed_status = Option.bind (non_empty active_status) attempt_status_parse
          in app_then (attempt_count_by_hook_filtered slug parsed_status) (\<lambda>total.
             app_then (case parsed_status of
                         Some s \<Rightarrow> attempt_list_by_hook_filtered slug s attempts_per_page offset
                       | None \<Rightarrow> attempt_list_by_hook slug attempts_per_page offset) (\<lambda>attempts.
               let rows = map from_attempt attempts
               in return (Inr
                    \<lparr>av_slug = slug, av_rows = rows,
                     av_pagination = pagination_new page attempts_per_page total (int (length rows)),
                     av_active_status = active_status\<rparr>)))) }"

section \<open>Paging\<close>

lemma clamp_id: "lo \<le> x \<Longrightarrow> x \<le> hi \<Longrightarrow> clamp lo hi x = x"
  by (simp add: clamp_def)

lemma pages_of_bounds:
  assumes "0 < n" and "0 \<le> t"
  shows "0 < pages_of n t" and "t \<le> pages_of n t * n"
    and "0 < t \<Longrightarrow> (pages_of n t - 1) * n < t"
proof -
  have bounds: "0 < (t + n - 1) div n \<and> t \<le> (t + n - 1) div n * n
      \<and> ((t + n - 1) div n - 1) * n < t" if "0 < t"
  proof -
    define q where "q = (t + n - 1) div n"
    have "t + n - 1 = q * n + (t + n - 1) mod n" by (simp add: q_def)
    moreover have "0 \<le> (t + n - 1) mod n" "(t + n - 1) mod n < n" using assms(1) by simp_all
    moreover have "0 < q" using assms(1) that by (simp add: q_def pos_imp_zdiv_pos_iff)
    ultimately show ?thesis unfolding q_def [symmetric] by (simp add: algebra_simps)
  qed
  show "0 < pages_of n t" "t \<le> pages_of n t * n"
    using bounds assms by (auto simp: pages_of_def)
  show "0 < t \<Longrightarrow> (pages_of n t - 1) * n < t"
    using bounds by (auto simp: pages_of_def)
qed

text \<open>Page \<open>k\<close> (counted from zero) of a list of rows, with its pager.\<close>

definition page_of :: "nat \<Rightarrow> 'r list \<Rightarrow> nat \<Rightarrow> 'r list" where
  "page_of n rows k = take n (drop (k * n) rows)"

definition pager_of :: "nat \<Rightarrow> 'r list \<Rightarrow> nat \<Rightarrow> pagination_state" where
  "pager_of n rows k =
     pagination_new (int k + 1) (int n) (int (length rows)) (int (length (page_of n rows k)))"

lemma pager_of_fields:
  assumes "0 < n" and "k < nat (pages_of (int n) (int (length rows)))"
  shows "pager_of n rows k = \<lparr>pn_page = int k + 1, pn_per_page = int n, pn_total = int (length rows),
           pn_item_count = int (length (page_of n rows k))\<rparr>"
  using assms by (simp add: pager_of_def pagination_new_def clamp_id page_of_def Let_def)

lemma page_in_pager:
  assumes "0 < n" and "k * n < length rows"
  shows "k < nat (pages_of (int n) (int (length rows)))"
proof -
  let ?P = "pages_of (int n) (int (length rows))"
  have "int k * int n < int (length rows)" using assms(2) by (simp flip: of_nat_mult)
  also have "\<dots> \<le> ?P * int n" using assms(1) by (intro pages_of_bounds(2)) simp_all
  finally have "int k < ?P" using assms(1) by (simp add: mult_less_cancel_right)
  then show ?thesis by linarith
qed

lemma page_on_list:
  assumes "0 < n" and "rows \<noteq> []" and "k < nat (pages_of (int n) (int (length rows)))"
  shows "k * n < length rows"
proof -
  have "int k \<le> pages_of (int n) (int (length rows)) - 1" using assms(3) by linarith
  then have "int k * int n \<le> (pages_of (int n) (int (length rows)) - 1) * int n"
    by (rule mult_right_mono) simp
  also have "\<dots> < int (length rows)" using assms(1,2) by (intro pages_of_bounds(3)) simp_all
  finally show ?thesis by (simp flip: of_nat_mult)
qed

lemma pager_links:
  assumes "0 < n" and "k < nat (pages_of (int n) (int (length rows)))"
  shows "has_next (pager_of n rows k) \<longleftrightarrow> Suc k < nat (pages_of (int n) (int (length rows)))"
    and "has_previous (pager_of n rows k) \<longleftrightarrow> 0 < k"
  using pager_of_fields [OF assms] by (auto simp: has_next_def has_previous_def total_pages_def)

lemma pager_range:
  assumes "0 < n" and "rows \<noteq> []" and "k < nat (pages_of (int n) (int (length rows)))"
  shows "start_index (pager_of n rows k) = int (k * n) + 1"
    and "end_index (pager_of n rows k) = int (k * n + length (page_of n rows k))"
    and "page_of n rows k \<noteq> []"
proof -
  have on: "k * n < length rows" using page_on_list [OF assms] .
  then show "page_of n rows k \<noteq> []" using assms(1) by (simp add: page_of_def)
  moreover have "int k * int n + int (length (page_of n rows k)) \<le> int (length rows)"
    using on by (simp add: page_of_def flip: of_nat_mult of_nat_add)
  ultimately show "start_index (pager_of n rows k) = int (k * n) + 1"
    "end_index (pager_of n rows k) = int (k * n + length (page_of n rows k))"
    using pager_of_fields [OF assms(1,3)] assms(2) by (auto simp: start_index_def end_index_def)
qed

lemma all_pages:
  assumes "0 < n"
  shows "concat (map (page_of n rows) [0..<nat (pages_of (int n) (int (length rows)))]) = rows"
proof -
  have "int (length rows) \<le> pages_of (int n) (int (length rows)) * int n"
    using assms by (intro pages_of_bounds(2)) simp_all
  then have "length rows \<le> nat (pages_of (int n) (int (length rows))) * n"
    using pages_of_bounds(1) [of "int n" "int (length rows)"] assms
    by (metis int_nat_eq less_le of_nat_0_le_iff of_nat_0_less_iff of_nat_le_iff of_nat_mult)
  then show ?thesis by (simp add: page_of_def [abs_def] concat_pages)
qed

text \<open>A handler that answers the request for page \<open>k + 1\<close> with page \<open>k\<close> and its pager: the pages that
  the links lead through together show all rows.\<close>

definition page_links_ok :: "('v \<Rightarrow> 's list) \<Rightarrow> ('v \<Rightarrow> pagination_state) \<Rightarrow> 'v list \<Rightarrow> nat \<Rightarrow> bool" where
  "page_links_ok shown pager views k \<longleftrightarrow>
     (let p = pager (views ! k); m = length (shown (views ! k))
      in has_next p = (Suc k < length views) \<and> has_previous p = (0 < k) \<and> 0 < m
         \<and> start_index p = int (sum_list (map (length \<circ> shown) (take k views))) + 1
         \<and> end_index p = start_index p + int m - 1)"

lemma follow_pages:
  fixes rows :: "'r list" and f :: "'r \<Rightarrow> 's" and shown :: "'v \<Rightarrow> 's list"
  assumes "0 < n" and "rows \<noteq> []"
    and answers: "\<And>k. k * n < length rows \<Longrightarrow> \<exists>v. answer k = Inr v
          \<and> shown v = map f (page_of n rows k) \<and> pager v = pager_of n rows k"
  shows "\<exists>views. (\<forall>k < length views. k * n < length rows \<and> answer k = Inr (views ! k)
         \<and> page_links_ok shown pager views k)
     \<and> concat (map shown views) = map f rows"
proof -
  define P where "P = nat (pages_of (int n) (int (length rows)))"
  define view where "view k = projr (answer k)" for k
  have on: "k * n < length rows" if "k < P" for k
    using page_on_list [OF assms(1,2)] that by (simp add: P_def)
  have view: "answer k = Inr (view k) \<and> shown (view k) = map f (page_of n rows k)
      \<and> pager (view k) = pager_of n rows k" if "k < P" for k
    using answers [OF on [OF that]] by (auto simp: view_def)
  have shown: "map shown (map view [0..<P]) = map (map f) (map (page_of n rows) [0..<P])"
    using view by simp
  have all: "concat (map shown (map view [0..<P])) = map f rows"
    unfolding shown map_concat [symmetric] using all_pages [OF assms(1), of rows] by (simp add: P_def)
  have before: "sum_list (map (length \<circ> shown) (take k (map view [0..<P]))) = k * n" if "k < P" for k
  proof -
    have "map (length \<circ> shown) (take k (map view [0..<P])) = map (length \<circ> page_of n rows) [0..<k]"
      using that view by (simp add: take_map take_upt)
    moreover have "length (concat (map (page_of n rows) [0..<k])) = k * n"
      using on [OF that] by (simp add: page_of_def [abs_def] concat_pages)
    ultimately show ?thesis by (simp add: length_concat)
  qed
  have "page_links_ok shown pager (map view [0..<P]) k" if "k < P" for k
    using view [OF that] before [OF that] that
      pager_links [OF assms(1) that [unfolded P_def]] pager_range [OF assms(1,2) that [unfolded P_def]]
    by (simp add: page_links_ok_def Let_def P_def)
  then show ?thesis using view all on by (intro exI [of _ "map view [0..<P]"]) simp
qed

section \<open>The lists\<close>

definition shows_status :: "string \<Rightarrow> string option \<Rightarrow> execution \<Rightarrow> bool" where
  "shows_status slug status e \<longleftrightarrow> ex_hook_slug e = slug
     \<and> (case Option.bind status non_empty of Some s \<Rightarrow> status_text (ex_status e) = s | None \<Rightarrow> True)"

text \<open>The request for page \<open>k + 1\<close> and its answer.\<close>

definition execution_page :: "external \<Rightarrow> string \<Rightarrow> string option \<Rightarrow> world \<Rightarrow> nat
    \<Rightarrow> app_error + execution_list_view" where
  "execution_page X slug status w k = fst (run_state (execution_list X slug
     \<lparr>pp_page = Some (int k + 1), pp_status = status, pp_from_date = None, pp_to_date = None\<rparr>) w)"

lemma wrap_i64_id: "0 \<le> x \<Longrightarrow> x < 2 ^ 63 \<Longrightarrow> wrap_i64 x = x"
  by (simp add: wrap_i64_def)

lemma execution_page_value:
  fixes status :: "string option"
  assumes "no_faults w" and "find_hook (\<lambda>h. hk_slug h = slug) (w_config w) \<noteq> None"
    and "int k * 20 < 2 ^ 63"
  defines "rows \<equiv> order_desc ex_triggered_at (filter (shows_status slug status) (w_execs w))"
  shows "execution_page X slug status w k = Inr
    \<lparr>xv_slug = slug, xv_rows = map (from_execution X) (page_of 20 rows k),
     xv_pagination = pager_of 20 rows k, xv_active_status = text_or_default status,
     xv_active_from = [], xv_active_to = []\<rparr>"
proof -
  have nf: "\<not> w_fault w n" for n using assms(1) by (simp add: no_faults_def)
  have offset: "wrap_i64 (int k * 20) = int k * 20" using assms(3) by (simp add: wrap_i64_id)
  have "nat (int k * 20) = k * 20" by simp
  then show ?thesis
    using assms(2)
    by (cases status) (auto simp: execution_page_def execution_list_def app_then_def nf Let_def
        requested_page_def executions_per_page_def offset text_or_default_def non_empty_def
        execution_count_by_hook_filtered_def execution_list_by_hook_filtered_def
        execution_count_by_hook_def execution_list_by_hook_def list_by_status_def
        limit_offset_def rows_def shows_status_def [abs_def] page_of_def pager_of_def
        split: option.splits)
qed

text \<open>Following a link of the pager opens the page that it names, with the status that was chosen.\<close>

lemma status_text_only:
  "execution_list X slug \<lparr>pp_page = p, pp_status = non_empty (text_or_default status), pp_from_date = None, pp_to_date = None\<rparr>
     = execution_list X slug \<lparr>pp_page = p, pp_status = status, pp_from_date = None, pp_to_date = None\<rparr>"
proof -
  have "text_or_default (non_empty (text_or_default status)) = text_or_default status"
    by (simp add: text_or_default_def non_empty_def)
  then show ?thesis by (simp only: execution_list_def pagination_params.select_convs)
qed

lemma follow_link:
  assumes "url_laws U" and "xv_slug v \<noteq> []" and "int k + 1 < 2 ^ 63"
    and "xv_active_status v = text_or_default status" and "xv_active_from v = []" and "xv_active_to v = []"
  shows "open_execution_list U X (execution_page_href (url_encode U) v (int k + 1)) w
     = Some (execution_page X (xv_slug v) status w k)"
proof -
  let ?E = "url_encode U" and ?s = "text_or_default status"
  let ?path = "''/hooks/'' @ ?E (xv_slug v) @ ''/executions''"
  let ?page = "''page='' @ show_nat (Suc k)"
  let ?query = "if ?s = [] then ?page else ?page @ ''&status='' @ ?E ?s"
  note none = encoded_chars [OF assms(1)] reserved show_nat_no_reserved
  have digits: "\<not> is_digit (CHR ''?'')" "\<not> is_digit (CHR ''&'')" by code_simp+
  have num: "show_int (int k + 1) = show_nat (Suc k)" by (simp add: show_int_def nat_add_distrib)
  have href: "execution_page_href ?E v (int k + 1) = ?path @ CHR ''?'' # ?query"
    by (simp add: execution_page_href_def append_query_param_def Let_def num assms(4-6))
  have split: "split_once (CHR ''?'') (?path @ CHR ''?'' # ?query) = Some (?path, ?query)"
    unfolding split_once_Some_iff by (simp add: none)
  have "split_on (CHR ''/'') (?E (xv_slug v) @ CHR ''/'' # ''executions'') = [?E (xv_slug v), ''executions'']"
    by (subst split_on_append) (simp_all add: none)
  then have segs: "split_on (CHR ''/'') ?path = [[], ''hooks'', ?E (xv_slug v), ''executions'']" by simp
  have plain: "list_all is_unreserved ''page''" "list_all is_unreserved ''status''" by code_simp+
  have "split_on (CHR ''&'') ?page = [?page]"
    by (rule split_on_no_sep) (simp add: none digits)
  moreover have "split_on (CHR ''&'') (?page @ CHR ''&'' # ''status='' @ ?E ?s) = [?page, ''status='' @ ?E ?s]"
    using split_on_append [of "CHR ''&''" ?page "''status='' @ ?E ?s"]
      split_on_no_sep [of "CHR ''&''" "''status='' @ ?E ?s"] by (simp add: none digits)
  ultimately have pairs: "query_pairs U ?query = (''page'', show_nat (Suc k)) #
      (if ?s = [] then [] else [(''status'', ?s)])"
    using url_roundtrip(4) [OF assms(1) plain(1)] url_roundtrip(4) [OF assms(1) plain(2)]
      url_roundtrip(4) [OF assms(1) show_nat_unreserved] url_roundtrip(2) [OF assms(1)]
    by (simp add: query_pairs_def)
  have "parse_i64 (show_nat (Suc k)) = Some (int k + 1)"
    using parse_show_i64 [of "Suc k"] assms(3) by simp
  then have "read_pagination_params U ?query = Some \<lparr>pp_page = Some (int k + 1), pp_status = non_empty ?s,
      pp_from_date = None, pp_to_date = None\<rparr>"
    unfolding read_pagination_params_def pairs by (simp add: query_field_def non_empty_def)
  then show ?thesis
    unfolding open_execution_list_def href split segs option.case prod.case list.case Let_def
    using encode_nonempty [OF assms(1,2)] url_roundtrip(1) [OF assms(1)]
    by (simp add: execution_page_def status_text_only)
qed

text \<open>C30: Following the links of the execution list shows every execution once. When no statement
  fails and no dates are chosen, start at the first page and follow the link to the next page as
  long as there is one: each link opens the next page, the one back the page before, with the
  same status. Together the pages show the executions of the hook (those of the chosen status),
  each exactly once, newest first; the range in the foot of each page is the range of the rows
  that it shows, and a page has a link back exactly when it is not the first. Of percent-coding it
  is assumed that decoding undoes it and that it writes no reserved character.\<close>

theorem execution_pages_complete:
  assumes "url_laws U" and "no_faults w" and "find_hook (\<lambda>h. hk_slug h = slug) (w_config w) \<noteq> None"
    and "slug \<noteq> []" and "length (w_execs w) < 2 ^ 62" and "filter (shows_status slug status) (w_execs w) \<noteq> []"
  shows "\<exists>views. views \<noteq> [] \<and> execution_page X slug status w 0 = Inr (hd views)
     \<and> (\<forall>k < length views. page_links_ok xv_rows xv_pagination views k
          \<and> (has_next (xv_pagination (views ! k)) \<longrightarrow>
               open_execution_list U X (next_page_href (url_encode U) (views ! k)) w = Some (Inr (views ! Suc k)))
          \<and> (has_previous (xv_pagination (views ! k)) \<longrightarrow>
               open_execution_list U X (previous_page_href (url_encode U) (views ! k)) w = Some (Inr (views ! (k - 1)))))
     \<and> mset (concat (map xv_rows views))
         = mset (map (from_execution X) (filter (shows_status slug status) (w_execs w)))
     \<and> sorted_wrt (\<lambda>a b. el_triggered_at b \<le> el_triggered_at a) (concat (map xv_rows views))"
proof -
  define rows where "rows = order_desc ex_triggered_at (filter (shows_status slug status) (w_execs w))"
  have nonempty: "rows \<noteq> []" using assms(6) by (metis length_0_conv length_order_desc rows_def)
  have few: "length rows < 2 ^ 62"
    using assms(5) length_filter_le [of "shows_status slug status" "w_execs w"]
    by (simp add: rows_def del: length_filter_le)
  then have small: "int k * 20 < 2 ^ 63" if "k * 20 < length rows" for k using that by simp
  note page = execution_page_value [OF assms(2,3)]
  obtain views where views: "\<forall>k < length views. k * 20 < length rows
        \<and> execution_page X slug status w k = Inr (views ! k) \<and> page_links_ok xv_rows xv_pagination views k"
      and all: "concat (map xv_rows views) = map (from_execution X) rows"
    using follow_pages [of 20 rows "execution_page X slug status w" xv_rows "from_execution X" xv_pagination]
      page small nonempty by (auto simp: rows_def)
  have link: "open_execution_list U X (execution_page_href (url_encode U) (views ! k) (int j + 1)) w
      = Some (Inr (views ! j)) \<and> pn_page (xv_pagination (views ! k)) = int k + 1"
    if "k < length views" "j < length views" for k j
  proof -
    have on: "k * 20 < length rows" "j * 20 < length rows"
      and j: "execution_page X slug status w j = Inr (views ! j)" using views that by auto
    have "views ! k = \<lparr>xv_slug = slug, xv_rows = map (from_execution X) (page_of 20 rows k),
        xv_pagination = pager_of 20 rows k, xv_active_status = text_or_default status,
        xv_active_from = [], xv_active_to = []\<rparr>"
      using page [OF small [OF on(1)], of X status] views that by (simp add: rows_def)
    moreover have "int j + 1 < 2 ^ 63" using on(2) few by simp
    ultimately show ?thesis
      using follow_link [OF assms(1), of "views ! k" j status X w] assms(4) j
        pager_of_fields [OF _ page_in_pager [OF _ on(1)]] by simp
  qed
  from all nonempty have "views \<noteq> []" by auto
  moreover have "execution_page X slug status w 0 = Inr (hd views)"
    using views \<open>views \<noteq> []\<close> by (simp add: hd_conv_nth)
  moreover have "open_execution_list U X (next_page_href (url_encode U) (views ! k)) w = Some (Inr (views ! Suc k))"
    if "k < length views" "has_next (xv_pagination (views ! k))" for k
    using link [of k "Suc k"] link [of k k] views that by (simp add: next_page_href_def page_links_ok_def Let_def)
  moreover have "open_execution_list U X (previous_page_href (url_encode U) (views ! k)) w = Some (Inr (views ! (k - 1)))"
    if "k < length views" "has_previous (xv_pagination (views ! k))" for k
    using link [of k "k - 1"] link [of k k] views that
    by (simp add: previous_page_href_def page_links_ok_def Let_def of_nat_diff)
  ultimately show ?thesis
    using views all sorted_order_desc [of ex_triggered_at "filter (shows_status slug status) (w_execs w)"]
    by (intro exI [of _ views]) (simp add: rows_def sorted_wrt_map from_execution_def)
qed

definition deploy_world :: world where
  "deploy_world = two_world\<lparr>w_config := sample_config\<lparr>cf_hooks := [sample_hook\<lparr>hk_slug := ''deploy''\<rparr>]\<rparr>\<rparr>"

theorem execution_pages_complete_witness:
  "\<exists>v. execution_page sample_external ''deploy'' (Some ''success'') deploy_world 0 = Inr v
     \<and> map el_id (xv_rows v) = [''e1''] \<and> \<not> has_next (xv_pagination v)"
proof -
  let ?p = "shows_status ''deploy'' (Some ''success'')"
  have rows: "filter ?p (w_execs deploy_world) = [sample_execution ''e1'' ''2026-01-01'' Success]"
    by (simp add: deploy_world_def two_world_def sample_world_def sample_execution_def shows_status_def non_empty_def)
  have hook: "find_hook (\<lambda>h. hk_slug h = ''deploy'') (w_config deploy_world) \<noteq> None"
    by (simp add: deploy_world_def two_world_def sample_world_def find_hook_def)
  have nf: "no_faults deploy_world" and few: "length (w_execs deploy_world) < 2 ^ 62"
    by (simp_all add: deploy_world_def two_world_def sample_world_def no_faults_def)
  from execution_pages_complete [OF sample_url_laws nf hook _ few, of "Some ''success''" sample_external] rows
  obtain views where views: "views \<noteq> []"
        "execution_page sample_external ''deploy'' (Some ''success'') deploy_world 0 = Inr (hd views)"
        "\<forall>k < length views. page_links_ok xv_rows xv_pagination views k"
      and shown: "concat (map xv_rows views)
        = [from_execution sample_external (sample_execution ''e1'' ''2026-01-01'' Success)]"
    by auto
  have "\<forall>r \<in> set (map xv_rows views). r \<noteq> []"
    using views(3) by (fastforce simp: Let_def page_links_ok_def in_set_conv_nth)
  with shown have "length views = 1" by (cases views; cases "tl views") (auto simp: append_eq_Cons_conv)
  with views shown show ?thesis
    by (cases views) (auto simp: Let_def page_links_ok_def from_execution_def sample_execution_def)
qed

section \<open>Attempts\<close>

definition shows_attempt :: "string \<Rightarrow> string option \<Rightarrow> trigger_attempt \<Rightarrow> bool" where
  "shows_attempt slug status a \<longleftrightarrow> ta_hook_slug a = slug
     \<and> (case Option.bind (Option.bind status non_empty) attempt_status_parse of
           Some s \<Rightarrow> ta_status a = s | None \<Rightarrow> True)"

definition attempt_page :: "string \<Rightarrow> string option \<Rightarrow> world \<Rightarrow> nat \<Rightarrow> app_error + attempt_list_view" where
  "attempt_page slug status w k = fst (run_state (trigger_attempt_list slug status (Some (int k + 1))) w)"

lemma attempt_status_text_inj [simp]: "attempt_status_text s = attempt_status_text t \<longleftrightarrow> s = t"
  by (cases s; cases t) auto

lemma attempt_page_value:
  fixes status :: "string option"
  assumes "no_faults w" and "find_hook (\<lambda>h. hk_slug h = slug) (w_config w) \<noteq> None"
    and "int k * 20 < 2 ^ 63"
  defines "rows \<equiv> order_desc ta_attempted_at (filter (shows_attempt slug status) (w_attempts w))"
  shows "attempt_page slug status w k = Inr
    \<lparr>av_slug = slug, av_rows = map from_attempt (page_of 20 rows k),
     av_pagination = pager_of 20 rows k, av_active_status = text_or_default status\<rparr>"
proof -
  have nf: "\<not> w_fault w n" for n using assms(1) by (simp add: no_faults_def)
  have offset: "wrap_i64 (int k * 20) = int k * 20" using assms(3) by (simp add: wrap_i64_id)
  have parsed: "Option.bind (non_empty (text_or_default status)) attempt_status_parse
      = Option.bind (Option.bind status non_empty) attempt_status_parse"
    by (cases status) (simp_all add: text_or_default_def non_empty_def)
  have "nat (int k * 20) = k * 20" by simp
  then show ?thesis
    using assms(2)
    by (cases "Option.bind (Option.bind status non_empty) attempt_status_parse")
      (auto simp: attempt_page_def trigger_attempt_list_def app_then_def nf Let_def parsed
        requested_page_def attempts_per_page_def offset
        attempt_count_by_hook_filtered_def attempt_list_by_hook_filtered_def
        attempt_count_by_hook_def attempt_list_by_hook_def
        limit_offset_def rows_def shows_attempt_def [abs_def] page_of_def pager_of_def)
qed

text \<open>The same for the trigger attempts; a status that is not known selects all.\<close>

theorem attempt_pages_complete:
  assumes "no_faults w" and "find_hook (\<lambda>h. hk_slug h = slug) (w_config w) \<noteq> None"
    and "length (w_attempts w) < 2 ^ 62" and "filter (shows_attempt slug status) (w_attempts w) \<noteq> []"
  shows "\<exists>views. (\<forall>k < length views. attempt_page slug status w k = Inr (views ! k)
         \<and> page_links_ok av_rows av_pagination views k)
     \<and> mset (concat (map av_rows views))
         = mset (map from_attempt (filter (shows_attempt slug status) (w_attempts w)))
     \<and> sorted_wrt (\<lambda>a b. al_attempted_at b \<le> al_attempted_at a) (concat (map av_rows views))"
proof -
  define rows where "rows = order_desc ta_attempted_at (filter (shows_attempt slug status) (w_attempts w))"
  have "rows \<noteq> []" using assms(4) by (metis length_0_conv length_order_desc rows_def)
  moreover have "length rows < 2 ^ 62"
    using assms(3) length_filter_le [of "shows_attempt slug status" "w_attempts w"]
    by (simp add: rows_def del: length_filter_le)
  then have "int k * 20 < 2 ^ 63" if "k * 20 < length rows" for k using that by simp
  ultimately obtain views where views: "\<forall>k < length views. k * 20 < length rows
        \<and> attempt_page slug status w k = Inr (views ! k) \<and> page_links_ok av_rows av_pagination views k"
      and all: "concat (map av_rows views) = map from_attempt rows"
    using follow_pages [of 20 rows "attempt_page slug status w" av_rows from_attempt av_pagination]
      attempt_page_value [OF assms(1,2)] by (auto simp: rows_def)
  then show ?thesis
    using sorted_order_desc [of ta_attempted_at "filter (shows_attempt slug status) (w_attempts w)"]
    by (intro exI [of _ views]) (simp add: rows_def sorted_wrt_map from_attempt_def)
qed

text \<open>A page number so large that the offset wraps around shows the newest rows again: SQLite takes
  a negative offset for none.\<close>

theorem huge_page_shows_first:
  assumes "no_faults w" and "find_hook (\<lambda>h. hk_slug h = slug) (w_config w) \<noteq> None"
  shows "map_sum id av_rows (fst (run_state (trigger_attempt_list slug None (Some (2 ^ 63 - 1))) w))
     = map_sum id av_rows (fst (run_state (trigger_attempt_list slug None (Some 1)) w))"
proof -
  have "\<not> w_fault w n" for n using assms(1) by (simp add: no_faults_def)
  then show ?thesis
    using assms(2) by (auto simp: trigger_attempt_list_def app_then_def Let_def text_or_default_def non_empty_def
        requested_page_def attempts_per_page_def wrap_i64_def attempt_list_by_hook_def
        attempt_count_by_hook_filtered_def attempt_count_by_hook_def limit_offset_def)
qed

end
