(* ===== verification/Pages.thy ===== *)
theory Pages
  imports Activity Log_Stream
begin

text \<open>
  The pages that show executions: \<open>execution_detail\<close> and \<open>list_pending_approvals\<close> of
  \<open>src/routes/executions.rs\<close>, the dashboard of \<open>src/routes/dashboard.rs\<close>, and the data of their
  pages in \<open>src/views\<close>. A handler answers with the record that its template renders.
\<close>

section \<open>The page of an execution\<close>

datatype status_kind = KindNeutral | KindOk | KindInfo | KindWarn | KindError

definition execution_status_kind :: "execution_status \<Rightarrow> status_kind" where
  "execution_status_kind s = (case s of
     Success \<Rightarrow> KindOk
   | Failed \<Rightarrow> KindError | TimedOut \<Rightarrow> KindError | Rejected \<Rightarrow> KindError | Expired \<Rightarrow> KindError
   | Running \<Rightarrow> KindWarn
   | Pending \<Rightarrow> KindInfo | PendingApproval \<Rightarrow> KindInfo
   | Approved \<Rightarrow> KindNeutral)"

record execution_detail_page =
  ep_id :: string
  ep_short_id :: string
  ep_hook_slug :: string
  ep_status_label :: string
  ep_status_kind :: status_kind
  ep_is_running :: bool
  ep_exit_code :: "int option"
  ep_triggered_at :: string
  ep_started_at :: "string option"
  ep_completed_at :: "string option"
  ep_duration :: "string option"
  ep_trigger_source :: string
  ep_retry_count :: int
  ep_retry_of :: "string option"
  ep_retry_short_id :: "string option"
  ep_stdout :: string
  ep_stderr :: string

definition detail_page :: "execution \<Rightarrow> string option \<Rightarrow> string \<Rightarrow> string \<Rightarrow> execution_detail_page" where
  "detail_page exec duration out err =
     \<lparr>ep_id = ex_id exec, ep_short_id = short_id (ex_id exec), ep_hook_slug = ex_hook_slug exec,
      ep_status_label = map ascii_upper (status_text (ex_status exec)),
      ep_status_kind = execution_status_kind (ex_status exec),
      ep_is_running = (ex_status exec = Running), ep_exit_code = ex_exit_code exec,
      ep_triggered_at = ex_triggered_at exec, ep_started_at = ex_started_at exec,
      ep_completed_at = ex_completed_at exec, ep_duration = duration,
      ep_trigger_source = ex_trigger_source exec, ep_retry_count = int (ex_retry_count exec),
      ep_retry_of = ex_retry_of exec, ep_retry_short_id = map_option short_id (ex_retry_of exec),
      ep_stdout = out, ep_stderr = err\<rparr>"

definition has_stderr :: "execution_detail_page \<Rightarrow> bool" where
  "has_stderr p \<longleftrightarrow> ep_stderr p \<noteq> []"

definition has_retry :: "execution_detail_page \<Rightarrow> bool" where
  "has_retry p \<longleftrightarrow> ep_retry_count p > 0"

definition execution_detail :: "external \<Rightarrow> string \<Rightarrow> (app_error + execution_detail_page) io" where
  "execution_detail X eid = do {
     config \<leftarrow> gets w_config;
     fetched \<leftarrow> execution_get_by_id eid;
     case fetched of
       Inl (NotFound _) \<Rightarrow> return (Inl (AppNotFound ''execution''))
     | Inl _ \<Rightarrow> return (Inl AppInternal)
     | Inr exec \<Rightarrow> do {
         let logs_dir = lg_dir (cf_logs config);
         (out, err) \<leftarrow>
           (if ex_status exec = Running then return ([], [])
            else do {
              out \<leftarrow> read_log_file logs_dir (ex_id exec) ''stdout.log'';
              err \<leftarrow> read_log_file logs_dir (ex_id exec) ''stderr.log'';
              let hook_env = hook_env_of config (ex_hook_slug exec);
              return (mask_secrets X (case out of Some s \<Rightarrow> s | None \<Rightarrow> ''No output captured.'')
                        (cf_masking config) hook_env,
                      mask_secrets X (case err of Some s \<Rightarrow> s | None \<Rightarrow> []) (cf_masking config) hook_env) });
         let duration = compute_duration X (ex_started_at exec) (ex_completed_at exec);
         return (Inr (detail_page exec duration out err)) } }"

section \<open>Approvals\<close>

record approval_row =
  pr_id :: string
  pr_hook_slug :: string
  pr_triggered_at :: string
  pr_trigger_source :: string

definition approval_row_of :: "execution \<Rightarrow> approval_row" where
  "approval_row_of e = \<lparr>pr_id = ex_id e, pr_hook_slug = ex_hook_slug e,
     pr_triggered_at = ex_triggered_at e, pr_trigger_source = ex_trigger_source e\<rparr>"

definition count_label :: "'r list \<Rightarrow> string" where
  "count_label rows = show_nat (length rows) @ '' pending''"

definition list_pending_approvals :: "(app_error + approval_row list) io" where
  "list_pending_approvals =
     app_then list_pending_approval (\<lambda>executions. return (Inr (map approval_row_of executions)))"

section \<open>The dashboard\<close>

datatype dashboard_status_dot = DotSuccess | DotFailed | DotRunning | DotMuted

definition dot_of :: "execution_status \<Rightarrow> dashboard_status_dot" where
  "dot_of s = (case s of Success \<Rightarrow> DotSuccess | Failed \<Rightarrow> DotFailed | Running \<Rightarrow> DotRunning | _ \<Rightarrow> DotMuted)"

fun color_var :: "dashboard_status_dot \<Rightarrow> string" where
  "color_var DotSuccess = ''--ok''"
| "color_var DotFailed = ''--err''"
| "color_var DotRunning = ''--warn''"
| "color_var DotMuted = ''--fg-muted''"

record dashboard_hook_row =
  dr_name :: string
  dr_slug :: string
  dr_filter_name :: string
  dr_enabled :: bool
  dr_last_triggered_at :: "string option"
  dr_recent_statuses :: "dashboard_status_dot list"

definition dashboard_row :: "hook_config \<Rightarrow> execution list \<Rightarrow> dashboard_hook_row" where
  "dashboard_row h recent =
     \<lparr>dr_name = hk_name h, dr_slug = hk_slug h, dr_filter_name = map ascii_lower (hk_name h),
      dr_enabled = hk_enabled h,
      dr_last_triggered_at = (case recent of [] \<Rightarrow> None | e # _ \<Rightarrow> Some (ex_triggered_at e)),
      dr_recent_statuses = map (\<lambda>e. dot_of (ex_status e)) (rev recent)\<rparr>"

fun dashboard_rows :: "hook_config list \<Rightarrow> dashboard_hook_row list io" where
  "dashboard_rows [] = return []"
| "dashboard_rows (h # hooks) = do {
     fetched \<leftarrow> list_recent_by_hook (hk_slug h) 5;
     let recent = (case fetched of Inr execs \<Rightarrow> execs | Inl _ \<Rightarrow> []);
     rows \<leftarrow> dashboard_rows hooks;
     return (dashboard_row h recent # rows) }"

definition dashboard :: "dashboard_hook_row list io" where
  "dashboard = do { config \<leftarrow> gets w_config; dashboard_rows (cf_hooks config) }"

section \<open>Masking with regular expressions\<close>

text \<open>\<open>Regex::replace_all\<close> keeps the text between the matches and puts the mask in the place of
  each match.\<close>

definition masks_matches :: "external \<Rightarrow> bool" where
  "masks_matches X \<longleftrightarrow>
     (\<forall>re s. \<exists>kept. regex_replace_all X re mask_text s = join mask_text kept \<and> (\<forall>k \<in> set kept. sublist k s))"

lemma sublist_join_mask:
  assumes "star_free u" and "u \<noteq> []" and "sublist u (join mask_text ks)"
  shows "\<exists>k \<in> set ks. sublist u k"
  using assms(3)
proof (induction "mask_text" ks rule: join.induct)
  case (3 s t ss)
  from 3(2) have "sublist u (s @ (mask_text @ join mask_text (t # ss)))" by simp
  then consider "sublist u s" | "sublist u (mask_text @ join mask_text (t # ss))"
    | us vs where "u = us @ vs" "suffix us s" "prefix vs (mask_text @ join mask_text (t # ss))"
    unfolding sublist_append [of u s] by blast
  then show ?case
  proof cases
    case 2
    with 3(1) sublist_mask_append [OF assms(1,2)] show ?thesis by auto
  next
    case 3
    then have "vs = []" using assms(1) by (cases vs) (auto simp: mask_text_def)
    with 3 show ?thesis by (auto intro: suffix_imp_sublist)
  qed simp
qed (use assms(2) in simp_all)

lemma regexes_sublist:
  assumes "masks_matches X" and "star_free u" and "u \<noteq> []"
    and "sublist u (foldl (\<lambda>r re. regex_replace_all X re mask_text r) t res)"
  shows "sublist u t"
  using assms(4)
proof (induction res arbitrary: t)
  case (Cons re res)
  then have "sublist u (regex_replace_all X re mask_text t)" by simp
  moreover obtain kept where "regex_replace_all X re mask_text t = join mask_text kept"
      "\<forall>k \<in> set kept. sublist k t" using assms(1) unfolding masks_matches_def by blast
  ultimately show ?case using sublist_join_mask [OF assms(2,3)] by (metis sublist_order.order.trans)
qed simp

lemma mask_secrets_hides:
  assumes "masks_matches X" and "name \<in> set (mk_env_vars config)"
    and "resolve_var X hook_env name = Some v" and "v \<noteq> []" and "star_free v"
  shows "\<not> sublist v (mask_secrets X text config hook_env)"
proof -
  let ?vars = "config\<lparr>mk_compiled_patterns := []\<rparr>"
  have "\<not> sublist v (mask_secrets X text ?vars hook_env)"
    by (rule mask_secrets_no_value) (use assms in simp_all)
  moreover have "mk_env_vars config \<noteq> []" using assms(2) by auto
  ultimately show ?thesis
    using regexes_sublist [OF assms(1,5,4)] by (auto simp: mask_secrets_def Let_def)
qed

section \<open>What the pages show\<close>

text \<open>C26: The page of an execution shows no secret of the logs. Neither the output nor the error
  text on the page contains the value of a masked variable, whether it is set in the environment
  of the hook or in that of the process, unless the value is empty or contains an asterisk: for
  every content of the log files, any further masking by regular expressions, failing file
  operations and statements included. While the execution runs, the page has no text at all. Of
  regular expressions it is assumed that replacing their matches keeps the text between them.\<close>

theorem detail_page_masked:
  assumes "run_state (execution_detail X eid) w = (Inr page, w')"
    and "masks_matches X"
    and "name \<in> set (mk_env_vars (cf_masking (w_config w)))"
    and "resolve_var X (hook_env_of (w_config w) (ep_hook_slug page)) name = Some v"
    and "v \<noteq> []" and "star_free v"
  shows "\<not> sublist v (ep_stdout page) \<and> \<not> sublist v (ep_stderr page)
     \<and> (ep_is_running page \<longrightarrow> ep_stdout page = [] \<and> ep_stderr page = [])"
proof -
  let ?config = "w_config w"
  have hidden: "\<not> sublist v (mask_secrets X t (cf_masking ?config) (hook_env_of ?config (ep_hook_slug page)))" for t
    by (rule mask_secrets_hides [OF assms(2-6)])
  have "\<not> sublist v []" using assms(5) by simp
  with assms(1) hidden show ?thesis
    by (auto simp: execution_detail_def read_log_file_def io_step_def detail_page_def Let_def
        split: db_error.splits sum.splits if_splits)
qed

text \<open>Literal patterns, as the concrete library has them, keep the text between their matches.\<close>

lemma str_replace_join:
  "\<exists>k ks. str_replace pat rep s = join rep (k # ks) \<and> prefix k s \<and> (\<forall>q \<in> set ks. sublist q s)"
proof (induction pat rep s rule: str_replace.induct)
  case (1 pat rep)
  show ?case by (intro exI [of _ "[]"] exI [of _ "if pat = [] then [[]] else []"]) simp
next
  case (2 pat rep c cs)
  have start: "c # join rep (k # ks) = join rep ((c # k) # ks)" for k ks by (cases ks) simp_all
  consider "pat = []" | rest where "pat \<noteq> []" "strip_prefix pat (c # cs) = Some rest"
    | "pat \<noteq> []" "strip_prefix pat (c # cs) = None" by (cases "strip_prefix pat (c # cs)") auto
  then show ?case
  proof cases
    case 1
    with 2(1) obtain k ks where k: "str_replace pat rep cs = join rep (k # ks)" "prefix k cs"
        "\<forall>q \<in> set ks. sublist q cs" by blast
    then have "str_replace pat rep (c # cs) = join rep ([] # (c # k) # ks)" using 1 start by simp
    with k show ?thesis
      by (intro exI [of _ "[]"] exI [of _ "(c # k) # ks"]) (auto simp: sublist_Cons_right)
  next
    case match: 2
    then have "sublist rest (c # cs)" by (simp add: strip_prefix_Some_iff)
    moreover obtain k ks where k: "str_replace pat rep rest = join rep (k # ks)" "prefix k rest"
        "\<forall>q \<in> set ks. sublist q rest" using 2(3) match by blast
    ultimately have "\<forall>q \<in> set (k # ks). sublist q (c # cs)"
      by (auto intro: sublist_order.order.trans prefix_imp_sublist)
    moreover have "str_replace pat rep (c # cs) = join rep ([] # k # ks)" using match k by simp
    ultimately show ?thesis by (intro exI [of _ "[]"] exI [of _ "k # ks"]) simp
  next
    case 3
    with 2(2) obtain k ks where k: "str_replace pat rep cs = join rep (k # ks)" "prefix k cs"
        "\<forall>q \<in> set ks. sublist q cs" by blast
    then have "str_replace pat rep (c # cs) = join rep ((c # k) # ks)" using 3 start by simp
    with k show ?thesis
      by (intro exI [of _ "c # k"] exI [of _ ks]) (auto simp: sublist_Cons_right)
  qed
qed

lemma sample_masks_matches: "masks_matches sample_external"
  unfolding masks_matches_def
proof (intro allI)
  fix re s :: string
  obtain k ks where k: "str_replace re mask_text s = join mask_text (k # ks)" "prefix k s"
      "\<forall>q \<in> set ks. sublist q s" using str_replace_join by blast
  then show "\<exists>kept. regex_replace_all sample_external re mask_text s = join mask_text kept
      \<and> (\<forall>k \<in> set kept. sublist k s)"
    by (intro exI [of _ "k # ks"]) (auto simp: sample_external_def intro: prefix_imp_sublist)
qed

definition log_world :: world where
  "log_world = deploy_world\<lparr>w_files := [''data/logs/e1/stdout.log'' \<mapsto> ''t=s3cret;'']\<rparr>"

lemma execution_detail_answers:
  assumes "\<not> w_fault w (w_stmts w)" and "find_exec eid w = Some exec"
  shows "\<exists>page w'. run_state (execution_detail X eid) w = (Inr page, w') \<and> ep_hook_slug page = ex_hook_slug exec"
  using assms by (cases "ex_status exec = Running")
    (simp_all add: execution_detail_def read_log_file_def io_step_def detail_page_def Let_def)

theorem detail_page_masked_witness:
  "\<exists>page. fst (run_state (execution_detail sample_external ''e1'') log_world) = Inr page
     \<and> \<not> sublist ''s3cret'' (ep_stdout page)"
proof -
  let ?exec = "sample_execution ''e1'' ''2026-01-01'' Success"
  have "find_exec ''e1'' log_world = Some ?exec" "\<not> w_fault log_world (w_stmts log_world)"
    by (simp_all add: log_world_def deploy_world_def two_world_def sample_world_def sample_execution_def
        find_exec_def)
  then obtain page w' where page: "run_state (execution_detail sample_external ''e1'') log_world = (Inr page, w')"
    and slug: "ep_hook_slug page = ''deploy''"
    using execution_detail_answers [of log_world "''e1''" ?exec sample_external]
    by (auto simp: sample_execution_def)
  have config: "cf_masking (w_config log_world) = cf_masking sample_config"
    by (simp add: log_world_def deploy_world_def)
  have "resolve_var sample_external (hook_env_of (w_config log_world) (ep_hook_slug page)) ''TOKEN'' = Some ''s3cret''"
    unfolding slug by (simp add: log_world_def deploy_world_def hook_env_of_def find_hook_def resolve_var_def
        sample_external_def sample_hook_def)
  with detail_page_masked [OF page sample_masks_matches _ this, unfolded config] page show ?thesis
    by (simp add: sample_config_def)
qed

end
