(* ===== verification/Backup.thy ===== *)
theory Backup
  imports Trigger_Rules
begin

text \<open>
  Backups (\<open>src/backup/mod.rs\<close>, \<open>src/backup/s3.rs\<close>): the keys of objects under the configured
  prefix, creating and restoring a backup, listing, and the retention policy that deletes.

  The bucket and the client of rust-s3 are a parameter \<open>L\<close> over a state \<open>'b\<close>; what is relied on is
  \<open>s3_behaves\<close>: what a request does, in terms of the set of stored objects. The manifest builds
  rust-s3 without the feature \<open>fail-on-err\<close>: a call that gets an answer is \<open>Ok\<close> whatever the status
  of the answer is, and the code does not look at the status. So the answers carry their status,
  and only one that stands for success tells that the request was done. The archive (snapshot of
  the database, tar and gzip) is a parameter too.
\<close>

section \<open>The store\<close>

record s3_object =
  so_key :: string
  so_size :: nat
  so_modified :: string
  so_data :: string

record 'b s3_lib =
  sl_new :: "backup_config \<Rightarrow> string option"
  sl_put :: "string \<Rightarrow> string \<Rightarrow> 'b \<Rightarrow> (string + nat) \<times> 'b"
  sl_get :: "string \<Rightarrow> 'b \<Rightarrow> (string + nat \<times> string) \<times> 'b"
  sl_list :: "string \<Rightarrow> 'b \<Rightarrow> (string + s3_object list list) \<times> 'b"
  sl_delete :: "string \<Rightarrow> 'b \<Rightarrow> (string + nat) \<times> 'b"

definition http_success :: "nat \<Rightarrow> bool" where
  "http_success st \<longleftrightarrow> 200 \<le> st \<and> st < 300"

text \<open>A request that is refused changes nothing; an answer that is no listing is an error of \<open>list\<close>,
  which has to parse it.\<close>

definition s3_behaves :: "'b s3_lib \<Rightarrow> ('b \<Rightarrow> s3_object set) \<Rightarrow> bool" where
  "s3_behaves L objs \<longleftrightarrow>
     (\<forall>b. inj_on so_key (objs b))
     \<and> (\<forall>p b pages b'. sl_list L p b = (Inr pages, b') \<longrightarrow>
          distinct (concat pages) \<and> set (concat pages) = {o1 \<in> objs b. starts_with p (so_key o1)} \<and> objs b' = objs b)
     \<and> (\<forall>k b st b'. sl_delete L k b = (Inr st, b') \<longrightarrow>
          objs b' = (if http_success st then {o1 \<in> objs b. so_key o1 \<noteq> k} else objs b))
     \<and> (\<forall>k d b st b'. sl_put L k d b = (Inr st, b') \<longrightarrow>
          (if http_success st
           then \<exists>o1. so_key o1 = k \<and> so_data o1 = d \<and> objs b' = insert o1 {o2 \<in> objs b. so_key o2 \<noteq> k}
           else objs b' = objs b))
     \<and> (\<forall>k st d b b'. sl_get L k b = (Inr (st, d), b') \<longrightarrow>
          objs b' = objs b \<and> (http_success st \<longrightarrow> (\<exists>o1 \<in> objs b. so_key o1 = k \<and> so_data o1 = d)))"

lemma s3_laws:
  assumes "s3_behaves L objs"
  shows "inj_on so_key (objs b)"
    and "sl_list L p b = (Inr pages, b') \<Longrightarrow>
      distinct (concat pages) \<and> set (concat pages) = {o1 \<in> objs b. starts_with p (so_key o1)} \<and> objs b' = objs b"
    and "sl_delete L k b = (Inr st, b') \<Longrightarrow>
      objs b' = (if http_success st then {o1 \<in> objs b. so_key o1 \<noteq> k} else objs b)"
    and "sl_put L k d b = (Inr st, b') \<Longrightarrow>
      (if http_success st
       then \<exists>o1. so_key o1 = k \<and> so_data o1 = d \<and> objs b' = insert o1 {o2 \<in> objs b. so_key o2 \<noteq> k}
       else objs b' = objs b)"
    and "sl_get L k b = (Inr (st, d), b') \<Longrightarrow>
      objs b' = objs b \<and> (http_success st \<longrightarrow> (\<exists>o1 \<in> objs b. so_key o1 = k \<and> so_data o1 = d))"
proof -
  note s3 = assms [unfolded s3_behaves_def, THEN conjunct2]
  show "inj_on so_key (objs b)"
    by (rule assms [unfolded s3_behaves_def, THEN conjunct1, rule_format])
  show "sl_list L p b = (Inr pages, b') \<Longrightarrow>
      distinct (concat pages) \<and> set (concat pages) = {o1 \<in> objs b. starts_with p (so_key o1)} \<and> objs b' = objs b"
    by (rule s3 [THEN conjunct1, rule_format])
  show "sl_delete L k b = (Inr st, b') \<Longrightarrow>
      objs b' = (if http_success st then {o1 \<in> objs b. so_key o1 \<noteq> k} else objs b)"
    using s3 [THEN conjunct2, THEN conjunct1] by blast
  show "sl_put L k d b = (Inr st, b') \<Longrightarrow>
      (if http_success st
       then \<exists>o1. so_key o1 = k \<and> so_data o1 = d \<and> objs b' = insert o1 {o2 \<in> objs b. so_key o2 \<noteq> k}
       else objs b' = objs b)"
    using s3 [THEN conjunct2, THEN conjunct2, THEN conjunct1] by blast
  show "sl_get L k b = (Inr (st, d), b') \<Longrightarrow>
      objs b' = objs b \<and> (http_success st \<longrightarrow> (\<exists>o1 \<in> objs b. so_key o1 = k \<and> so_data o1 = d))"
    using s3 [THEN conjunct2, THEN conjunct2, THEN conjunct2] by blast
qed

section \<open>The client\<close>

datatype backup_error = S3Failed string | BackupFailed string | CutoffOutOfRange

record backup_entry =
  be_key :: string
  be_size :: nat
  be_last_modified :: string

definition trim_end :: "char \<Rightarrow> string \<Rightarrow> string" where
  "trim_end c s = rev (dropWhile (\<lambda>d. d = c) (rev s))"

definition s3_key :: "backup_config \<Rightarrow> string \<Rightarrow> string" where
  "s3_key config name =
     (if bk_prefix config = [] then name else trim_end (CHR ''/'') (bk_prefix config) @ ''/'' @ name)"

definition list_prefix :: "backup_config \<Rightarrow> string" where
  "list_prefix config =
     (if bk_prefix config = [] then [] else trim_end (CHR ''/'') (bk_prefix config) @ ''/'')"

definition display_key :: "backup_config \<Rightarrow> string \<Rightarrow> string" where
  "display_key config key =
     (let pfx = list_prefix config
      in if pfx \<noteq> [] \<and> starts_with pfx key then drop (length pfx) key else key)"

definition s3_list :: "'b s3_lib \<Rightarrow> backup_config \<Rightarrow> 'b \<Rightarrow> (backup_error + backup_entry list) \<times> 'b" where
  "s3_list L config b =
     (case sl_list L (list_prefix config) b of
        (Inl e, b') \<Rightarrow> (Inl (S3Failed e), b')
      | (Inr pages, b') \<Rightarrow>
          (Inr (map (\<lambda>obj. \<lparr>be_key = display_key config (so_key obj), be_size = so_size obj,
                            be_last_modified = so_modified obj\<rparr>) (concat pages)), b'))"

definition s3_client :: "'b s3_lib \<Rightarrow> backup_config \<Rightarrow> ('b \<Rightarrow> (backup_error + 'a) \<times> 'b)
    \<Rightarrow> 'b \<Rightarrow> (backup_error + 'a) \<times> 'b" where
  "s3_client L config use b = (case sl_new L config of Some e \<Rightarrow> (Inl (S3Failed e), b) | None \<Rightarrow> use b)"

section \<open>Creating and restoring\<close>

text \<open>\<open>bundle\<close> is the archive, or the error of the temporary directory, the snapshot of the database,
  the archive or reading it; \<open>stamp\<close> is the formatted time.\<close>

definition create_backup :: "'b s3_lib \<Rightarrow> backup_config \<Rightarrow> string \<Rightarrow> string + string
    \<Rightarrow> 'b \<Rightarrow> (backup_error + string) \<times> 'b" where
  "create_backup L config stamp bundle = s3_client L config (\<lambda>b.
     case bundle of
       Inl e \<Rightarrow> (Inl (BackupFailed e), b)
     | Inr bytes \<Rightarrow>
         (let tarball_name = ''backup-'' @ stamp @ ''.tar.gz''
          in case sl_put L (s3_key config tarball_name) bytes b of
               (Inl e, b') \<Rightarrow> (Inl (S3Failed e), b')
             | (Inr _, b') \<Rightarrow> (Inr tarball_name, b')))"

definition restore_backup :: "'b s3_lib \<Rightarrow> backup_config \<Rightarrow> string \<Rightarrow> (string \<Rightarrow> string + 'a)
    \<Rightarrow> 'b \<Rightarrow> (backup_error + 'a) \<times> 'b" where
  "restore_backup L config key extract = s3_client L config (\<lambda>b.
     case sl_get L (s3_key config key) b of
       (Inl e, b') \<Rightarrow> (Inl (S3Failed e), b')
     | (Inr (_, data), b') \<Rightarrow>
         (case extract data of Inl e \<Rightarrow> (Inl (BackupFailed e), b') | Inr r \<Rightarrow> (Inr r, b')))"

definition list_backups :: "'b s3_lib \<Rightarrow> backup_config \<Rightarrow> 'b \<Rightarrow> (backup_error + backup_entry list) \<times> 'b" where
  "list_backups L config = s3_client L config (\<lambda>b.
     case s3_list L config b of
       (Inl e, b') \<Rightarrow> (Inl e, b')
     | (Inr entries, b') \<Rightarrow> (Inr (order_desc be_last_modified entries), b'))"

section \<open>Retention\<close>

definition excess_keys :: "nat option \<Rightarrow> backup_entry list \<Rightarrow> string list" where
  "excess_keys max_count entries =
     (case max_count of
        None \<Rightarrow> []
      | Some m \<Rightarrow> if length entries > m then map be_key (take (length entries - m) entries) else [])"

definition add_old_keys :: "string \<Rightarrow> backup_entry list \<Rightarrow> string list \<Rightarrow> string list" where
  "add_old_keys cutoff entries to_delete =
     foldl (\<lambda>d e. if be_last_modified e < cutoff \<and> be_key e \<notin> set d then d @ [be_key e] else d)
       to_delete entries"

fun delete_all :: "'b s3_lib \<Rightarrow> backup_config \<Rightarrow> string list \<Rightarrow> 'b \<Rightarrow> (backup_error + unit) \<times> 'b" where
  "delete_all L config [] b = (Inr (), b)"
| "delete_all L config (key # keys) b =
     (case sl_delete L (s3_key config key) b of
        (Inl e, b') \<Rightarrow> (Inl (S3Failed e), b')
      | (Inr _, b') \<Rightarrow> delete_all L config keys b')"

text \<open>The cutoff as a text; \<open>fmt\<close> formats a time and has no value beyond the range of dates, where the
  subtraction panics. An age beyond the range of a duration counts as zero.\<close>

definition cutoff_time :: "int \<Rightarrow> duration \<Rightarrow> int" where
  "cutoff_time now max_age = now - (case chrono_from_std max_age of Some d \<Rightarrow> d | None \<Rightarrow> 0)"

definition apply_retention :: "(int \<Rightarrow> string option) \<Rightarrow> 'b s3_lib \<Rightarrow> backup_config \<Rightarrow> int
    \<Rightarrow> 'b \<Rightarrow> (backup_error + unit) \<times> 'b" where
  "apply_retention fmt L config now b =
     (let retention = bk_retention config
      in if rt_max_count retention = None \<and> rt_max_age retention = None then (Inr (), b)
         else s3_client L config (\<lambda>b.
           case s3_list L config b of
             (Inl e, b') \<Rightarrow> (Inl e, b')
           | (Inr entries, b') \<Rightarrow>
               (let entries = sort_key be_last_modified entries;
                    to_delete = excess_keys (rt_max_count retention) entries
                in case rt_max_age retention of
                     None \<Rightarrow> delete_all L config to_delete b'
                   | Some max_age \<Rightarrow>
                       (case fmt (cutoff_time now max_age) of
                          None \<Rightarrow> (Inl CutoffOutOfRange, b')
                        | Some cutoff \<Rightarrow> delete_all L config (add_old_keys cutoff entries to_delete) b'))) b)"

section \<open>Keys\<close>

lemma display_key_inverse:
  "starts_with (list_prefix config) key \<Longrightarrow> s3_key config (display_key config key) = key"
  by (auto simp: s3_key_def display_key_def list_prefix_def Let_def starts_with_def strip_prefix_Some_iff)

lemma display_of_key: "display_key config (s3_key config name) = name"
  by (auto simp: s3_key_def display_key_def list_prefix_def Let_def starts_with_def strip_prefix_Some_iff)

lemma listed_key: "starts_with (list_prefix config) (s3_key config name)"
  by (auto simp: s3_key_def list_prefix_def starts_with_def strip_prefix_Some_iff)

text \<open>C14: Backups round trip through the bucket. When creating a backup is reported as a success and the
  server has accepted the upload, the archive is stored under a key below the prefix; if it is then
  listed, the list has an entry of exactly the name that was returned; and restoring that name
  extracts the very bytes that were archived, unless the request fails or the server refuses it, when
  the text of the refusal is extracted. This holds for every prefix, with or without slashes at its end, and
  for none. When the server refused the upload, nothing was stored: the success is reported all
  the same.\<close>

theorem backup_roundtrip:
  assumes "s3_behaves L objs"
    and "create_backup L config stamp (Inr bytes) b = (Inr name, b1)"
    and "list_backups L config b1 = (Inr entries, b2)"
    and "restore_backup L config name extract b2 = (result, b3)"
  shows "\<exists>st. sl_put L (s3_key config name) bytes b = (Inr st, b1)
    \<and> (if http_success st
       then name \<in> be_key ` set entries
         \<and> ((\<exists>e. result = Inl (S3Failed e))
            \<or> (\<exists>got data. sl_get L (s3_key config name) b2 = (Inr (got, data), b3)
                 \<and> (http_success got \<longrightarrow> data = bytes)
                 \<and> result = (case extract data of Inl e \<Rightarrow> Inl (BackupFailed e) | Inr r \<Rightarrow> Inr r)))
       else objs b1 = objs b)"
proof -
  have new: "sl_new L config = None"
    using assms(2) by (auto simp: create_backup_def s3_client_def split: option.splits)
  let ?k = "s3_key config name"
  obtain st where put: "sl_put L ?k bytes b = (Inr st, b1)"
    using assms(2) new by (auto simp: create_backup_def s3_client_def Let_def split: prod.splits sum.splits)
  note stored = s3_laws(4) [OF assms(1) put]
  show ?thesis
  proof (cases "http_success st")
    case False
    with put stored show ?thesis by auto
  next
    case True
    with stored obtain o1 where o1: "so_key o1 = ?k" "so_data o1 = bytes" "o1 \<in> objs b1" by auto
    obtain pages where pages: "sl_list L (list_prefix config) b1 = (Inr pages, b2)"
        "entries = order_desc be_last_modified (map (\<lambda>obj. \<lparr>be_key = display_key config (so_key obj),
           be_size = so_size obj, be_last_modified = so_modified obj\<rparr>) (concat pages))"
      using assms(3) new by (auto simp: list_backups_def s3_client_def s3_list_def split: prod.splits sum.splits)
    have "set (concat pages) = {o1 \<in> objs b1. starts_with (list_prefix config) (so_key o1)}" "objs b2 = objs b1"
      using s3_laws(2) [OF assms(1) pages(1)] by simp_all
    moreover have "starts_with (list_prefix config) (so_key o1)" using o1(1) listed_key by simp
    ultimately have listed: "o1 \<in> set (concat pages)" "o1 \<in> objs b2" using o1(3) by auto
    then have name: "name \<in> be_key ` set entries"
      using o1(1) by (force simp: pages(2) order_desc_def display_of_key)
    have same: "so_data o2 = bytes" if "o2 \<in> objs b2" "so_key o2 = ?k" for o2
      using inj_onD [OF s3_laws(1) [OF assms(1)] _ that(1) listed(2)] that(2) o1(1,2) by simp
    have got: "data = bytes" if "sl_get L ?k b2 = (Inr (got, data), b')" "http_success got" for got data b'
      using s3_laws(5) [OF assms(1) that(1)] that(2) same by blast
    have "(\<exists>e. result = Inl (S3Failed e))
        \<or> (\<exists>got data. sl_get L ?k b2 = (Inr (got, data), b3)
             \<and> result = (case extract data of Inl e \<Rightarrow> Inl (BackupFailed e) | Inr r \<Rightarrow> Inr r))"
    proof (cases "sl_get L ?k b2")
      case (Pair answer b')
      with assms(4) new show ?thesis
        by (cases answer) (auto simp: restore_backup_def s3_client_def split: prod.splits sum.splits)
    qed
    with name put True got show ?thesis by auto
  qed
qed

section \<open>What retention deletes\<close>

lemma excess_keys_eq:
  "excess_keys mc es = (case mc of Some m \<Rightarrow> map be_key (take (length es - m) es) | None \<Rightarrow> [])"
  by (simp add: excess_keys_def split: option.split)

lemma add_old_keys_set:
  "set (add_old_keys cutoff entries d) = set d \<union> be_key ` {e \<in> set entries. be_last_modified e < cutoff}"
proof (induction entries arbitrary: d)
  case (Cons e entries)
  have "add_old_keys cutoff (e # entries) d
      = add_old_keys cutoff entries (if be_last_modified e < cutoff \<and> be_key e \<notin> set d then d @ [be_key e] else d)"
    by (simp add: add_old_keys_def)
  then show ?case using Cons.IH by auto
qed (simp add: add_old_keys_def)

text \<open>The server refused at least one deletion of the key.\<close>

definition refused :: "'b s3_lib \<Rightarrow> string \<Rightarrow> bool" where
  "refused L key \<longleftrightarrow> (\<exists>b st b'. sl_delete L key b = (Inr st, b') \<and> \<not> http_success st)"

lemma delete_all_objs:
  assumes "s3_behaves L objs" and "delete_all L config keys b = (Inr u, b')"
  obtains R where "objs b' = objs b - ({o1 \<in> objs b. so_key o1 \<in> s3_key config ` set keys} - R)"
    and "\<forall>o1 \<in> R. refused L (so_key o1)"
proof -
  have "\<exists>R. objs b' = objs b - ({o1 \<in> objs b. so_key o1 \<in> s3_key config ` set keys} - R)
      \<and> (\<forall>o1 \<in> R. refused L (so_key o1))"
    using assms(2)
  proof (induction keys arbitrary: b)
    case Nil
    then show ?case by (intro exI [of _ "{}"]) simp
  next
    case (Cons k keys)
    let ?k = "s3_key config k"
    from Cons.prems obtain st b1 where b1: "sl_delete L ?k b = (Inr st, b1)"
        "delete_all L config keys b1 = (Inr u, b')"
      by (auto split: prod.splits sum.splits)
    from Cons.IH [OF b1(2)] obtain R where R: "\<forall>o1 \<in> R. refused L (so_key o1)"
        "objs b' = objs b1 - ({o1 \<in> objs b1. so_key o1 \<in> s3_key config ` set keys} - R)" by blast
    note d = s3_laws(3) [OF assms(1) b1(1)]
    show ?case
    proof (cases "http_success st")
      case True
      with d R show ?thesis by (intro exI [of _ "{o1 \<in> R. so_key o1 \<noteq> ?k}"]) auto
    next
      case False
      with b1(1) have "refused L ?k" by (auto simp: refused_def)
      with False d R show ?thesis
        by (intro exI [of _ "R \<union> {o1. so_key o1 = ?k \<and> ?k \<notin> s3_key config ` set keys}"]) auto
    qed
  qed
  then show ?thesis using that by blast
qed

definition listed :: "backup_config \<Rightarrow> s3_object \<Rightarrow> bool" where
  "listed config o1 \<longleftrightarrow> starts_with (list_prefix config) (so_key o1)"

definition entry_for :: "backup_config \<Rightarrow> s3_object \<Rightarrow> backup_entry" where
  "entry_for config o1 = \<lparr>be_key = display_key config (so_key o1), be_size = so_size o1,
     be_last_modified = so_modified o1\<rparr>"

lemma entry_for_inj:
  assumes "s3_behaves L objs"
  shows "inj_on (entry_for config) {o1 \<in> objs b. listed config o1}"
proof (rule inj_onI)
  fix o1 o2
  assume o: "o1 \<in> {o1 \<in> objs b. listed config o1}" "o2 \<in> {o1 \<in> objs b. listed config o1}"
    and "entry_for config o1 = entry_for config o2"
  then have "s3_key config (display_key config (so_key o1)) = s3_key config (display_key config (so_key o2))"
    by (simp add: entry_for_def)
  with o have "so_key o1 = so_key o2" by (simp add: listed_def display_key_inverse)
  with o show "o1 = o2" using inj_onD [OF s3_laws(1) [OF assms]] by blast
qed

text \<open>The entries from the oldest to the newest, and what is deleted in terms of them.\<close>

lemma retention_deletes:
  assumes "s3_behaves L objs" and "apply_retention fmt L config now b = (Inr u, b')"
    and "rt_max_count (bk_retention config) \<noteq> None \<or> rt_max_age (bk_retention config) \<noteq> None"
  obtains es doomed R where "sorted (map be_last_modified es)" and "distinct es"
    and "set es = entry_for config ` {o1 \<in> objs b. listed config o1}"
    and "objs b' = objs b - ({o1 \<in> objs b. listed config o1 \<and> entry_for config o1 \<in> doomed} - R)"
    and "\<forall>o1 \<in> R. refused L (so_key o1)"
    and "doomed = (case rt_max_count (bk_retention config) of
           Some m \<Rightarrow> set (take (length es - m) es) | None \<Rightarrow> {})
         \<union> (case rt_max_age (bk_retention config) of
              Some age \<Rightarrow> {e \<in> set es. \<exists>cutoff. fmt (cutoff_time now age) = Some cutoff \<and> be_last_modified e < cutoff}
            | None \<Rightarrow> {})"
    and "\<And>age. rt_max_age (bk_retention config) = Some age \<Longrightarrow> fmt (cutoff_time now age) \<noteq> None"
proof -
  let ?rt = "bk_retention config"
  have "sl_new L config = None"
    using assms(2,3) by (auto simp: apply_retention_def s3_client_def Let_def split: option.splits)
  with assms(2,3) obtain entries b1 where list: "s3_list L config b = (Inr entries, b1)"
    by (auto simp: apply_retention_def s3_client_def Let_def split: prod.splits sum.splits if_splits)
  then obtain pages where pages: "sl_list L (list_prefix config) b = (Inr pages, b1)"
      "entries = map (entry_for config) (concat pages)"
    by (auto simp: s3_list_def entry_for_def [abs_def] split: prod.splits sum.splits)
  from s3_laws(2) [OF assms(1) pages(1)] have all: "distinct (concat pages)"
      "set (concat pages) = {o1 \<in> objs b. listed config o1}" "objs b1 = objs b"
    by (simp_all add: listed_def)
  define es where "es = sort_key be_last_modified entries"
  have es: "sorted (map be_last_modified es)" "distinct es" "set es = entry_for config ` {o1 \<in> objs b. listed config o1}"
    using all entry_for_inj [OF assms(1), of config b] by (simp_all add: es_def pages(2) distinct_map)
  define doomed where "doomed = (case rt_max_count ?rt of Some m \<Rightarrow> set (take (length es - m) es) | None \<Rightarrow> {})
      \<union> (case rt_max_age ?rt of
           Some age \<Rightarrow> {e \<in> set es. \<exists>cutoff. fmt (cutoff_time now age) = Some cutoff \<and> be_last_modified e < cutoff}
         | None \<Rightarrow> {})"
  have excess: "set (excess_keys (rt_max_count ?rt) es)
      = be_key ` (case rt_max_count ?rt of Some m \<Rightarrow> set (take (length es - m) es) | None \<Rightarrow> {})"
    by (simp add: excess_keys_eq split: option.split)
  obtain keys where keys: "delete_all L config keys b1 = (Inr u, b')" "set keys = be_key ` doomed"
      "\<And>age. rt_max_age ?rt = Some age \<Longrightarrow> fmt (cutoff_time now age) \<noteq> None"
  proof (cases "rt_max_age ?rt")
    case None
    with assms(2,3) list \<open>sl_new L config = None\<close> excess show ?thesis
      by (intro that [of "excess_keys (rt_max_count ?rt) es"])
        (auto simp: apply_retention_def s3_client_def Let_def es_def doomed_def)
  next
    case (Some age)
    with assms(2) list \<open>sl_new L config = None\<close> obtain cutoff where c: "fmt (cutoff_time now age) = Some cutoff"
        "delete_all L config (add_old_keys cutoff es (excess_keys (rt_max_count ?rt) es)) b1 = (Inr u, b')"
      by (auto simp: apply_retention_def s3_client_def Let_def es_def split: option.splits)
    with Some excess show ?thesis
      by (intro that [OF c(2)]) (auto simp: add_old_keys_set doomed_def image_Un)
  qed
  have sub: "doomed \<subseteq> set es" by (auto simp: doomed_def dest: in_set_takeD split: option.splits)
  have "so_key o1 \<in> s3_key config ` set keys \<longleftrightarrow> listed config o1 \<and> entry_for config o1 \<in> doomed"
    if o1: "o1 \<in> objs b" for o1
  proof
    assume "so_key o1 \<in> s3_key config ` set keys"
    then obtain e where e: "e \<in> doomed" "so_key o1 = s3_key config (be_key e)" using keys(2) by auto
    with sub es(3) obtain o2 where o2: "o2 \<in> objs b" "listed config o2" "e = entry_for config o2" by auto
    with e(2) have "so_key o1 = so_key o2" by (simp add: entry_for_def listed_def display_key_inverse)
    with inj_onD [OF s3_laws(1) [OF assms(1)] _ o1 o2(1)] e(1) o2 show "listed config o1 \<and> entry_for config o1 \<in> doomed"
      by simp
  next
    assume o: "listed config o1 \<and> entry_for config o1 \<in> doomed"
    then have "be_key (entry_for config o1) \<in> set keys" using keys(2) by simp
    then show "so_key o1 \<in> s3_key config ` set keys"
      using o by (force simp: entry_for_def listed_def display_key_inverse)
  qed
  then have doomed: "{o1 \<in> objs b. so_key o1 \<in> s3_key config ` set keys}
      = {o1 \<in> objs b. listed config o1 \<and> entry_for config o1 \<in> doomed}" by blast
  obtain R where "objs b' = objs b1 - ({o1 \<in> objs b1. so_key o1 \<in> s3_key config ` set keys} - R)"
      "\<forall>o1 \<in> R. refused L (so_key o1)"
    by (rule delete_all_objs [OF assms(1) keys(1)])
  then show ?thesis by (intro that [OF es _ _ doomed_def keys(3)]) (simp_all add: all(3) doomed)
qed

text \<open>Of a list that represents a set in order, the first \<open>n\<close> entries stand for \<open>n\<close> elements, and no
  element behind them is smaller.\<close>

lemma first_entries:
  fixes n :: nat
  assumes "sorted (map g es)" and "distinct es" and "set es = f ` A" and "inj_on f A"
  defines "D \<equiv> {x \<in> A. f x \<in> set (take n es)}"
  shows "card D = min n (card A)" and "\<forall>d \<in> D. \<forall>k \<in> A - D. g (f d) \<le> g (f k)"
proof -
  have "f ` D = set (take n es)" using assms(3) set_take_subset [of n es] by (auto simp: D_def)
  moreover have "inj_on f D" using assms(4) by (rule inj_on_subset) (auto simp: D_def)
  ultimately have "card D = card (set (take n es))" by (metis card_image)
  moreover have "length es = card A" using assms(2-4) by (metis card_image distinct_card)
  ultimately show "card D = min n (card A)" using assms(2) by (simp add: distinct_card)
  have "g d \<le> g k" if "d \<in> set (take n es)" "k \<in> set (drop n es)" for d k
  proof -
    have "sorted (map g (take n es @ drop n es))" using assms(1) by simp
    with that show ?thesis unfolding map_append sorted_append by simp
  qed
  moreover have "f k \<in> set (drop n es)" if "k \<in> A - D" for k
  proof -
    from that have "f k \<in> set (take n es @ drop n es)" using assms(3) by simp
    with that show ?thesis unfolding set_append by (auto simp: D_def)
  qed
  ultimately show "\<forall>d \<in> D. \<forall>k \<in> A - D. g (f d) \<le> g (f k)" by (auto simp: D_def)
qed

definition too_old :: "(int \<Rightarrow> string option) \<Rightarrow> backup_config \<Rightarrow> int \<Rightarrow> s3_object \<Rightarrow> bool" where
  "too_old fmt config now o1 \<longleftrightarrow>
     (case rt_max_age (bk_retention config) of
        None \<Rightarrow> False
      | Some age \<Rightarrow> (case fmt (cutoff_time now age) of Some cutoff \<Rightarrow> so_modified o1 < cutoff | None \<Rightarrow> False))"

definition excess_number :: "backup_config \<Rightarrow> nat \<Rightarrow> nat" where
  "excess_number config n = (case rt_max_count (bk_retention config) of Some m \<Rightarrow> n - m | None \<Rightarrow> 0)"

lemma retention_effect:
  assumes "s3_behaves L objs" and "apply_retention fmt L config now b = (Inr u, b')"
  shows "\<exists>D R. D \<subseteq> {o1 \<in> objs b. listed config o1}
    \<and> card D = excess_number config (card {o1 \<in> objs b. listed config o1})
    \<and> (\<forall>d \<in> D. \<forall>k \<in> {o1 \<in> objs b. listed config o1} - D. so_modified d \<le> so_modified k)
    \<and> (\<forall>o1 \<in> R. refused L (so_key o1))
    \<and> objs b' = objs b - ((D \<union> {o1 \<in> objs b. listed config o1 \<and> too_old fmt config now o1}) - R)"
proof (cases "rt_max_count (bk_retention config) = None \<and> rt_max_age (bk_retention config) = None")
  case True
  with assms(2) show ?thesis
    by (intro exI [of _ "{}"]) (simp add: apply_retention_def excess_number_def too_old_def)
next
  case False
  let ?rt = "bk_retention config" and ?all = "{o1 \<in> objs b. listed config o1}"
  from False have policy: "rt_max_count ?rt \<noteq> None \<or> rt_max_age ?rt \<noteq> None" by simp
  obtain es doomed R where es: "sorted (map be_last_modified es)" "distinct es" "set es = entry_for config ` ?all"
    and b': "objs b' = objs b - ({o1 \<in> objs b. listed config o1 \<and> entry_for config o1 \<in> doomed} - R)"
    and R: "\<forall>o1 \<in> R. refused L (so_key o1)"
    and d: "doomed = (case rt_max_count ?rt of Some m \<Rightarrow> set (take (length es - m) es) | None \<Rightarrow> {})
         \<union> (case rt_max_age ?rt of
              Some age \<Rightarrow> {e \<in> set es. \<exists>cutoff. fmt (cutoff_time now age) = Some cutoff \<and> be_last_modified e < cutoff}
            | None \<Rightarrow> {})"
    by (rule retention_deletes [OF assms(1,2) policy], rule that)
  note inj = entry_for_inj [OF assms(1), of config b]
  define n where "n = excess_number config (length es)"
  define D where "D = {o1 \<in> ?all. entry_for config o1 \<in> set (take n es)}"
  have len: "length es = card ?all" using es(2,3) inj by (metis card_image distinct_card)
  note first = first_entries [OF es inj, of n, folded D_def]
  have "n \<le> card ?all" by (simp add: n_def len excess_number_def split: option.split)
  with first(1) have "card D = excess_number config (card ?all)" by (simp add: n_def len)
  moreover have "\<forall>d \<in> D. \<forall>k \<in> ?all - D. so_modified d \<le> so_modified k"
    using first(2) by (simp add: entry_for_def)
  moreover have "{o1 \<in> objs b. listed config o1 \<and> entry_for config o1 \<in> doomed}
      = D \<union> {o1 \<in> objs b. listed config o1 \<and> too_old fmt config now o1}"
    using es(3) by (auto simp: D_def d n_def excess_number_def too_old_def entry_for_def split: option.splits)
  ultimately show ?thesis using R b' by (intro exI [of _ D] exI [of _ R]) (auto simp: D_def)
qed

text \<open>C13: Retention deletes what the policy says and nothing else. When the policy is applied without an
  error, the objects that go are: of those below the prefix the oldest beyond the newest
  \<open>max_count\<close>, exactly as many as there are too many (a set \<open>D\<close> of which no object is newer than one
  that is not in it), and those older than the cutoff. Whatever is not below the prefix stays,
  everything else below it stays, and so do those that the server refuses to delete, which the
  code does not notice.\<close>

theorem retention_spec:
  assumes "s3_behaves L objs" and "apply_retention fmt L config now b = (Inr u, b')"
  shows "\<exists>D R. D \<subseteq> {o1 \<in> objs b. listed config o1}
    \<and> card D = (case rt_max_count (bk_retention config) of
          Some m \<Rightarrow> card {o1 \<in> objs b. listed config o1} - m | None \<Rightarrow> 0)
    \<and> (\<forall>d \<in> D. \<forall>k \<in> {o1 \<in> objs b. listed config o1} - D. so_modified d \<le> so_modified k)
    \<and> (\<forall>o1 \<in> R. refused L (so_key o1))
    \<and> objs b' = objs b - ((D \<union> {o1 \<in> objs b. listed config o1 \<and> too_old fmt config now o1}) - R)"
  using retention_effect [OF assms] unfolding excess_number_def .

text \<open>An age that is too long for a duration counts as zero: everything below the prefix that is older
  than this very moment is deleted, unless the server refuses.\<close>

theorem endless_age_deletes_all:
  assumes "s3_behaves L objs" and "apply_retention fmt L config now b = (Inr u, b')"
    and "rt_max_age (bk_retention config) = Some age" and "age > i64_max * 1000000"
    and "o1 \<in> objs b" and "listed config o1" and "fmt now = Some cutoff" and "so_modified o1 < cutoff"
    and "\<not> refused L (so_key o1)"
  shows "o1 \<notin> objs b'"
proof -
  have "cutoff_time now age = now" using assms(4) by (simp add: cutoff_time_def chrono_from_std_def)
  then have "too_old fmt config now o1" using assms(3,7,8) by (simp add: too_old_def)
  with retention_effect [OF assms(1,2)] assms(5,6,9) show ?thesis by auto
qed

section \<open>Witnesses\<close>

text \<open>A bucket as a list of objects, the newest object of a key first.\<close>

fun newest :: "s3_object list \<Rightarrow> s3_object list" where
  "newest [] = []"
| "newest (o1 # os) = o1 # filter (\<lambda>o2. so_key o2 \<noteq> so_key o1) (newest os)"

definition sample_s3 :: "s3_object list s3_lib" where
  "sample_s3 = \<lparr>sl_new = (\<lambda>_. None),
     sl_put = (\<lambda>k d b. (Inr 200, \<lparr>so_key = k, so_size = length d, so_modified = ''2026'', so_data = d\<rparr> # b)),
     sl_get = (\<lambda>k b. (case find (\<lambda>o1. so_key o1 = k) (newest b) of Some o1 \<Rightarrow> Inr (200, so_data o1) | None \<Rightarrow> Inr (404, ''NoSuchKey''), b)),
     sl_list = (\<lambda>p b. (Inr [filter (\<lambda>o1. starts_with p (so_key o1)) (newest b)], b)),
     sl_delete = (\<lambda>k b. (Inr 204, filter (\<lambda>o1. so_key o1 \<noteq> k) b))\<rparr>"

lemma newest_filter: "newest (filter (\<lambda>o1. so_key o1 \<noteq> k) b) = filter (\<lambda>o1. so_key o1 \<noteq> k) (newest b)"
  by (induction b) (auto simp: filter_filter conj_commute cong: filter_cong)

lemma newest_distinct: "distinct (map so_key (newest b))"
  by (induction b) (auto simp: distinct_map inj_on_def)

lemma sample_s3_put: "sl_put sample_s3 k d b = (Inr st, b') \<Longrightarrow> http_success st
  \<and> (\<exists>o1. so_key o1 = k \<and> so_data o1 = d \<and> set (newest b') = insert o1 {o2 \<in> set (newest b). so_key o2 \<noteq> k})"
  by (intro conjI exI [of _ "\<lparr>so_key = k, so_size = length d, so_modified = ''2026'', so_data = d\<rparr>"])
    (auto simp: sample_s3_def http_success_def)

lemma sample_s3_behaves: "s3_behaves sample_s3 (\<lambda>b. set (newest b))"
  unfolding s3_behaves_def
proof (intro conjI)
  show "\<forall>k d b st b'. sl_put sample_s3 k d b = (Inr st, b') \<longrightarrow>
      (if http_success st
       then \<exists>o1. so_key o1 = k \<and> so_data o1 = d \<and> set (newest b') = insert o1 {o2 \<in> set (newest b). so_key o2 \<noteq> k}
       else set (newest b') = set (newest b))"
    using sample_s3_put by auto
qed (use newest_distinct in \<open>auto simp: sample_s3_def newest_filter distinct_map find_Some_iff http_success_def
  split: option.splits\<close>)

definition sample_backup :: "nat \<Rightarrow> backup_config" where
  "sample_backup m = \<lparr>bk_endpoint = ''e'', bk_bucket = ''b'', bk_access_key = [], bk_secret_key = [], bk_region = [],
     bk_prefix = ''prod/'', bk_schedule = None, bk_retention = \<lparr>rt_max_count = Some m, rt_max_age = None\<rparr>\<rparr>"

definition sample_bucket :: "s3_object list" where
  "sample_bucket = [\<lparr>so_key = ''prod/b'', so_size = 1, so_modified = ''2025'', so_data = ''x''\<rparr>,
     \<lparr>so_key = ''prod/a'', so_size = 1, so_modified = ''2024'', so_data = ''y''\<rparr>,
     \<lparr>so_key = ''other'', so_size = 1, so_modified = ''2020'', so_data = ''z''\<rparr>]"

lemmas sample_bucket_defs = sample_s3_def sample_backup_def sample_bucket_def s3_list_def s3_client_def
  display_key_def list_prefix_def s3_key_def trim_end_def starts_with_def Let_def

lemma sample_retention:
  "apply_retention (\<lambda>_. None) sample_s3 (sample_backup 1) 0 sample_bucket
     = (Inr (), [\<lparr>so_key = ''prod/b'', so_size = 1, so_modified = ''2025'', so_data = ''x''\<rparr>,
                  \<lparr>so_key = ''other'', so_size = 1, so_modified = ''2020'', so_data = ''z''\<rparr>])"
  by code_simp

theorem retention_spec_witness:
  "\<exists>D. card D = card {o1 \<in> set (newest sample_bucket). listed (sample_backup 1) o1} - 1
     \<and> set (newest (snd (apply_retention (\<lambda>_. None) sample_s3 (sample_backup 1) 0 sample_bucket)))
         = set (newest sample_bucket) - D"
proof -
  have "rt_max_count (bk_retention (sample_backup 1)) = Some 1" "rt_max_age (bk_retention (sample_backup 1)) = None"
    by (simp_all add: sample_backup_def)
  moreover have "\<not> refused sample_s3 k" for k
    by (auto simp: refused_def sample_s3_def http_success_def)
  ultimately show ?thesis
    using retention_spec [OF sample_s3_behaves sample_retention] unfolding sample_retention snd_conv
    by (auto simp: too_old_def)
qed

theorem backup_roundtrip_witness:
  "\<exists>b1 entries b2. create_backup sample_s3 (sample_backup 1) ''now'' (Inr ''bytes'') sample_bucket
       = (Inr ''backup-now.tar.gz'', b1)
     \<and> list_backups sample_s3 (sample_backup 1) b1 = (Inr entries, b2)
     \<and> ''backup-now.tar.gz'' \<in> be_key ` set entries"
proof -
  obtain b1 where c: "create_backup sample_s3 (sample_backup 1) ''now'' (Inr ''bytes'') sample_bucket
      = (Inr ''backup-now.tar.gz'', b1)"
    by (simp add: create_backup_def sample_bucket_defs)
  obtain entries b2 where l: "list_backups sample_s3 (sample_backup 1) b1 = (Inr entries, b2)"
    by (simp add: list_backups_def sample_bucket_defs)
  have "\<exists>r b3. restore_backup sample_s3 (sample_backup 1) ''backup-now.tar.gz'' Inr b2 = (r, b3)" by (metis prod.collapse)
  then obtain r b3 where restored: "restore_backup sample_s3 (sample_backup 1) ''backup-now.tar.gz'' Inr b2 = (r, b3)" by blast
  have "http_success st" if "sl_put sample_s3 k d b = (Inr st, b')" for k d b st b'
    using sample_s3_put [OF that] by blast
  with backup_roundtrip [OF sample_s3_behaves c l restored] c l show ?thesis by auto
qed

section \<open>A server that refuses\<close>

text \<open>A bucket of which the credentials may only read: every upload is answered with 403.\<close>

definition read_only_s3 :: "s3_object list s3_lib" where
  "read_only_s3 = sample_s3\<lparr>sl_put := (\<lambda>k d b. (Inr 403, b)), sl_delete := (\<lambda>k b. (Inr 403, b))\<rparr>"

text \<open>Creating a backup reports the key of a backup that is not there, and applying the policy reports
  success with everything still stored.\<close>

theorem refused_requests_succeed:
  "create_backup read_only_s3 (sample_backup 1) ''now'' (Inr ''bytes'') sample_bucket
     = (Inr ''backup-now.tar.gz'', sample_bucket)
   \<and> apply_retention (\<lambda>_. None) read_only_s3 (sample_backup 1) 0 sample_bucket = (Inr (), sample_bucket)"
proof
  show "create_backup read_only_s3 (sample_backup 1) ''now'' (Inr ''bytes'') sample_bucket
     = (Inr ''backup-now.tar.gz'', sample_bucket)"
    by (simp add: create_backup_def read_only_s3_def sample_bucket_defs)
  show "apply_retention (\<lambda>_. None) read_only_s3 (sample_backup 1) 0 sample_bucket = (Inr (), sample_bucket)"
    by code_simp
qed

end
