(* ===== verification/Api.thy ===== *)
theory Api
  imports Hook_Admin Backup
begin

text \<open>
  The JSON interface of \<open>src/routes/api.rs\<close>: importing a configuration, and the endpoints for
  backups. Reading a configuration from JSON and printing one as TOML are serde's work and
  parameters; an answer is the value or the error with its HTTP status.
\<close>

section \<open>Importing a configuration\<close>

datatype import_error =
    InvalidConfig string
  | ImportInvalid string
  | SerializeFailed string
  | WriteFailed
  | ReloadFailed

definition import_status :: "import_error \<Rightarrow> nat" where
  "import_status e = (case e of InvalidConfig _ \<Rightarrow> 422 | ImportInvalid _ \<Rightarrow> 422 | _ \<Rightarrow> 500)"

text \<open>\<open>std::fs::write\<close> creates or truncates the file and then writes.\<close>

definition overwrite_file :: "string \<Rightarrow> string \<Rightarrow> unit option io" where
  "overwrite_file path content =
     if_ok (write_file path []) (if_ok (write_file path content) (return (Some ())))"

definition import_config :: "external \<Rightarrow> config_lib \<Rightarrow> (json \<Rightarrow> string + app_config)
    \<Rightarrow> (app_config \<Rightarrow> string + string) \<Rightarrow> string \<Rightarrow> json \<Rightarrow> (import_error + unit) io" where
  "import_config X L from_value to_toml path body =
     (case from_value body of
        Inl e \<Rightarrow> return (Inl (InvalidConfig e))
      | Inr config \<Rightarrow>
          (case validate_config X config of
             Inl e \<Rightarrow> return (Inl (ImportInvalid (config_error_text (Validation e))))
           | Inr _ \<Rightarrow>
               (case to_toml config of
                  Inl e \<Rightarrow> return (Inl (SerializeFailed e))
                | Inr toml \<Rightarrow> do {
                    ok \<leftarrow> overwrite_file path toml;
                    if ok = None then return (Inl WriteFailed)
                    else do {
                      reloaded \<leftarrow> reload_config X L path;
                      return (if reloaded then Inr () else Inl ReloadFailed) } })))"

lemma run_overwrite_file:
  "run_state (overwrite_file path content) w =
     (if w_io_fault w (w_ios w) then (None, w\<lparr>w_ios := Suc (w_ios w)\<rparr>)
      else if w_io_fault w (Suc (w_ios w))
      then (None, w\<lparr>w_files := (w_files w)(path \<mapsto> []), w_ios := Suc (Suc (w_ios w))\<rparr>)
      else (Some (), w\<lparr>w_files := (w_files w)(path \<mapsto> content), w_ios := Suc (Suc (w_ios w))\<rparr>))"
  by (simp add: overwrite_file_def if_ok_def write_file_def)

definition with_compiled :: "app_config \<Rightarrow> app_config" where
  "with_compiled c = c\<lparr>cf_masking := (cf_masking c)\<lparr>mk_compiled_patterns := mk_patterns (cf_masking c)\<rparr>\<rparr>"

lemma load_from_validated:
  assumes "cl_extract L toml_text json_text = Inr config" and "validate_config X config = Inr ()"
  shows "if list_all (regex_ok X) (mk_patterns (cf_masking config))
    then load_from X L toml_text json_text = Inr (with_compiled config)
    else \<exists>e. load_from X L toml_text json_text = Inl (Validation e)"
proof (cases "compile X (cf_masking config)")
  case (Inl es)
  then have "\<not> list_all (regex_ok X) (mk_patterns (cf_masking config))"
    using compile_Inr_iff [of X "cf_masking config"] by auto
  with Inl assms(1) show ?thesis by (simp add: load_from_def)
next
  case (Inr m)
  then have m: "list_all (regex_ok X) (mk_patterns (cf_masking config))"
      "config\<lparr>cf_masking := m\<rparr> = with_compiled config"
    by (simp_all add: compile_Inr_iff with_compiled_def)
  have "validate_config X (with_compiled config) = Inr ()"
    using assms(2) by (simp add: validate_config_wf globals_ok_def with_compiled_def)
  with Inr m assms(1) show ?thesis by (simp add: load_from_def Let_def)
qed

text \<open>C16: Importing a configuration, when file operations work and what is printed reads back. A
  configuration that does not pass \<open>validate\<close> is refused and nothing changes. Otherwise the file is
  replaced by the printed configuration; when its masking patterns are regular expressions it is
  live from then on, with the patterns compiled. But when one of them is not, which \<open>validate\<close>
  does not check, the request fails with the file already replaced: the live configuration is
  the old one, and the new file cannot be loaded, so the server does not start again.\<close>

theorem import_config_spec:
  assumes "no_io_faults w" and "path \<noteq> ''nonexistent.json''"
    and "from_value body = Inr config" and "to_toml config = Inr toml"
    and "cl_extract L (Some toml) (w_files w ''nonexistent.json'') = Inr config"
    and "run_state (import_config X L from_value to_toml path body) w = (r, w')"
  shows "if validate_config X config \<noteq> Inr ()
    then (\<exists>e. r = Inl (ImportInvalid e)) \<and> w_files w' = w_files w \<and> w_config w' = w_config w
    else w_files w' = (w_files w)(path \<mapsto> toml)
      \<and> (if list_all (regex_ok X) (mk_patterns (cf_masking config))
         then r = Inr () \<and> w_config w' = with_compiled config
         else r = Inl ReloadFailed \<and> w_config w' = w_config w
           \<and> (\<exists>e. load_from X L (w_files w' path) (w_files w' ''nonexistent.json'') = Inl (Validation e)))"
proof (cases "validate_config X config")
  case (Inl e)
  with assms(3,6) show ?thesis by (auto simp: import_config_def)
next
  case (Inr u)
  have nf: "\<not> w_io_fault w n" for n using assms(1) by (simp add: no_io_faults_def)
  from Inr have "validate_config X config = Inr ()" by simp
  from load_from_validated [OF assms(5) this] assms(2-4,6) Inr nf show ?thesis
    by (auto simp: import_config_def run_overwrite_file run_reload_config split: if_splits)
qed

theorem import_config_spec_witness:
  "\<exists>w'. run_state (import_config (sample_external\<lparr>regex_ok := \<lambda>p. p \<noteq> ''(''\<rparr>)
       (sample_config_lib\<lparr>cl_extract := \<lambda>t j. Inr (default_app_config\<lparr>cf_masking :=
          \<lparr>mk_env_vars = [], mk_patterns = [''(''], mk_compiled_patterns = []\<rparr>\<rparr>)\<rparr>)
       (\<lambda>_. Inr (default_app_config\<lparr>cf_masking :=
          \<lparr>mk_env_vars = [], mk_patterns = [''(''], mk_compiled_patterns = []\<rparr>\<rparr>))
       (\<lambda>_. Inr ''new'') ''sendword.toml'' (JObject [])) sample_world = (Inl ReloadFailed, w')
     \<and> w_files w' ''sendword.toml'' = Some ''new''"
proof -
  let ?c = "default_app_config\<lparr>cf_masking := \<lparr>mk_env_vars = [], mk_patterns = [''(''], mk_compiled_patterns = []\<rparr>\<rparr>"
  let ?X = "sample_external\<lparr>regex_ok := \<lambda>p. p \<noteq> ''(''\<rparr>"
  let ?L = "sample_config_lib\<lparr>cl_extract := \<lambda>t j. Inr ?c\<rparr>"
  have valid: "validate_config ?X ?c = Inr ()"
    by (simp add: validate_config_wf globals_ok_def default_config_defs from_secs_def nanos_per_sec_def)
  have nf: "no_io_faults sample_world" by (simp add: no_io_faults_def sample_world_def)
  have bad: "\<not> list_all (regex_ok ?X) (mk_patterns (cf_masking ?c))" by simp
  have parsed: "cl_extract ?L (Some ''new'') (w_files sample_world ''nonexistent.json'') = Inr ?c" by simp
  obtain r w' where run: "run_state (import_config ?X ?L (\<lambda>_. Inr ?c) (\<lambda>_. Inr ''new'') ''sendword.toml'' (JObject []))
      sample_world = (r, w')" by (metis prod.collapse)
  from import_config_spec [OF nf _ refl refl parsed run] valid bad
  have "r = Inl ReloadFailed" "w_files w' ''sendword.toml'' = Some ''new''" by simp_all
  with run show ?thesis by blast
qed

section \<open>Backups\<close>

datatype api_error = ApiError nat string

definition backup_error_text :: "backup_error \<Rightarrow> string" where
  "backup_error_text e = (case e of
     S3Failed msg \<Rightarrow> ''S3 error: '' @ msg | BackupFailed msg \<Rightarrow> msg | CutoffOutOfRange \<Rightarrow> [])"

definition with_backup :: "app_config \<Rightarrow> (backup_config \<Rightarrow> 'b \<Rightarrow> (backup_error + 'a) \<times> 'b)
    \<Rightarrow> 'b \<Rightarrow> (api_error + 'a) \<times> 'b" where
  "with_backup cfg act b =
     (case cf_backup cfg of
        None \<Rightarrow> (Inl (ApiError 503 ''backup is not configured''), b)
      | Some config \<Rightarrow>
          (case act config b of
             (Inl e, b') \<Rightarrow> (Inl (ApiError 500 (backup_error_text e)), b')
           | (Inr r, b') \<Rightarrow> (Inr r, b')))"

definition api_list_backups :: "'b s3_lib \<Rightarrow> app_config \<Rightarrow> 'b \<Rightarrow> (api_error + backup_entry list) \<times> 'b" where
  "api_list_backups L cfg = with_backup cfg (list_backups L)"

definition api_create_backup :: "'b s3_lib \<Rightarrow> app_config \<Rightarrow> string \<Rightarrow> string + string
    \<Rightarrow> 'b \<Rightarrow> (api_error + string) \<times> 'b" where
  "api_create_backup L cfg stamp bundle = with_backup cfg (\<lambda>config. create_backup L config stamp bundle)"

definition api_restore_backup :: "'b s3_lib \<Rightarrow> app_config \<Rightarrow> string \<Rightarrow> bool \<Rightarrow> string option
    \<Rightarrow> (string \<Rightarrow> string + string list) \<Rightarrow> 'b \<Rightarrow> (api_error + string list) \<times> 'b" where
  "api_restore_backup L cfg key confirm temp_dir_error extract b =
     (if \<not> confirm then (Inl (ApiError 422 ''restore requires confirm: true in request body''), b)
      else with_backup cfg (\<lambda>config b.
        case temp_dir_error of
          Some e \<Rightarrow> (Inl (BackupFailed e), b)
        | None \<Rightarrow> restore_backup L config key extract b) b)"

end
