(* ===== verification/Startup.thy ===== *)
theory Startup
  imports Api Log_Stream
begin

text \<open>
  Starting the program: \<open>serve\<close> and the other commands of \<open>src/main.rs\<close>, the mail settings of
  \<open>src/email.rs\<close> and the loop of \<open>src/backup/scheduler.rs\<close>. What happens inside the database
  driver, allowthem and lettre is a parameter: each call is its error or its result.
\<close>

section \<open>The CSRF key\<close>

definition csrf_path :: string where "csrf_path = ''data/csrf_key''"

datatype startup_error =
    StartConfig config_error
  | StartIo
  | StartDb string
  | CsrfKeyLength nat
  | StartMail string
  | StartAuth string

text \<open>A key is 32 bytes; \<open>fresh\<close> is the random one.\<close>

definition csrf_key_or_create :: "string \<Rightarrow> (startup_error + string) io" where
  "csrf_key_or_create fresh = do {
     there \<leftarrow> gets (\<lambda>w. w_files w csrf_path);
     case there of
       Some bytes \<Rightarrow> do {
         ok \<leftarrow> io_step;
         return (if \<not> ok then Inl StartIo
                 else if length bytes = 32 then Inr bytes else Inl (CsrfKeyLength (length bytes))) }
     | None \<Rightarrow> do {
         written \<leftarrow> overwrite_file csrf_path fresh;
         return (if written = None then Inl StartIo else Inr fresh) } }"

section \<open>Mail\<close>

datatype smtp_tls = StartTls | ImplicitTls

record mail_config =
  mc_host :: string
  mc_port :: nat
  mc_username :: string
  mc_password :: string
  mc_from_address :: string
  mc_from_name :: "string option"
  mc_tls :: smtp_tls

text \<open>\<open>parse_mailbox\<close> is lettre's parser, of a name and an address.\<close>

definition build_smtp_config :: "(string \<Rightarrow> string + string option \<times> string) \<Rightarrow> smtp_config
    \<Rightarrow> string + mail_config" where
  "build_smtp_config parse_mailbox config =
     (case parse_mailbox (sm_from config) of
        Inl e \<Rightarrow> Inl (''invalid SMTP from address: '' @ e)
      | Inr (name, address) \<Rightarrow>
          Inr \<lparr>mc_host = sm_host config, mc_port = sm_port config,
               mc_username = sm_username config, mc_password = sm_password config,
               mc_from_address = address, mc_from_name = name,
               mc_tls = (if sm_starttls config then StartTls else ImplicitTls)\<rparr>)"

section \<open>Serving\<close>

record startup_lib =
  st_open_db :: "database_config \<Rightarrow> string option"
  st_migrate :: "string option"
  st_fresh_key :: string
  st_parse_mailbox :: "string \<Rightarrow> string + string option \<times> string"
  st_mail_sender :: "mail_config \<Rightarrow> string option"
  st_build_auth :: "string \<Rightarrow> app_config \<Rightarrow> string option"

record started =
  sd_csrf_key :: string
  sd_mail :: "mail_config option"
  sd_session_ttl :: int
  sd_secure_cookie :: bool
  sd_base_url :: "string option"
  sd_password_reset :: bool
  sd_backup_scheduler :: bool

definition email_sender :: "startup_lib \<Rightarrow> smtp_config option \<Rightarrow> startup_error + mail_config option" where
  "email_sender S smtp =
     (case smtp of
        None \<Rightarrow> Inr None
      | Some config \<Rightarrow>
          (case build_smtp_config (st_parse_mailbox S) config of
             Inl e \<Rightarrow> Inl (StartMail e)
           | Inr mail \<Rightarrow>
               (case st_mail_sender S mail of
                  Some e \<Rightarrow> Inl (StartMail (''invalid SMTP config: '' @ e))
                | None \<Rightarrow> Inr (Some mail))))"

definition session_ttl :: "app_config \<Rightarrow> int" where
  "session_ttl config =
     (case chrono_from_std (au_session_lifetime (cf_auth config)) of
        Some d \<Rightarrow> d
      | None \<Rightarrow> 24 * 3600 * int nanos_per_sec)"

definition serve :: "external \<Rightarrow> config_lib \<Rightarrow> startup_lib \<Rightarrow> (startup_error + started) io" where
  "serve X L S = do {
     files \<leftarrow> gets w_files;
     case load_from X L (files ''sendword.toml'') (files ''sendword.json'') of
       Inl e \<Rightarrow> return (Inl (StartConfig e))
     | Inr config \<Rightarrow> do {
         scripts_ready \<leftarrow> io_step;
         if \<not> scripts_ready then return (Inl StartIo)
         else case st_open_db S (cf_database config) of
           Some e \<Rightarrow> return (Inl (StartDb e))
         | None \<Rightarrow>
             (case st_migrate S of
                Some e \<Rightarrow> return (Inl (StartDb (''migration error: '' @ e)))
              | None \<Rightarrow> do {
                  _ \<leftarrow> recover_barriers X;
                  key \<leftarrow> csrf_key_or_create (st_fresh_key S);
                  case key of
                    Inl e \<Rightarrow> return (Inl e)
                  | Inr csrf_key \<Rightarrow>
                      (case email_sender S (au_smtp (cf_auth config)) of
                         Inl e \<Rightarrow> return (Inl e)
                       | Inr mail \<Rightarrow>
                           (case st_build_auth S csrf_key config of
                              Some e \<Rightarrow> return (Inl (StartAuth e))
                            | None \<Rightarrow> do {
                                _ \<leftarrow> modify (\<lambda>w. w\<lparr>w_config := config\<rparr>);
                                return (Inr \<lparr>sd_csrf_key = csrf_key, sd_mail = mail,
                                  sd_session_ttl = session_ttl config,
                                  sd_secure_cookie = au_secure_cookie (cf_auth config),
                                  sd_base_url = au_base_url (cf_auth config),
                                  sd_password_reset = (au_base_url (cf_auth config) \<noteq> None),
                                  sd_backup_scheduler =
                                    (Option.bind (cf_backup config) bk_schedule \<noteq> None)\<rparr>) })) }) } }"

section \<open>The other commands\<close>

datatype command_result = CommandDone string | CommandExit string | CommandFailed

definition config_import :: "external \<Rightarrow> (string \<Rightarrow> string + app_config) \<Rightarrow> (app_config \<Rightarrow> string + string)
    \<Rightarrow> string \<Rightarrow> command_result io" where
  "config_import X from_str to_toml path = do {
     ok \<leftarrow> io_step;
     there \<leftarrow> gets (\<lambda>w. w_files w path);
     case (if ok then Option.bind there from_utf8 else None) of
       None \<Rightarrow> return CommandFailed
     | Some contents \<Rightarrow>
         (case from_str contents of
            Inl _ \<Rightarrow> return CommandFailed
          | Inr config \<Rightarrow>
              (case validate_config X config of
                 Inl e \<Rightarrow> return (CommandExit (''error: '' @ config_error_text (Validation e)))
               | Inr _ \<Rightarrow>
                   (case to_toml config of
                      Inl _ \<Rightarrow> return CommandFailed
                    | Inr toml \<Rightarrow> do {
                        written \<leftarrow> overwrite_file ''sendword.toml'' toml;
                        return (if written = None then CommandFailed
                                else CommandDone ''config imported and written to sendword.toml'') }))) }"

definition with_configured_backup :: "config_error + app_config
    \<Rightarrow> (backup_config \<Rightarrow> 'b \<Rightarrow> (backup_error + 'a) \<times> 'b) \<Rightarrow> ('a \<Rightarrow> string) \<Rightarrow> 'b \<Rightarrow> command_result \<times> 'b" where
  "with_configured_backup loaded act report b =
     (case loaded of
        Inl _ \<Rightarrow> (CommandFailed, b)
      | Inr config \<Rightarrow>
          (case cf_backup config of
             None \<Rightarrow> (CommandFailed, b)
           | Some backup \<Rightarrow>
               (case act backup b of
                  (Inl e, b') \<Rightarrow> (CommandExit (''error: '' @ backup_error_text e), b')
                | (Inr r, b') \<Rightarrow> (CommandDone (report r), b'))))"

definition backup_create :: "'b s3_lib \<Rightarrow> config_error + app_config \<Rightarrow> string \<Rightarrow> string + string
    \<Rightarrow> 'b \<Rightarrow> command_result \<times> 'b" where
  "backup_create L loaded stamp bundle =
     with_configured_backup loaded (\<lambda>c. create_backup L c stamp bundle) (\<lambda>key. ''backup created: '' @ key)"

definition backup_list :: "'b s3_lib \<Rightarrow> config_error + app_config \<Rightarrow> 'b \<Rightarrow> command_result \<times> 'b" where
  "backup_list L loaded = with_configured_backup loaded (list_backups L) (\<lambda>entries.
     if entries = [] then ''no backups found''
     else concat (map (\<lambda>e. be_last_modified e @ [CHR 0x09] @ show_nat (be_size e) @ [CHR 0x09] @ be_key e @ [CHR 0x0A])
            entries))"

definition backup_restore :: "'b s3_lib \<Rightarrow> config_error + app_config \<Rightarrow> string \<Rightarrow> string
    \<Rightarrow> (string \<Rightarrow> string + 'a) \<Rightarrow> 'b \<Rightarrow> command_result \<times> 'b" where
  "backup_restore L loaded key output extract =
     with_configured_backup loaded (\<lambda>c. restore_backup L c key extract)
       (\<lambda>_. ''backup extracted to: '' @ output @ [CHR 0x0A]
            @ ''apply manually: copy sendword.toml and sendword.db from the output directory'')"

section \<open>Scheduled backups\<close>

text \<open>One round of the loop: how long it sleeps, and whether a backup is due then. \<open>next_run\<close> parses a
  cron expression and gives the next time it names after \<open>asked\<close>; the clock is read again, as
  \<open>now\<close>, for the delay.\<close>

definition scheduler_wait :: "(string \<Rightarrow> nat \<Rightarrow> string + nat option) \<Rightarrow> app_config \<Rightarrow> nat \<Rightarrow> nat
    \<Rightarrow> duration \<times> bool" where
  "scheduler_wait next_run config asked now =
     (case Option.bind (cf_backup config) bk_schedule of
        None \<Rightarrow> (from_secs 60, False)
      | Some schedule \<Rightarrow>
          (case next_run schedule asked of
             Inl _ \<Rightarrow> (from_secs 60, False)
           | Inr None \<Rightarrow> (from_secs 60, False)
           | Inr (Some t) \<Rightarrow> (from_millis ((t - now) div 1000000), True)))"

text \<open>The configuration is loaded again when the backup is due.\<close>

definition scheduled_backup :: "(int \<Rightarrow> string option) \<Rightarrow> 'b s3_lib \<Rightarrow> app_config \<Rightarrow> string
    \<Rightarrow> string + string \<Rightarrow> int \<Rightarrow> 'b \<Rightarrow> 'b" where
  "scheduled_backup fmt L config stamp bundle now b =
     (case cf_backup config of
        None \<Rightarrow> b
      | Some backup \<Rightarrow>
          (case create_backup L backup stamp bundle b of
             (Inl _, b') \<Rightarrow> b'
           | (Inr _, b') \<Rightarrow> snd (apply_retention fmt L backup now b')))"

text \<open>A scheduled round does not lose the backup it has made. When it is stored, newer than everything
  else below the prefix and not older than the cutoff, retention keeps it, unless the policy keeps
  no backup at all; and when no archive could be made, nothing is deleted.\<close>

theorem scheduled_backup_kept:
  assumes "s3_behaves L objs" and "\<And>b. finite (objs b)" and "cf_backup config = Some backup"
    and "create_backup L backup stamp (Inr bytes) b = (Inr name, b1)"
    and "apply_retention fmt L backup now b1 = (Inr u, b2)"
    and "o1 \<in> objs b1" and "\<And>o2. o2 \<in> objs b1 \<Longrightarrow> listed backup o2 \<Longrightarrow> o2 \<noteq> o1 \<Longrightarrow> so_modified o2 < so_modified o1"
    and "rt_max_count (bk_retention backup) \<noteq> Some 0"
    and "\<And>age cutoff. rt_max_age (bk_retention backup) = Some age \<Longrightarrow> fmt (cutoff_time now age) = Some cutoff
           \<Longrightarrow> cutoff \<le> so_modified o1"
  shows "scheduled_backup fmt L config stamp (Inr bytes) now b = b2 \<and> o1 \<in> objs b2"
    and "scheduled_backup fmt L config stamp (Inl e) now b = b"
proof -
  let ?all = "{o2 \<in> objs b1. listed backup o2}"
  have young: "\<not> too_old fmt backup now o1"
    using assms(9) by (force simp: too_old_def split: option.splits)
  obtain D R where D: "D \<subseteq> ?all" "card D = excess_number backup (card ?all)"
      "\<forall>d \<in> D. \<forall>k \<in> ?all - D. so_modified d \<le> so_modified k"
      "objs b2 = objs b1 - ((D \<union> {o2 \<in> objs b1. listed backup o2 \<and> too_old fmt backup now o2}) - R)"
    using retention_effect [OF assms(1,5)] by blast
  have "o1 \<notin> D"
  proof
    assume o1: "o1 \<in> D"
    have fin: "finite ?all" by (rule finite_subset [OF _ assms(2) [of b1]]) auto
    with o1 D(1) have "0 < card D" "0 < card ?all" by (auto simp: card_gt_0_iff dest: finite_subset)
    with D(2) assms(8) have "card D < card ?all" by (auto simp: excess_number_def split: option.splits)
    then have "D \<noteq> ?all" by auto
    with D(1) obtain k where k: "k \<in> ?all" "k \<notin> D" by blast
    with o1 D(3) have "so_modified o1 \<le> so_modified k" by blast
    moreover have "so_modified k < so_modified o1" using k o1 by (intro assms(7)) auto
    ultimately show False by simp
  qed
  with D(4) young assms(6) have "o1 \<in> objs b2" by simp
  then show "scheduled_backup fmt L config stamp (Inr bytes) now b = b2 \<and> o1 \<in> objs b2"
    using assms(3-5) by (simp add: scheduled_backup_def)
  show "scheduled_backup fmt L config stamp (Inl e) now b = b"
    using assms(3) by (auto simp: scheduled_backup_def create_backup_def s3_client_def split: option.splits)
qed

section \<open>What a start guarantees\<close>

text \<open>C99: The CSRF key survives restarts. Once a start has a key, every later start that finds the file
  as it was and can read it has the same key, of 32 bytes, whatever key it would have made up.\<close>

theorem csrf_key_stable:
  assumes "run_state (csrf_key_or_create fresh) w = (Inr key, w1)" and "length fresh = 32"
    and "w_files w2 csrf_path = w_files w1 csrf_path" and "\<not> w_io_fault w2 (w_ios w2)"
  shows "fst (run_state (csrf_key_or_create fresh2) w2) = Inr key \<and> length key = 32"
  using assms by (auto simp: csrf_key_or_create_def io_step_def run_overwrite_file
      split: option.splits if_splits)

text \<open>A start that cannot write the key after it created the file leaves an empty file behind, and no
  later start succeeds until somebody removes it.\<close>

theorem failed_key_write_blocks:
  assumes "w_files w csrf_path = None" and "\<not> w_io_fault w (w_ios w)" and "w_io_fault w (Suc (w_ios w))"
    and "run_state (csrf_key_or_create fresh) w = (r, w1)"
    and "w_files w2 csrf_path = w_files w1 csrf_path" and "\<not> w_io_fault w2 (w_ios w2)"
  shows "r = Inl StartIo \<and> fst (run_state (csrf_key_or_create fresh2) w2) = Inl (CsrfKeyLength 0)"
  using assms by (auto simp: csrf_key_or_create_def io_step_def run_overwrite_file)

lemma recover_keeps_files:
  assumes "no_faults w"
  shows "w_files (snd (run_state (recover_barriers X) w)) = w_files w
     \<and> w_config (snd (run_state (recover_barriers X) w)) = w_config w
     \<and> w_attempts (snd (run_state (recover_barriers X) w)) = w_attempts w"
proof -
  have nf: "\<not> w_fault w n" for n using assms by blast
  show ?thesis by (simp add: recover_barriers_def nf)
qed

text \<open>The steps of \<open>serve\<close> after the recovery change the configuration and the files only.\<close>

lemma csrf_keeps_rows:
  assumes "run_state (csrf_key_or_create fresh) w = (r, w')"
  shows "w_execs w' = w_execs w" and "w_locks w' = w_locks w" and "w_attempts w' = w_attempts w"
    and "w_config w' = w_config w"
  using assms by (auto simp: csrf_key_or_create_def io_step_def run_overwrite_file
      split: option.splits if_splits)

text \<open>C29: A server that starts serves a sound configuration over a recovered database. When no
  statement fails and \<open>serve\<close> gets as far as serving, the configuration is the one that the file
  and its JSON override load to, and validates; no execution is running; and no lock is held by an
  execution that has ended. When it does not start, no configuration is replaced; and in neither
  case is the audit trail touched.\<close>

theorem serve_starts_clean:
  assumes "no_faults w" and "run_state (serve X L S) w = (r, w')"
  shows "(case r of
       Inl _ \<Rightarrow> w_config w' = w_config w
     | Inr s \<Rightarrow>
         load_from X L (w_files w ''sendword.toml'') (w_files w ''sendword.json'') = Inr (w_config w')
         \<and> validate_config X (w_config w') = Inr ()
         \<and> Running \<notin> ex_status ` set (w_execs w')
         \<and> (\<forall>l \<in> set (w_locks w'). \<forall>e \<in> set (w_execs w'). ex_id e = lk_execution_id l
               \<longrightarrow> \<not> is_terminal (ex_status e)))
     \<and> w_attempts w' = w_attempts w"
proof -
  define w0 where "w0 = w\<lparr>w_ios := Suc (w_ios w)\<rparr>"
  define w1 where "w1 = snd (run_state (recover_barriers X) w0)"
  have nf0: "no_faults w0" using assms(1) by (simp add: w0_def no_faults_def)
  obtain now where rows: "w_execs w1 = update_rows (\<lambda>e. ex_status e = Running)
        (\<lambda>e. e\<lparr>ex_status := Failed, ex_completed_at := Some now\<rparr>) (w_execs w0)"
    and locks: "w_locks w1 = filter (\<lambda>l. \<not> list_ex (\<lambda>e. ex_id e = lk_execution_id l
        \<and> is_terminal (ex_status e)) (w_execs w1)) (w_locks w0)"
    unfolding w1_def by (rule recover_world [OF nf0])
  have clean: "Running \<notin> ex_status ` set (w_execs w1)" by (auto simp: rows set_update_rows)
  have held: "\<forall>l \<in> set (w_locks w1). \<forall>e \<in> set (w_execs w1). ex_id e = lk_execution_id l
      \<longrightarrow> \<not> is_terminal (ex_status e)"
    unfolding locks by (auto simp: list_ex_iff)
  have w1: "w_config w1 = w_config w" "w_attempts w1 = w_attempts w"
    using recover_keeps_files [OF nf0, of X] by (simp_all add: w1_def w0_def)
  obtain key w2 where key: "run_state (csrf_key_or_create (st_fresh_key S)) w1 = (key, w2)" by fastforce
  have w0: "w_config w0 = w_config w" "w_attempts w0 = w_attempts w" by (simp_all add: w0_def)
  have rec: "run_state (recover_barriers X) w0 = ((), w1)" by (simp add: w1_def prod_eq_iff)
  show ?thesis
    using assms(2) clean held w0 w1 csrf_keeps_rows [OF key] load_from_Inr key
    by (auto simp: serve_def io_step_def w0_def [symmetric] rec
        split: sum.splits option.splits if_splits)
qed

theorem csrf_key_stable_witness:
  "let w1 = snd (run_state (csrf_key_or_create (replicate 32 (CHR ''k''))) sample_world)
   in fst (run_state (csrf_key_or_create (replicate 32 (CHR ''x''))) w1) = Inr (replicate 32 (CHR ''k''))"
proof -
  let ?start = "run_state (csrf_key_or_create (replicate 32 (CHR ''k''))) sample_world"
  have "fst ?start = Inr (replicate 32 (CHR ''k''))" and io: "\<not> w_io_fault (snd ?start) (w_ios (snd ?start))"
    by (simp_all add: csrf_key_or_create_def run_overwrite_file sample_world_def)
  then have "?start = (Inr (replicate 32 (CHR ''k'')), snd ?start)" by (simp add: prod_eq_iff)
  from csrf_key_stable [OF this _ refl io] show ?thesis by (simp add: Let_def)
qed

definition sample_startup :: startup_lib where
  "sample_startup = \<lparr>st_open_db = (\<lambda>_. None), st_migrate = None, st_fresh_key = replicate 32 (CHR ''k''),
     st_parse_mailbox = (\<lambda>a. Inr (None, a)), st_mail_sender = (\<lambda>_. None), st_build_auth = (\<lambda>_ _. None)\<rparr>"

theorem serve_starts_clean_witness:
  "\<exists>s w'. run_state (serve sample_external sample_config_lib sample_startup) stopped_world = (Inr s, w')
     \<and> Running \<notin> ex_status ` set (w_execs w')"
proof -
  have nf: "\<not> w_fault stopped_world n" and io: "\<not> w_io_fault stopped_world n"
    and key: "w_files stopped_world csrf_path = None" for n
    by (simp_all add: stopped_world_def waiting_world_def held_world_def two_world_def sample_world_def)
  have smtp: "au_smtp (cf_auth default_app_config) = None" by (simp add: default_config_defs)
  obtain r w' where run: "run_state (serve sample_external sample_config_lib sample_startup) stopped_world = (r, w')"
    by fastforce
  then have "\<exists>s. r = Inr s"
    by (auto simp: serve_def sample_load sample_startup_def email_sender_def csrf_key_or_create_def recover_barriers_def
        io_step_def run_overwrite_file smtp nf io key split: if_splits)
  with serve_starts_clean [OF stopped_world_ok(1) run] run show ?thesis by auto
qed

end
