(* ===== verification/Session.thy ===== *)
theory Session
  imports Execution_Routes
begin

text \<open>
  Sessions and user accounts: the \<open>AuthUser\<close> extractor of \<open>src/extractors.rs\<close> and the handlers of
  \<open>src/routes/settings.rs\<close>. Accounts are kept by the allowthem library, a parameter with its own
  state \<open>'b\<close>; \<open>accounts_behave\<close> states what the code relies on. A response is the address it
  redirects to; percent-encoding is a parameter \<open>E\<close>.
\<close>

section \<open>The library\<close>

record user =
  us_id :: string
  us_email :: string
  us_created_at :: string

datatype auth_error = AuthConflict string | AuthNotFound | AuthOther

record 'b auth_lib =
  ul_cookie_name :: string
  ul_parse_cookie :: "string \<Rightarrow> string \<Rightarrow> string option"
  ul_validate_session :: "string \<Rightarrow> 'b \<Rightarrow> (string + user option) \<times> 'b"
  ul_parse_email :: "string \<Rightarrow> string option"
  ul_parse_uuid :: "string \<Rightarrow> string option"
  ul_list_users :: "'b \<Rightarrow> (auth_error + user list) \<times> 'b"
  ul_create_user :: "string \<Rightarrow> string \<Rightarrow> 'b \<Rightarrow> (auth_error + user) \<times> 'b"
  ul_delete_user :: "string \<Rightarrow> 'b \<Rightarrow> (auth_error + unit) \<times> 'b"

text \<open>The laws: a session belongs to an account that exists; looking does not change the accounts;
  creating and deleting change the one account or, with an error, nothing.\<close>

definition accounts_behave :: "'b auth_lib \<Rightarrow> ('b \<Rightarrow> user set) \<Rightarrow> bool" where
  "accounts_behave L users \<longleftrightarrow>
     (\<forall>t b r b'. ul_validate_session L t b = (r, b') \<longrightarrow>
        users b' = users b \<and> (\<forall>u. r = Inr (Some u) \<longrightarrow> u \<in> users b))
     \<and> (\<forall>b r b'. ul_list_users L b = (r, b') \<longrightarrow>
        users b' = users b \<and> (\<forall>us. r = Inr us \<longrightarrow> set us = users b))
     \<and> (\<forall>e p b r b'. ul_create_user L e p b = (r, b') \<longrightarrow>
        (case r of Inl _ \<Rightarrow> users b' = users b
                 | Inr u \<Rightarrow> users b' = insert u (users b) \<and> u \<notin> users b \<and> us_email u = e))
     \<and> (\<forall>i b r b'. ul_delete_user L i b = (r, b') \<longrightarrow>
        (case r of Inl _ \<Rightarrow> users b' = users b
                 | Inr _ \<Rightarrow> users b' = {u \<in> users b. us_id u \<noteq> i}))"

lemma account_laws:
  assumes "accounts_behave L users"
  shows "ul_validate_session L t b = (r, b') \<Longrightarrow> users b' = users b \<and> (\<forall>u. r = Inr (Some u) \<longrightarrow> u \<in> users b)"
    and "ul_list_users L b = (us, b') \<Longrightarrow> users b' = users b"
    and "ul_create_user L e p b = (c, b') \<Longrightarrow> (case c of Inl _ \<Rightarrow> users b' = users b
          | Inr u \<Rightarrow> users b' = insert u (users b) \<and> u \<notin> users b \<and> us_email u = e)"
    and "ul_delete_user L i b = (d, b') \<Longrightarrow> (case d of Inl _ \<Rightarrow> users b' = users b
          | Inr _ \<Rightarrow> users b' = {u \<in> users b. us_id u \<noteq> i})"
proof -
  note laws = assms [unfolded accounts_behave_def]
  show "ul_validate_session L t b = (r, b') \<Longrightarrow> users b' = users b \<and> (\<forall>u. r = Inr (Some u) \<longrightarrow> u \<in> users b)"
    by (rule laws [THEN conjunct1, rule_format])
  show "ul_list_users L b = (us, b') \<Longrightarrow> users b' = users b"
    by (rule laws [THEN conjunct2, THEN conjunct1, rule_format, THEN conjunct1])
  show "ul_create_user L e p b = (c, b') \<Longrightarrow> (case c of Inl _ \<Rightarrow> users b' = users b
      | Inr u \<Rightarrow> users b' = insert u (users b) \<and> u \<notin> users b \<and> us_email u = e)"
    by (rule laws [THEN conjunct2, THEN conjunct2, THEN conjunct1, rule_format])
  show "ul_delete_user L i b = (d, b') \<Longrightarrow> (case d of Inl _ \<Rightarrow> users b' = users b
      | Inr _ \<Rightarrow> users b' = {u \<in> users b. us_id u \<noteq> i})"
    by (rule laws [THEN conjunct2, THEN conjunct2, THEN conjunct2, rule_format])
qed

section \<open>The extractor\<close>

definition auth_user :: "'b auth_lib \<Rightarrow> string option \<Rightarrow> 'b \<Rightarrow> user option \<times> 'b" where
  "auth_user L cookie_header b =
     (case cookie_header of
        None \<Rightarrow> (None, b)
      | Some header \<Rightarrow>
          (case ul_parse_cookie L header (ul_cookie_name L) of
             None \<Rightarrow> (None, b)
           | Some token \<Rightarrow>
               (case ul_validate_session L token b of
                  (Inl _, b') \<Rightarrow> (None, b')
                | (Inr found, b') \<Rightarrow> (found, b'))))"

text \<open>A handler that takes an \<open>AuthUser\<close>: a rejected request is sent to the login page.\<close>

definition authorized :: "'b auth_lib \<Rightarrow> string option \<Rightarrow> (user \<Rightarrow> 'b \<Rightarrow> string \<times> 'b) \<Rightarrow> 'b \<Rightarrow> string \<times> 'b" where
  "authorized L cookie_header handler b =
     (case auth_user L cookie_header b of
        (None, b') \<Rightarrow> (''/login'', b')
      | (Some u, b') \<Rightarrow> handler u b')"

section \<open>Accounts\<close>

record user_row =
  ur_id :: string
  ur_email :: string
  ur_created_at :: string
  ur_is_self :: bool

definition list_users :: "'b auth_lib \<Rightarrow> user \<Rightarrow> 'b \<Rightarrow> (app_error + user_row list) \<times> 'b" where
  "list_users L auth b =
     (case ul_list_users L b of
        (Inl _, b') \<Rightarrow> (Inl AppInternal, b')
      | (Inr all_users, b') \<Rightarrow>
          (Inr (map (\<lambda>u. \<lparr>ur_id = us_id u, ur_email = us_email u, ur_created_at = us_created_at u,
                           ur_is_self = (us_id u = us_id auth)\<rparr>) all_users), b'))"

definition create_user :: "'b auth_lib \<Rightarrow> (string \<Rightarrow> string) \<Rightarrow> string \<Rightarrow> string \<Rightarrow> user \<Rightarrow> 'b \<Rightarrow> string \<times> 'b" where
  "create_user L E email password auth b =
     (if password = [] then (''/admin/users?error=Password+cannot+be+empty'', b)
      else case ul_parse_email L email of
             None \<Rightarrow> (''/admin/users?error='' @ E ''Invalid email address'', b)
           | Some e \<Rightarrow>
               (case ul_create_user L e password b of
                  (Inr created, b') \<Rightarrow>
                    (''/admin/users?success='' @ E (''User '' @ [CHR 0x27] @ us_email created @ [CHR 0x27] @ '' created''), b')
                | (Inl (AuthConflict msg), b') \<Rightarrow> (''/admin/users?error='' @ E msg, b')
                | (Inl _, b') \<Rightarrow> (''/admin/users?error=Failed+to+create+user'', b')))"

definition delete_user :: "'b auth_lib \<Rightarrow> string \<Rightarrow> user \<Rightarrow> 'b \<Rightarrow> string \<times> 'b" where
  "delete_user L i auth b =
     (case ul_parse_uuid L i of
        None \<Rightarrow> (''/admin/users?error=Invalid+user+ID'', b)
      | Some user_id \<Rightarrow>
          if user_id = us_id auth then (''/admin/users?error=Cannot+delete+yourself'', b)
          else case ul_delete_user L user_id b of
                 (Inr _, b') \<Rightarrow> (''/admin/users?success=User+deleted'', b')
               | (Inl AuthNotFound, b') \<Rightarrow> (''/admin/users?error=User+not+found'', b')
               | (Inl _, b') \<Rightarrow> (''/admin/users?error=Failed+to+delete+user'', b'))"

text \<open>The requests that change accounts, as the router dispatches them.\<close>

datatype user_request = CreateUser string string | DeleteUser string

definition handle_user :: "'b auth_lib \<Rightarrow> (string \<Rightarrow> string) \<Rightarrow> string option \<times> user_request \<Rightarrow> 'b \<Rightarrow> string \<times> 'b" where
  "handle_user L E = (\<lambda>(cookie, r). authorized L cookie
     (case r of CreateUser email password \<Rightarrow> create_user L E email password
              | DeleteUser i \<Rightarrow> delete_user L i))"

fun handle_users :: "'b auth_lib \<Rightarrow> (string \<Rightarrow> string) \<Rightarrow> (string option \<times> user_request) list \<Rightarrow> 'b \<Rightarrow> 'b" where
  "handle_users L E [] b = b"
| "handle_users L E (r # rs) b = handle_users L E rs (snd (handle_user L E r b))"

section \<open>No request locks everybody out\<close>

lemma auth_user_laws:
  assumes "accounts_behave L users" and "auth_user L cookie b = (found, b')"
  shows "users b' = users b" and "\<And>u. found = Some u \<Longrightarrow> u \<in> users b"
  using assms(2) account_laws(1) [OF assms(1)]
  by (fastforce simp: auth_user_def split: option.splits prod.splits sum.splits)+

lemma create_user_keeps:
  assumes "accounts_behave L users" and "create_user L E email password auth b = (r, b')"
  shows "users b \<subseteq> users b'"
  using assms(2) account_laws(3) [OF assms(1)]
  by (fastforce simp: create_user_def split: option.splits prod.splits sum.splits auth_error.splits if_splits)

lemma delete_user_keeps:
  assumes "accounts_behave L users" and "delete_user L i auth b = (r, b')" and "u \<in> users b"
    and "us_id u = us_id auth \<or> ul_parse_uuid L i \<noteq> Some (us_id u)"
  shows "u \<in> users b'"
  using assms(2-4) account_laws(4) [OF assms(1)]
  by (fastforce simp: delete_user_def split: option.splits prod.splits sum.splits auth_error.splits if_splits)

lemma handle_user_accounts:
  assumes "accounts_behave L users"
  shows "(auth_user L cookie b = (None, b0) \<longrightarrow>
          fst (handle_user L E (cookie, r) b) = ''/login'' \<and> users (snd (handle_user L E (cookie, r) b)) = users b)
     \<and> (auth_user L cookie b = (Some auth, b0) \<longrightarrow> auth \<in> users (snd (handle_user L E (cookie, r) b))
          \<and> (\<forall>u \<in> users b - users (snd (handle_user L E (cookie, r) b)).
               \<exists>i. r = DeleteUser i \<and> ul_parse_uuid L i = Some (us_id u)))"
proof (cases "auth_user L cookie b")
  case (Pair found b1)
  note kept = auth_user_laws [OF assms Pair]
  show ?thesis
  proof (cases found)
    case None
    with Pair kept show ?thesis by (auto simp: handle_user_def authorized_def)
  next
    case (Some u)
    have u: "u \<in> users b1" using kept(2) [OF Some] kept(1) by simp
    show ?thesis
    proof (cases r)
      case (CreateUser email password)
      obtain s b2 where run: "create_user L E email password u b1 = (s, b2)" by fastforce
      from create_user_keeps [OF assms this] u kept(1) Pair Some CreateUser run show ?thesis
        by (auto simp: handle_user_def authorized_def)
    next
      case (DeleteUser i)
      obtain s b2 where run: "delete_user L i u b1 = (s, b2)" by fastforce
      have "handle_user L E (cookie, r) b = (s, b2)"
        using Pair Some DeleteUser run by (simp add: handle_user_def authorized_def)
      with delete_user_keeps [OF assms run] u kept(1) Pair Some DeleteUser show ?thesis by auto
    qed
  qed
qed

text \<open>C28: Accounts are changed only with a session, and nobody deletes the own account. A request
  without a valid session is sent to the login page and changes no account; with one, the account
  of the session still exists afterwards, and an account disappears only when the request names it.
  So no sequence of requests, whoever sends them, deletes the last account.\<close>

theorem accounts_protected:
  assumes "accounts_behave L users"
  shows "(auth_user L cookie b = (None, b0) \<longrightarrow>
          fst (handle_user L E (cookie, r) b) = ''/login'' \<and> users (snd (handle_user L E (cookie, r) b)) = users b)
     \<and> (auth_user L cookie b = (Some auth, b0) \<longrightarrow> auth \<in> users (snd (handle_user L E (cookie, r) b))
          \<and> (\<forall>u \<in> users b - users (snd (handle_user L E (cookie, r) b)).
               \<exists>i. r = DeleteUser i \<and> ul_parse_uuid L i = Some (us_id u)))
     \<and> (users b \<noteq> {} \<longrightarrow> users (handle_users L E rs b) \<noteq> {})"
proof (intro conjI impI)
  show "fst (handle_user L E (cookie, r) b) = ''/login''" "users (snd (handle_user L E (cookie, r) b)) = users b"
    if "auth_user L cookie b = (None, b0)" using handle_user_accounts [OF assms, of cookie b b0 E r auth] that by blast+
  show "auth \<in> users (snd (handle_user L E (cookie, r) b))"
    "\<forall>u \<in> users b - users (snd (handle_user L E (cookie, r) b)).
       \<exists>i. r = DeleteUser i \<and> ul_parse_uuid L i = Some (us_id u)"
    if "auth_user L cookie b = (Some auth, b0)" using handle_user_accounts [OF assms, of cookie b b0 E r auth] that by blast+
  show "users (handle_users L E rs b) \<noteq> {}" if "users b \<noteq> {}"
    using that
  proof (induction rs arbitrary: b)
    case (Cons q rs)
    obtain cookie r where q: "q = (cookie, r)" by fastforce
    obtain found b1 where found: "auth_user L cookie b = (found, b1)" by fastforce
    have "users (snd (handle_user L E q b)) \<noteq> {}"
      using handle_user_accounts [OF assms, of cookie b b1 E r] found Cons.prems unfolding q by (cases found) auto
    then show ?case using Cons.IH by simp
  qed simp
qed

definition sample_accounts :: "user list auth_lib" where
  "sample_accounts = \<lparr>
     ul_cookie_name = ''session'', ul_parse_cookie = (\<lambda>header name. Some header),
     ul_validate_session = (\<lambda>t us. (Inr (List.find (\<lambda>u. us_id u = t) us), us)),
     ul_parse_email = Some, ul_parse_uuid = Some, ul_list_users = (\<lambda>us. (Inr us, us)),
     ul_create_user = (\<lambda>e p us. let u = \<lparr>us_id = e, us_email = e, us_created_at = []\<rparr> in
        if u \<in> set us then (Inl (AuthConflict ''email taken''), us) else (Inr u, u # us)),
     ul_delete_user = (\<lambda>i us. if \<exists>u \<in> set us. us_id u = i
        then (Inr (), filter (\<lambda>u. us_id u \<noteq> i) us) else (Inl AuthNotFound, us))\<rparr>"

lemma sample_accounts_behave: "accounts_behave sample_accounts set"
  by (auto simp: accounts_behave_def sample_accounts_def Let_def find_Some_iff split: if_splits)

theorem accounts_protected_witness:
  "let ann = \<lparr>us_id = ''ann'', us_email = ''ann'', us_created_at = []\<rparr>;
       bob = \<lparr>us_id = ''bob'', us_email = ''bob'', us_created_at = []\<rparr>;
       after = snd (handle_user sample_accounts id (Some ''ann'', DeleteUser ''bob'') [ann, bob])
   in ann \<in> set after \<and> bob \<notin> set after"
proof -
  let ?ann = "\<lparr>us_id = ''ann'', us_email = ''ann'', us_created_at = []\<rparr>"
  let ?bob = "\<lparr>us_id = ''bob'', us_email = ''bob'', us_created_at = []\<rparr>"
  have "auth_user sample_accounts (Some ''ann'') [?ann, ?bob] = (Some ?ann, [?ann, ?bob])"
    by (simp add: auth_user_def sample_accounts_def)
  with accounts_protected [OF sample_accounts_behave, of "Some ''ann''" "[?ann, ?bob]" "[?ann, ?bob]" id
      "DeleteUser ''bob''" ?ann "[]"]
  have "?ann \<in> set (snd (handle_user sample_accounts id (Some ''ann'', DeleteUser ''bob'') [?ann, ?bob]))" by blast
  then show ?thesis
    by (simp add: handle_user_def authorized_def auth_user_def delete_user_def sample_accounts_def)
qed

end
