(* ===== verification/Commands.thy ===== *)
theory Commands
  imports Startup Session
begin

text \<open>
  The commands of \<open>src/main.rs\<close> for accounts and for exporting the configuration, the export of
  \<open>src/routes/api.rs\<close> and the health check of \<open>src/routes/health.rs\<close>. What is typed on the
  terminal and the library's calls are parameters.
\<close>

section \<open>Exporting\<close>

definition config_export :: "external \<Rightarrow> config_lib \<Rightarrow> (app_config \<Rightarrow> string + string) \<Rightarrow> command_result io" where
  "config_export X L to_json = do {
     files \<leftarrow> gets w_files;
     return (case load_from X L (files ''sendword.toml'') (files ''sendword.json'') of
         Inl _ \<Rightarrow> CommandFailed
       | Inr config \<Rightarrow> (case to_json config of Inl _ \<Rightarrow> CommandFailed | Inr json \<Rightarrow> CommandDone json)) }"

definition export_config :: "(app_config \<Rightarrow> string + json) \<Rightarrow> json io" where
  "export_config to_value = do {
     config \<leftarrow> gets w_config;
     return (case to_value config of Inl _ \<Rightarrow> JNull | Inr v \<Rightarrow> v) }"

section \<open>The health check\<close>

text \<open>\<open>detail\<close> is sqlx's text of an error.\<close>

definition healthz :: "(db_error \<Rightarrow> string) \<Rightarrow> (nat \<times> json) io" where
  "healthz detail = do {
     r \<leftarrow> query (\<lambda>w. ());
     return (case r of
         Inr _ \<Rightarrow> (200, JObject [(''status'', JString ''ok'')])
       | Inl e \<Rightarrow> (503, JObject [(''status'', JString ''error''), (''detail'', JString (detail e))])) }"

section \<open>Accounts on the terminal\<close>

text \<open>\<open>password\<close> and \<open>confirm\<close> are the two answers, without a value when reading fails; \<open>build\<close> is the
  error of opening the library on the database.\<close>

definition user_create :: "external \<Rightarrow> config_lib \<Rightarrow> startup_lib \<Rightarrow> 'b auth_lib \<Rightarrow> string option
    \<Rightarrow> string \<Rightarrow> string option \<Rightarrow> string option \<Rightarrow> 'b \<Rightarrow> (command_result \<times> 'b) io" where
  "user_create X L S U build email_str password confirm b =
     (case ul_parse_email U email_str of
        None \<Rightarrow> return (CommandExit ''error: invalid email address'', b)
      | Some email \<Rightarrow>
          (case password of
             None \<Rightarrow> return (CommandFailed, b)
           | Some pw \<Rightarrow>
               if pw = [] then return (CommandExit ''error: password must not be empty'', b)
               else case confirm of
                 None \<Rightarrow> return (CommandFailed, b)
               | Some again \<Rightarrow>
                   if pw \<noteq> again then return (CommandExit ''error: passwords do not match'', b)
                   else do {
                     files \<leftarrow> gets w_files;
                     case load_from X L (files ''sendword.toml'') (files ''sendword.json'') of
                       Inl _ \<Rightarrow> return (CommandFailed, b)
                     | Inr config \<Rightarrow>
                         if st_open_db S (cf_database config) \<noteq> None \<or> st_migrate S \<noteq> None \<or> build \<noteq> None
                         then return (CommandFailed, b)
                         else return (case ul_create_user U email pw b of
                             (Inr u, b') \<Rightarrow>
                               (CommandDone (''user '' @ [CHR 0x27] @ us_email u @ [CHR 0x27] @ '' created (id: ''
                                  @ us_id u @ '')''), b')
                           | (Inl (AuthConflict msg), b') \<Rightarrow> (CommandExit (''error: '' @ msg), b')
                           | (Inl _, b') \<Rightarrow> (CommandFailed, b')) }))"

text \<open>The command makes an account exactly when it reports one, for the address that was given and with
  a password that was typed twice; otherwise the accounts are as before. The world stays as it is.\<close>

theorem user_create_spec:
  assumes "accounts_behave U users"
    and "run_state (user_create X L S U build email_str password confirm b) w = ((r, b'), w')"
  shows "w' = w \<and> (case r of
      CommandDone _ \<Rightarrow> \<exists>email u pw. ul_parse_email U email_str = Some email \<and> password = Some pw
          \<and> confirm = Some pw \<and> pw \<noteq> [] \<and> us_email u = email \<and> u \<notin> users b \<and> users b' = insert u (users b)
    | _ \<Rightarrow> users b' = users b)"
proof -
  have "r = CommandFailed \<and> b' = b \<and> w' = w \<or> (\<exists>e. r = CommandExit e) \<and> b' = b \<and> w' = w
    \<or> (\<exists>email pw. ul_parse_email U email_str = Some email \<and> password = Some pw \<and> confirm = Some pw \<and> pw \<noteq> []
        \<and> w' = w \<and> (case ul_create_user U email pw b of
             (Inr u, b1) \<Rightarrow> (\<exists>t. r = CommandDone t) \<and> b' = b1
           | (Inl e, b1) \<Rightarrow> (r = CommandFailed \<or> (\<exists>t. r = CommandExit t)) \<and> b' = b1))"
    using assms(2)
    by (auto simp: user_create_def split: option.splits if_splits sum.splits prod.splits auth_error.splits)
  then show ?thesis
    using account_laws(3) [OF assms(1)] by (fastforce split: prod.splits sum.splits)
qed

end
