(* ===== verification/Assets.thy ===== *)
theory Assets
  imports Hook_Form
begin

text \<open>
  Static files (\<open>src/server.rs\<close>): the fallback of the router, the answer for an asset of the
  wavefunk-ui crate and the comparison of entity tags. The crate is a parameter: its assets with
  their types, tags and bytes.
\<close>

record asset =
  as_path :: string
  as_content_type :: string
  as_content :: bytes

record asset_lib =
  ab_get :: "string \<Rightarrow> asset option"
  ab_etag :: "string \<Rightarrow> string"
  ab_cache_control :: string

text \<open>A header value is bytes; \<open>to_str\<close> gives its text when all of them are visible ASCII or a tab.\<close>

definition header_to_str :: "string \<Rightarrow> string option" where
  "header_to_str value =
     (if list_all (\<lambda>c. let b = (of_char c :: nat) in 32 \<le> b \<and> b \<le> 126 \<or> b = 9) value
      then Some value else None)"

definition if_none_match_matches :: "string option \<Rightarrow> string \<Rightarrow> bool" where
  "if_none_match_matches header etag =
     (case Option.bind header header_to_str of
        None \<Rightarrow> False
      | Some value \<Rightarrow> list_ex (\<lambda>candidate.
          let candidate = trim candidate
          in candidate = ''*'' \<or> candidate = etag \<or> strip_prefix ''W/'' candidate = Some etag)
          (split_on (CHR '','') value))"

datatype asset_response =
    NotModified "(string \<times> string) list"
  | AssetFound "(string \<times> string) list" bytes
  | AssetNotFound
  | NotFoundPage

definition asset_headers :: "asset_lib \<Rightarrow> asset \<Rightarrow> (string \<times> string) list" where
  "asset_headers L a =
     [(''content-type'', as_content_type a), (''cache-control'', ab_cache_control L),
      (''etag'', ab_etag L (as_path a))]"

definition wavefunk_asset_response :: "asset_lib \<Rightarrow> string \<Rightarrow> string option \<Rightarrow> asset_response" where
  "wavefunk_asset_response L path if_none_match =
     (case ab_get L path of
        None \<Rightarrow> AssetNotFound
      | Some a \<Rightarrow>
          if if_none_match_matches if_none_match (ab_etag L (as_path a)) then NotModified (asset_headers L a)
          else AssetFound (asset_headers L a) (as_content a))"

definition static_asset_or_404 :: "asset_lib \<Rightarrow> string \<Rightarrow> string option \<Rightarrow> asset_response" where
  "static_asset_or_404 L path if_none_match =
     (if starts_with ''/static/wavefunk/'' path then wavefunk_asset_response L path if_none_match
      else NotFoundPage)"

section \<open>Revalidation\<close>

text \<open>A client that has an asset is told so: when one of the tags that it sends, separated by commas and
  blanks, is the tag of the asset, weak or not, or a star, the answer is 304 without the content;
  otherwise the content is sent; in both cases with the same headers.\<close>

theorem asset_revalidates:
  assumes "starts_with ''/static/wavefunk/'' path" and "ab_get L path = Some a"
    and "parts \<noteq> []" and "\<And>p. p \<in> set parts \<Longrightarrow> CHR '','' \<notin> set p"
    and "header_to_str (join '','' parts) \<noteq> None"
  shows "static_asset_or_404 L path (Some (join '','' parts)) =
     (if \<exists>p \<in> set parts. trim p \<in> {''*'', ab_etag L (as_path a), ''W/'' @ ab_etag L (as_path a)}
      then NotModified (asset_headers L a) else AssetFound (asset_headers L a) (as_content a))"
proof -
  have "header_to_str (join '','' parts) = Some (join '','' parts)"
    using assms(5) by (auto simp: header_to_str_def split: if_splits)
  moreover have "split_on (CHR '','') (join '','' parts) = parts" by (rule split_on_join [OF assms(3,4)])
  ultimately show ?thesis
    using assms(1,2) by (auto simp: static_asset_or_404_def wavefunk_asset_response_def
        if_none_match_matches_def list_ex_iff strip_prefix_Some_iff Let_def)
qed

end
