(* ===== verification/Router.thy ===== *)
theory Router
  imports Assets Session Scripts Url
begin

text \<open>
  The routes of the server (\<open>src/routes/mod.rs\<close> and the \<open>router\<close> functions of the files below it,
  \<open>router\<close> of \<open>src/server.rs\<close>): which handler a request reaches, and which handlers are only
  reached with a session. A handler stands in the table with its extractors, the arguments of
  its function in their order; axum runs them in this order before the handler, and the first one
  that rejects the request answers it. Finding the route of a path is axum's work and a parameter
  \<open>R\<close>; its laws \<open>router_behaves\<close> are what axum documents: a \<open>{name}\<close> of a route stands for one segment
  that is not empty, and a literal segment is preferred to it. Decoding the segment is a parameter
  (theory \<open>Url\<close>), and so is which requests the extractors of query string, body and connection
  accept. The routes of the allowthem library (login and logout) are a parameter \<open>A\<close>.
\<close>

section \<open>The table\<close>

datatype request_method = MethodGet | MethodHead | MethodPost | MethodOther

datatype endpoint =
    ExportConfig | ImportConfig | ListBackups | CreateBackup | RestoreBackup
  | Healthz
  | Dashboard
  | TriggerHook | NewHookForm | CreateHook | HookDetailPage | EditHookForm | UpdateHook | DeleteHook
  | ExecutionList | TriggerAttemptList
  | ExecutionDetail | LogStream | ReplayExecution | ApproveExecution | RejectExecution | PendingApprovals
  | ListScripts | NewScript | CreateScriptForm | EditScriptForm | SaveScriptForm | DeleteScriptForm
  | ListUsers | CreateUser | DeleteUser
  | SendwordScript
  | AuthLibrary

text \<open>The arguments of the handlers' functions.\<close>

datatype extractor =
    XAuthUser | XState | XConnectInfo | XPath | XQuery | XForm | XJson | XHeaders | XBytes

type_synonym handler = "endpoint \<times> extractor list"

definition h_export_config :: handler where
  "h_export_config = (ExportConfig, [XAuthUser, XState])"

definition h_import_config :: handler where
  "h_import_config = (ImportConfig, [XAuthUser, XState, XJson])"

definition h_list_backups :: handler where
  "h_list_backups = (ListBackups, [XAuthUser, XState])"

definition h_create_backup :: handler where
  "h_create_backup = (CreateBackup, [XAuthUser, XState])"

definition h_restore_backup :: handler where
  "h_restore_backup = (RestoreBackup, [XAuthUser, XState, XJson])"

definition h_healthz :: handler where
  "h_healthz = (Healthz, [XState])"

definition h_dashboard :: handler where
  "h_dashboard = (Dashboard, [XAuthUser, XState, XQuery])"

definition h_trigger_hook :: handler where
  "h_trigger_hook = (TriggerHook, [XState, XConnectInfo, XPath, XHeaders, XBytes])"

definition h_new_hook_form :: handler where
  "h_new_hook_form = (NewHookForm, [XAuthUser, XState, XQuery])"

definition h_create_hook :: handler where
  "h_create_hook = (CreateHook, [XAuthUser, XState, XForm])"

definition h_hook_detail :: handler where
  "h_hook_detail = (HookDetailPage, [XAuthUser, XState, XPath, XQuery])"

definition h_edit_hook_form :: handler where
  "h_edit_hook_form = (EditHookForm, [XAuthUser, XState, XPath, XQuery])"

definition h_update_hook :: handler where
  "h_update_hook = (UpdateHook, [XAuthUser, XState, XPath, XForm])"

definition h_delete_hook :: handler where
  "h_delete_hook = (DeleteHook, [XAuthUser, XState, XPath])"

definition h_execution_list :: handler where
  "h_execution_list = (ExecutionList, [XAuthUser, XState, XPath, XQuery])"

definition h_trigger_attempt_list :: handler where
  "h_trigger_attempt_list = (TriggerAttemptList, [XAuthUser, XState, XPath, XQuery])"

definition h_execution_detail :: handler where
  "h_execution_detail = (ExecutionDetail, [XAuthUser, XState, XPath])"

definition h_log_stream :: handler where
  "h_log_stream = (LogStream, [XAuthUser, XState, XPath])"

definition h_replay_execution :: handler where
  "h_replay_execution = (ReplayExecution, [XAuthUser, XState, XPath])"

definition h_approve_execution :: handler where
  "h_approve_execution = (ApproveExecution, [XAuthUser, XState, XPath])"

definition h_reject_execution :: handler where
  "h_reject_execution = (RejectExecution, [XAuthUser, XState, XPath])"

definition h_list_pending_approvals :: handler where
  "h_list_pending_approvals = (PendingApprovals, [XAuthUser, XState])"

definition h_list_scripts :: handler where
  "h_list_scripts = (ListScripts, [XAuthUser, XState, XQuery])"

definition h_new_script :: handler where
  "h_new_script = (NewScript, [XAuthUser, XQuery])"

definition h_create_script :: handler where
  "h_create_script = (CreateScriptForm, [XAuthUser, XState, XForm])"

definition h_edit_script :: handler where
  "h_edit_script = (EditScriptForm, [XAuthUser, XState, XPath, XQuery])"

definition h_save_script :: handler where
  "h_save_script = (SaveScriptForm, [XAuthUser, XState, XPath, XForm])"

definition h_delete_script :: handler where
  "h_delete_script = (DeleteScriptForm, [XAuthUser, XState, XPath])"

definition h_list_users :: handler where
  "h_list_users = (ListUsers, [XAuthUser, XState, XQuery])"

definition h_create_user :: handler where
  "h_create_user = (CreateUser, [XAuthUser, XState, XForm])"

definition h_delete_user :: handler where
  "h_delete_user = (DeleteUser, [XAuthUser, XState, XPath])"

definition h_sendword_script :: handler where
  "h_sendword_script = (SendwordScript, [])"

type_synonym route = "string \<times> (request_method \<times> handler) list"

definition api_routes :: "route list" where
  "api_routes =
     [(''/api/config/export'', [(MethodGet, h_export_config)]),
      (''/api/config/import'', [(MethodPost, h_import_config)]),
      (''/api/backup/list'', [(MethodGet, h_list_backups)]),
      (''/api/backup/create'', [(MethodPost, h_create_backup)]),
      (''/api/backup/restore'', [(MethodPost, h_restore_backup)])]"

definition health_routes :: "route list" where
  "health_routes = [(''/healthz'', [(MethodGet, h_healthz)])]"

definition dashboard_routes :: "route list" where
  "dashboard_routes = [(''/'', [(MethodGet, h_dashboard)])]"

definition hook_routes :: "route list" where
  "hook_routes =
     [(''/hook/{slug}'', [(MethodPost, h_trigger_hook)]),
      (''/hooks/new'', [(MethodGet, h_new_hook_form), (MethodPost, h_create_hook)]),
      (''/hooks/{slug}'', [(MethodGet, h_hook_detail)]),
      (''/hooks/{slug}/edit'', [(MethodGet, h_edit_hook_form), (MethodPost, h_update_hook)]),
      (''/hooks/{slug}/delete'', [(MethodPost, h_delete_hook)]),
      (''/hooks/{slug}/executions'', [(MethodGet, h_execution_list)]),
      (''/hooks/{slug}/attempts'', [(MethodGet, h_trigger_attempt_list)])]"

definition execution_routes :: "route list" where
  "execution_routes =
     [(''/executions/{id}'', [(MethodGet, h_execution_detail)]),
      (''/executions/{id}/logs/stream'', [(MethodGet, h_log_stream)]),
      (''/executions/{id}/replay'', [(MethodPost, h_replay_execution)]),
      (''/executions/{id}/approve'', [(MethodPost, h_approve_execution)]),
      (''/executions/{id}/reject'', [(MethodPost, h_reject_execution)]),
      (''/approvals'', [(MethodGet, h_list_pending_approvals)])]"

definition script_routes :: "route list" where
  "script_routes =
     [(''/scripts'', [(MethodGet, h_list_scripts)]),
      (''/scripts/new'', [(MethodGet, h_new_script), (MethodPost, h_create_script)]),
      (''/scripts/{filename}'', [(MethodGet, h_edit_script), (MethodPost, h_save_script)]),
      (''/scripts/{filename}/delete'', [(MethodPost, h_delete_script)])]"

definition settings_routes :: "route list" where
  "settings_routes =
     [(''/admin/users'', [(MethodGet, h_list_users), (MethodPost, h_create_user)]),
      (''/admin/users/{id}/delete'', [(MethodPost, h_delete_user)])]"

definition static_routes :: "route list" where
  "static_routes = [(''/static/js/sendword.js'', [(MethodGet, h_sendword_script)])]"

definition app_routes :: "route list" where
  "app_routes = api_routes @ health_routes @ dashboard_routes @ hook_routes @ execution_routes
     @ script_routes @ settings_routes @ static_routes"

definition all_routes :: "string list \<Rightarrow> route list" where
  "all_routes A = app_routes @ map (\<lambda>r. (r, [(MethodGet, (AuthLibrary, [])), (MethodPost, (AuthLibrary, []))])) A"

section \<open>Matching\<close>

definition is_param :: "string \<Rightarrow> bool" where
  "is_param segment \<longleftrightarrow> starts_with ''{'' segment"

definition segments :: "string \<Rightarrow> string list" where
  "segments = split_on (CHR ''/'')"

definition matches :: "string \<Rightarrow> string \<Rightarrow> bool" where
  "matches r path \<longleftrightarrow>
     list_all2 (\<lambda>p s. if is_param p then s \<noteq> [] else p = s) (segments r) (segments path)"

fun prefers :: "string list \<Rightarrow> string list \<Rightarrow> bool" where
  "prefers (p # ps) (q # qs) =
     (\<not> is_param p \<and> is_param q \<or> (if is_param p then is_param q else p = q) \<and> prefers ps qs)"
| "prefers _ _ = False"

definition params :: "string \<Rightarrow> string \<Rightarrow> string list" where
  "params r path = map snd (filter (\<lambda>(p, s). is_param p) (zip (segments r) (segments path)))"

definition router_behaves :: "(string list \<Rightarrow> string \<Rightarrow> string option) \<Rightarrow> string list \<Rightarrow> bool" where
  "router_behaves R rs \<longleftrightarrow> (\<forall>path.
     case R rs path of
       None \<Rightarrow> \<forall>r \<in> set rs. \<not> matches r path
     | Some r \<Rightarrow> r \<in> set rs \<and> matches r path
         \<and> (\<forall>q \<in> set rs. matches q path \<longrightarrow> \<not> prefers (segments q) (segments r)))"

section \<open>Requests\<close>

datatype reached = Reaches endpoint "string list" | ToLogin | Refused | MethodNotAllowed | Fallback

text \<open>The extractors of a handler: the answer of the first one that rejects the request. \<open>accepts\<close>
  says which of the library's extractors take the request; \<open>Path\<close> takes it when its segments decode.\<close>

fun run_extractors :: "(extractor \<Rightarrow> bool) \<Rightarrow> bool \<Rightarrow> bool \<Rightarrow> extractor list \<Rightarrow> reached option" where
  "run_extractors accepts session decoded [] = None"
| "run_extractors accepts session decoded (x # xs) =
     (case x of
        XAuthUser \<Rightarrow> if session then run_extractors accepts session decoded xs else Some ToLogin
      | XState \<Rightarrow> run_extractors accepts session decoded xs
      | XPath \<Rightarrow> if decoded then run_extractors accepts session decoded xs else Some Refused
      | _ \<Rightarrow> if accepts x then run_extractors accepts session decoded xs else Some Refused)"

definition call_handler :: "url_lib \<Rightarrow> (extractor \<Rightarrow> bool) \<Rightarrow> bool \<Rightarrow> string list \<Rightarrow> handler \<Rightarrow> reached" where
  "call_handler U accepts session raw h =
     (let segs = those (map (decode_segment U) raw)
      in case run_extractors accepts session (segs \<noteq> None) (snd h) of
           Some rejection \<Rightarrow> rejection
         | None \<Rightarrow> Reaches (fst h) (if XPath \<in> set (snd h) then the segs else []))"

text \<open>A handler of \<open>GET\<close> also answers \<open>HEAD\<close>.\<close>

definition method_handler :: "(request_method \<times> handler) list \<Rightarrow> request_method \<Rightarrow> handler option" where
  "method_handler ms m = map_of ms (if m = MethodHead then MethodGet else m)"

definition dispatch :: "url_lib \<Rightarrow> (string list \<Rightarrow> string \<Rightarrow> string option) \<Rightarrow> string list
    \<Rightarrow> (extractor \<Rightarrow> bool) \<Rightarrow> request_method \<Rightarrow> string \<Rightarrow> bool \<Rightarrow> reached" where
  "dispatch U R A accepts m path session =
     (case R (map fst (all_routes A)) path of
        None \<Rightarrow> Fallback
      | Some r \<Rightarrow>
          (case Option.bind (map_of (all_routes A) r) (\<lambda>ms. method_handler ms m) of
             None \<Rightarrow> MethodNotAllowed
           | Some h \<Rightarrow> call_handler U accepts session (params r path) h))"

text \<open>A request with its cookie header: the session is the one that the extractor finds.\<close>

definition reached_by :: "'b auth_lib \<Rightarrow> url_lib \<Rightarrow> (string list \<Rightarrow> string \<Rightarrow> string option) \<Rightarrow> string list
    \<Rightarrow> (extractor \<Rightarrow> bool) \<Rightarrow> request_method \<Rightarrow> string \<Rightarrow> string option \<Rightarrow> 'b \<Rightarrow> reached" where
  "reached_by L U R A accepts m path cookie_header b =
     dispatch U R A accepts m path (fst (auth_user L cookie_header b) \<noteq> None)"

lemma extractors_no_session: "run_extractors accepts False decoded xs = None \<Longrightarrow> XAuthUser \<notin> set xs"
  by (induction xs) (auto split: extractor.splits if_splits)

lemma extractors_path: "run_extractors accepts session decoded xs = None \<Longrightarrow> XPath \<in> set xs \<Longrightarrow> decoded"
  by (induction xs) (auto split: extractor.splits if_splits)

lemma extractors_reject: "run_extractors accepts session decoded xs = Some r \<Longrightarrow> r = ToLogin \<or> r = Refused"
  by (induction xs) (auto split: extractor.splits if_splits)

lemma call_handler_reaches:
  "call_handler U accepts session raw h = Reaches e ps \<Longrightarrow>
     e = fst h \<and> run_extractors accepts session (those (map (decode_segment U) raw) \<noteq> None) (snd h) = None
     \<and> (if XPath \<in> set (snd h) then those (map (decode_segment U) raw) = Some ps else ps = [])"
  using extractors_path [of accepts session "those (map (decode_segment U) raw) \<noteq> None" "snd h"]
  by (auto simp: call_handler_def Let_def dest: extractors_reject split: option.splits if_splits)

section \<open>Finding a route\<close>

lemma router_laws:
  assumes "router_behaves R rs"
  shows "R rs path = None \<Longrightarrow> r \<in> set rs \<Longrightarrow> \<not> matches r path"
    and "R rs path = Some r \<Longrightarrow> r \<in> set rs" and "R rs path = Some r \<Longrightarrow> matches r path"
    and "R rs path = Some r \<Longrightarrow> q \<in> set rs \<Longrightarrow> matches q path \<Longrightarrow> \<not> prefers (segments q) (segments r)"
  using spec [OF assms [unfolded router_behaves_def], of path] by simp_all

lemma route_found:
  assumes "router_behaves R (map fst (all_routes A))" and "\<And>q. q \<in> set A \<Longrightarrow> \<not> matches q path"
    and "map_of app_routes r = Some ms" and "matches r path"
    and "list_all (\<lambda>q. \<not> matches q path \<or> q = r \<or> prefers (segments r) (segments q)) (map fst app_routes)"
  shows "dispatch U R A accepts m path session =
     (case method_handler ms m of
        None \<Rightarrow> MethodNotAllowed
      | Some h \<Rightarrow> call_handler U accepts session (params r path) h)"
proof -
  have r: "r \<in> fst ` set app_routes" using assms(3) by (metis map_of_SomeD fst_conv image_eqI)
  have "R (map fst (all_routes A)) path = Some r"
  proof (cases "R (map fst (all_routes A)) path")
    case None
    with router_laws(1) [OF assms(1) None, of r] r assms(4) show ?thesis by (auto simp: all_routes_def)
  next
    case (Some r')
    note laws = router_laws(2-4) [OF assms(1) Some]
    have "r' \<in> fst ` set app_routes" using laws(1,2) assms(2) by (auto simp: all_routes_def)
    then have "r' = r \<or> prefers (segments r) (segments r')" using assms(5) laws(2) by (auto simp: list_all_iff)
    with laws(3) [of r] r assms(4) Some show ?thesis by (auto simp: all_routes_def)
  qed
  moreover have "map_of (all_routes A) r = Some ms"
    using assms(3) by (simp add: all_routes_def map_add_def)
  ultimately show ?thesis by (simp add: dispatch_def)
qed

lemma path_of_segments: "segments path = ss \<Longrightarrow> path = join ''/'' ss \<and> (\<forall>s \<in> set ss. CHR ''/'' \<notin> set s)"
  using join_split_on [of "CHR ''/''" path] split_on_parts [of _ "CHR ''/''" path] by (auto simp: segments_def)

lemmas route_tables = app_routes_def api_routes_def health_routes_def dashboard_routes_def hook_routes_def
  execution_routes_def script_routes_def settings_routes_def static_routes_def

section \<open>What is reached\<close>

definition open_routes :: "(request_method \<times> endpoint \<times> string) list" where
  "open_routes = [(MethodPost, TriggerHook, ''/hook/{slug}''), (MethodGet, Healthz, ''/healthz''),
     (MethodGet, SendwordScript, ''/static/js/sendword.js'')]"

lemma routes_without_session:
  assumes "(r, ms) \<in> set app_routes" and "(m, h) \<in> set ms" and "XAuthUser \<notin> set (snd h)"
  shows "(m, fst h, r) \<in> set open_routes"
proof -
  have "list_all (\<lambda>(r, ms). list_all (\<lambda>(m, h). XAuthUser \<in> set (snd h)
      \<or> list_ex ((=) (m, fst h, r)) open_routes) ms) app_routes"
    by code_simp
  then have "list_all (\<lambda>(m, h). XAuthUser \<in> set (snd h) \<or> list_ex ((=) (m, fst h, r)) open_routes) ms"
    using assms(1) unfolding list_all_iff by fast
  with assms(2,3) show ?thesis unfolding list_all_iff by (auto simp: list_ex_iff)
qed

lemma trigger_handler:
  assumes "(''/hook/{slug}'', ms) \<in> set app_routes" and "(m, h) \<in> set ms"
  shows "XPath \<in> set (snd h)"
proof -
  have "list_all (\<lambda>(r, ms). r = ''/hook/{slug}'' \<longrightarrow> list_all (\<lambda>(m, h). XPath \<in> set (snd h)) ms) app_routes"
    by code_simp
  then show ?thesis using assms unfolding list_all_iff by fastforce
qed

text \<open>C38: Without a session only three handlers of the server are reached: triggering a hook, which
  authenticates requests itself, the health check and the script of the pages; the rest are routes
  of the login library. Whatever the method and the path are, and whatever else the extractors
  accept, every other request is sent to the login page, refused, or answered by the fallback. The
  slug that triggers a hook is the decoded last segment of the path.\<close>

theorem no_session_reaches:
  assumes "router_behaves R (map fst (all_routes A))" and "fst (auth_user L cookie_header b) = None"
    and "reached_by L U R A accepts m path cookie_header b = Reaches e ps"
  shows "(e = TriggerHook \<and> m = MethodPost \<and> (\<exists>raw slug. raw \<noteq> [] \<and> CHR ''/'' \<notin> set raw
           \<and> path = ''/hook/'' @ raw \<and> decode_segment U raw = Some slug \<and> ps = [slug]))
    \<or> (e = Healthz \<and> path = ''/healthz'') \<or> (e = SendwordScript \<and> path = ''/static/js/sendword.js'')
    \<or> (e = AuthLibrary \<and> (\<exists>r \<in> set A. matches r path))"
proof -
  obtain r ms h where r: "R (map fst (all_routes A)) path = Some r" "map_of (all_routes A) r = Some ms"
    "method_handler ms m = Some h" "call_handler U accepts False (params r path) h = Reaches e ps"
    using assms(2,3) by (auto simp: reached_by_def dispatch_def split: option.splits bind_splits)
  note called = call_handler_reaches [OF r(4)]
  then have open_h: "XAuthUser \<notin> set (snd h)" using extractors_no_session by blast
  note match = router_laws(3) [OF assms(1) r(1)]
  have "(r, ms) \<in> set (all_routes A)" using r(2) by (rule map_of_SomeD)
  then consider (lib) "r \<in> set A" "ms = [(MethodGet, (AuthLibrary, [])), (MethodPost, (AuthLibrary, []))]"
    | (app) "(r, ms) \<in> set app_routes"
    by (auto simp: all_routes_def)
  then show ?thesis
  proof cases
    case lib
    with r(3) match called show ?thesis by (auto simp: method_handler_def split: if_splits)
  next
    case app
    have mem: "(if m = MethodHead then MethodGet else m, h) \<in> set ms"
      using r(3) unfolding method_handler_def by (rule map_of_SomeD)
    from routes_without_session [OF app mem open_h]
    have "e = TriggerHook \<and> m = MethodPost \<and> r = ''/hook/{slug}'' \<or> e = Healthz \<and> r = ''/healthz''
        \<or> e = SendwordScript \<and> r = ''/static/js/sendword.js''"
      using called by (auto simp: open_routes_def split: if_splits)
    then show ?thesis
    proof (elim disjE conjE)
      assume e: "e = TriggerHook" "m = MethodPost" "r = ''/hook/{slug}''"
      then obtain raw where s: "segments path = [[], ''hook'', raw]" "raw \<noteq> []"
        using match by (auto simp: matches_def segments_def is_param_def starts_with_def list_all2_Cons1)
      have "segments ''/hook/{slug}'' = [[], ''hook'', ''{slug}'']" by (simp add: segments_def)
      then have "params r path = [raw]" by (simp add: params_def e(3) s(1) is_param_def starts_with_def)
      moreover have "XPath \<in> set (snd h)" using trigger_handler [OF app [unfolded e(3)] mem] .
      ultimately have "\<exists>slug. decode_segment U raw = Some slug \<and> ps = [slug]"
        using called by (auto split: option.splits)
      with path_of_segments [OF s(1)] e(1,2) s(2) show ?thesis by auto
    next
      assume e: "e = Healthz" "r = ''/healthz''"
      then have "segments path = [[], ''healthz'']"
        using match by (auto simp: matches_def segments_def is_param_def starts_with_def list_all2_Cons1)
      from path_of_segments [OF this] e show ?thesis by simp
    next
      assume e: "e = SendwordScript" "r = ''/static/js/sendword.js''"
      then have "segments path = [[], ''static'', ''js'', ''sendword.js'']"
        using match by (auto simp: matches_def segments_def is_param_def starts_with_def list_all2_Cons1)
      from path_of_segments [OF this] e show ?thesis by simp
    qed
  qed
qed

text \<open>The pages of a hook, under the addresses that the lists and forms link to.\<close>

lemma hook_page_reached:
  assumes "router_behaves R (map fst (all_routes A))" and "\<And>q path. q \<in> set A \<Longrightarrow> \<not> matches q path"
    and "raw \<noteq> []" and "CHR ''/'' \<notin> set raw" and "raw \<noteq> ''new''" and "decode_segment U raw = Some slug"
    and "accepts XQuery"
  shows "dispatch U R A accepts MethodGet (''/hooks/'' @ raw) True = Reaches HookDetailPage [slug]"
proof -
  have path: "segments (''/hooks/'' @ raw) = [[], ''hooks'', raw]"
    using split_on_no_sep [OF assms(4)] by (simp add: segments_def)
  have "map_of app_routes ''/hooks/{slug}'' = Some [(MethodGet, h_hook_detail)]" by code_simp
  moreover have r: "segments ''/hooks/{slug}'' = [[], ''hooks'', ''{slug}'']" by (simp add: segments_def)
  then have "matches ''/hooks/{slug}'' (''/hooks/'' @ raw)"
    using assms(3) unfolding matches_def path r by (simp add: is_param_def starts_with_def)
  moreover have "list_all (\<lambda>q. \<not> matches q (''/hooks/'' @ raw) \<or> q = ''/hooks/{slug}''
      \<or> prefers (segments ''/hooks/{slug}'') (segments q)) (map fst app_routes)"
    unfolding matches_def path
    using assms(5) by (simp add: route_tables segments_def is_param_def starts_with_def)
  ultimately have "dispatch U R A accepts MethodGet (''/hooks/'' @ raw) True =
      (case method_handler [(MethodGet, h_hook_detail)] MethodGet of
         None \<Rightarrow> MethodNotAllowed
       | Some h \<Rightarrow> call_handler U accepts True (params ''/hooks/{slug}'' (''/hooks/'' @ raw)) h)"
    by (intro route_found [OF assms(1)] assms(2))
  moreover have "params ''/hooks/{slug}'' (''/hooks/'' @ raw) = [raw]"
    unfolding params_def path r by (simp add: is_param_def starts_with_def)
  ultimately show ?thesis
    using assms(6,7) by (simp add: method_handler_def call_handler_def h_hook_detail_def Let_def)
qed

text \<open>A literal segment hides what has the same name. A script may be called \<open>new\<close>, and so may a hook;
  but the address of the script's editor and of the hook's page is the one of an empty form.\<close>

theorem new_is_hidden:
  assumes "router_behaves R (map fst (all_routes A))" and "\<And>q path. q \<in> set A \<Longrightarrow> \<not> matches q path"
    and "accepts XQuery" and "accepts XForm"
  shows "filename_error ''new'' = None
       \<and> dispatch U R A accepts MethodGet ''/scripts/new'' True = Reaches NewScript []
       \<and> dispatch U R A accepts MethodPost ''/scripts/new'' True = Reaches CreateScriptForm []"
    and "is_valid_slug ''new'' \<and> dispatch U R A accepts MethodGet ''/hooks/new'' True = Reaches NewHookForm []"
proof -
  let ?hides = "\<lambda>r path. list_all (\<lambda>q. \<not> matches q path \<or> q = r \<or> prefers (segments r) (segments q)) (map fst app_routes)"
  have h: "?hides ''/scripts/new'' ''/scripts/new''" "?hides ''/hooks/new'' ''/hooks/new''" by code_simp+
  have s: "map_of app_routes ''/scripts/new'' = Some [(MethodGet, h_new_script), (MethodPost, h_create_script)]"
      "map_of app_routes ''/hooks/new'' = Some [(MethodGet, h_new_hook_form), (MethodPost, h_create_hook)]"
      "matches ''/scripts/new'' ''/scripts/new''" "matches ''/hooks/new'' ''/hooks/new''"
      "params ''/scripts/new'' ''/scripts/new'' = []" "params ''/hooks/new'' ''/hooks/new'' = []" by code_simp+
  have "filename_error ''new'' = None" "is_valid_slug ''new''" by code_simp+
  moreover have "dispatch U R A accepts m ''/scripts/new'' True =
      (case method_handler [(MethodGet, h_new_script), (MethodPost, h_create_script)] m of
         None \<Rightarrow> MethodNotAllowed | Some h \<Rightarrow> call_handler U accepts True [] h)" for m
    using route_found [OF assms(1,2) s(1,3) h(1), of U accepts m True] unfolding s(5) .
  moreover have "dispatch U R A accepts m ''/hooks/new'' True =
      (case method_handler [(MethodGet, h_new_hook_form), (MethodPost, h_create_hook)] m of
         None \<Rightarrow> MethodNotAllowed | Some h \<Rightarrow> call_handler U accepts True [] h)" for m
    using route_found [OF assms(1,2) s(2,4) h(2), of U accepts m True] unfolding s(6) .
  ultimately show "filename_error ''new'' = None
       \<and> dispatch U R A accepts MethodGet ''/scripts/new'' True = Reaches NewScript []
       \<and> dispatch U R A accepts MethodPost ''/scripts/new'' True = Reaches CreateScriptForm []"
    and "is_valid_slug ''new'' \<and> dispatch U R A accepts MethodGet ''/hooks/new'' True = Reaches NewHookForm []"
    using assms(3,4) by (simp_all add: method_handler_def call_handler_def h_new_script_def h_create_script_def
        h_new_hook_form_def h_create_hook_def Let_def)
qed

section \<open>Witnesses\<close>

text \<open>Taking the first route that matches is enough where no route is preferred to an earlier one.\<close>

definition first_route :: "string list \<Rightarrow> string \<Rightarrow> string option" where
  "first_route rs path = List.find (\<lambda>r. matches r path) rs"

lemma prefers_irrefl: "\<not> prefers ps ps"
  by (induction ps) auto

lemma first_route_behaves:
  assumes "sorted_wrt (\<lambda>a b. \<not> prefers b a) (map segments rs)"
  shows "router_behaves first_route rs"
  unfolding router_behaves_def
proof (intro allI)
  fix path
  show "case first_route rs path of None \<Rightarrow> \<forall>r \<in> set rs. \<not> matches r path
      | Some r \<Rightarrow> r \<in> set rs \<and> matches r path
          \<and> (\<forall>q \<in> set rs. matches q path \<longrightarrow> \<not> prefers (segments q) (segments r))"
  proof (cases "first_route rs path")
    case None
    then have "\<forall>r \<in> set rs. \<not> matches r path" by (simp add: first_route_def find_None_iff)
    with None show ?thesis by simp
  next
    case (Some r)
    then obtain i where i: "i < length rs" "matches r path" "r = rs ! i" "\<forall>j < i. \<not> matches (rs ! j) path"
      by (auto simp: first_route_def find_Some_iff)
    have "\<not> prefers (segments (rs ! k)) (segments r)" if "k < length rs" "matches (rs ! k) path" for k
    proof (cases "k = i")
      case False
      with i(4) that have "i < k" by (meson linorder_neqE_nat)
      from sorted_wrt_nth_less [OF assms this] that(1) i(1,3) show ?thesis by simp
    qed (use i(3) prefers_irrefl in simp)
    with Some i show ?thesis by (auto simp: in_set_conv_nth)
  qed
qed

lemma sample_router: "router_behaves first_route (map fst (all_routes []))"
proof -
  have "sorted_wrt (\<lambda>a b. \<not> prefers b a) (map segments (map fst (all_routes [])))" by code_simp
  then show ?thesis by (rule first_route_behaves)
qed

theorem no_session_reaches_witness:
  "reached_by sample_accounts sample_url first_route [] (\<lambda>_. True) MethodPost ''/hook/a%2Fb'' None []
     = Reaches TriggerHook [''a/b'']
   \<and> (\<exists>raw slug. ''/hook/a%2Fb'' = ''/hook/'' @ raw \<and> decode_segment sample_url raw = Some slug
        \<and> [''a/b''] = [slug])"
proof -
  have none: "fst (auth_user sample_accounts None []) = None" by (simp add: auth_user_def)
  have "dispatch sample_url first_route [] (\<lambda>_. True) MethodPost ''/hook/a%2Fb'' False = Reaches TriggerHook [''a/b'']"
    by code_simp
  then have reach: "reached_by sample_accounts sample_url first_route [] (\<lambda>_. True) MethodPost ''/hook/a%2Fb'' None []
      = Reaches TriggerHook [''a/b'']"
    by (simp add: reached_by_def none)
  from no_session_reaches [OF sample_router none reach] reach show ?thesis by auto
qed

end
