(* ===== verification/Reconfigure.thy ===== *)
theory Reconfigure
  imports Exclusion Api
begin

text \<open>
  Configurations that change while the server runs. The handlers that create, edit and delete hooks
  and the import of a configuration are steps of the server; concurrency control survives them as
  long as they switch it on or off only for idle hooks; and an example shows that this is needed.
\<close>

section \<open>The handlers as steps\<close>

lemma reload_is_step:
  assumes "same_tables w v"
  shows "server_step X w (snd (run_state (reload_config X L path) v))"
proof (cases "w_io_fault v (w_ios v) \<or> isl (load_from X L (w_files v path) (w_files v ''nonexistent.json''))")
  case True
  then have "snd (run_state (reload_config X L path) v) = v\<lparr>w_ios := Suc (w_ios v)\<rparr>"
    by (auto simp: run_reload_config split: sum.split)
  then show ?thesis using assms by (simp add: server_step.Elsewhere same_tables_def)
next
  case False
  then obtain c where c: "load_from X L (w_files v path) (w_files v ''nonexistent.json'') = Inr c"
    by (auto simp: isl_def) (metis sum.exhaust)
  have "same_tables w (v\<lparr>w_ios := Suc (w_ios v)\<rparr>)" using assms by (simp add: same_tables_def)
  from server_step.Reload [OF this conjunct1 [OF load_from_Inr [OF c]]] False c show ?thesis
    by (simp add: run_reload_config)
qed

lemma change_is_step:
  "server_step X w (snd (run_state (do { r \<leftarrow> change_config X L path change;
     case r of Inl e \<Rightarrow> return (bad e) | Inr _ \<Rightarrow> do { _ \<leftarrow> reload_config X L path; return good } }) w))"
proof -
  obtain r v where v: "run_state (change_config X L path change) w = (r, v)" by fastforce
  have "same_tables w v"
    using tables_change_config [of X L path change] v by (metis state_io_rel_def snd_conv)
  from server_step.Elsewhere [OF this] reload_is_step [OF this, of X L path] v show ?thesis
    by (cases r) (simp_all add: case_prod_unfold)
qed

lemma same_tables_refl: "same_tables w w"
  by (simp add: same_tables_def)

lemma import_is_step: "server_step X w (snd (run_state (import_config X L from_value to_toml path body) w))"
proof (cases "\<exists>config toml. from_value body = Inr config \<and> validate_config X config = Inr () \<and> to_toml config = Inr toml")
  case False
  then have "snd (run_state (import_config X L from_value to_toml path body) w) = w"
    by (auto simp: import_config_def split: sum.split)
  then show ?thesis by (simp add: server_step.Elsewhere same_tables_refl)
next
  case True
  then obtain config toml where ok: "from_value body = Inr config" "validate_config X config = Inr ()"
    "to_toml config = Inr toml" by blast
  obtain r v where v: "run_state (overwrite_file path toml) w = (r, v)" by fastforce
  then have "same_tables w v" by (auto simp: run_overwrite_file same_tables_def split: if_splits)
  from server_step.Elsewhere [OF this] reload_is_step [OF this, of X L path] v ok show ?thesis
    by (cases r) (simp_all add: import_config_def case_prod_unfold)
qed

text \<open>Whatever is submitted, whatever the file and however often file operations fail: creating, editing
  and deleting a hook and importing a configuration are steps of the server.\<close>

theorem admin_is_step:
  shows "server_step X w (snd (run_state (create_hook X L path form) w))"
    and "server_step X w (snd (run_state (update_hook X L path slug form) w))"
    and "server_step X w (snd (run_state (delete_hook X L path slug) w))"
    and "server_step X w (snd (run_state (import_config X L from_value to_toml path body) w))"
proof -
  note idle = server_step.Elsewhere [OF same_tables_refl, of X w]
  show "server_step X w (snd (run_state (create_hook X L path form) w))"
    by (cases "parse_hook_form X form")
      (simp_all only: create_hook_def config_add_hook_def sum.case change_is_step, simp add: idle)
  show "server_step X w (snd (run_state (update_hook X L path slug form) w))"
  proof (cases "existing_hook_is_http (w_config w) slug \<or> isl (parse_hook_form X form)")
    case True
    then have "snd (run_state (update_hook X L path slug form) w) = w"
      by (auto simp: update_hook_def split: sum.splits)
    then show ?thesis by (simp add: idle)
  next
    case False
    then obtain data where data: "parse_hook_form X form = Inr data" by (cases "parse_hook_form X form") auto
    have "run_state (update_hook X L path slug form) w =
        run_state (do { r \<leftarrow> change_config X L path (update_hook_doc slug data);
          case r of
            Inl e \<Rightarrow> return (FormPage (submitted_hook_form_page form (edit_page slug (fm_name form)))
                         (write_error_message e))
          | Inr _ \<Rightarrow> do { _ \<leftarrow> reload_config X L path;
                         return (GoTo (''/hooks/'' @ slug @ ''?success=Changes+saved'')) } }) w"
      using False data by (simp add: update_hook_def config_update_hook_def del: append_Cons)
    then show ?thesis by (simp only: change_is_step)
  qed
  show "server_step X w (snd (run_state (delete_hook X L path slug) w))"
    by (simp only: delete_hook_def config_remove_hook_def change_is_step)
qed (rule import_is_step)

section \<open>Switching concurrency control on\<close>

text \<open>The condition on reloads is needed. Without concurrency control several executions of a hook can
  wait for their approval, and none holds a lock. When concurrency control is switched on then and
  two of them are approved, both run with the right to, side by side.\<close>

theorem concurrency_switched_on:
  assumes "orderly w" and "no_faults w" and "\<not> controlled (hk_slug hook) w"
    and "validate_config X config = Inr ()" and "hook \<in> set (cf_hooks config)" and "hk_concurrency hook = Some c"
    and "i \<in> undecided (hk_slug hook) w" and "j \<in> undecided (hk_slug hook) w" and "i \<noteq> j"
  shows "\<exists>w'. server_steps X w w' \<and> claims (hk_slug hook) w' = [i, j]"
proof -
  let ?slug = "hk_slug hook"
  define w1 where "w1 = w\<lparr>w_config := config\<rparr>"
  define w2 where "w2 = snd (run_state (approve_execution X [] i) w1)"
  define w3 where "w3 = snd (run_state (approve_execution X [] j) w2)"
  have none: "claims ?slug w = []" using assms(1,3) by (auto simp: orderly_def turn_def)
  have 1: "exec_ids_distinct w1" "distinct (map hk_slug (cf_hooks (w_config w1)))" "no_faults w1"
      "hook \<in> set (cf_hooks (w_config w1))" "i \<in> undecided ?slug w1" "j \<in> undecided ?slug w1"
    using assms by (simp_all add: w1_def orderly_def exec_ids_distinct_def validate_config_wf no_faults_def undecided_def)
  obtain ctx rc where 2: "xc_hook_slug ctx = ?slug" "xc_execution_id ctx = i"
      "w_tasks w2 = w_tasks w1 @ [RunApproved ctx rc hook]" "w_config w2 = w_config w1"
      "exec_ids_distinct w2" "no_faults w2" "\<forall>s. undecided s w1 - {i} \<subseteq> undecided s w2"
    by (rule approve_spawns [OF 1(1-5), where X = X and who = "[]", folded w2_def], rule that)
  have "j \<in> undecided ?slug w2" using 2(7) 1(6) assms(9) by blast
  moreover have "distinct (map hk_slug (cf_hooks (w_config w2)))" "hook \<in> set (cf_hooks (w_config w2))"
    using 1(2,4) 2(4) by simp_all
  ultimately have w2: "j \<in> undecided ?slug w2" "distinct (map hk_slug (cf_hooks (w_config w2)))"
      "hook \<in> set (cf_hooks (w_config w2))" by blast+
  obtain ctx' rc' where 3: "xc_hook_slug ctx' = ?slug" "xc_execution_id ctx' = j"
      "w_tasks w3 = w_tasks w2 @ [RunApproved ctx' rc' hook]"
    by (rule approve_spawns [OF 2(5) w2(2) 2(6) w2(3,1), where X = X and who = "[]", folded w3_def], rule that)
  have "server_step X w w1" unfolding w1_def by (rule server_step.Reload [OF same_tables_refl assms(4)])
  then have "server_steps X w w3"
    unfolding w3_def w2_def by (meson Approve r_into_rtranclp rtranclp_trans)
  moreover have "claims ?slug w3 = [i, j]"
    using none 2(1-3) 3 assms(6) by (simp add: w1_def claims_in_def List.map_filter_def)
  ultimately show ?thesis by blast
qed

end
