(* ===== verification/Mutual_Exclusion.thy ===== *)
theory Mutual_Exclusion
  imports Exclusion
begin

text \<open>
  Mutual exclusion at the level of the tasks: every task that is spawned fits the configuration at
  that time, so for a hook with concurrency control every task but a replay claims the lock, and
  the order of the worlds (theory \<open>Exclusion\<close>) leaves at most one. Replays are started beside it.
\<close>

section \<open>Tasks that fit the configuration\<close>

fun task_fits :: "app_config \<Rightarrow> task \<Rightarrow> bool" where
  "task_fits config (RunTriggered ctx rc hook) \<longleftrightarrow> hook \<in> set (cf_hooks config) \<and> xc_hook_slug ctx = hk_slug hook"
| "task_fits config (RunApproved ctx rc hook) \<longleftrightarrow> hook \<in> set (cf_hooks config) \<and> xc_hook_slug ctx = hk_slug hook"
| "task_fits config _ \<longleftrightarrow> True"

definition spawns :: "app_config \<Rightarrow> world \<Rightarrow> world \<Rightarrow> bool" where
  "spawns config w w' \<longleftrightarrow> (\<forall>t \<in> set (w_tasks w'). t \<in> set (w_tasks w) \<or> task_fits config t)"

interpretation spawns: world_relation "spawns config" for config
  by standard (auto simp: spawns_def)

named_theorems spawns_intros \<open>operations that spawn fitting tasks only\<close>

lemmas [spawns_intros] = spawns.keeps_basic

lemma spawns_calm: "state_io_rel calm m \<Longrightarrow> state_io_rel (spawns config) m"
  by (simp add: state_io_rel_def calm_def spawns_def)

lemma spawns_task: "task_fits config t \<Longrightarrow> state_io_rel (spawns config) (spawn_task t)"
  by (simp add: state_io_rel_def spawns_def)

lemma spawns_tables [spawns_intros]:
  "state_io_rel (spawns config) (update_execs p f)"
  "state_io_rel (spawns config) (update_queue q g)"
  "state_io_rel (spawns config) (release slug)"
  "state_io_rel (spawns config) (hand_off X slug i)"
  "state_io_rel (spawns config) (try_acquire X slug i)"
  by (auto simp: state_io_rel_def spawns_def release_def hand_off_def try_acquire_def split: sum.splits option.splits)

lemma spawns_inserts [spawns_intros]:
  "state_io_rel (spawns config) (insert_execution row)"
  "state_io_rel (spawns config) (insert_queue_row q slug i at)"
  unfolding insert_execution_def insert_queue_row_def
  by (intro spawns.keeps_sql; auto simp: spawns_def split: if_splits)+

lemma spawns_create [spawns_intros]:
  "state_io_rel (spawns config) (execution_create X new)"
  "state_io_rel (spawns config) (enqueue X slug i)"
  unfolding execution_create_def execution_get_by_id_def enqueue_def
  by (intro spawns_intros spawns.keeps_sql; auto simp: spawns_def split: option.splits)+

lemma spawns_completion [spawns_intros]: "state_io_rel (spawns config) (on_execution_complete X slug cc ac)"
  unfolding on_execution_complete_def peek_next_def mark_ready_def mark_pending_approval_def require_affected_def
  by (intro spawns_intros spawns_task) simp

lemma spawns_runs [spawns_intros]:
  "state_io_rel (spawns config) (run_with_retries X ctx rc)"
  "state_io_rel (spawns config) (notify_completion X hook i r)"
  "state_io_rel (spawns config) (execution_get_by_id i)"
  "state_io_rel (spawns config) (log_attempt X slug ip st reason j)"
  "state_io_rel (spawns config) (admit X hook slug ip hs body)"
  "state_io_rel (spawns config) (get_holder slug)"
  "state_io_rel (spawns config) (count_waiting slug)"
  by (intro spawns_calm calm_intros)+

lemma spawns_run_task: "state_io_rel (spawns config) (run_task X t)"
  by (cases t) (simp_all add: run_triggered_def run_approved_def run_replay_def run_dequeued_def Let_def spawns_intros)

lemma spawns_concurrency [spawns_intros]:
  "state_io_rel (spawns config) (pass_concurrency X hook slug ip i new)"
proof -
  have q: "state_io_rel (spawns config) (enqueue_or_reject X slug i c new)" for c
    unfolding enqueue_or_reject_def by (intro spawns_intros)
  have "state_io_rel (spawns config) (concurrency_evaluate X slug i c new)" for c
    unfolding concurrency_evaluate_def
    by (intro spawns_intros) (auto split: concurrency_mode.splits simp: spawns.keeps_return q)
  note e = this
  show ?thesis unfolding pass_concurrency_def
    by (intro spawns_intros e) (auto split: barrier_outcome.splits intro!: spawns_intros)
qed

lemma spawns_approval [spawns_intros]:
  "state_io_rel (spawns config) (pass_approval X hook slug ip i path payload)"
  unfolding pass_approval_def by (intro spawns_intros)

lemma spawns_finish [spawns_intros]:
  "state_io_rel (spawns config) m \<Longrightarrow> (\<And>a. state_io_rel (spawns config) (f a)) \<Longrightarrow>
     state_io_rel (spawns config) (finish_with m f)"
  unfolding finish_with_def by (intro spawns_intros)

lemma spawns_start:
  "hook \<in> set (cf_hooks config) \<Longrightarrow> hk_slug hook = slug \<Longrightarrow>
     state_io_rel (spawns config) (start_execution X config hook slug ip payload)"
  unfolding start_execution_def fire_def Let_def
  by (intro spawns_intros spawns_task) (simp add: trigger_context_def)

lemma spawns_state: "state_io_rel (spawns config) m \<Longrightarrow> spawns config w (snd (run_state m w))"
  by (simp add: state_io_rel_def)

lemma spawns_trigger: "spawns (w_config w) w (snd (run_state (trigger_hook X peer slug hs body) w))"
proof (cases "find_hook (\<lambda>h. hk_slug h = slug \<and> hk_enabled h) (w_config w)")
  case None
  then show ?thesis by (simp add: trigger_hook_def spawns_def)
next
  case (Some hook)
  note h = find_hook_SomeD [OF Some]
  have "state_io_rel (spawns (w_config w)) (finish_with (admit X hook slug (extract_source_ip hs peer) hs body)
      (\<lambda>payload. start_execution X (w_config w) hook slug (extract_source_ip hs peer) payload))"
    by (intro spawns_intros spawns_start) (use h in auto)
  from spawns_state [OF this, of w] Some show ?thesis by (simp add: trigger_hook_def)
qed

lemma spawns_approve: "spawns (w_config w) w (snd (run_state (approve_execution X who i) w))"
proof -
  obtain r w1 where 1: "run_state (mark_approved X i who) w = (r, w1)" by fastforce
  have c: "w_config w1 = w_config w" "w_tasks w1 = w_tasks w"
    using calm_state [OF calm_transitions(5) 1] by (simp_all add: calm_def)
  have "w_tasks (snd (run_state (approved_to_pending j) w1)) = w_tasks w" for j
    using calm_transitions(8) [of j] c by (simp add: state_io_rel_def calm_def)
  then show ?thesis
    using 1 c by (cases r) (auto simp: approve_execution_def spawns_def case_prod_unfold trigger_context_def
        split: option.splits dest!: find_hook_SomeD)
qed

lemma spawns_others:
  "state_io_rel (spawns config) (replay_execution X i)"
  "state_io_rel (spawns config) (reject_execution X who i)"
  "state_io_rel (spawns config) (expire_pending_approvals X)"
  "state_io_rel (spawns config) (sweep_counters X)"
  "state_io_rel (spawns config) (recover_barriers X)"
proof -
  have h: "state_io_rel (spawns config) (complete_if_holder X slug hook i)" for slug hook i
    unfolding complete_if_holder_def by (intro spawns_intros)
  have m: "state_io_rel (spawns config) (mark_rejected X i who)" "state_io_rel (spawns config) (mark_expired X i)"
      "state_io_rel (spawns config) (expire_for_execution i)" for i
    unfolding expire_for_execution_def by (intro spawns_calm calm_intros spawns_intros)+
  show "state_io_rel (spawns config) (replay_execution X i)"
    unfolding replay_execution_def Let_def by (intro spawns_intros spawns_task) simp
  show "state_io_rel (spawns config) (reject_execution X who i)"
    unfolding reject_execution_def by (intro spawns_intros h m)
  have o: "state_io_rel (spawns config) (expire_one X hook i)" for hook i
    unfolding expire_one_def by (intro spawns_intros h m)
  have r: "state_io_rel (spawns config) (expire_rows X hook eids)" for hook eids
    by (induction eids) (simp_all add: spawns_intros o)
  have e: "state_io_rel (spawns config) (expire_hook X now hook)" for now hook
    unfolding expire_hook_def overdue_approvals_def by (intro spawns_intros r)
  have "state_io_rel (spawns config) (expire_hooks X now hooks)" for now hooks
    by (induction hooks) (simp_all add: spawns_intros e)
  then show "state_io_rel (spawns config) (expire_pending_approvals X)"
    unfolding expire_pending_approvals_def by (intro spawns_intros)
  show "state_io_rel (spawns config) (sweep_counters X)"
    by (rule spawns_calm [OF calm_sweep_counters])
  show "state_io_rel (spawns config) (recover_barriers X)"
    unfolding recover_barriers_def
    by (intro spawns_intros spawns.keeps_sql) (auto simp: spawns_def)
qed

section \<open>Every task of a controlled hook claims the lock\<close>

definition claiming :: "world \<Rightarrow> bool" where
  "claiming w \<longleftrightarrow> (\<forall>t \<in> set (w_tasks w). \<not> is_replay t \<and> controlled (task_slug t) w
     \<longrightarrow> lock_claim t = Some (task_slug t, task_execution t))"

lemma fitting_claims:
  assumes "orderly w" and "task_fits (w_config w) t" and "\<not> is_replay t" and "controlled (task_slug t) w"
  shows "lock_claim t = Some (task_slug t, task_execution t)"
  using assms controlled_hook [OF assms(1)] by (cases t) auto

lemma claiming_spawns:
  assumes "orderly w'" and "claiming w" and "spawns (w_config w) w w'" and "w_config w' = w_config w"
  shows "claiming w'"
proof -
  have "controlled slug w' = controlled slug w" for slug by (simp add: controlled_def assms(4))
  with assms fitting_claims [OF assms(1)] show ?thesis by (auto simp: claiming_def spawns_def)
qed

lemma history_config: "state_io_rel history_kept m \<Longrightarrow> w_config (snd (run_state m w)) = w_config w"
  using history_state [of m w] by (simp add: history_kept_def)

lemma step_spawns:
  assumes "server_step X w w'"
  shows "spawns (w_config w) w w' \<and> w_config w' = w_config w \<or> w_tasks w' = w_tasks w"
  using assms
proof cases
  case (Request peer slug hs body)
  then show ?thesis
    using spawns_trigger history_state [OF history_trigger] by (simp add: history_kept_def)
next
  case (Task k)
  have "spawns (w_config w) (without_task k w) w'"
    unfolding Task(1) by (rule spawns_state [OF spawns_run_task])
  moreover have "set (w_tasks (without_task k w)) \<subseteq> set (w_tasks w)"
    by (auto simp: without_task_def dest: in_set_takeD in_set_dropD)
  moreover have "w_config w' = w_config (without_task k w)"
    unfolding Task(1) using history_state [OF history_run_task] by (simp add: history_kept_def)
  ultimately show ?thesis by (auto simp: spawns_def without_task_def)
next
  case (Replay i)
  moreover have "w_config w' = w_config w" unfolding Replay by (intro history_config history_intros)
  ultimately show ?thesis using spawns_state [OF spawns_others(1)] by simp
next
  case (Approve who i)
  moreover have "w_config w' = w_config w" unfolding Approve by (intro history_config history_intros)
  ultimately show ?thesis using spawns_approve by simp
next
  case (Reject who i)
  moreover have "w_config w' = w_config w" unfolding Reject by (intro history_config history_intros)
  ultimately show ?thesis using spawns_state [OF spawns_others(2)] by simp
next
  case ApprovalSweep
  moreover have "w_config w' = w_config w" unfolding ApprovalSweep by (intro history_config history_intros)
  ultimately show ?thesis using spawns_state [OF spawns_others(3)] by simp
next
  case CounterSweep
  moreover have "w_config w' = w_config w" unfolding CounterSweep by (intro history_config history_intros)
  ultimately show ?thesis using spawns_state [OF spawns_others(4)] by simp
next
  case Restart
  have "spawns (w_config w) (w\<lparr>w_tasks := []\<rparr>) w'" unfolding Restart by (intro spawns_state spawns_others)
  moreover have "w_config w' = w_config (w\<lparr>w_tasks := []\<rparr>)"
    unfolding Restart by (intro history_config history_intros)
  ultimately show ?thesis by (simp add: spawns_def)
qed (auto simp: same_tables_def)

lemma step_claiming:
  assumes "settled_step X w w'" and "orderly w" and "claiming w"
  shows "claiming w'"
proof -
  have "server_step X w w'" using assms(1) by (simp add: settled_step_def)
  from step_spawns [OF this] show ?thesis
  proof (elim disjE conjE)
    assume "spawns (w_config w) w w'" "w_config w' = w_config w"
    then show ?thesis by (intro claiming_spawns [OF step_orderly [OF assms(1,2)] assms(3)])
  next
    assume same: "w_tasks w' = w_tasks w"
    have "controlled (task_slug t) w' = controlled (task_slug t) w" if "t \<in> set (w_tasks w)" "\<not> is_replay t" for t
      using assms(1) that by (auto simp: settled_step_def list_all_iff runs_def)
    with assms(3) show ?thesis by (auto simp: claiming_def same)
  qed
qed

lemma claims_runs:
  assumes "\<forall>t \<in> set ts. \<not> is_replay t \<and> task_slug t = slug \<longrightarrow> lock_claim t = Some (slug, task_execution t)"
  shows "claims_in slug ts = map task_execution (filter (runs slug) ts)"
  using assms
proof (induction ts)
  case (Cons t ts)
  show ?case
  proof (cases "runs slug t")
    case True
    with Cons show ?thesis by (simp add: claims_in_def List.map_filter_def runs_def)
  next
    case False
    then have "\<forall>i. lock_claim t \<noteq> Some (slug, i)" using lock_claim_runs by blast
    with Cons False show ?thesis by (auto simp: claims_in_def List.map_filter_def)
  qed
qed (simp add: claims_in_def List.map_filter_def)

section \<open>Mutual exclusion\<close>

text \<open>C1: Concurrency control holds for the whole server, replays apart. Start from an orderly world
  without tasks (a server that starts on an empty database is one). After any number of requests,
  tasks, replays, approvals, rejections, sweeps, reloads and restarts in any order, each a whole
  step, and whatever statements fail: at most one task runs an execution of a hook with
  concurrency control, not counting replays; it was spawned for the execution that holds the
  hook's lock, and while it is there no execution of the hook is waiting for its approval; and an
  execution that is waiting for its approval holds the lock. A reload may bring any valid
  configuration, as long as it switches concurrency control on or off only for hooks that are idle.
  Replays take no part: they are started whether the lock is free or not.\<close>

theorem server_mutual_exclusion:
  assumes "(settled_step X)\<^sup>*\<^sup>* w w'" and "orderly w" and "w_tasks w = []" and "controlled slug w'"
  shows "length (filter (runs slug) (w_tasks w')) \<le> 1
     \<and> (\<forall>t \<in> set (filter (runs slug) (w_tasks w')).
          holder_of slug w' = Some (task_execution t) \<and> undecided slug w' = {})
     \<and> (\<forall>i \<in> undecided slug w'. holder_of slug w' = Some i)"
proof -
  have "claiming w" using assms(3) by (simp add: claiming_def)
  with assms(1,2) have "orderly w' \<and> claiming w'"
    by (induction rule: rtranclp_induct) (blast intro: step_orderly step_claiming)+
  moreover define ts where "ts = filter (runs slug) (w_tasks w')"
  ultimately have "turn slug w'" "claims slug w' = map task_execution ts"
    using claims_runs assms(4) by (auto simp: orderly_def claiming_def)
  with assms(4) show ?thesis unfolding ts_def [symmetric] by (auto simp: turn_def map_eq_Cons_conv)
qed

lemma orderly_sample: "orderly sample_world"
  by (simp add: orderly_def exec_ids_distinct_def queue_refers_def turn_def undecided_def
      sample_world_def sample_config_def sample_hook_def sample_queue_hook_def)

text \<open>Two requests to the hook with a queue: the first gets the right to run.\<close>

theorem server_mutual_exclusion_witness:
  "length (filter (runs ''q'') (w_tasks (snd (run_state (trigger_hook sample_external ''10.0.0.1'' ''q'' (bearer ''tok'') [])
     (snd (run_state (trigger_hook sample_external ''10.0.0.1'' ''q'' (bearer ''tok'') []) sample_world)))))) \<le> 1"
  (is "length (filter _ (w_tasks ?w2)) \<le> 1")
proof -
  have step: "settled_step sample_external w (snd (run_state (trigger_hook sample_external ip slug hs b) w))"
    and config: "w_config (snd (run_state (trigger_hook sample_external ip slug hs b) w)) = w_config w" for w ip slug hs b
    using history_state [OF history_trigger] by (auto simp: history_past intro: settled_same_config Request)
  have "(settled_step sample_external)\<^sup>*\<^sup>* sample_world ?w2"
    using step by (meson r_into_rtranclp rtranclp_trans)
  moreover have "controlled ''q'' ?w2"
    by (simp add: controlled_def config) (simp add: sample_world_def sample_config_def sample_queue_hook_def)
  moreover have "w_tasks sample_world = []" by (simp add: sample_world_def)
  ultimately show ?thesis using server_mutual_exclusion [OF _ orderly_sample] by blast
qed

text \<open>Replays run beside. Whoever holds the lock of the hook and whatever runs already: when no
  statement fails, a replay of an execution is started, and the lock is not asked for.\<close>

theorem replay_runs_beside:
  assumes "no_faults w" and "e \<in> set (w_execs w)" and "exec_ids_distinct w"
    and "find_hook (\<lambda>h. hk_slug h = ex_hook_slug e) (w_config w) = Some hook"
    and "run_state (replay_execution X (ex_id e)) w = (Inr answer, w')"
  shows "\<exists>ctx rc. w_tasks w' = w_tasks w @ [RunReplay ctx rc hook] \<and> xc_hook_slug ctx = ex_hook_slug e
    \<and> w_locks w' = w_locks w"
proof -
  have nf: "\<not> w_fault w n" for n using assms(1) by blast
  have "find_row ex_id (ex_id e) (w_execs w) = Some e"
    using assms(2,3) by (simp add: find_row_Some_iff exec_ids_distinct_def)
  with assms(4,5) show ?thesis
    by (auto simp: replay_execution_def execution_get_by_id_def execution_create_def insert_execution_def
        trigger_context_def nf Let_def split: if_splits option.splits sum.splits)
qed

end
