(* ===== verification/Hook_Table.thy ===== *)
theory Hook_Table
  imports Hook_Form
begin

text \<open>
  Reading the table of a hook back: how the types of \<open>src/config.rs\<close> and \<open>src/payload.rs\<close> with their
  serde attributes read a TOML table, and that a table written by \<open>apply_hook_fields\<close> or
  \<open>build_hook_table\<close> (\<open>src/config_writer.rs\<close>) reads as the form's settings.

  A reader follows the attributes of its type: a key without a default is required, an \<open>Option\<close> or a
  key with a default may be missing, the words of an enum are its variants as renamed, a tagged enum
  is chosen by its tag, and keys that the type does not have are ignored. Durations are humantime's.
\<close>

section \<open>Keys and values\<close>

definition required :: "string \<Rightarrow> (toml \<Rightarrow> 'a option) \<Rightarrow> toml_table \<Rightarrow> 'a option" where
  "required k read t = Option.bind (map_of t k) read"

definition defaulted :: "string \<Rightarrow> 'a \<Rightarrow> (toml \<Rightarrow> 'a option) \<Rightarrow> toml_table \<Rightarrow> 'a option" where
  "defaulted k d read t = (case map_of t k of None \<Rightarrow> Some d | Some v \<Rightarrow> read v)"

definition optional :: "string \<Rightarrow> (toml \<Rightarrow> 'a option) \<Rightarrow> toml_table \<Rightarrow> 'a option option" where
  "optional k read t = defaulted k None (\<lambda>v. map_option Some (read v)) t"

fun as_bool :: "toml \<Rightarrow> bool option" where
  "as_bool (TBoolean b) = Some b"
| "as_bool _ = None"

definition as_unsigned :: "nat \<Rightarrow> toml \<Rightarrow> nat option" where
  "as_unsigned mx v = (case v of TInteger i \<Rightarrow> if 0 \<le> i \<and> i \<le> int mx then Some (nat i) else None | _ \<Rightarrow> None)"

fun as_table :: "toml \<Rightarrow> toml_table option" where
  "as_table (TTable t) = Some t"
| "as_table (TInline t) = Some t"
| "as_table _ = None"

definition as_list :: "(toml \<Rightarrow> 'a option) \<Rightarrow> toml \<Rightarrow> 'a list option" where
  "as_list read v =
     (case v of
        TArray vs \<Rightarrow> those (map read vs)
      | TTables ts \<Rightarrow> those (map (\<lambda>t. read (TTable t)) ts)
      | _ \<Rightarrow> None)"

definition as_word :: "(string \<times> 'a) list \<Rightarrow> toml \<Rightarrow> 'a option" where
  "as_word words v = Option.bind (as_str v) (map_of words)"

definition as_duration :: "external \<Rightarrow> toml \<Rightarrow> duration option" where
  "as_duration X v = Option.bind (as_str v) (\<lambda>s. case humantime_parse X s of Inr d \<Rightarrow> Some d | Inl _ \<Rightarrow> None)"

definition as_struct :: "(toml_table \<Rightarrow> 'a option) \<Rightarrow> toml \<Rightarrow> 'a option" where
  "as_struct read v = Option.bind (as_table v) read"

definition as_string_map :: "toml \<Rightarrow> string_map option" where
  "as_string_map v =
     Option.bind (as_table v) (\<lambda>t. those (map (\<lambda>(k, v). map_option (Pair k) (as_str v)) t))"

section \<open>The types\<close>

definition backoff_words :: "(string \<times> backoff_strategy) list" where
  "backoff_words = [(''none'', BackoffNone), (''linear'', BackoffLinear), (''exponential'', BackoffExponential)]"

definition read_retry_config :: "external \<Rightarrow> toml_table \<Rightarrow> retry_config option" where
  "read_retry_config X t = do {
     c \<leftarrow> defaulted ''count'' 0 (as_unsigned u32_max) t;
     b \<leftarrow> defaulted ''backoff'' BackoffExponential (as_word backoff_words) t;
     i \<leftarrow> defaulted ''initial_delay'' (from_secs 1) (as_duration X) t;
     m \<leftarrow> defaulted ''max_delay'' (from_secs 60) (as_duration X) t;
     Some \<lparr>rc_count = c, rc_backoff = b, rc_initial_delay = i, rc_max_delay = m\<rparr> }"

definition method_words :: "(string \<times> http_method) list" where
  "method_words = [(''GET'', Get), (''POST'', Post), (''PUT'', Put), (''PATCH'', Patch), (''DELETE'', Delete)]"

definition read_executor :: "toml_table \<Rightarrow> executor_config option" where
  "read_executor t = do {
     kind \<leftarrow> required ''type'' as_str t;
     if kind = ''shell'' then map_option Shell (required ''command'' as_str t)
     else if kind = ''script'' then map_option Script (required ''path'' as_str t)
     else if kind = ''javascript'' then map_option JavaScript (required ''path'' as_str t)
     else if kind = ''python'' then map_option Python (required ''path'' as_str t)
     else if kind = ''http'' then do {
       m \<leftarrow> required ''method'' (as_word method_words) t;
       u \<leftarrow> required ''url'' as_str t;
       h \<leftarrow> defaulted ''headers'' [] as_string_map t;
       b \<leftarrow> optional ''body'' as_str t;
       f \<leftarrow> defaulted ''follow_redirects'' True as_bool t;
       Some (Http m u h b f) }
     else None }"

definition algorithm_words :: "(string \<times> hmac_algorithm) list" where
  "algorithm_words = [(''sha256'', Sha256)]"

definition read_auth_config :: "toml_table \<Rightarrow> hook_auth_config option" where
  "read_auth_config t = do {
     mode \<leftarrow> required ''mode'' as_str t;
     if mode = ''none'' then Some AuthNone
     else if mode = ''bearer'' then map_option Bearer (required ''token'' as_str t)
     else if mode = ''hmac'' then do {
       h \<leftarrow> required ''header'' as_str t;
       a \<leftarrow> required ''algorithm'' (as_word algorithm_words) t;
       s \<leftarrow> required ''secret'' as_str t;
       Some (Hmac h a s) }
     else None }"

definition operator_words :: "(string \<times> filter_operator) list" where
  "operator_words = [(''equals'', OpEquals), (''not_equals'', OpNotEquals), (''contains'', OpContains),
     (''regex'', OpRegex), (''exists'', OpExists), (''gt'', OpGt), (''lt'', OpLt), (''gte'', OpGte), (''lte'', OpLte)]"

definition read_filter :: "toml_table \<Rightarrow> payload_filter option" where
  "read_filter t = do {
     f \<leftarrow> required ''field'' as_str t;
     p \<leftarrow> required ''operator'' (as_word operator_words) t;
     v \<leftarrow> optional ''value'' as_str t;
     Some \<lparr>fl_field = f, fl_operator = p, fl_value = v\<rparr> }"

definition read_window :: "toml_table \<Rightarrow> time_window option" where
  "read_window t = do {
     ds \<leftarrow> required ''days'' (as_list as_str) t;
     s \<leftarrow> required ''start_time'' as_str t;
     e \<leftarrow> required ''end_time'' as_str t;
     Some \<lparr>tw_days = ds, tw_start_time = s, tw_end_time = e\<rparr> }"

definition read_trigger_rate_limit :: "external \<Rightarrow> toml_table \<Rightarrow> trigger_rate_limit option" where
  "read_trigger_rate_limit X t = do {
     n \<leftarrow> required ''max_requests'' (as_unsigned u64_max) t;
     d \<leftarrow> required ''window'' (as_duration X) t;
     Some \<lparr>tr_max_requests = n, tr_window = d\<rparr> }"

definition read_trigger_rules :: "external \<Rightarrow> toml_table \<Rightarrow> trigger_rules option" where
  "read_trigger_rules X t = do {
     fs \<leftarrow> optional ''payload_filters'' (as_list (as_struct read_filter)) t;
     ws \<leftarrow> optional ''time_windows'' (as_list (as_struct read_window)) t;
     c \<leftarrow> optional ''cooldown'' (as_duration X) t;
     l \<leftarrow> optional ''rate_limit'' (as_struct (read_trigger_rate_limit X)) t;
     Some \<lparr>ru_payload_filters = fs, ru_time_windows = ws, ru_cooldown = c, ru_rate_limit = l\<rparr> }"

definition type_words :: "(string \<times> field_type) list" where
  "type_words = [(''string'', FtString), (''number'', FtNumber), (''boolean'', FtBoolean),
     (''object'', FtObject), (''array'', FtArray)]"

definition read_payload_field :: "toml_table \<Rightarrow> payload_field option" where
  "read_payload_field t = do {
     n \<leftarrow> required ''name'' as_str t;
     f \<leftarrow> required ''type'' (as_word type_words) t;
     r \<leftarrow> defaulted ''required'' False as_bool t;
     Some \<lparr>pf_name = n, pf_field_type = f, pf_required = r\<rparr> }"

definition read_payload_schema :: "toml_table \<Rightarrow> payload_schema option" where
  "read_payload_schema t =
     map_option (\<lambda>fs. \<lparr>ps_fields = fs\<rparr>) (required ''fields'' (as_list (as_struct read_payload_field)) t)"

definition read_rate_limit_config :: "toml_table \<Rightarrow> rate_limit_config option" where
  "read_rate_limit_config t =
     map_option (\<lambda>n. \<lparr>rl_max_per_minute = n\<rparr>) (required ''max_per_minute'' (as_unsigned u32_max) t)"

definition mode_words :: "(string \<times> concurrency_mode) list" where
  "mode_words = [(''mutex'', Mutex), (''queue'', Queue)]"

definition read_concurrency :: "toml_table \<Rightarrow> concurrency_config option" where
  "read_concurrency t = do {
     m \<leftarrow> required ''mode'' (as_word mode_words) t;
     n \<leftarrow> defaulted ''queue_depth'' 10 (as_unsigned u32_max) t;
     Some \<lparr>cc_mode = m, cc_queue_depth = n\<rparr> }"

definition read_approval :: "external \<Rightarrow> toml_table \<Rightarrow> approval_config option" where
  "read_approval X t = do {
     r \<leftarrow> required ''required'' as_bool t;
     d \<leftarrow> optional ''timeout'' (as_duration X) t;
     Some \<lparr>ac_required = r, ac_timeout = d\<rparr> }"

definition outcome_words :: "(string \<times> notify_outcome) list" where
  "outcome_words = [(''success'', NotifySuccess), (''failure'', NotifyFailure), (''timeout'', NotifyTimeout)]"

definition read_notification :: "toml_table \<Rightarrow> notification_config option" where
  "read_notification t = do {
     u \<leftarrow> required ''url'' as_str t;
     os \<leftarrow> defaulted ''on'' [NotifyFailure, NotifyTimeout] (as_list (as_word outcome_words)) t;
     h \<leftarrow> defaulted ''headers'' [] as_string_map t;
     b \<leftarrow> required ''body'' as_str t;
     Some \<lparr>nc_url = u, nc_on = os, nc_headers = h, nc_body = b\<rparr> }"

definition read_hook :: "external \<Rightarrow> toml_table \<Rightarrow> hook_config option" where
  "read_hook X t = do {
     name \<leftarrow> required ''name'' as_str t;
     slug \<leftarrow> required ''slug'' as_str t;
     description \<leftarrow> defaulted ''description'' [] as_str t;
     enabled \<leftarrow> defaulted ''enabled'' True as_bool t;
     auth \<leftarrow> optional ''auth'' (as_struct read_auth_config) t;
     executor \<leftarrow> required ''executor'' (as_struct read_executor) t;
     env \<leftarrow> defaulted ''env'' [] as_string_map t;
     cwd \<leftarrow> optional ''cwd'' as_str t;
     timeout \<leftarrow> optional ''timeout'' (as_duration X) t;
     retries \<leftarrow> optional ''retries'' (as_struct (read_retry_config X)) t;
     rate_limit \<leftarrow> optional ''rate_limit'' (as_struct read_rate_limit_config) t;
     payload \<leftarrow> optional ''payload'' (as_struct read_payload_schema) t;
     rules \<leftarrow> optional ''trigger_rules'' (as_struct (read_trigger_rules X)) t;
     concurrency \<leftarrow> optional ''concurrency'' (as_struct read_concurrency) t;
     approval \<leftarrow> optional ''approval'' (as_struct (read_approval X)) t;
     notification \<leftarrow> optional ''notification'' (as_struct read_notification) t;
     Some \<lparr>hk_name = name, hk_slug = slug, hk_description = description, hk_enabled = enabled,
       hk_auth = auth, hk_executor = executor, hk_env = env, hk_cwd = cwd, hk_timeout = timeout,
       hk_retries = retries, hk_rate_limit = rate_limit, hk_payload = payload, hk_trigger_rules = rules,
       hk_concurrency = concurrency, hk_approval = approval, hk_notification = notification\<rparr> }"

section \<open>What a form stands for\<close>

definition saved_executor :: "executor_config \<Rightarrow> executor_config" where
  "saved_executor e = (case e of Http m u h b f \<Rightarrow> Http m u (sort_key fst h) b f | _ \<Rightarrow> e)"

definition saved_retries :: "retry_form_data option \<Rightarrow> retry_config option" where
  "saved_retries retries = Option.bind retries (\<lambda>r.
     if rf_count r = 0 then None
     else Some \<lparr>rc_count = rf_count r, rc_backoff = rf_backoff r,
                rc_initial_delay = kept_duration (rf_initial_delay r),
                rc_max_delay = kept_duration (rf_max_delay r)\<rparr>)"

definition saved_rate_limit :: "trigger_rate_limit \<Rightarrow> trigger_rate_limit" where
  "saved_rate_limit l = \<lparr>tr_max_requests = min (tr_max_requests l) i64_max, tr_window = kept_duration (tr_window l)\<rparr>"

definition saved_rules :: "trigger_rules option \<Rightarrow> trigger_rules option" where
  "saved_rules rules = Option.bind rules (\<lambda>r.
     trigger_rules_of (some_list (ru_payload_filters r)) (some_list (ru_time_windows r))
       (map_option kept_duration (ru_cooldown r)) (map_option saved_rate_limit (ru_rate_limit r)))"

definition saved_hook :: "hook_form_data \<Rightarrow> hook_config \<Rightarrow> hook_config" where
  "saved_hook data hook = hook\<lparr>hk_name := hd_name data, hk_description := hd_description data,
     hk_enabled := hd_enabled data,
     hk_auth := (if hd_auth data = Some AuthNone then None else hd_auth data),
     hk_executor := saved_executor (hd_executor data), hk_env := sort_key fst (hd_env data),
     hk_cwd := (if hd_cwd data = Some [] then None else hd_cwd data),
     hk_timeout := map_option kept_duration (hd_timeout data),
     hk_retries := saved_retries (hd_retries data),
     hk_payload := Option.bind (hd_payload data) (\<lambda>s. if ps_fields s = [] then None else Some s),
     hk_trigger_rules := saved_rules (hd_trigger_rules data)\<rparr>"

definition fresh_hook :: "string \<Rightarrow> hook_config" where
  "fresh_hook slug = \<lparr>hk_name = [], hk_slug = slug, hk_description = [], hk_enabled = True, hk_auth = None,
     hk_executor = Shell [], hk_env = [], hk_cwd = None, hk_timeout = None, hk_retries = None,
     hk_rate_limit = None, hk_payload = None, hk_trigger_rules = None, hk_concurrency = None,
     hk_approval = None, hk_notification = None\<rparr>"

definition form_data_ok :: "hook_form_data \<Rightarrow> bool" where
  "form_data_ok data \<longleftrightarrow>
     distinct (map fst (hd_env data))
     \<and> (case hd_executor data of Http m u h b f \<Rightarrow> distinct (map fst h) | _ \<Rightarrow> True)
     \<and> pred_option (\<lambda>d. d \<le> duration_max) (hd_timeout data)
     \<and> pred_option (\<lambda>r. rf_count r \<le> u32_max \<and> rf_initial_delay r \<le> duration_max
          \<and> rf_max_delay r \<le> duration_max) (hd_retries data)
     \<and> pred_option (\<lambda>r. pred_option (\<lambda>d. d \<le> duration_max) (ru_cooldown r)
          \<and> pred_option (\<lambda>l. tr_window l \<le> duration_max) (ru_rate_limit r)) (hd_trigger_rules data)"

section \<open>Each item reads back\<close>

lemma reader_simps [simp]:
  "as_struct readt (TTable t) = readt t" "as_struct readt (TInline t) = readt t"
  "as_list readv (TArray vs) = those (map readv vs)"
  "as_word words (TString s) = map_of words s"
  by (simp_all add: as_struct_def as_list_def as_word_def)

lemma those_Some: "(\<And>x. x \<in> set xs \<Longrightarrow> f x = Some (g x)) \<Longrightarrow> those (map f xs) = Some (map g xs)"
  by (induction xs) simp_all

lemma words_read [simp]:
  "map_of backoff_words (backoff_str b) = Some b" "map_of method_words (method_str m) = Some m"
  "map_of operator_words (filter_operator_str p) = Some p" "map_of type_words (field_type_str f) = Some f"
  "map_of algorithm_words ''sha256'' = Some Sha256"
  subgoal by (cases b; simp add: backoff_words_def)
  subgoal by (cases m; simp add: method_words_def)
  subgoal by (cases p; simp add: operator_words_def)
  subgoal by (cases f; simp add: type_words_def)
  by (simp add: algorithm_words_def)

lemma duration_reads:
  "humantime_units X \<Longrightarrow> d \<le> duration_max \<Longrightarrow> as_duration X (TString (format_duration d)) = Some (kept_duration d)"
  by (simp add: as_duration_def format_duration_parse)

lemma tbl_insert_fresh: "k \<notin> fst ` set t \<Longrightarrow> tbl_insert k v t = t @ [(k, v)]"
  by (induction k v t rule: tbl_insert.induct) auto

lemma insert_all: "distinct ks \<Longrightarrow> fst ` set t \<inter> set ks = {} \<Longrightarrow>
  foldl (\<lambda>t k. tbl_insert k (f k) t) t ks = t @ map (\<lambda>k. (k, f k)) ks"
proof (induction ks arbitrary: t)
  case (Cons k ks)
  then show ?case using Cons.IH [of "t @ [(k, f k)]"] by (auto simp: tbl_insert_fresh)
qed simp

lemma string_map_reads:
  assumes "distinct (map fst m)"
  shows "as_string_map (TTable (string_map_table m)) = Some (sort_key fst m)"
proof -
  have keys: "sort (map fst m) = map fst (sort_key fst m)"
    by (rule properties_for_sort) simp_all
  have "(fst p, TString (the (map_of m (fst p)))) = (fst p, TString (snd p))" if "p \<in> set (sort_key fst m)" for p
    using that map_of_is_SomeI [OF assms, of "fst p" "snd p"] by simp
  then have entries: "map (\<lambda>k. (k, TString (the (map_of m k)))) (map fst (sort_key fst m))
      = map (\<lambda>p. (fst p, TString (snd p))) (sort_key fst m)" by (simp add: comp_def)
  have "string_map_table m = map (\<lambda>k. (k, TString (the (map_of m k)))) (sort (map fst m))"
    using assms insert_all [of "sort (map fst m)" "[]" "\<lambda>k. TString (the (map_of m k))"]
    by (simp add: string_map_table_def Let_def)
  then have "string_map_table m = map (\<lambda>p. (fst p, TString (snd p))) (sort_key fst m)"
    unfolding keys entries .
  then show ?thesis
    using those_Some [of "sort_key fst m" "\<lambda>p. Some p" "\<lambda>p. p"]
    by (simp add: as_string_map_def comp_def)
qed

lemmas reads = required_def optional_def defaulted_def

lemma executor_reads:
  "(case e of Http m u h b f \<Rightarrow> distinct (map fst h) | _ \<Rightarrow> True) \<Longrightarrow>
     read_executor (executor_table e) = Some (saved_executor e)"
  by (cases e) (auto simp: read_executor_def executor_table_def saved_executor_def reads string_map_reads
      split: option.splits)

lemma auth_reads:
  "(case auth_item a of None \<Rightarrow> Some None | Some v \<Rightarrow> map_option Some (as_struct read_auth_config v))
     = Some (if a = Some AuthNone then None else a)"
  by (auto simp: auth_item_def read_auth_config_def reads split: option.splits hook_auth_config.splits hmac_algorithm.splits)

lemma retries_read:
  "humantime_units X \<Longrightarrow> pred_option (\<lambda>r. rf_count r \<le> u32_max \<and> rf_initial_delay r \<le> duration_max
          \<and> rf_max_delay r \<le> duration_max) rs \<Longrightarrow>
   (case retries_item rs of None \<Rightarrow> Some None | Some v \<Rightarrow> map_option Some (as_struct (read_retry_config X) v))
     = Some (saved_retries rs)"
  by (cases rs) (simp_all add: retries_item_def read_retry_config_def saved_retries_def reads duration_reads
      as_unsigned_def)

lemma fields_read:
  "those (map (as_struct read_payload_field \<circ> (\<lambda>f. TInline [(''name'', TString (pf_name f)),
      (''type'', TString (field_type_str (pf_field_type f))), (''required'', TBoolean (pf_required f))])) fs) = Some fs"
  using those_Some [of fs _ "\<lambda>f. f"] by (simp add: read_payload_field_def reads comp_def)

lemma payload_reads:
  "(case payload_item p of None \<Rightarrow> Some None | Some v \<Rightarrow> map_option Some (as_struct read_payload_schema v))
     = Some (Option.bind p (\<lambda>s. if ps_fields s = [] then None else Some s))"
  by (cases p) (simp_all add: payload_item_def read_payload_schema_def reads fields_read)

lemma filters_read: "those (map (as_struct read_filter \<circ> filter_item) fs) = Some fs"
  using those_Some [of fs _ "\<lambda>f. f"] by (simp add: read_filter_def filter_item_def reads comp_def split: option.split)

lemma windows_read: "those (map (as_struct read_window \<circ> window_item) ws) = Some ws"
proof -
  have "those (map (as_str \<circ> TString) ds) = Some ds" for ds using those_Some [of ds _ "\<lambda>d. d"] by simp
  then show ?thesis
    using those_Some [of ws _ "\<lambda>w. w"] by (simp add: read_window_def window_item_def reads comp_def)
qed

lemma rate_reads:
  "humantime_units X \<Longrightarrow> tr_window l \<le> duration_max \<Longrightarrow>
     read_trigger_rate_limit X [(''max_requests'', TInteger (int (min (tr_max_requests l) i64_max))),
       (''window'', TString (format_duration (tr_window l)))] = Some (saved_rate_limit l)"
  by (simp add: read_trigger_rate_limit_def reads duration_reads as_unsigned_def saved_rate_limit_def
      i64_max_def u64_max_def)

lemma rules_read:
  assumes "humantime_units X" and "pred_option (\<lambda>d. d \<le> duration_max) (ru_cooldown r)"
    and "pred_option (\<lambda>l. tr_window l \<le> duration_max) (ru_rate_limit r)"
  shows "read_trigger_rules X (rules_table r) = Some
     \<lparr>ru_payload_filters = some_list (ru_payload_filters r), ru_time_windows = some_list (ru_time_windows r),
      ru_cooldown = map_option kept_duration (ru_cooldown r),
      ru_rate_limit = map_option saved_rate_limit (ru_rate_limit r)\<rparr>"
proof -
  let ?t = "rules_table r"
  have "optional ''payload_filters'' (as_list (as_struct read_filter)) ?t = Some (some_list (ru_payload_filters r))"
    by (auto simp: rules_table_def reads some_list_def filters_read split: option.split)
  moreover have "optional ''time_windows'' (as_list (as_struct read_window)) ?t = Some (some_list (ru_time_windows r))"
    by (auto simp: rules_table_def reads some_list_def windows_read split: option.split)
  moreover have "optional ''cooldown'' (as_duration X) ?t = Some (map_option kept_duration (ru_cooldown r))"
    using assms(1,2) by (auto simp: rules_table_def reads duration_reads split: option.split)
  moreover have "optional ''rate_limit'' (as_struct (read_trigger_rate_limit X)) ?t
      = Some (map_option saved_rate_limit (ru_rate_limit r))"
    using assms(1,3) by (auto simp: rules_table_def reads rate_reads split: option.split)
  ultimately show ?thesis by (simp add: read_trigger_rules_def)
qed

section \<open>The whole table\<close>

text \<open>A table that has the items of the form, whatever its other keys are.\<close>

definition form_items :: "hook_form_data \<Rightarrow> toml_table \<Rightarrow> bool" where
  "form_items data t \<longleftrightarrow> (\<forall>k \<in> set form_keys. map_of t k = map_of (apply_hook_fields data []) k)"

lemma form_items_apply: "form_items data (apply_hook_fields data t)"
  by (simp add: form_items_def apply_hook_fields_lookup form_keys_def)

lemma form_items_build: "form_items data (build_hook_table data)"
  by (simp add: form_items_def build_hook_table_def Let_def form_keys_def)

lemma form_items_read:
  assumes "humantime_units X" and "form_data_ok data" and "form_items data t"
  shows "required ''name'' as_str t = Some (hd_name data)"
    and "defaulted ''description'' [] as_str t = Some (hd_description data)"
    and "defaulted ''enabled'' True as_bool t = Some (hd_enabled data)"
    and "optional ''auth'' (as_struct read_auth_config) t
           = Some (if hd_auth data = Some AuthNone then None else hd_auth data)"
    and "required ''executor'' (as_struct read_executor) t = Some (saved_executor (hd_executor data))"
    and "defaulted ''env'' [] as_string_map t = Some (sort_key fst (hd_env data))"
    and "optional ''cwd'' as_str t = Some (if hd_cwd data = Some [] then None else hd_cwd data)"
    and "optional ''timeout'' (as_duration X) t = Some (map_option kept_duration (hd_timeout data))"
    and "optional ''retries'' (as_struct (read_retry_config X)) t = Some (saved_retries (hd_retries data))"
    and "optional ''payload'' (as_struct read_payload_schema) t
           = Some (Option.bind (hd_payload data) (\<lambda>s. if ps_fields s = [] then None else Some s))"
    and "optional ''trigger_rules'' (as_struct (read_trigger_rules X)) t = Some (saved_rules (hd_trigger_rules data))"
proof -
  have items: "map_of t k = map_of (apply_hook_fields data []) k" if "k \<in> set form_keys" for k
    using assms(3) that by (simp add: form_items_def)
  note item = items [unfolded form_keys_def] apply_hook_fields_lookup
  show "required ''name'' as_str t = Some (hd_name data)"
    "defaulted ''description'' [] as_str t = Some (hd_description data)"
    "defaulted ''enabled'' True as_bool t = Some (hd_enabled data)"
    by (simp_all add: reads item)
  show "optional ''auth'' (as_struct read_auth_config) t
      = Some (if hd_auth data = Some AuthNone then None else hd_auth data)"
    using auth_reads [of "hd_auth data"] by (simp add: reads item)
  show "required ''executor'' (as_struct read_executor) t = Some (saved_executor (hd_executor data))"
    using assms(2) by (simp add: reads item executor_reads form_data_ok_def)
  show "defaulted ''env'' [] as_string_map t = Some (sort_key fst (hd_env data))"
    using assms(2) by (simp add: reads item string_map_reads form_data_ok_def)
  show "optional ''cwd'' as_str t = Some (if hd_cwd data = Some [] then None else hd_cwd data)"
    by (simp add: reads item split: option.split)
  show "optional ''timeout'' (as_duration X) t = Some (map_option kept_duration (hd_timeout data))"
    using assms(1,2)
    by (cases "hd_timeout data") (simp_all add: reads item duration_reads form_data_ok_def)
  show "optional ''retries'' (as_struct (read_retry_config X)) t = Some (saved_retries (hd_retries data))"
    using retries_read [OF assms(1), of "hd_retries data"] assms(2) by (simp add: reads item form_data_ok_def)
  show "optional ''payload'' (as_struct read_payload_schema) t
      = Some (Option.bind (hd_payload data) (\<lambda>s. if ps_fields s = [] then None else Some s))"
    using payload_reads [of "hd_payload data"] by (simp add: reads item)
  have "has_trigger_rules (Some r) = (saved_rules (Some r) \<noteq> None)" for r
    by (auto simp: has_trigger_rules_def has_some_def saved_rules_def trigger_rules_of_def some_list_def
        split: option.splits)
  moreover have "saved_rules (Some r) \<noteq> None \<Longrightarrow> saved_rules (Some r) = Some
     \<lparr>ru_payload_filters = some_list (ru_payload_filters r), ru_time_windows = some_list (ru_time_windows r),
      ru_cooldown = map_option kept_duration (ru_cooldown r),
      ru_rate_limit = map_option saved_rate_limit (ru_rate_limit r)\<rparr>" for r
    by (simp add: saved_rules_def trigger_rules_of_def split: if_splits)
  ultimately show "optional ''trigger_rules'' (as_struct (read_trigger_rules X)) t = Some (saved_rules (hd_trigger_rules data))"
    using assms(2) rules_read [OF assms(1)]
    by (cases "hd_trigger_rules data")
      (auto simp: reads item form_data_ok_def has_trigger_rules_def [of None] saved_rules_def [of None])
qed

lemma hook_reads:
  assumes "humantime_units X" and "form_data_ok data" and "form_items data t"
  shows "read_hook X t = do {
     slug \<leftarrow> required ''slug'' as_str t;
     rate_limit \<leftarrow> optional ''rate_limit'' (as_struct read_rate_limit_config) t;
     concurrency \<leftarrow> optional ''concurrency'' (as_struct read_concurrency) t;
     approval \<leftarrow> optional ''approval'' (as_struct (read_approval X)) t;
     notification \<leftarrow> optional ''notification'' (as_struct read_notification) t;
     Some (saved_hook data ((fresh_hook slug)\<lparr>hk_rate_limit := rate_limit, hk_concurrency := concurrency,
       hk_approval := approval, hk_notification := notification\<rparr>)) }"
  unfolding read_hook_def form_items_read [OF assms] bind.bind_lunit
  by (simp add: saved_hook_def fresh_hook_def)


section \<open>A hook that is saved\<close>

definition rich_data :: hook_form_data where
  "rich_data = (shown_data rich_hook)\<lparr>hd_auth := Some (Bearer ''tok''), hd_executor := Shell ''make''\<rparr>"

lemma rich_data_ok: "form_data_ok rich_data"
  by (simp add: form_data_ok_def rich_data_def shown_data_def rich_hook_def sort_key_def shown_retries_def
      shown_rules_def trigger_rules_of_def some_list_def kept_rate_limit_def kept_duration_def from_secs_def
      from_millis_def as_secs_def subsec_millis_def nanos_per_sec_def duration_max_def u32_max_def)


end
