(* ===== verification/Spec2Isabelle.thy ===== *)
theory Spec2Isabelle
  imports Payload Webhook_Auth Attempt_Model Progress Log_Stream Races Script_Pages Hook_Detail Pages
    Commands Router Reconfigure Mutual_Exclusion Hook_Table
begin

text \<open>
  Sendword turns HTTP requests into commands: a hook has a slug, a way to authenticate requests,
  rules that filter them, barriers that serialize them or wait for an approval, and an executor
  (shell command, script, or HTTP request) that is retried and reported. This library models the
  server's own logic (\<open>src/src\<close>) and proves what makes it correct.

  \<^bold>\<open>The model.\<close> Pure functions are HOL functions. Everything else is a state monad \<open>'a io\<close> over
  one record \<open>world\<close> (theory \<open>World\<close>): the five tables of the database, the loaded configuration,
  the log files, the spawned tasks that have not run, what was started and sent, and streams that
  decide everything the program does not: the clock, new identifiers, which statement or file
  operation fails, how processes end and what servers answer. A statement of sqlx is one step
  that may fail, unchanged, by the stream \<open>w_fault\<close>; so every error branch of the code is a branch
  of the model, and a theorem without an assumption on \<open>w_fault\<close> holds under any failures. Errors
  are values: \<open>'a db_result\<close> for \<open>DbResult\<close>, an option for what the code drops. Functions of crates
  (serde_json's numbers, HMAC, regular expressions, date parsing, canonical paths, child
  environments) are the fields of the record \<open>external\<close>, an argument \<open>X\<close> of every definition
  that needs one.

  \<^bold>\<open>Theories and code.\<close>
  \<^item> \<open>Sw_Prelude\<close>: Rust's strings, decimal numbers, durations, list functions.
  \<^item> \<open>Payload\<close> (\<open>payload.rs\<close>), \<open>Config\<close> (\<open>config.rs\<close>: types, defaults, \<open>validate\<close>),
    \<open>Webhook_Auth\<close> (\<open>webhook_auth.rs\<close>), \<open>Interpolation\<close> (\<open>interpolation.rs\<close>),
    \<open>Masking\<close> (\<open>masking.rs\<close> and the \<open>LogStreamMasker\<close> of \<open>routes/executions.rs\<close>): pure code.
  \<^item> \<open>Models\<close>, \<open>World\<close>: the rows and the state; \<open>World_Rules\<close>: how statements run, and the locale
    \<open>world_relation\<close> for what an operation keeps; \<open>History\<close>: its instance for the audit trail.
  \<^item> \<open>Execution_Model\<close>, \<open>Attempt_Model\<close> (\<open>models/\<close>): queries and transitions. The locale
    \<open>guarded_transition\<close> is the interface of a status change that only one caller can win.
  \<^item> \<open>Trigger_Rules\<close> (\<open>trigger_rules/\<close>): filters, windows, cooldown, rate limit.
  \<^item> \<open>Barrier_Store\<close> (\<open>barriers/execution_lock.rs\<close>, \<open>execution_queue.rs\<close>) with the locales \<open>mutex\<close>
    and \<open>fifo\<close>, interpreted on the two tables; \<open>Barriers\<close> (\<open>mod.rs\<close>, \<open>concurrency.rs\<close>,
    \<open>approval.rs\<close>).
  \<^item> \<open>Executor\<close> (\<open>executor/\<close>), \<open>Retry\<close> (\<open>retry.rs\<close>), \<open>Notification\<close> (\<open>notification.rs\<close>). The locales
    \<open>execution_relation\<close> and \<open>retry_relation\<close> say once what every executor and the retry loop keep.
  \<^item> \<open>Trigger_Hook\<close>, \<open>Trigger_Audit\<close> (\<open>routes/hooks.rs\<close>): the handler of \<open>POST /hook/{slug}\<close> in its
    stages, and what a request leaves behind.
  \<^item> \<open>Execution_Routes\<close> (\<open>routes/executions.rs\<close>): replay, approval, rejection;
    \<open>Tasks\<close> (\<open>tasks.rs\<close>): the sweeps.
  \<^item> \<open>Log_Stream\<close> (\<open>routes/executions.rs\<close>): tailing the log files and the stream of events.
  \<^item> \<open>Config_Writer\<close> (\<open>config_writer.rs\<close>, \<open>AppConfig::load_from\<close>): the configuration file as a TOML
    document, its changes and their atomic write; \<open>Hook_Form\<close> (\<open>routes/hooks.rs\<close>,
    \<open>views/hook_form.rs\<close>): the form of a hook, what its texts parse to and what the edit page shows,
    with the locale \<open>line_format\<close> for the three formats of one item per line; \<open>Hook_Table\<close>: how the
    types of \<open>config.rs\<close> with their serde attributes read the table of a hook, and that a saved table
    reads as it was saved; \<open>Hook_Admin\<close>: the handlers that create, update and delete hooks and
    reload the configuration (\<open>server.rs\<close>).
  \<^item> \<open>File_System\<close>: paths, links, files and the calls of the operating system on them; \<open>Scripts\<close>
    (\<open>routes/scripts.rs\<close>): the script manager's check of names and its changes; \<open>Script_Pages\<close> (with
    \<open>views/scripts.rs\<close>): its pages, and the script manager as a store of named scripts.
  \<^item> \<open>Backup\<close> (\<open>backup/mod.rs\<close>, \<open>backup/s3.rs\<close>): backups and retention over a bucket, which is a
    parameter with the laws \<open>s3_behaves\<close>: its answers carry an HTTP status, which the code does not
    look at, so an upload or a deletion that the server refuses counts as done; \<open>Api\<close>
    (\<open>routes/api.rs\<close>): importing a configuration and the endpoints for backups.
  \<^item> \<open>Url\<close>: percent-coding, a parameter with the laws \<open>url_laws\<close>, and the reading of a query string.
  \<^item> \<open>Activity\<close> (\<open>routes/hooks.rs\<close>, \<open>views/hook_activity.rs\<close>, \<open>views.rs\<close>): the paged lists;
    \<open>Hook_Detail\<close> (\<open>routes/hooks.rs\<close>, \<open>views/hook_detail.rs\<close>) and \<open>Pages\<close>
    (\<open>routes/executions.rs\<close>, \<open>routes/dashboard.rs\<close> and their views): what the pages show;
    \<open>Session\<close> (\<open>extractors.rs\<close>, \<open>routes/settings.rs\<close>): sessions and accounts over the allowthem
    library, which is a parameter with the laws \<open>accounts_behave\<close>; \<open>Assets\<close> (\<open>server.rs\<close>); \<open>Router\<close>
    (the \<open>router\<close> functions): the table of routes, with the extractors that each handler has as its
    arguments; axum's matching is a parameter with the laws \<open>router_behaves\<close>.
  \<^item> \<open>Startup\<close> (\<open>main.rs\<close>, \<open>email.rs\<close>, \<open>backup/scheduler.rs\<close>): what runs before the first request,
    the other commands, and scheduled backups; \<open>Commands\<close>: exporting, accounts on the terminal and
    the health check.
  \<^item> \<open>Server\<close>: the transition relation of the whole server, one handler, task, sweep, reload of the
    configuration or restart per step, in any order; \<open>Exclusion\<close>, \<open>Mutual_Exclusion\<close>: concurrency
    control of the whole server; \<open>Progress\<close>: queues drain in order; \<open>Races\<close>: an
    interleaving of a request and a completion; \<open>Reconfigure\<close>: the handlers that change the
    configuration are steps of the server, and what a reload can break.

  \<^bold>\<open>What is shown.\<close> Component properties: authentication accepts exactly the configured
  credential; validation of payloads and configurations is exactly its declarative reading; a
  shell-escaped value is one literal word of a POSIX shell; neither a masked text nor a log
  stream cut into arbitrary chunks contains a secret; filters, windows, cooldown and rate limit
  decide what their documentation says; the two barrier tables implement a lock and a queue; a
  run takes exactly its own row from pending to a terminal status; the retry loop runs at most
  \<open>count\<close> more times with the documented delays, without overflow; an approval is decided once.
  The live log stream sends the whole log, masked, and ends. A loaded configuration is well formed;
  a change of the configuration file is atomic, is reported as a success exactly when it was
  written, touches the one hook and loads as it was saved; an edit page that is submitted unchanged
  gives the hook back, up to what the form cannot show. The script manager changes nothing outside
  its directory, two cases apart, and is a map from names to contents. Backups that the server
  accepts round trip, and retention deletes what the policy says and nothing else. Pages show no
  secret; the links of a paged list lead through every row once when no dates are chosen; accounts
  change only with a session; without one only hooks can be triggered; and a server that starts has
  a valid configuration and a recovered database.
  System properties: every request is audited and leaves the database consistent; the past is
  never rewritten; at most one task runs an execution of a hook with concurrency control, under
  every order of steps and all failures, replays apart, which the code starts without the lock; and
  without failures a queue is emptied in order by the tasks it spawns. Where the repository's
  documents say otherwise than the code, the model follows the code: a queued request is answered
  with 200 and not 202, a mutex refuses and does not queue, an approval does not ask for the lock,
  and recovery neither expires approvals nor resumes queue entries.

  \<^bold>\<open>Bounds.\<close> The retry loop is a recursion on the attempts that are left, which is the code's
  \<open>for\<close> over \<open>1..=count\<close>; the streaming masker's loop carries its own termination proof. No fuel is
  used. The two polling loops of the log stream are partial functions, and that they return is a
  theorem. \<open>u32\<close>, \<open>u64\<close> and \<open>i64\<close> bounds are written out where the code saturates, wraps or casts.

  \<^bold>\<open>Atomicity.\<close> A step of \<open>Server\<close> runs a handler from beginning to end, or restarts the server:
  the spawned tasks are gone and the barriers are recovered. A process killed inside a handler has
  run a part of its statements, which is the handler with the others failing and a restart after
  it. Interleavings inside a handler are covered where they matter for single statements (the
  transitions and the lock are single guarded statements), and one interleaving inside the sweep
  that breaks the exclusion is shown in \<open>Exclusion\<close>, another, between a request and a completion,
  in \<open>Races\<close>.

  \<^bold>\<open>Not modelled.\<close> HTML pages and templates, TLS and the web framework, e-mail, the S3 protocol and tar
  archives (parameters of \<open>Backup\<close>), the storage of user accounts (the allowthem library, a
  parameter of \<open>Session\<close>), figment's merging of files and environment and the TOML grammar
  (parameters of \<open>Config_Writer\<close>; the reading of a hook's table is in \<open>Hook_Table\<close>), and the
  migrations' SQL beyond the tables' meaning.
\<close>

end
